(* ===== verification/Prelude.thy ===== *)
theory Prelude
  imports Main "HOL-Library.Multiset" "HOL-Library.List_Lexorder" "HOL-Library.Char_ord"
begin

text \<open>
  Shared vocabulary of the development: the key that an SQL \<open>ORDER BY\<close> sorts by, tables
  as lists of rows with the row operations that the SQL statements of the program use
  (\<open>UPDATE ... WHERE\<close>, \<open>DELETE ... WHERE\<close>, \<open>SELECT ... WHERE ... ORDER BY ... LIMIT\<close>),
  and the lemmas about them that every repository theory uses.  The collections
  \<open>table_simps\<close> and \<open>exec_simps\<close> are declared here and filled where the facts are proved.
\<close>

named_theorems table_simps \<open>facts about tables as lists of rows\<close>
named_theorems exec_simps \<open>equations that run a program of the Go layer\<close>
named_theorems wp_simps \<open>weakest preconditions of the Go layer\<close>

section \<open>Sort keys\<close>

text \<open>
  The program orders rows by at most three columns: two timestamps and one text column.
  \<open>OrderBy a b c\<close> is compared column by column, as \<open>ORDER BY a, b, c\<close> does; a statement with
  fewer columns leaves the others constant.
\<close>

datatype order_by = OrderBy int int string

instantiation order_by :: linorder
begin

fun less_eq_order_by :: "order_by \<Rightarrow> order_by \<Rightarrow> bool" where
  "less_eq_order_by (OrderBy a b c) (OrderBy a' b' c') =
     (a < a' \<or> a = a' \<and> (b < b' \<or> b = b' \<and> c \<le> c'))"

definition less_order_by :: "order_by \<Rightarrow> order_by \<Rightarrow> bool" where
  "less_order_by x y = (x \<le> y \<and> \<not> y \<le> x)"

instance
proof
  fix x y z :: order_by
  show "(x < y) = (x \<le> y \<and> \<not> y \<le> x)"
    by (simp add: less_order_by_def)
  show "x \<le> x"
    by (cases x) simp
  show "x \<le> y \<Longrightarrow> y \<le> z \<Longrightarrow> x \<le> z"
    by (cases x; cases y; cases z) auto
  show "x \<le> y \<Longrightarrow> y \<le> x \<Longrightarrow> x = y"
    by (cases x; cases y) auto
  show "x \<le> y \<or> y \<le> x"
    by (cases x; cases y) auto
qed

end

section \<open>Tables\<close>

text \<open>A table is the list of its rows, in physical order.\<close>

definition affected :: "('r \<Rightarrow> bool) \<Rightarrow> 'r list \<Rightarrow> nat" where
  "affected p rows = length (filter p rows)"

definition update_where :: "('r \<Rightarrow> bool) \<Rightarrow> ('r \<Rightarrow> 'r) \<Rightarrow> 'r list \<Rightarrow> 'r list" where
  "update_where p f rows = map (\<lambda>r. if p r then f r else r) rows"

definition delete_where :: "('r \<Rightarrow> bool) \<Rightarrow> 'r list \<Rightarrow> 'r list" where
  "delete_where p rows = filter (\<lambda>r. \<not> p r) rows"

definition select_where :: "('r \<Rightarrow> order_by) \<Rightarrow> nat \<Rightarrow> ('r \<Rightarrow> bool) \<Rightarrow> 'r list \<Rightarrow> 'r list" where
  "select_where k n p rows = take n (sort_key k (filter p rows))"

definition find_row :: "('r \<Rightarrow> bool) \<Rightarrow> 'r list \<Rightarrow> 'r option" where
  "find_row p rows = List.find p rows"

definition keyed :: "('r \<Rightarrow> 'k) \<Rightarrow> 'r list \<Rightarrow> bool" where
  "keyed k rows = distinct (map k rows)"

definition lookup_row :: "('r \<Rightarrow> 'k) \<Rightarrow> 'r list \<Rightarrow> 'k \<Rightarrow> 'r option" where
  "lookup_row k rows x = List.find (\<lambda>r. k r = x) rows"

subsection \<open>Updates\<close>

lemma update_where_Nil [simp]: "update_where p f [] = []"
  by (simp add: update_where_def)

lemma update_where_Cons [simp]:
  "update_where p f (r # rows) = (if p r then f r else r) # update_where p f rows"
  by (simp add: update_where_def)

lemma length_update_where [simp]: "length (update_where p f rows) = length rows"
  by (simp add: update_where_def)

lemma set_update_where [table_simps]:
  "set (update_where p f rows) = (\<lambda>r. if p r then f r else r) ` set rows"
  by (simp add: update_where_def)

lemma update_where_append [simp]:
  "update_where p f (xs @ ys) = update_where p f xs @ update_where p f ys"
  by (simp add: update_where_def)

lemma map_update_where_same:
  assumes "\<And>r. k (f r) = k r"
  shows "map k (update_where p f rows) = map k rows"
  by (induction rows) (auto simp: assms)

lemma keyed_update_where [table_simps]:
  assumes "\<And>r. k (f r) = k r" and "keyed k rows"
  shows "keyed k (update_where p f rows)"
  using assms by (simp add: keyed_def map_update_where_same)

lemma update_where_none: "\<forall>r \<in> set rows. \<not> p r \<Longrightarrow> update_where p f rows = rows"
  by (induction rows) auto

lemma affected_pos: "(0 < affected p rows) = (\<exists>r \<in> set rows. p r)"
  by (auto simp: affected_def filter_empty_conv)

lemma affected_zero: "(affected p rows = 0) = (\<forall>r \<in> set rows. \<not> p r)"
  by (auto simp: affected_def filter_empty_conv)

subsection \<open>Deletions\<close>

lemma set_delete_where [table_simps]: "set (delete_where p rows) = {r \<in> set rows. \<not> p r}"
  by (simp add: delete_where_def)

lemma keyed_delete_where [table_simps]: "keyed k rows \<Longrightarrow> keyed k (delete_where p rows)"
  by (induction rows) (auto simp: keyed_def delete_where_def)

subsection \<open>Insertions and lookups\<close>

lemma keyed_Nil [simp]: "keyed k []"
  by (simp add: keyed_def)

lemma keyed_append_row [table_simps]:
  "keyed k (rows @ [r]) = (keyed k rows \<and> (\<forall>x \<in> set rows. k x \<noteq> k r))"
  by (auto simp: keyed_def image_iff)

lemma keyedD: "keyed k rows \<Longrightarrow> x \<in> set rows \<Longrightarrow> y \<in> set rows \<Longrightarrow> k x = k y \<Longrightarrow> x = y"
  by (induction rows) (auto simp: keyed_def rev_image_eqI)

lemma find_row_SomeD: "find_row p rows = Some r \<Longrightarrow> r \<in> set rows \<and> p r"
  by (auto simp: find_row_def find_Some_iff)

lemma find_row_None: "(find_row p rows = None) = (\<forall>r \<in> set rows. \<not> p r)"
  by (auto simp: find_row_def find_None_iff)

lemma lookup_row_SomeD: "lookup_row k rows x = Some r \<Longrightarrow> r \<in> set rows \<and> k r = x"
  by (auto simp: lookup_row_def find_Some_iff)

lemma lookup_row_None: "(lookup_row k rows x = None) = (\<forall>r \<in> set rows. k r \<noteq> x)"
  by (auto simp: lookup_row_def find_None_iff)

lemma lookup_row_Nil [simp]: "lookup_row k [] x = None"
  by (simp add: lookup_row_def)

lemma lookup_row_Cons [simp]:
  "lookup_row k (r # rows) x = (if k r = x then Some r else lookup_row k rows x)"
  by (simp add: lookup_row_def)

lemma lookup_row_keyed: "keyed k rows \<Longrightarrow> r \<in> set rows \<Longrightarrow> lookup_row k rows (k r) = Some r"
  by (induction rows) (auto simp: keyed_def)

lemma lookup_row_append [table_simps]:
  "lookup_row k (rows @ [r]) x =
     (case lookup_row k rows x of None \<Rightarrow> (if k r = x then Some r else None) | Some y \<Rightarrow> Some y)"
  by (induction rows) auto

lemma lookup_row_update [table_simps]:
  assumes "\<And>r. k (f r) = k r"
  shows "lookup_row k (update_where (\<lambda>r. k r = x) f rows) y =
           (if y = x then map_option f (lookup_row k rows y) else lookup_row k rows y)"
  by (induction rows) (auto simp: assms)

lemma lookup_row_update_where:
  assumes "\<And>r. k (f r) = k r"
  shows "lookup_row k (update_where p f rows) x = map_option (\<lambda>r. if p r then f r else r) (lookup_row k rows x)"
  by (induction rows) (auto simp: assms)

lemma lookup_row_delete [table_simps]:
  "lookup_row k (delete_where (\<lambda>r. k r = x) rows) y =
     (if y = x then None else lookup_row k rows y)"
  by (induction rows) (auto simp: delete_where_def)

text \<open>Counting rows: an update or a deletion by key changes the count by at most one.\<close>

lemma affected_Nil [simp]: "affected p [] = 0"
  by (simp add: affected_def)

lemma affected_Cons [simp]: "affected p (r # rows) = of_bool (p r) + affected p rows"
  by (simp add: affected_def)

lemma affected_append [simp]: "affected p (xs @ ys) = affected p xs + affected p ys"
  by (simp add: affected_def)

lemma affected_update_same:
  "(\<And>r. r \<in> set rows \<Longrightarrow> q r \<Longrightarrow> p (f r) = p r) \<Longrightarrow> affected p (update_where q f rows) = affected p rows"
  by (induction rows) auto

lemma affected_update_key:
  "keyed k rows \<Longrightarrow> r \<in> set rows \<Longrightarrow>
   affected p (update_where (\<lambda>x. k x = k r) f rows) + of_bool (p r) = affected p rows + of_bool (p (f r))"
proof (induction rows)
  case (Cons x rows)
  then show ?case
  proof (cases "x = r")
    case True
    with Cons.prems have "\<forall>y \<in> set rows. k y \<noteq> k r" by (auto simp: keyed_def rev_image_eqI)
    then show ?thesis using True by (simp add: update_where_none)
  next
    case False
    with Cons.prems have "k x \<noteq> k r" "r \<in> set rows" "keyed k rows" by (auto simp: keyed_def rev_image_eqI)
    then show ?thesis using Cons.IH by simp
  qed
qed simp

lemma delete_where_none: "\<forall>r \<in> set rows. \<not> p r \<Longrightarrow> delete_where p rows = rows"
  by (simp add: delete_where_def)

lemma delete_where_Cons: "delete_where p (x # rows) = (if p x then delete_where p rows else x # delete_where p rows)"
  by (simp add: delete_where_def)

lemma affected_delete_same:
  "(\<And>r. r \<in> set rows \<Longrightarrow> q r \<Longrightarrow> \<not> p r) \<Longrightarrow> affected p (delete_where q rows) = affected p rows"
  by (induction rows) (auto simp: delete_where_def)

lemma affected_delete_key:
  "keyed k rows \<Longrightarrow> r \<in> set rows \<Longrightarrow>
   affected p (delete_where (\<lambda>x. k x = k r) rows) + of_bool (p r) = affected p rows"
proof (induction rows)
  case (Cons x rows)
  show ?case
  proof (cases "x = r")
    case True
    with Cons.prems have "\<forall>y \<in> set rows. k y \<noteq> k r" by (auto simp: keyed_def rev_image_eqI)
    then show ?thesis using True by (simp add: delete_where_Cons delete_where_none)
  next
    case False
    with Cons.prems have "k x \<noteq> k r" "r \<in> set rows" "keyed k rows" by (auto simp: keyed_def rev_image_eqI)
    then show ?thesis using Cons.IH by (simp add: delete_where_Cons)
  qed
qed simp

subsection \<open>Ordered selections\<close>

lemma select_where_subset: "set (select_where k n p rows) \<subseteq> {r \<in> set rows. p r}"
  by (auto simp: select_where_def dest: in_set_takeD)

lemma select_whereD: "r \<in> set (select_where k n p rows) \<Longrightarrow> r \<in> set rows \<and> p r"
  using select_where_subset by fastforce

lemma length_select_where: "length (select_where k n p rows) = min n (affected p rows)"
  by (simp add: select_where_def affected_def min.commute)

lemma sorted_select_where: "sorted (map k (select_where k n p rows))"
  by (simp add: select_where_def sorted_wrt_take flip: take_map)

lemma keyed_select_where: "keyed f rows \<Longrightarrow> keyed f (select_where k n p rows)"
proof -
  assume "keyed f rows"
  then have "keyed f (filter p rows)"
    by (induction rows) (auto simp: keyed_def)
  then have "distinct (map f (sort_key k (filter p rows)))"
    by (auto simp: keyed_def distinct_map)
  then show ?thesis
    by (simp add: keyed_def select_where_def flip: take_map)
qed

text \<open>When the limit is no smaller than the number of matching rows, every one is selected.\<close>

lemma select_where_all:
  "affected p rows \<le> n \<Longrightarrow> set (select_where k n p rows) = {r \<in> set rows. p r}"
  by (auto simp: select_where_def affected_def)

end
