(* ===== verification/Go_Error.thy ===== *)
theory Go_Error
  imports Prelude
begin

text \<open>
  Go error values.  A nil error is \<open>None\<close>, any other one a \<open>goerr\<close>: the package-level
  sentinels, which Go compares by identity; errors of code that is not in the repository or
  built by \<open>errors.New\<close>/\<open>fmt.Errorf\<close> without \<open>%w\<close>, with their text; \<open>fmt.Errorf\<close> values
  with \<open>%w\<close>, as the literal pieces of the format and the wrapped errors; and the
  \<open>classifiedError\<close> of \<open>pkg/kafka/errors.go\<close>.  \<open>errors_is\<close> follows the standard library's
  \<open>errors.Is\<close>, which asks the \<open>Is\<close> method and then walks the \<open>Unwrap\<close> tree.
\<close>

datatype sentinel =
    ErrNonRetryable
  | ErrRetryable
  | ErrAlreadySubscribed
  | ErrRepoNotFound
  | ErrGitHubRateLimit
  | ErrGitHubUnavailable
  | ErrTokenNotFound
  | ErrConfirmationUnavailable
  | ErrGitHubNotFound
  | ErrGitHubAPILimit

fun sentinel_text :: "sentinel \<Rightarrow> string" where
  "sentinel_text ErrNonRetryable = ''non-retryable consumer error''"
| "sentinel_text ErrRetryable = ''retryable consumer error''"
| "sentinel_text ErrAlreadySubscribed = ''already subscribed''"
| "sentinel_text ErrRepoNotFound = ''repository not found''"
| "sentinel_text ErrGitHubRateLimit = ''github rate limit exceeded''"
| "sentinel_text ErrGitHubUnavailable = ''github unavailable''"
| "sentinel_text ErrTokenNotFound = ''token not found''"
| "sentinel_text ErrConfirmationUnavailable = ''confirmation notification unavailable''"
| "sentinel_text ErrGitHubNotFound = ''repository not found''"
| "sentinel_text ErrGitHubAPILimit = ''github rate limit exceeded''"

datatype goerr =
    Sentinel sentinel
  | Plain string
  | Wrapf "string list" "goerr list"
  | Classified sentinel goerr

section \<open>Inspecting an error\<close>

fun errors_is :: "goerr \<Rightarrow> sentinel \<Rightarrow> bool" where
  "errors_is (Sentinel s) t = (s = t)"
| "errors_is (Plain msg) t = False"
| "errors_is (Wrapf parts es) t = list_ex (\<lambda>e. errors_is e t) es"
| "errors_is (Classified kind e) t = (t = kind \<or> errors_is e t)"

text \<open>The text of a wrapped error interleaves the literal pieces and the wrapped texts.\<close>

fun interleave :: "string list \<Rightarrow> string list \<Rightarrow> string" where
  "interleave [] ts = concat ts"
| "interleave (p # ps) [] = concat (p # ps)"
| "interleave (p # ps) (t # ts) = p @ t @ interleave ps ts"

fun err_text :: "goerr \<Rightarrow> string" where
  "err_text (Sentinel s) = sentinel_text s"
| "err_text (Plain msg) = msg"
| "err_text (Wrapf parts es) = interleave parts (map err_text es)"
| "err_text (Classified kind e) = err_text e"

text \<open>\<open>fmt.Errorf("prefix: %w", err)\<close>, the form most of the code uses.\<close>

definition errorf :: "string \<Rightarrow> goerr \<Rightarrow> goerr" where
  "errorf pre e = Wrapf [pre, ''''] [e]"

lemma errors_is_errorf [simp]: "errors_is (errorf pre e) t = errors_is e t"
  by (simp add: errorf_def)

lemma err_text_errorf [simp]: "err_text (errorf pre e) = pre @ err_text e"
  by (simp add: errorf_def)

section \<open>Quoting, as the verb q of fmt\<close>

definition hex_digit :: "nat \<Rightarrow> char" where
  "hex_digit n = ''0123456789abcdef'' ! (n mod 16)"

definition quote_char :: "char \<Rightarrow> string" where
  "quote_char c =
     (let n = of_char c :: nat in
      if n = 34 then [CHR 0x5C, CHR 0x22]
      else if n = 92 then [CHR 0x5C, CHR 0x5C]
      else if n = 7 then [CHR 0x5C, CHR ''a'']
      else if n = 8 then [CHR 0x5C, CHR ''b'']
      else if n = 12 then [CHR 0x5C, CHR ''f'']
      else if n = 10 then [CHR 0x5C, CHR ''n'']
      else if n = 13 then [CHR 0x5C, CHR ''r'']
      else if n = 9 then [CHR 0x5C, CHR ''t'']
      else if n = 11 then [CHR 0x5C, CHR ''v'']
      else if n < 32 \<or> n = 127 then [CHR 0x5C, CHR ''x'', hex_digit (n div 16), hex_digit n]
      else [c])"

definition go_quote :: "string \<Rightarrow> string" where
  "go_quote s = [CHR 0x22] @ concat (map quote_char s) @ [CHR 0x22]"

section \<open>Classified errors of the consumer\<close>

definition classify :: "goerr option \<Rightarrow> sentinel \<Rightarrow> goerr option" where
  "classify err kind = (case err of None \<Rightarrow> None | Some e \<Rightarrow> Some (Classified kind e))"

definition NonRetryable :: "goerr option \<Rightarrow> goerr option" where
  "NonRetryable err = classify err ErrNonRetryable"

definition Retryable :: "goerr option \<Rightarrow> goerr option" where
  "Retryable err = classify err ErrRetryable"

text \<open>
  The code calls \<open>NonRetryable\<close> on errors it has just built; \<open>non_retryable\<close> is its value
  there.
\<close>

abbreviation non_retryable :: "goerr \<Rightarrow> goerr" where
  "non_retryable e \<equiv> Classified ErrNonRetryable e"

lemma NonRetryable_Some [simp]: "NonRetryable (Some e) = Some (non_retryable e)"
  by (simp add: NonRetryable_def classify_def)

text \<open>
  Classification is visible to errors.Is through any number of wrapping layers, it hides
  none of the sentinels of the error it classifies, and it leaves the message unchanged; a nil
  error stays nil, so a successful handler is never classified.
\<close>

theorem classification_transparent:
  "NonRetryable None = None \<and> Retryable None = None \<and>
   (\<forall>e. \<exists>c. NonRetryable (Some e) = Some c \<and> err_text c = err_text e \<and>
        (\<forall>t. errors_is c t = (t = ErrNonRetryable \<or> errors_is e t)) \<and>
        (\<forall>pre t. errors_is (errorf pre c) t = errors_is c t)) \<and>
   (\<forall>e. \<exists>c. Retryable (Some e) = Some c \<and> err_text c = err_text e \<and>
        errors_is c ErrNonRetryable = errors_is e ErrNonRetryable)"
  by (simp add: NonRetryable_def Retryable_def classify_def)

end
