(* ===== verification/Go_World.thy ===== *)
theory Go_World
  imports Go_Error
begin

text \<open>
  The execution layer of the model.  A Go function that talks to PostgreSQL, Kafka, SMTP or
  HTTP is a function of the world in which it runs: the committed database of its service,
  the open transaction, the outcomes that the next external calls will have, the two clocks,
  the supply of fresh UUIDs, and the trace of effects other systems can see.

  Every external call takes the next outcome of the script: it succeeds, it fails without
  effect, or its reply is lost, so that the effect has happened and the caller still gets an
  error.  Errors of drivers and of the network are texts; the code compares them with none of
  its sentinels.  A theorem that quantifies over all worlds therefore covers every pattern of
  failures.  An exhausted script means that every further call succeeds.

  PostgreSQL's transactions follow its documentation: statements of an open transaction work
  on its own copy, an error aborts the transaction, every later statement of an aborted
  transaction fails, and committing an aborted transaction rolls it back with an error.
\<close>

datatype call_outcome = Succeed | Fail string | Lost string

datatype 'v sent_effect =
    Published string string 'v
  | Committed string int int
  | Emailed string string
  | Posted string "string option" 'v
  | Called string "string list"

text \<open>
  A message on Kafka is \<open>Published topic key value\<close>; \<open>Committed\<close> is a consumer offset commit;
  \<open>Emailed\<close> has the recipient and the text given to the mail server, \<open>Posted\<close> the URL, the
  request identifier and the body of an HTTP request, \<open>Called\<close> the method and the fields of a
  gRPC request.
\<close>

record 'db txn =
  tx_db :: 'db
  tx_aborted :: bool

record ('db, 'v) world =
  w_db :: 'db
  w_tx :: "'db txn option"
  w_script :: "call_outcome list"
  w_app_now :: int
  w_pg_now :: int
  w_uuids :: nat
  w_trace :: "'v sent_effect list"

type_synonym ('db, 'v, 'a) go = "('db, 'v) world \<Rightarrow> (goerr + 'a) \<times> ('db, 'v) world"

section \<open>Control\<close>

definition ret :: "'a \<Rightarrow> ('db, 'v, 'a) go" where
  "ret a = (\<lambda>w. (Inr a, w))"

definition raise :: "goerr \<Rightarrow> ('db, 'v, 'a) go" where
  "raise e = (\<lambda>w. (Inl e, w))"

definition bnd :: "('db, 'v, 'a) go \<Rightarrow> ('a \<Rightarrow> ('db, 'v, 'b) go) \<Rightarrow> ('db, 'v, 'b) go" where
  "bnd m f = (\<lambda>w. case m w of (Inl e, w') \<Rightarrow> (Inl e, w') | (Inr a, w') \<Rightarrow> f a w')"

text \<open>\<open>if err != nil { return fmt.Errorf("...: %w", err) }\<close>\<close>

definition annot :: "(goerr \<Rightarrow> goerr) \<Rightarrow> ('db, 'v, 'a) go \<Rightarrow> ('db, 'v, 'a) go" where
  "annot g m = (\<lambda>w. case m w of (Inl e, w') \<Rightarrow> (Inl (g e), w') | (Inr a, w') \<Rightarrow> (Inr a, w'))"

text \<open>A call whose error the code inspects instead of returning it.\<close>

definition attempt :: "('db, 'v, 'a) go \<Rightarrow> ('db, 'v, goerr + 'a) go" where
  "attempt m = (\<lambda>w. case m w of (r, w') \<Rightarrow> (Inr r, w'))"

definition of_sum :: "goerr + 'a \<Rightarrow> ('db, 'v, 'a) go" where
  "of_sum r = (\<lambda>w. (r, w))"

fun for_each :: "('x \<Rightarrow> ('db, 'v, unit) go) \<Rightarrow> 'x list \<Rightarrow> ('db, 'v, unit) go" where
  "for_each f [] = ret ()"
| "for_each f (x # xs) = bnd (f x) (\<lambda>_. for_each f xs)"

section \<open>Outcomes\<close>

definition next_o :: "('db, 'v) world \<Rightarrow> call_outcome" where
  "next_o w = (case w_script w of [] \<Rightarrow> Succeed | o1 # os \<Rightarrow> o1)"

definition next_w :: "('db, 'v) world \<Rightarrow> ('db, 'v) world" where
  "next_w w = w\<lparr>w_script := tl (w_script w)\<rparr>"

section \<open>Clocks and fresh UUIDs\<close>

definition app_clock :: "('db, 'v, int) go" where
  "app_clock = (\<lambda>w. (Inr (w_app_now w), w))"

definition new_uuid :: "(nat \<Rightarrow> string) \<Rightarrow> ('db, 'v, string) go" where
  "new_uuid gen = (\<lambda>w. (Inr (gen (w_uuids w)), w\<lparr>w_uuids := Suc (w_uuids w)\<rparr>))"

text \<open>The clocks move between the operations of a service, not within one.\<close>

definition at_clocks :: "int \<times> int \<Rightarrow> ('db, 'v, unit) go" where
  "at_clocks t = (\<lambda>w. (Inr (), w\<lparr>w_app_now := fst t, w_pg_now := snd t\<rparr>))"

section \<open>Calls\<close>

text \<open>
  A statement is given the database it runs on and the time \<open>now()\<close> returns; \<open>Inl\<close> is an
  error of the server (a constraint, a type), which leaves the database as it was.
\<close>

type_synonym ('db, 'a) sql = "'db \<Rightarrow> int \<Rightarrow> goerr + 'a \<times> 'db"

text \<open>A statement outside any transaction, on the pool: it commits by itself.\<close>

definition pool_stmt :: "('db, 'a) sql \<Rightarrow> ('db, 'v, 'a) go" where
  "pool_stmt q = (\<lambda>w.
     (case (next_o w, q (w_db w) (w_pg_now w)) of
        (Fail e, _) \<Rightarrow> (Inl (Plain e), next_w w)
      | (Succeed, Inl e) \<Rightarrow> (Inl e, next_w w)
      | (Succeed, Inr (a, d)) \<Rightarrow> (Inr a, (next_w w)\<lparr>w_db := d\<rparr>)
      | (Lost e, Inl _) \<Rightarrow> (Inl (Plain e), next_w w)
      | (Lost e, Inr (_, d)) \<Rightarrow> (Inl (Plain e), (next_w w)\<lparr>w_db := d\<rparr>)))"

definition begin_tx :: "('db, 'v, unit) go" where
  "begin_tx = (\<lambda>w.
     (case next_o w of
        Succeed \<Rightarrow> (Inr (), (next_w w)\<lparr>w_tx := Some \<lparr>tx_db = w_db w, tx_aborted = False\<rparr>\<rparr>)
      | Fail e \<Rightarrow> (Inl (Plain e), next_w w)
      | Lost e \<Rightarrow> (Inl (Plain e), next_w w)))"

definition tx_closed :: goerr where
  "tx_closed = Plain ''tx is closed''"

definition tx_is_aborted :: goerr where
  "tx_is_aborted = Plain
     ''ERROR: current transaction is aborted, commands ignored until end of transaction block''"

definition abort_tx :: "'db txn \<Rightarrow> 'db txn" where
  "abort_tx t = t\<lparr>tx_aborted := True\<rparr>"

definition tx_stmt :: "('db, 'a) sql \<Rightarrow> ('db, 'v, 'a) go" where
  "tx_stmt q = (\<lambda>w.
     (case w_tx w of
        None \<Rightarrow> (Inl tx_closed, next_w w)
      | Some t \<Rightarrow>
          (if tx_aborted t then (Inl tx_is_aborted, next_w w)
           else (case (next_o w, q (tx_db t) (w_pg_now w)) of
              (Fail e, _) \<Rightarrow> (Inl (Plain e), (next_w w)\<lparr>w_tx := Some (abort_tx t)\<rparr>)
            | (Lost e, _) \<Rightarrow> (Inl (Plain e), (next_w w)\<lparr>w_tx := Some (abort_tx t)\<rparr>)
            | (Succeed, Inl e) \<Rightarrow> (Inl e, (next_w w)\<lparr>w_tx := Some (abort_tx t)\<rparr>)
            | (Succeed, Inr (a, d)) \<Rightarrow> (Inr a, (next_w w)\<lparr>w_tx := Some (t\<lparr>tx_db := d\<rparr>)\<rparr>)))))"

definition commit_rollback :: goerr where
  "commit_rollback = Plain ''commit unexpectedly resulted in rollback''"

definition commit_tx :: "('db, 'v, unit) go" where
  "commit_tx = (\<lambda>w.
     (case w_tx w of
        None \<Rightarrow> (Inl tx_closed, next_w w)
      | Some t \<Rightarrow>
          (if tx_aborted t then (Inl commit_rollback, (next_w w)\<lparr>w_tx := None\<rparr>)
           else (case next_o w of
              Succeed \<Rightarrow> (Inr (), (next_w w)\<lparr>w_db := tx_db t, w_tx := None\<rparr>)
            | Fail e \<Rightarrow> (Inl (Plain e), (next_w w)\<lparr>w_tx := None\<rparr>)
            | Lost e \<Rightarrow> (Inl (Plain e), (next_w w)\<lparr>w_db := tx_db t, w_tx := None\<rparr>)))))"

text \<open>
  \<open>tx, err := pool.Begin(ctx); ...; defer tx.Rollback(ctx)\<close>: whatever the body returns, the
  transaction is gone afterwards.  After a commit the rollback does nothing.
\<close>

definition with_tx :: "(goerr \<Rightarrow> goerr) \<Rightarrow> ('db, 'v, 'a) go \<Rightarrow> ('db, 'v, 'a) go" where
  "with_tx g body = bnd (annot g begin_tx)
     (\<lambda>_ w. case body w of (r, w') \<Rightarrow> (r, w'\<lparr>w_tx := None\<rparr>))"

text \<open>A call to another system that adds an effect to the trace.\<close>

definition send_out :: "'v sent_effect \<Rightarrow> ('db, 'v, unit) go" where
  "send_out x = (\<lambda>w.
     (case next_o w of
        Succeed \<Rightarrow> (Inr (), (next_w w)\<lparr>w_trace := w_trace w @ [x]\<rparr>)
      | Fail e \<Rightarrow> (Inl (Plain e), next_w w)
      | Lost e \<Rightarrow> (Inl (Plain e), (next_w w)\<lparr>w_trace := w_trace w @ [x]\<rparr>)))"

text \<open>A call that reads another system and changes nothing there.\<close>

definition read_in :: "(goerr + 'a) \<Rightarrow> ('db, 'v, 'a) go" where
  "read_in r = (\<lambda>w.
     (case next_o w of
        Succeed \<Rightarrow> (r, next_w w)
      | Fail e \<Rightarrow> (Inl (Plain e), next_w w)
      | Lost e \<Rightarrow> (Inl (Plain e), next_w w)))"

end
