(* ===== verification/Go_Logic.thy ===== *)
theory Go_Logic
  imports Go_World
begin

text \<open>
  Reasoning about programs of the execution layer: \<open>wp m Q R w\<close> says that running \<open>m\<close> in \<open>w\<close>
  ends with a value and a world that satisfy \<open>Q\<close>, or with an error and a world that satisfy
  \<open>R\<close>.  The equations of \<open>wp_simps\<close> compute it; \<open>next_o\<close> and \<open>next_w\<close> commute with every
  record update, so that after simplification a world is the initial one with a number of
  outcomes taken from its script and some fields updated.
\<close>

definition wp :: "('db, 'v, 'a) go \<Rightarrow> ('a \<Rightarrow> ('db, 'v) world \<Rightarrow> bool) \<Rightarrow>
    (goerr \<Rightarrow> ('db, 'v) world \<Rightarrow> bool) \<Rightarrow> ('db, 'v) world \<Rightarrow> bool" where
  "wp m Q R w = (case m w of (Inl e, w') \<Rightarrow> R e w' | (Inr a, w') \<Rightarrow> Q a w')"

lemma wp_run: "m w = (r, w') \<Longrightarrow> wp m Q R w \<Longrightarrow> (case r of Inl e \<Rightarrow> R e w' | Inr a \<Rightarrow> Q a w')"
  by (auto simp: wp_def split: sum.splits)

lemma wp_okD: "m w = (Inr a, w') \<Longrightarrow> wp m Q R w \<Longrightarrow> Q a w'"
  by (simp add: wp_def)

lemma run_okD: "m w = (Inr a, w') \<Longrightarrow> wp m Q (\<lambda>_ _. True) w \<Longrightarrow> Q a w'"
  by (simp add: wp_def)

lemma run_errD: "m w = (Inl e, w') \<Longrightarrow> wp m (\<lambda>_ _. True) R w \<Longrightarrow> R e w'"
  by (simp add: wp_def)

lemma wp_errD: "m w = (Inl e, w') \<Longrightarrow> wp m Q R w \<Longrightarrow> R e w'"
  by (simp add: wp_def)

lemma wp_bothD: "m w = (r, w') \<Longrightarrow> wp m (\<lambda>_. Q) (\<lambda>_. Q) w \<Longrightarrow> Q w'"
  by (auto simp: wp_def split: sum.splits)

lemma wp_mono:
  "wp m Q R w \<Longrightarrow> (\<And>a w'. Q a w' \<Longrightarrow> Q' a w') \<Longrightarrow> (\<And>e w'. R e w' \<Longrightarrow> R' e w') \<Longrightarrow> wp m Q' R' w"
  by (auto simp: wp_def split: sum.splits)

lemma wp_intro:
  assumes "\<And>a w'. m w = (Inr a, w') \<Longrightarrow> Q a w'" and "\<And>e w'. m w = (Inl e, w') \<Longrightarrow> R e w'"
  shows "wp m Q R w"
  using assms by (cases "m w"; cases "fst (m w)") (auto simp: wp_def)

lemma wp_returns: "wp m Q (\<lambda>_ _. False) w \<Longrightarrow> \<exists>a w'. m w = (Inr a, w') \<and> Q a w'"
  by (auto simp: wp_def split: sum.splits prod.splits)
    (metis obj_sumE)

lemma wp_raises: "wp m (\<lambda>_ _. False) R w \<Longrightarrow> \<exists>e w'. m w = (Inl e, w') \<and> R e w'"
  by (cases "m w"; cases "fst (m w)") (auto simp: wp_def)

lemma wp_conj: "wp m (\<lambda>a w. Q a w \<and> Q' a w) (\<lambda>e w. R e w \<and> R' e w) w = (wp m Q R w \<and> wp m Q' R' w)"
  by (auto simp: wp_def split: sum.splits)

section \<open>Taking outcomes\<close>

lemma next_w_fields [simp]:
  "w_db (next_w w) = w_db w" "w_tx (next_w w) = w_tx w" "w_app_now (next_w w) = w_app_now w"
  "w_pg_now (next_w w) = w_pg_now w" "w_uuids (next_w w) = w_uuids w"
  "w_trace (next_w w) = w_trace w"
  by (simp_all add: next_w_def)

lemma next_o_update [simp]:
  "next_o (w\<lparr>w_db := d\<rparr>) = next_o w" "next_o (w\<lparr>w_tx := t\<rparr>) = next_o w"
  "next_o (w\<lparr>w_uuids := n\<rparr>) = next_o w" "next_o (w\<lparr>w_trace := tr\<rparr>) = next_o w"
  by (simp_all add: next_o_def)

lemma next_w_update [simp]:
  "next_w (w\<lparr>w_db := d\<rparr>) = (next_w w)\<lparr>w_db := d\<rparr>"
  "next_w (w\<lparr>w_tx := t\<rparr>) = (next_w w)\<lparr>w_tx := t\<rparr>"
  "next_w (w\<lparr>w_uuids := n\<rparr>) = (next_w w)\<lparr>w_uuids := n\<rparr>"
  "next_w (w\<lparr>w_trace := tr\<rparr>) = (next_w w)\<lparr>w_trace := tr\<rparr>"
  by (simp_all add: next_w_def)

lemma no_faults [simp]:
  "w_script w = [] \<Longrightarrow> next_o w = Succeed" "w_script w = [] \<Longrightarrow> next_w w = w"
  by (simp_all add: next_o_def next_w_def)

lemma script_next_w [simp]: "w_script (next_w w) = tl (w_script w)"
  by (simp add: next_w_def)

section \<open>Weakest preconditions\<close>

lemma wp_ret [wp_simps]: "wp (ret a) Q R = Q a"
  by (rule ext) (simp add: wp_def ret_def)

lemma wp_raise [wp_simps]: "wp (raise e) Q R = R e"
  by (rule ext) (simp add: wp_def raise_def)

lemma wp_bnd [wp_simps]: "wp (bnd m f) Q R = wp m (\<lambda>a. wp (f a) Q R) R"
  by (rule ext) (auto simp: wp_def bnd_def split: sum.splits prod.splits)

lemma wp_annot [wp_simps]: "wp (annot g m) Q R = wp m Q (\<lambda>e. R (g e))"
  by (rule ext) (auto simp: wp_def annot_def split: sum.splits prod.splits)

lemma wp_attempt [wp_simps]: "wp (attempt m) Q R = wp m (\<lambda>a. Q (Inr a)) (\<lambda>e. Q (Inl e))"
proof (rule ext)
  fix w show "wp (attempt m) Q R w = wp m (\<lambda>a. Q (Inr a)) (\<lambda>e. Q (Inl e)) w"
    by (cases "m w"; cases "fst (m w)") (simp_all add: wp_def attempt_def)
qed

lemma wp_of_sum [wp_simps]: "wp (of_sum r) Q R w = (case r of Inl e \<Rightarrow> R e w | Inr a \<Rightarrow> Q a w)"
  by (auto simp: wp_def of_sum_def split: sum.splits)

lemma wp_app_clock [wp_simps]: "wp app_clock Q R w = Q (w_app_now w) w"
  by (simp add: wp_def app_clock_def)

lemma wp_new_uuid [wp_simps]:
  "wp (new_uuid gen) Q R w = Q (gen (w_uuids w)) (w\<lparr>w_uuids := Suc (w_uuids w)\<rparr>)"
  by (simp add: wp_def new_uuid_def)

lemma wp_at_clocks [wp_simps]:
  "wp (at_clocks t) Q R w = Q () (w\<lparr>w_app_now := fst t, w_pg_now := snd t\<rparr>)"
  by (simp add: wp_def at_clocks_def)

lemma wp_if [wp_simps]: "wp (if b then m else n) Q R w = (if b then wp m Q R w else wp n Q R w)"
  by simp

lemma wp_pool_stmt [wp_simps]:
  "wp (pool_stmt q) Q R w =
     (case next_o w of
        Fail e \<Rightarrow> R (Plain e) (next_w w)
      | Succeed \<Rightarrow> (case q (w_db w) (w_pg_now w) of
            Inl e \<Rightarrow> R e (next_w w)
          | Inr (a, d) \<Rightarrow> Q a ((next_w w)\<lparr>w_db := d\<rparr>))
      | Lost e \<Rightarrow> (case q (w_db w) (w_pg_now w) of
            Inl _ \<Rightarrow> R (Plain e) (next_w w)
          | Inr (_, d) \<Rightarrow> R (Plain e) ((next_w w)\<lparr>w_db := d\<rparr>)))"
  by (auto simp: wp_def pool_stmt_def split: call_outcome.splits sum.splits prod.splits)

lemma wp_begin_tx [wp_simps]:
  "wp begin_tx Q R w =
     (case next_o w of
        Succeed \<Rightarrow> Q () ((next_w w)\<lparr>w_tx := Some \<lparr>tx_db = w_db w, tx_aborted = False\<rparr>\<rparr>)
      | Fail e \<Rightarrow> R (Plain e) (next_w w)
      | Lost e \<Rightarrow> R (Plain e) (next_w w))"
  by (auto simp: wp_def begin_tx_def split: call_outcome.splits)

lemma wp_tx_stmt [wp_simps]:
  "wp (tx_stmt q) Q R w =
     (case w_tx w of
        None \<Rightarrow> R tx_closed (next_w w)
      | Some t \<Rightarrow>
          (if tx_aborted t then R tx_is_aborted (next_w w)
           else (case next_o w of
              Fail e \<Rightarrow> R (Plain e) ((next_w w)\<lparr>w_tx := Some (abort_tx t)\<rparr>)
            | Lost e \<Rightarrow> R (Plain e) ((next_w w)\<lparr>w_tx := Some (abort_tx t)\<rparr>)
            | Succeed \<Rightarrow> (case q (tx_db t) (w_pg_now w) of
                Inl e \<Rightarrow> R e ((next_w w)\<lparr>w_tx := Some (abort_tx t)\<rparr>)
              | Inr (a, d) \<Rightarrow> Q a ((next_w w)\<lparr>w_tx := Some (t\<lparr>tx_db := d\<rparr>)\<rparr>)))))"
  by (auto simp: wp_def tx_stmt_def split: call_outcome.splits sum.splits prod.splits option.splits)

lemma wp_commit_tx [wp_simps]:
  "wp commit_tx Q R w =
     (case w_tx w of
        None \<Rightarrow> R tx_closed (next_w w)
      | Some t \<Rightarrow>
          (if tx_aborted t then R commit_rollback ((next_w w)\<lparr>w_tx := None\<rparr>)
           else (case next_o w of
              Succeed \<Rightarrow> Q () ((next_w w)\<lparr>w_db := tx_db t, w_tx := None\<rparr>)
            | Fail e \<Rightarrow> R (Plain e) ((next_w w)\<lparr>w_tx := None\<rparr>)
            | Lost e \<Rightarrow> R (Plain e) ((next_w w)\<lparr>w_db := tx_db t, w_tx := None\<rparr>))))"
  by (auto simp: wp_def commit_tx_def split: call_outcome.splits option.splits)

lemma wp_with_tx [wp_simps]:
  "wp (with_tx g body) Q R w =
     (case next_o w of
        Succeed \<Rightarrow> wp body (\<lambda>a w'. Q a (w'\<lparr>w_tx := None\<rparr>)) (\<lambda>e w'. R e (w'\<lparr>w_tx := None\<rparr>))
                     ((next_w w)\<lparr>w_tx := Some \<lparr>tx_db = w_db w, tx_aborted = False\<rparr>\<rparr>)
      | Fail e \<Rightarrow> R (g (Plain e)) (next_w w)
      | Lost e \<Rightarrow> R (g (Plain e)) (next_w w))"
  by (auto simp: wp_def with_tx_def bnd_def annot_def begin_tx_def
      split: call_outcome.splits sum.splits prod.splits)

lemma wp_send_out [wp_simps]:
  "wp (send_out x) Q R w =
     (case next_o w of
        Succeed \<Rightarrow> Q () ((next_w w)\<lparr>w_trace := w_trace w @ [x]\<rparr>)
      | Fail e \<Rightarrow> R (Plain e) (next_w w)
      | Lost e \<Rightarrow> R (Plain e) ((next_w w)\<lparr>w_trace := w_trace w @ [x]\<rparr>))"
  by (auto simp: wp_def send_out_def split: call_outcome.splits)

lemma wp_read_in [wp_simps]:
  "wp (read_in r) Q R w =
     (case next_o w of
        Succeed \<Rightarrow> (case r of Inl e \<Rightarrow> R e (next_w w) | Inr a \<Rightarrow> Q a (next_w w))
      | Fail e \<Rightarrow> R (Plain e) (next_w w)
      | Lost e \<Rightarrow> R (Plain e) (next_w w))"
  by (auto simp: wp_def read_in_def split: call_outcome.splits sum.splits)

lemma abort_tx_sel [simp]: "tx_aborted (abort_tx t)" "tx_db (abort_tx t) = tx_db t"
  by (simp_all add: abort_tx_def)

text \<open>The rule for loops: an invariant over the elements still to come.\<close>

lemma wp_for_each:
  assumes "I xs w"
    and "\<And>x xs w. I (x # xs) w \<Longrightarrow> wp (f x) (\<lambda>_. I xs) R w"
    and "\<And>w. I [] w \<Longrightarrow> Q () w"
  shows "wp (for_each f xs) Q R w"
  using assms(1)
proof (induction xs arbitrary: w)
  case Nil
  then show ?case by (simp add: wp_simps assms(3))
next
  case (Cons x xs)
  from assms(2)[OF Cons.prems] have "wp (f x) (\<lambda>_. wp (for_each f xs) Q R) R w"
    by (rule wp_mono) (auto intro: Cons.IH)
  then show ?case by (simp add: wp_simps)
qed

text \<open>An invariant of the world that every step keeps, whether it returns or fails.\<close>

lemma wp_for_each_inv:
  assumes "I w" and "\<And>x w. I w \<Longrightarrow> wp (f x) (\<lambda>_. I) (\<lambda>_. I) w"
  shows "wp (for_each f xs) (\<lambda>_. I) (\<lambda>_. I) w"
  using assms(1) by (rule wp_for_each[where I = "\<lambda>_. I"]) (auto intro: assms(2))

section \<open>Errors a program never returns\<close>

text \<open>
  \<open>avoids s m\<close>: no error of \<open>m\<close> is the sentinel \<open>s\<close>, whatever the world.  A consumer stops at
  every error of an \<open>unclassified\<close> program, since none of them is a \<open>NonRetryable\<close> one.
\<close>

named_theorems avoids_rules \<open>rules for programs that avoid a sentinel\<close>

definition avoids :: "sentinel \<Rightarrow> ('db, 'v, 'a) go \<Rightarrow> bool" where
  "avoids s m = (\<forall>w. wp m (\<lambda>_ _. True) (\<lambda>e _. \<not> errors_is e s) w)"

abbreviation unclassified :: "('db, 'v, 'a) go \<Rightarrow> bool" where
  "unclassified m \<equiv> avoids ErrNonRetryable m"

lemma avoidsD: "avoids s m \<Longrightarrow> wp m (\<lambda>_ _. True) (\<lambda>e _. \<not> errors_is e s) w"
  by (simp add: avoids_def)

lemma avoids_ret [avoids_rules]: "avoids s (ret a)"
  by (simp add: avoids_def wp_ret)

lemma avoids_raise [avoids_rules]: "\<not> errors_is e s \<Longrightarrow> avoids s (raise e)"
  by (simp add: avoids_def wp_raise)

lemma avoids_bnd [avoids_rules]:
  "avoids s m \<Longrightarrow> (\<And>a. avoids s (f a)) \<Longrightarrow> avoids s (bnd m f)"
  unfolding avoids_def wp_bnd by (auto intro: wp_mono)

lemma avoids_annot [avoids_rules]: "avoids s m \<Longrightarrow> avoids s (annot (errorf pre) m)"
  by (simp add: avoids_def wp_annot)

lemma avoids_attempt [avoids_rules]: "avoids s (attempt m)"
  by (simp add: avoids_def wp_attempt wp_def split: sum.splits prod.splits)

lemma avoids_of_sum [avoids_rules]:
  "(\<And>e. r = Inl e \<Longrightarrow> \<not> errors_is e s) \<Longrightarrow> avoids s (of_sum r)"
  by (simp add: avoids_def wp_of_sum split: sum.splits)

lemma avoids_app_clock [avoids_rules]: "avoids s app_clock"
  by (simp add: avoids_def wp_app_clock)

lemma avoids_new_uuid [avoids_rules]: "avoids s (new_uuid gen)"
  by (simp add: avoids_def wp_new_uuid)

lemma avoids_pool_stmt [avoids_rules]:
  "(\<And>d now e. q d now = Inl e \<Longrightarrow> \<not> errors_is e s) \<Longrightarrow> avoids s (pool_stmt q)"
  by (simp add: avoids_def wp_pool_stmt split: call_outcome.splits sum.splits prod.splits)

lemma avoids_tx_stmt [avoids_rules]:
  "(\<And>d now e. q d now = Inl e \<Longrightarrow> \<not> errors_is e s) \<Longrightarrow> avoids s (tx_stmt q)"
  by (auto simp: avoids_def wp_tx_stmt tx_closed_def tx_is_aborted_def
      split: call_outcome.splits sum.splits prod.splits option.splits)

lemma avoids_commit_tx [avoids_rules]: "avoids s commit_tx"
  by (auto simp: avoids_def wp_commit_tx tx_closed_def commit_rollback_def
      split: call_outcome.splits option.splits)

lemma avoids_with_tx [avoids_rules]: "avoids s m \<Longrightarrow> avoids s (with_tx (errorf pre) m)"
  by (auto simp: avoids_def wp_with_tx split: call_outcome.splits)

lemma avoids_send_out [avoids_rules]: "avoids s (send_out x)"
  by (auto simp: avoids_def wp_send_out split: call_outcome.splits)

lemma avoids_read_in [avoids_rules]: "(\<And>e. r = Inl e \<Longrightarrow> \<not> errors_is e s) \<Longrightarrow> avoids s (read_in r)"
  by (auto simp: avoids_def wp_read_in split: call_outcome.splits sum.splits)

text \<open>A program that inspects the error of a call knows that it is not the sentinel either.\<close>

lemma avoids_inspect:
  assumes "avoids s m" and "\<And>a. avoids s (f (Inr a))" and "\<And>e. \<not> errors_is e s \<Longrightarrow> avoids s (f (Inl e))"
  shows "avoids s (bnd (attempt m) f)"
  unfolding avoids_def wp_bnd wp_attempt
proof
  fix w
  show "wp m (\<lambda>a. wp (f (Inr a)) (\<lambda>_ _. True) (\<lambda>e _. \<not> errors_is e s))
      (\<lambda>e. wp (f (Inl e)) (\<lambda>_ _. True) (\<lambda>e _. \<not> errors_is e s)) w"
    by (rule wp_mono[OF avoidsD[OF assms(1)]]) (auto intro: avoidsD assms(2,3))
qed

lemma avoids_for_each [avoids_rules]:
  "(\<And>x. avoids s (f x)) \<Longrightarrow> avoids s (for_each f xs)"
  by (induction xs) (auto intro: avoids_rules)

lemma avoids_all:
  assumes "\<And>t. t \<in> S \<Longrightarrow> avoids t m"
  shows "wp m (\<lambda>_ _. True) (\<lambda>e _. \<forall>t \<in> S. \<not> errors_is e t) w"
proof (cases "m w")
  case (Pair r w')
  have "case r of Inl e \<Rightarrow> \<not> errors_is e t | Inr _ \<Rightarrow> True" if "t \<in> S" for t
    using wp_run[OF Pair avoidsD[OF assms[OF that]]] .
  then show ?thesis by (cases r) (auto simp: wp_def Pair)
qed

section \<open>Running a program\<close>

text \<open>
  Equations for worlds in which a call is known to succeed, used to run the code on concrete
  inputs and to prove what it does when nothing fails.
\<close>

lemma run_ret [exec_simps]: "ret a w = (Inr a, w)"
  by (simp add: ret_def)

lemma run_raise [exec_simps]: "raise e w = (Inl e, w)"
  by (simp add: raise_def)

lemma run_bnd [exec_simps]:
  "bnd m f w = (case m w of (Inl e, w') \<Rightarrow> (Inl e, w') | (Inr a, w') \<Rightarrow> f a w')"
  by (simp add: bnd_def)

lemma run_annot [exec_simps]:
  "annot g m w = (case m w of (Inl e, w') \<Rightarrow> (Inl (g e), w') | (Inr a, w') \<Rightarrow> (Inr a, w'))"
  by (simp add: annot_def)

lemma run_attempt [exec_simps]: "attempt m w = (case m w of (r, w') \<Rightarrow> (Inr r, w'))"
  by (simp add: attempt_def)

lemma run_of_sum [exec_simps]: "of_sum r w = (r, w)"
  by (simp add: of_sum_def)

lemma run_app_clock [exec_simps]: "app_clock w = (Inr (w_app_now w), w)"
  by (simp add: app_clock_def)

lemma run_new_uuid [exec_simps]:
  "new_uuid gen w = (Inr (gen (w_uuids w)), w\<lparr>w_uuids := Suc (w_uuids w)\<rparr>)"
  by (simp add: new_uuid_def)

lemmas run_calls [exec_simps] =
  pool_stmt_def tx_stmt_def begin_tx_def commit_tx_def with_tx_def send_out_def read_in_def

end
