(* ===== verification/Contracts.thy ===== *)
theory Contracts
  imports Go_World
begin

text \<open>
  The message contracts of \<open>pkg/contracts/events.go\<close>: topics, actions, event types, the
  envelope and its payloads, and their JSON form as \<open>encoding/json\<close> writes and reads it.

  A byte slice on the wire is \<open>None\<close> when it is no syntactically valid JSON and \<open>Some j\<close>
  otherwise.  Strings are taken to be valid UTF-8.  \<open>time.Time\<close> is the number of nanoseconds
  since its zero value; its RFC 3339 text, base64, \<open>uuid.Parse\<close>, \<open>uuid.Validate\<close>, the generator
  behind \<open>uuid.NewString\<close> and the Unicode tables of the package \<open>strings\<close> are functions of the
  environment \<open>env\<close>.  So are two choices PostgreSQL makes: which rows other sessions hold locked
  (\<open>SKIP LOCKED\<close> passes over them), and the order of the rows of a statement without
  \<open>ORDER BY\<close>, which is not specified.
\<close>

datatype json =
    JNull
  | JBool bool
  | JNum int
  | JStr string
  | JArr "json list"
  | JObj "(string \<times> json) list"

type_synonym wire = "json option"

record env =
  uuid_gen :: "nat \<Rightarrow> string"
  uuid_parses :: "string \<Rightarrow> bool"
  uuid_validates :: "string \<Rightarrow> bool"
  time_text :: "int \<Rightarrow> string option"
  time_parse :: "string \<Rightarrow> int option"
  base64 :: "wire \<Rightarrow> string"
  row_locked :: "string \<Rightarrow> bool"
  returning :: "string list \<Rightarrow> string list"
  unicode_lower :: "string \<Rightarrow> string"
  unicode_trim :: "string \<Rightarrow> string"

definition zero_time :: int where
  "zero_time = 0"

text \<open>Durations are nanoseconds, as \<open>time.Duration\<close>.\<close>

definition second_ns :: int where
  "second_ns = 1000000000"

definition minute_ns :: int where
  "minute_ns = 60 * second_ns"

definition hour_ns :: int where
  "hour_ns = 60 * minute_ns"

lemmas durations = second_ns_def minute_ns_def hour_ns_def

section \<open>Names\<close>

definition TopicWatchlistSagaRequests :: string where
  "TopicWatchlistSagaRequests = ''subber.watchlist.saga.requests''"

definition TopicWatchlistCommands :: string where
  "TopicWatchlistCommands = ''subber.watchlist.saga.commands''"

definition TopicWatchlistSagaEvents :: string where
  "TopicWatchlistSagaEvents = ''subber.watchlist.saga.events''"

definition TopicWatchlistCommandsDLQ :: string where
  "TopicWatchlistCommandsDLQ = ''subber.watchlist.commands.dlq''"

definition TopicReleaseEvents :: string where
  "TopicReleaseEvents = ''subber.release.events''"

definition TopicNotificationCommands :: string where
  "TopicNotificationCommands = ''subber.notification.commands''"

definition TopicNotificationRetry1m :: string where
  "TopicNotificationRetry1m = ''subber.notification.retry.1m''"

definition TopicNotificationRetry10m :: string where
  "TopicNotificationRetry10m = ''subber.notification.retry.10m''"

definition TopicNotificationDLQ :: string where
  "TopicNotificationDLQ = ''subber.notification.dlq''"

definition RepoWatchActionStart :: string where
  "RepoWatchActionStart = ''start_watch''"

definition RepoWatchActionStop :: string where
  "RepoWatchActionStop = ''stop_watch''"

definition EventRepoWatchSagaRequested :: string where
  "EventRepoWatchSagaRequested = ''RepoWatchSagaRequested''"

definition EventStartWatchingRepo :: string where
  "EventStartWatchingRepo = ''StartWatchingRepo''"

definition EventStopWatchingRepo :: string where
  "EventStopWatchingRepo = ''StopWatchingRepo''"

definition EventRepoWatchStarted :: string where
  "EventRepoWatchStarted = ''RepoWatchStarted''"

definition EventRepoWatchStopped :: string where
  "EventRepoWatchStopped = ''RepoWatchStopped''"

definition EventRepoWatchFailed :: string where
  "EventRepoWatchFailed = ''RepoWatchFailed''"

definition EventReleaseDetected :: string where
  "EventReleaseDetected = ''ReleaseDetected''"

definition EventNotificationRequested :: string where
  "EventNotificationRequested = ''NotificationSendRequested''"

definition EventConsumerDeadLettered :: string where
  "EventConsumerDeadLettered = ''ConsumerMessageDeadLettered''"

lemmas topic_defs =
  TopicWatchlistSagaRequests_def TopicWatchlistCommands_def TopicWatchlistSagaEvents_def
  TopicWatchlistCommandsDLQ_def TopicReleaseEvents_def TopicNotificationCommands_def
  TopicNotificationRetry1m_def TopicNotificationRetry10m_def TopicNotificationDLQ_def

lemmas event_defs =
  EventRepoWatchSagaRequested_def EventStartWatchingRepo_def EventStopWatchingRepo_def
  EventRepoWatchStarted_def EventRepoWatchStopped_def EventRepoWatchFailed_def
  EventReleaseDetected_def EventNotificationRequested_def EventConsumerDeadLettered_def

lemmas action_defs = RepoWatchActionStart_def RepoWatchActionStop_def

text \<open>The names are pairwise different where the code branches on them.\<close>

lemma actions_distinct [simp]:
  "RepoWatchActionStart \<noteq> RepoWatchActionStop" "RepoWatchActionStop \<noteq> RepoWatchActionStart"
  by (simp_all add: action_defs)

lemma commands_distinct [simp]:
  "EventStartWatchingRepo \<noteq> EventStopWatchingRepo" "EventStopWatchingRepo \<noteq> EventStartWatchingRepo"
  by (simp_all add: event_defs)

lemma acks_distinct [simp]:
  "EventRepoWatchStarted \<noteq> EventRepoWatchStopped" "EventRepoWatchStopped \<noteq> EventRepoWatchStarted"
  "EventRepoWatchStarted \<noteq> EventRepoWatchFailed" "EventRepoWatchFailed \<noteq> EventRepoWatchStarted"
  "EventRepoWatchStopped \<noteq> EventRepoWatchFailed" "EventRepoWatchFailed \<noteq> EventRepoWatchStopped"
  by (simp_all add: event_defs)

lemma saga_topics_distinct [simp]:
  "TopicWatchlistCommands \<noteq> TopicWatchlistSagaEvents"
  "TopicWatchlistCommands \<noteq> TopicWatchlistSagaRequests"
  "TopicWatchlistSagaRequests \<noteq> TopicWatchlistCommands"
  "TopicReleaseEvents \<noteq> TopicWatchlistSagaEvents"
  "TopicWatchlistSagaEvents \<noteq> TopicReleaseEvents"
  "TopicWatchlistSagaEvents \<noteq> TopicReleaseEvents"
  "TopicNotificationCommands \<noteq> TopicWatchlistSagaRequests"
  "TopicWatchlistSagaRequests \<noteq> TopicNotificationCommands"
  by (simp_all add: topic_defs)

section \<open>The envelope and its payloads\<close>

record 'p envelope =
  EventID :: string
  EventType :: string
  OccurredAt :: int
  Source :: string
  CorrelationID :: string
  NotBefore :: "int option"
  Payload :: 'p

record saga_payload =
  sp_SagaID :: string
  sp_Action :: string
  sp_Repo :: string
  sp_Email :: string

record command_payload =
  cp_SagaID :: string
  cp_Action :: string
  cp_Repo :: string

record ack_payload =
  ap_SagaID :: string
  ap_Action :: string
  ap_Repo :: string
  ap_Error :: string

record release_payload =
  rp_Repo :: string
  rp_Tag :: string

record notification_payload =
  np_NotificationID :: string
  np_IdempotencyKey :: string
  np_RecipientEmail :: string
  np_EmailHash :: string
  np_Repo :: string
  np_Tag :: string
  np_Message :: string

record dead_letter_payload =
  dl_OriginalTopic :: string
  dl_OriginalPartition :: int
  dl_OriginalOffset :: int
  dl_OriginalKey :: string
  dl_OriginalValue :: wire
  dl_ConsumerGroup :: string
  dl_Cause :: string
  dl_FailedAt :: int

end
