(* ===== verification/Codec.thy ===== *)
theory Codec
  imports Contracts
begin

text \<open>
  The JSON form of the messages.  \<open>encode_*\<close> is \<open>json.Marshal\<close> on a struct: its fields in
  the order and under the names of the struct tags, an \<open>omitempty\<close> field left out when it is
  zero.  \<open>decode_*\<close> is \<open>json.Unmarshal\<close> into a zero struct: member names match a field
  without regard to case, unknown members are ignored, \<open>null\<close> leaves a field as it is (and
  resets a pointer), the last of several members for one field wins, two members for a
  struct are merged, and a member of the wrong type is an error.
\<close>

section \<open>Writing\<close>

definition marshal_error :: goerr where
  "marshal_error = Plain ''json: error calling MarshalJSON for type time.Time''"

definition omitempty :: "string \<Rightarrow> string \<Rightarrow> (string \<times> json) list" where
  "omitempty k s = (if s = '''' then [] else [(k, JStr s)])"

definition encode_saga :: "saga_payload \<Rightarrow> json" where
  "encode_saga p = JObj
     ([(''saga_id'', JStr (sp_SagaID p)), (''action'', JStr (sp_Action p)),
       (''repo'', JStr (sp_Repo p))] @ omitempty ''email'' (sp_Email p))"

definition encode_command :: "command_payload \<Rightarrow> json" where
  "encode_command p = JObj
     [(''saga_id'', JStr (cp_SagaID p)), (''action'', JStr (cp_Action p)),
      (''repo'', JStr (cp_Repo p))]"

definition encode_ack :: "ack_payload \<Rightarrow> json" where
  "encode_ack p = JObj
     ([(''saga_id'', JStr (ap_SagaID p)), (''action'', JStr (ap_Action p)),
       (''repo'', JStr (ap_Repo p))] @ omitempty ''error'' (ap_Error p))"

definition encode_release :: "release_payload \<Rightarrow> json" where
  "encode_release p = JObj [(''repo'', JStr (rp_Repo p)), (''tag'', JStr (rp_Tag p))]"

definition encode_notification :: "notification_payload \<Rightarrow> json" where
  "encode_notification p = JObj
     [(''notification_id'', JStr (np_NotificationID p)),
      (''idempotency_key'', JStr (np_IdempotencyKey p)),
      (''recipient_email'', JStr (np_RecipientEmail p)),
      (''email_hash'', JStr (np_EmailHash p)),
      (''repo'', JStr (np_Repo p)), (''tag'', JStr (np_Tag p)),
      (''message'', JStr (np_Message p))]"

definition encode_dead_letter :: "env \<Rightarrow> dead_letter_payload \<Rightarrow> goerr + json" where
  "encode_dead_letter E p =
     (case time_text E (dl_FailedAt p) of
        None \<Rightarrow> Inl marshal_error
      | Some t \<Rightarrow> Inr (JObj
          [(''original_topic'', JStr (dl_OriginalTopic p)),
           (''original_partition'', JNum (dl_OriginalPartition p)),
           (''original_offset'', JNum (dl_OriginalOffset p)),
           (''original_key'', JStr (dl_OriginalKey p)),
           (''original_value'', JStr (base64 E (dl_OriginalValue p))),
           (''consumer_group'', JStr (dl_ConsumerGroup p)),
           (''cause'', JStr (dl_Cause p)), (''failed_at'', JStr t)]))"

definition encode_not_before :: "env \<Rightarrow> int option \<Rightarrow> goerr + (string \<times> json) list" where
  "encode_not_before E nb =
     (case nb of
        None \<Rightarrow> Inr []
      | Some t \<Rightarrow> (case time_text E t of
            None \<Rightarrow> Inl marshal_error
          | Some s \<Rightarrow> Inr [(''not_before'', JStr s)]))"

definition encode_envelope :: "env \<Rightarrow> ('p \<Rightarrow> goerr + json) \<Rightarrow> 'p envelope \<Rightarrow> goerr + json" where
  "encode_envelope E enc ev =
     (case (time_text E (OccurredAt ev), encode_not_before E (NotBefore ev), enc (Payload ev)) of
        (Some t, Inr nb, Inr j) \<Rightarrow> Inr (JObj
          ([(''event_id'', JStr (EventID ev)), (''event_type'', JStr (EventType ev)),
            (''occurred_at'', JStr t), (''source'', JStr (Source ev)),
            (''correlation_id'', JStr (CorrelationID ev))] @ nb @ [(''payload'', j)]))
      | _ \<Rightarrow> Inl marshal_error)"

lemma encode_envelope_plain: "encode_envelope E f ev = Inl e \<Longrightarrow> \<not> errors_is e s"
  by (auto simp: encode_envelope_def marshal_error_def split: option.splits sum.splits)

section \<open>Reading\<close>

definition unmarshal_error :: goerr where
  "unmarshal_error = Plain ''json: cannot unmarshal''"

definition lower_char :: "char \<Rightarrow> char" where
  "lower_char c = (let n = of_char c :: nat in
     if 65 \<le> n \<and> n \<le> 90 then char_of (n + 32) else c)"

definition members :: "string \<Rightarrow> (string \<times> json) list \<Rightarrow> json list" where
  "members k kvs = map snd (filter (\<lambda>kv. map lower_char (fst kv) = k) kvs)"

definition set_members :: "string \<Rightarrow> (string \<times> json) list \<Rightarrow> json list" where
  "set_members k kvs = filter (\<lambda>v. v \<noteq> JNull) (members k kvs)"

fun as_string :: "json \<Rightarrow> string option" where
  "as_string (JStr s) = Some s"
| "as_string _ = None"

fun as_object :: "json \<Rightarrow> (string \<times> json) list option" where
  "as_object (JObj kvs) = Some kvs"
| "as_object _ = None"

definition last_or :: "'a \<Rightarrow> 'a list \<Rightarrow> 'a" where
  "last_or d xs = (if xs = [] then d else last xs)"

text \<open>The values of all members for a field, or an error when one of them has another type.\<close>

definition typed_members :: "(json \<Rightarrow> 'a option) \<Rightarrow> json list \<Rightarrow> goerr + 'a list" where
  "typed_members f vs =
     (if list_all (\<lambda>v. f v \<noteq> None) vs then Inr (map (\<lambda>v. the (f v)) vs) else Inl unmarshal_error)"

definition sum_map :: "('a \<Rightarrow> 'b) \<Rightarrow> goerr + 'a \<Rightarrow> goerr + 'b" where
  "sum_map f r = (case r of Inl e \<Rightarrow> Inl e | Inr a \<Rightarrow> Inr (f a))"

definition sum_bind :: "goerr + 'a \<Rightarrow> ('a \<Rightarrow> goerr + 'b) \<Rightarrow> goerr + 'b" where
  "sum_bind r f = (case r of Inl e \<Rightarrow> Inl e | Inr a \<Rightarrow> f a)"

definition string_field :: "string \<Rightarrow> (string \<times> json) list \<Rightarrow> goerr + string" where
  "string_field k kvs = sum_map (last_or '''') (typed_members as_string (set_members k kvs))"

definition as_time :: "env \<Rightarrow> json \<Rightarrow> int option" where
  "as_time E v = (case as_string v of None \<Rightarrow> None | Some s \<Rightarrow> time_parse E s)"

definition time_field :: "env \<Rightarrow> string \<Rightarrow> (string \<times> json) list \<Rightarrow> goerr + int" where
  "time_field E k kvs = sum_map (last_or zero_time) (typed_members (as_time E) (set_members k kvs))"

definition as_time_pointer :: "env \<Rightarrow> json \<Rightarrow> int option option" where
  "as_time_pointer E v = (if v = JNull then Some None else map_option Some (as_time E v))"

definition time_pointer_field :: "env \<Rightarrow> string \<Rightarrow> (string \<times> json) list \<Rightarrow> goerr + int option" where
  "time_pointer_field E k kvs = sum_map (last_or None) (typed_members (as_time_pointer E) (members k kvs))"

text \<open>The members of a struct field: those of every object given for it, merged in order.\<close>

definition struct_field :: "string \<Rightarrow> (string \<times> json) list \<Rightarrow> goerr + (string \<times> json) list" where
  "struct_field k kvs = sum_map concat (typed_members as_object (set_members k kvs))"

definition decode_saga :: "(string \<times> json) list \<Rightarrow> goerr + saga_payload" where
  "decode_saga kvs =
     sum_bind (string_field ''saga_id'' kvs) (\<lambda>i.
     sum_bind (string_field ''action'' kvs) (\<lambda>a.
     sum_bind (string_field ''repo'' kvs) (\<lambda>r.
     sum_bind (string_field ''email'' kvs) (\<lambda>m.
       Inr \<lparr>sp_SagaID = i, sp_Action = a, sp_Repo = r, sp_Email = m\<rparr>))))"

definition decode_command :: "(string \<times> json) list \<Rightarrow> goerr + command_payload" where
  "decode_command kvs =
     sum_bind (string_field ''saga_id'' kvs) (\<lambda>i.
     sum_bind (string_field ''action'' kvs) (\<lambda>a.
     sum_bind (string_field ''repo'' kvs) (\<lambda>r.
       Inr \<lparr>cp_SagaID = i, cp_Action = a, cp_Repo = r\<rparr>)))"

definition decode_ack :: "(string \<times> json) list \<Rightarrow> goerr + ack_payload" where
  "decode_ack kvs =
     sum_bind (string_field ''saga_id'' kvs) (\<lambda>i.
     sum_bind (string_field ''action'' kvs) (\<lambda>a.
     sum_bind (string_field ''repo'' kvs) (\<lambda>r.
     sum_bind (string_field ''error'' kvs) (\<lambda>e.
       Inr \<lparr>ap_SagaID = i, ap_Action = a, ap_Repo = r, ap_Error = e\<rparr>))))"

definition decode_release :: "(string \<times> json) list \<Rightarrow> goerr + release_payload" where
  "decode_release kvs =
     sum_bind (string_field ''repo'' kvs) (\<lambda>r.
     sum_bind (string_field ''tag'' kvs) (\<lambda>t.
       Inr \<lparr>rp_Repo = r, rp_Tag = t\<rparr>))"

definition decode_notification :: "(string \<times> json) list \<Rightarrow> goerr + notification_payload" where
  "decode_notification kvs =
     sum_bind (string_field ''notification_id'' kvs) (\<lambda>i.
     sum_bind (string_field ''idempotency_key'' kvs) (\<lambda>k.
     sum_bind (string_field ''recipient_email'' kvs) (\<lambda>m.
     sum_bind (string_field ''email_hash'' kvs) (\<lambda>h.
     sum_bind (string_field ''repo'' kvs) (\<lambda>r.
     sum_bind (string_field ''tag'' kvs) (\<lambda>t.
     sum_bind (string_field ''message'' kvs) (\<lambda>b.
       Inr \<lparr>np_NotificationID = i, np_IdempotencyKey = k, np_RecipientEmail = m,
            np_EmailHash = h, np_Repo = r, np_Tag = t, np_Message = b\<rparr>)))))))"

definition decode_envelope ::
    "env \<Rightarrow> ((string \<times> json) list \<Rightarrow> goerr + 'p) \<Rightarrow> wire \<Rightarrow> goerr + 'p envelope" where
  "decode_envelope E dec v =
     (case v of
        None \<Rightarrow> Inl unmarshal_error
      | Some j \<Rightarrow>
          (case (if j = JNull then Some [] else as_object j) of
             None \<Rightarrow> Inl unmarshal_error
           | Some kvs \<Rightarrow>
               sum_bind (string_field ''event_id'' kvs) (\<lambda>i.
               sum_bind (string_field ''event_type'' kvs) (\<lambda>ty.
               sum_bind (time_field E ''occurred_at'' kvs) (\<lambda>t.
               sum_bind (string_field ''source'' kvs) (\<lambda>s.
               sum_bind (string_field ''correlation_id'' kvs) (\<lambda>c.
               sum_bind (time_pointer_field E ''not_before'' kvs) (\<lambda>nb.
               sum_bind (sum_bind (struct_field ''payload'' kvs) dec) (\<lambda>p.
                 Inr \<lparr>EventID = i, EventType = ty, OccurredAt = t, Source = s,
                      CorrelationID = c, NotBefore = nb, Payload = p\<rparr>)))))))))"

text \<open>A struct of its own in the body of a request or of a reply.\<close>

definition decode_struct :: "((string \<times> json) list \<Rightarrow> goerr + 'a) \<Rightarrow> wire \<Rightarrow> goerr + 'a" where
  "decode_struct dec body =
     (case body of
        None \<Rightarrow> Inl unmarshal_error
      | Some j \<Rightarrow> (case (if j = JNull then Some [] else as_object j) of
            None \<Rightarrow> Inl unmarshal_error
          | Some kvs \<Rightarrow> dec kvs))"

section \<open>Round trip\<close>

lemma sum_map_simps [simp]: "sum_map f (Inl e) = Inl e" "sum_map f (Inr a) = Inr (f a)"
  by (simp_all add: sum_map_def)

lemma sum_bind_simps [simp]: "sum_bind (Inl e) f = Inl e" "sum_bind (Inr a) f = f a"
  by (simp_all add: sum_bind_def)

text \<open>The only error of reading is that of \<open>json.Unmarshal\<close>.\<close>

lemma sum_map_error: "sum_map f r = Inl e \<Longrightarrow> r = Inl e"
  by (cases r) simp_all

lemma sum_bind_error: "sum_bind r f = Inl e \<Longrightarrow> r = Inl e \<or> (\<exists>a. r = Inr a \<and> f a = Inl e)"
  by (cases r) simp_all

lemma field_error:
  "string_field k kvs = Inl e \<Longrightarrow> e = unmarshal_error" "time_field E k kvs = Inl e \<Longrightarrow> e = unmarshal_error"
  "time_pointer_field E k kvs = Inl e \<Longrightarrow> e = unmarshal_error" "struct_field k kvs = Inl e \<Longrightarrow> e = unmarshal_error"
  by (auto simp: string_field_def time_field_def time_pointer_field_def struct_field_def typed_members_def
      dest!: sum_map_error split: if_splits)

lemma decode_release_error: "decode_release kvs = Inl e \<Longrightarrow> e = unmarshal_error"
  by (auto simp: decode_release_def dest!: sum_bind_error field_error)

lemma decode_error:
  assumes "\<And>kvs e. dec kvs = Inl e \<Longrightarrow> e = unmarshal_error" and "decode_envelope E dec v = Inl e"
  shows "e = unmarshal_error"
  using assms(2) by (auto simp: decode_envelope_def dest!: sum_bind_error field_error assms(1) split: option.splits)

lemma lower_char_simps [simp]:
  "lower_char CHR ''a'' = CHR ''a''" "lower_char CHR ''b'' = CHR ''b''"
  "lower_char CHR ''c'' = CHR ''c''" "lower_char CHR ''d'' = CHR ''d''"
  "lower_char CHR ''e'' = CHR ''e''" "lower_char CHR ''f'' = CHR ''f''"
  "lower_char CHR ''g'' = CHR ''g''" "lower_char CHR ''h'' = CHR ''h''"
  "lower_char CHR ''i'' = CHR ''i''" "lower_char CHR ''k'' = CHR ''k''"
  "lower_char CHR ''l'' = CHR ''l''" "lower_char CHR ''m'' = CHR ''m''"
  "lower_char CHR ''n'' = CHR ''n''" "lower_char CHR ''o'' = CHR ''o''"
  "lower_char CHR ''p'' = CHR ''p''" "lower_char CHR ''r'' = CHR ''r''"
  "lower_char CHR ''s'' = CHR ''s''" "lower_char CHR ''t'' = CHR ''t''"
  "lower_char CHR ''u'' = CHR ''u''" "lower_char CHR ''v'' = CHR ''v''"
  "lower_char CHR ''y'' = CHR ''y''" "lower_char CHR ''_'' = CHR ''_''"
  by (simp_all add: lower_char_def)

lemmas field_defs =
  string_field_def time_field_def time_pointer_field_def struct_field_def typed_members_def
  set_members_def members_def as_time_def as_time_pointer_def last_or_def

definition encodes_as :: "('p \<Rightarrow> json) \<Rightarrow> ((string \<times> json) list \<Rightarrow> goerr + 'p) \<Rightarrow> bool" where
  "encodes_as enc dec = (\<forall>p. \<exists>kvs. enc p = JObj kvs \<and> dec kvs = Inr p)"

lemma saga_codec: "encodes_as encode_saga decode_saga"
  by (simp add: encodes_as_def encode_saga_def decode_saga_def field_defs omitempty_def)

lemma command_codec: "encodes_as encode_command decode_command"
  by (simp add: encodes_as_def encode_command_def decode_command_def field_defs)

lemma ack_codec: "encodes_as encode_ack decode_ack"
  by (simp add: encodes_as_def encode_ack_def decode_ack_def field_defs omitempty_def)

lemma release_codec: "encodes_as encode_release decode_release"
  by (simp add: encodes_as_def encode_release_def decode_release_def field_defs)

lemma notification_codec: "encodes_as encode_notification decode_notification"
  by (simp add: encodes_as_def encode_notification_def decode_notification_def field_defs)

text \<open>The law of the time format: a text the encoder writes is read back as the same instant.\<close>

definition time_codec :: "env \<Rightarrow> bool" where
  "time_codec E = (\<forall>t s. time_text E t = Some s \<longrightarrow> time_parse E s = Some t)"

lemma envelope_round_trip:
  assumes "time_codec E" and "encodes_as enc dec"
    and "encode_envelope E (\<lambda>p. Inr (enc p)) ev = Inr j"
  shows "decode_envelope E dec (Some j) = Inr ev"
proof -
  obtain kvs where payload: "enc (Payload ev) = JObj kvs" "dec kvs = Inr (Payload ev)"
    using assms(2) by (auto simp: encodes_as_def)
  from assms(3) obtain t nb where t: "time_text E (OccurredAt ev) = Some t"
    and nb: "encode_not_before E (NotBefore ev) = Inr nb"
    and j: "j = JObj ([(''event_id'', JStr (EventID ev)), (''event_type'', JStr (EventType ev)),
        (''occurred_at'', JStr t), (''source'', JStr (Source ev)),
        (''correlation_id'', JStr (CorrelationID ev))] @ nb @ [(''payload'', JObj kvs)])"
    by (auto simp: encode_envelope_def payload split: option.splits sum.splits)
  have time: "time_parse E t = Some (OccurredAt ev)"
    using assms(1) t by (simp add: time_codec_def)
  show ?thesis
  proof (cases "NotBefore ev")
    case None
    with nb have "nb = []" by (simp add: encode_not_before_def)
    with None show ?thesis
      by (simp add: decode_envelope_def j field_defs time payload)
  next
    case (Some n)
    with nb obtain s where "nb = [(''not_before'', JStr s)]" and s: "time_text E n = Some s"
      by (auto simp: encode_not_before_def split: option.splits)
    moreover from assms(1) s have "time_parse E s = Some n"
      by (simp add: time_codec_def)
    ultimately show ?thesis using Some
      by (simp add: decode_envelope_def j field_defs time payload)
  qed
qed

end
