(* ===== verification/Demo_Env.thy ===== *)
theory Demo_Env
  imports Codec
begin

text \<open>
  A concrete environment: UUIDs are numbered, instants are written in decimal, no other
  session holds a row, and \<open>RETURNING\<close> keeps the order.  It shows
  that the laws the theorems ask of an environment can hold together, and the concrete runs
  use it.
\<close>

definition digit :: "nat \<Rightarrow> char" where
  "digit n = char_of (48 + n mod 10)"

fun dec_text :: "nat \<Rightarrow> string" where
  "dec_text n = (if n < 10 then [digit n] else dec_text (n div 10) @ [digit n])"

declare dec_text.simps [simp del]

definition dec_parse :: "string \<Rightarrow> nat" where
  "dec_parse s = foldl (\<lambda>a c. 10 * a + (of_char c - 48)) 0 s"

lemma of_char_digit [simp]: "(of_char (digit n) :: nat) = 48 + n mod 10"
proof -
  have "n mod 10 < 10" by simp
  then have "(48 + n mod 10) mod 256 = 48 + n mod 10"
    by (intro mod_less) linarith
  then show ?thesis by (simp add: digit_def)
qed

lemma dec_parse_text [simp]: "dec_parse (dec_text n) = n"
  by (induction n rule: dec_text.induct) (subst dec_text.simps, auto simp: dec_parse_def)

lemma inj_dec_text: "inj dec_text"
  by (metis dec_parse_text injI)

definition demo_env :: env where
  "demo_env = \<lparr>uuid_gen = (\<lambda>n. ''uuid-'' @ dec_text n), uuid_parses = (\<lambda>s. s \<noteq> ''''),
     uuid_validates = (\<lambda>s. s \<noteq> ''''),
     time_text = (\<lambda>t. if 0 \<le> t then Some (dec_text (nat t)) else None),
     time_parse = (\<lambda>s. Some (int (dec_parse s))),
     base64 = (\<lambda>v. ''base64''), row_locked = (\<lambda>_. False), returning = (\<lambda>ids. ids),
     unicode_lower = (\<lambda>s. s), unicode_trim = (\<lambda>s. s)\<rparr>"

lemma demo_env_sel [simp]:
  "uuid_gen demo_env n = ''uuid-'' @ dec_text n" "uuid_parses demo_env s = (s \<noteq> '''')"
  "uuid_validates demo_env s = (s \<noteq> '''')"
  "time_text demo_env t = (if 0 \<le> t then Some (dec_text (nat t)) else None)"
  "time_parse demo_env s = Some (int (dec_parse s))"
  "row_locked demo_env s = False" "returning demo_env ids = ids"
  "unicode_lower demo_env s = s" "unicode_trim demo_env s = s"
  by (simp_all add: demo_env_def)

lemma demo_time_codec: "time_codec demo_env"
  by (auto simp: time_codec_def split: if_splits)

text \<open>A world at a given database and time, in which nothing fails.\<close>

definition calm_world :: "'db \<Rightarrow> int \<Rightarrow> ('db, 'v) world" where
  "calm_world d t = \<lparr>w_db = d, w_tx = None, w_script = [], w_app_now = t, w_pg_now = t,
     w_uuids = 0, w_trace = []\<rparr>"

lemma calm_world_sel [simp]:
  "w_db (calm_world d t) = d" "w_tx (calm_world d t) = None" "w_script (calm_world d t) = []"
  "w_app_now (calm_world d t) = t" "w_pg_now (calm_world d t) = t"
  "w_uuids (calm_world d t) = 0" "w_trace (calm_world d t) = []"
  by (simp_all add: calm_world_def)

definition demo_release :: "release_payload envelope" where
  "demo_release = \<lparr>EventID = ''r1'', EventType = EventReleaseDetected, OccurredAt = 17,
     Source = ''scanner'', CorrelationID = ''c1'', NotBefore = Some 40,
     Payload = \<lparr>rp_Repo = ''golang/go'', rp_Tag = ''v1''\<rparr>\<rparr>"

end
