(* ===== verification/Outbox.thy ===== *)
theory Outbox
  imports Go_Logic Demo_Env
begin

text \<open>
  The transactional outbox of \<open>pkg/outbox/outbox.go\<close>: the table \<open>outbox_events\<close>, insertion
  inside a caller's transaction, and the three operations of the relay's store.  The table is
  a field of \<open>outbox_db\<close>; the database of a service extends that record with its own tables,
  as each service runs the outbox migration on its own database.
\<close>

record outbox_event =
  ob_EventID :: string
  ob_EventType :: string
  ob_OccurredAt :: int
  ob_Source :: string
  ob_CorrelationID :: string
  ob_Topic :: string
  ob_KafkaKey :: string
  ob_Payload :: wire
  ob_PublishedAt :: "int option"
  ob_LockedUntil :: "int option"
  ob_PublishAttempts :: int
  ob_LastError :: "string option"

record outbox_db =
  outbox_events :: "outbox_event list"

text \<open>A row as \<open>INSERT\<close> leaves it: the last four columns have their defaults.\<close>

definition new_event ::
    "string \<Rightarrow> string \<Rightarrow> int \<Rightarrow> string \<Rightarrow> string \<Rightarrow> string \<Rightarrow> string \<Rightarrow> wire \<Rightarrow> outbox_event" where
  "new_event i ty t src c topic key v =
     \<lparr>ob_EventID = i, ob_EventType = ty, ob_OccurredAt = t, ob_Source = src,
      ob_CorrelationID = c, ob_Topic = topic, ob_KafkaKey = key, ob_Payload = v,
      ob_PublishedAt = None, ob_LockedUntil = None, ob_PublishAttempts = 0, ob_LastError = None\<rparr>"

lemma new_event_sel [simp]:
  "ob_EventID (new_event i ty t src c topic key v) = i"
  "ob_EventType (new_event i ty t src c topic key v) = ty"
  "ob_OccurredAt (new_event i ty t src c topic key v) = t"
  "ob_Source (new_event i ty t src c topic key v) = src"
  "ob_CorrelationID (new_event i ty t src c topic key v) = c"
  "ob_Topic (new_event i ty t src c topic key v) = topic"
  "ob_KafkaKey (new_event i ty t src c topic key v) = key"
  "ob_Payload (new_event i ty t src c topic key v) = v"
  "ob_PublishedAt (new_event i ty t src c topic key v) = None"
  "ob_LockedUntil (new_event i ty t src c topic key v) = None"
  "ob_PublishAttempts (new_event i ty t src c topic key v) = 0"
  "ob_LastError (new_event i ty t src c topic key v) = None"
  by (simp_all add: new_event_def)

section \<open>Insertion\<close>

definition add_event :: "outbox_event \<Rightarrow> outbox_event list \<Rightarrow> outbox_event list" where
  "add_event e rows = (if ob_EventID e \<in> ob_EventID ` set rows then rows else rows @ [e])"

definition sql_insert_outbox :: "outbox_event \<Rightarrow> ('d outbox_db_scheme, nat) sql" where
  "sql_insert_outbox e = (\<lambda>d now.
     Inr (if ob_EventID e \<in> ob_EventID ` set (outbox_events d) then 0 else 1,
          d\<lparr>outbox_events := add_event e (outbox_events d)\<rparr>))"

definition invalid_json :: goerr where
  "invalid_json = Plain ''outbox payload must be valid JSON''"

definition InsertTx :: "outbox_event \<Rightarrow> ('d outbox_db_scheme, wire, unit) go" where
  "InsertTx e0 =
     bnd (if ob_OccurredAt e0 = zero_time
          then bnd app_clock (\<lambda>now. ret (e0\<lparr>ob_OccurredAt := now\<rparr>)) else ret e0) (\<lambda>e.
     if ob_Payload e = None then raise invalid_json
     else bnd (annot (errorf ''insert outbox event: '')
                 (tx_stmt (sql_insert_outbox
                    (new_event (ob_EventID e) (ob_EventType e) (ob_OccurredAt e) (ob_Source e)
                       (ob_CorrelationID e) (ob_Topic e) (ob_KafkaKey e) (ob_Payload e)))))
            (\<lambda>_. ret ()))"

section \<open>The relay's store\<close>

definition lock_time :: int where
  "lock_time = 30 * second_ns"

definition fetchable :: "env \<Rightarrow> int \<Rightarrow> outbox_event \<Rightarrow> bool" where
  "fetchable E now r =
     (ob_PublishedAt r = None \<and>
      (case ob_LockedUntil r of None \<Rightarrow> True | Some t \<Rightarrow> t < now) \<and>
      \<not> row_locked E (ob_EventID r))"

definition outbox_order :: "outbox_event \<Rightarrow> order_by" where
  "outbox_order r = OrderBy (ob_OccurredAt r) 0 (ob_EventID r)"

definition candidates :: "env \<Rightarrow> nat \<Rightarrow> int \<Rightarrow> outbox_event list \<Rightarrow> outbox_event list" where
  "candidates E n now rows = select_where outbox_order n (fetchable E now) rows"

definition lock_rows :: "string set \<Rightarrow> int \<Rightarrow> outbox_event list \<Rightarrow> outbox_event list" where
  "lock_rows ids now rows =
     update_where (\<lambda>r. ob_EventID r \<in> ids) (\<lambda>r. r\<lparr>ob_LockedUntil := Some (now + lock_time)\<rparr>) rows"

definition sql_fetch :: "env \<Rightarrow> nat \<Rightarrow> ('d outbox_db_scheme, outbox_event list) sql" where
  "sql_fetch E n = (\<lambda>d now.
     let ids = map ob_EventID (candidates E n now (outbox_events d));
         rows = lock_rows (set ids) now (outbox_events d)
     in Inr (List.map_filter (lookup_row ob_EventID rows) (returning E ids),
             d\<lparr>outbox_events := rows\<rparr>))"

definition FetchUnpublished :: "env \<Rightarrow> nat \<Rightarrow> ('d outbox_db_scheme, wire, outbox_event list) go" where
  "FetchUnpublished E n = annot (errorf ''fetch unpublished outbox events: '') (pool_stmt (sql_fetch E n))"

definition published_row :: "int \<Rightarrow> outbox_event \<Rightarrow> outbox_event" where
  "published_row now r = r\<lparr>ob_PublishedAt := Some now, ob_LockedUntil := None, ob_LastError := None\<rparr>"

definition sql_mark_published :: "string \<Rightarrow> ('d outbox_db_scheme, unit) sql" where
  "sql_mark_published i = (\<lambda>d now. Inr ((), d\<lparr>outbox_events :=
     update_where (\<lambda>r. ob_EventID r = i) (published_row now) (outbox_events d)\<rparr>))"

definition MarkPublished :: "string \<Rightarrow> ('d outbox_db_scheme, wire, unit) go" where
  "MarkPublished i = annot (errorf ''mark outbox event published: '') (pool_stmt (sql_mark_published i))"

definition sql_mark_failed :: "string \<Rightarrow> string \<Rightarrow> ('d outbox_db_scheme, unit) sql" where
  "sql_mark_failed i msg = (\<lambda>d now. Inr ((), d\<lparr>outbox_events :=
     update_where (\<lambda>r. ob_EventID r = i)
       (\<lambda>r. r\<lparr>ob_PublishAttempts := ob_PublishAttempts r + 1, ob_LockedUntil := None,
              ob_LastError := Some msg\<rparr>)
       (outbox_events d)\<rparr>))"

definition MarkFailed :: "string \<Rightarrow> goerr option \<Rightarrow> ('d outbox_db_scheme, wire, unit) go" where
  "MarkFailed i cause =
     (let message = (case cause of None \<Rightarrow> '''' | Some e \<Rightarrow> err_text e)
      in annot (errorf ''mark outbox event failed: '') (pool_stmt (sql_mark_failed i message)))"

section \<open>Rows\<close>

lemma keyed_add_event [table_simps]:
  "keyed ob_EventID rows \<Longrightarrow> keyed ob_EventID (add_event e rows)"
  by (auto simp: add_event_def keyed_append_row rev_image_eqI)

lemma set_add_event: "set rows \<subseteq> set (add_event e rows)"
  by (auto simp: add_event_def)

lemma add_event_fresh:
  "ob_EventID e \<notin> ob_EventID ` set rows \<Longrightarrow> add_event e rows = rows @ [e]"
  by (simp add: add_event_def)

text \<open>What \<open>InsertTx\<close> does to the transaction it runs in.\<close>

lemma wp_InsertTx [wp_simps]:
  "wp (InsertTx e) Q R w =
     (let e' = (if ob_OccurredAt e = zero_time then e\<lparr>ob_OccurredAt := w_app_now w\<rparr> else e) in
      if ob_Payload e = None then R invalid_json w
      else wp (tx_stmt (sql_insert_outbox
             (new_event (ob_EventID e) (ob_EventType e) (ob_OccurredAt e') (ob_Source e)
                (ob_CorrelationID e) (ob_Topic e) (ob_KafkaKey e) (ob_Payload e))))
             (\<lambda>_. Q ()) (\<lambda>x. R (errorf ''insert outbox event: '' x)) w)"
  by (simp add: InsertTx_def Let_def wp_bnd wp_if wp_ret wp_raise wp_app_clock wp_annot)

lemma sql_insert_outbox_apply [wp_simps]:
  "sql_insert_outbox e d now =
     Inr (if ob_EventID e \<in> ob_EventID ` set (outbox_events d) then 0 else 1,
          d\<lparr>outbox_events := add_event e (outbox_events d)\<rparr>)"
  by (simp add: sql_insert_outbox_def)

section \<open>Fetching\<close>

lemma candidatesD:
  "r \<in> set (candidates E n now rows) \<Longrightarrow> r \<in> set rows \<and> fetchable E now r"
  by (auto simp: candidates_def dest: select_whereD)

lemma length_candidates: "length (candidates E n now rows) = min n (affected (fetchable E now) rows)"
  by (simp add: candidates_def length_select_where)

lemma keyed_lock_rows [table_simps]:
  "keyed ob_EventID rows \<Longrightarrow> keyed ob_EventID (lock_rows ids now rows)"
  by (auto simp: lock_rows_def intro: keyed_update_where)

lemma map_id_lock_rows [simp]: "map ob_EventID (lock_rows ids now rows) = map ob_EventID rows"
  by (simp add: lock_rows_def map_update_where_same)

text \<open>The rows a fetch returns are exactly the candidates, locked.\<close>

lemma set_map_filter: "set (List.map_filter f xs) = {y. \<exists>x \<in> set xs. f x = Some y}"
  by (force simp: List.map_filter_def)

lemma set_map_filter_lookup:
  assumes "keyed k rows"
  shows "set (List.map_filter (lookup_row k rows) ids) = {r \<in> set rows. k r \<in> set ids}"
  using lookup_row_keyed[OF assms]
  by (auto simp: set_map_filter dest: lookup_row_SomeD)

definition returning_permutes :: "env \<Rightarrow> bool" where
  "returning_permutes E = (\<forall>ids. mset (returning E ids) = mset ids)"

lemma fetched_rows:
  assumes "keyed ob_EventID rows" and "returning_permutes E"
    and ids_def: "ids = map ob_EventID (candidates E n now rows)"
  shows "set (List.map_filter (lookup_row ob_EventID (lock_rows (set ids) now rows)) (returning E ids))
           = (\<lambda>r. r\<lparr>ob_LockedUntil := Some (now + lock_time)\<rparr>) ` set (candidates E n now rows)"
    (is "?fetched = ?locked")
proof -
  have perm: "set (returning E ids) = set ids"
    using assms(2) by (metis returning_permutes_def set_mset_mset)
  have sub: "set ids \<subseteq> ob_EventID ` set rows"
    by (auto simp: ids_def dest: candidatesD)
  have "ob_EventID ` set (lock_rows (set ids) now rows) = ob_EventID ` set rows"
    by (metis map_id_lock_rows list.set_map)
  with sub perm have "?fetched = {r \<in> set (lock_rows (set ids) now rows). ob_EventID r \<in> set ids}"
    by (subst set_map_filter_lookup) (auto simp: assms(1) table_simps)
  also have "\<dots> = (\<lambda>r. r\<lparr>ob_LockedUntil := Some (now + lock_time)\<rparr>) ` {r \<in> set rows. ob_EventID r \<in> set ids}"
    by (auto simp: lock_rows_def set_update_where split: if_splits)
  also have "{r \<in> set rows. ob_EventID r \<in> set ids} = set (candidates E n now rows)"
  proof
    show "{r \<in> set rows. ob_EventID r \<in> set ids} \<subseteq> set (candidates E n now rows)"
    proof
      fix r assume "r \<in> {r \<in> set rows. ob_EventID r \<in> set ids}"
      then obtain c where "c \<in> set (candidates E n now rows)" "ob_EventID c = ob_EventID r" "r \<in> set rows"
        by (auto simp: ids_def)
      with assms(1) candidatesD[of c] have "c = r"
        using keyedD[of ob_EventID rows c r] by blast
      with \<open>c \<in> set (candidates E n now rows)\<close> show "r \<in> set (candidates E n now rows)"
        by simp
    qed
  qed (auto simp: ids_def dest: candidatesD)
  finally show ?thesis .
qed

section \<open>Weakest preconditions of the store\<close>

definition fetched :: "env \<Rightarrow> nat \<Rightarrow> int \<Rightarrow> outbox_event list \<Rightarrow> outbox_event list" where
  "fetched E n now rows =
     (let ids = map ob_EventID (candidates E n now rows)
      in List.map_filter (lookup_row ob_EventID (lock_rows (set ids) now rows)) (returning E ids))"

definition after_fetch :: "env \<Rightarrow> nat \<Rightarrow> int \<Rightarrow> outbox_event list \<Rightarrow> outbox_event list" where
  "after_fetch E n now rows = lock_rows (ob_EventID ` set (candidates E n now rows)) now rows"

lemma sql_fetch_apply [wp_simps]:
  "sql_fetch E n d now =
     Inr (fetched E n now (outbox_events d), d\<lparr>outbox_events := after_fetch E n now (outbox_events d)\<rparr>)"
  by (simp add: sql_fetch_def fetched_def after_fetch_def Let_def)

lemma set_fetched:
  assumes "keyed ob_EventID rows" and "returning_permutes E"
  shows "set (fetched E n now rows)
    = (\<lambda>r. r\<lparr>ob_LockedUntil := Some (now + lock_time)\<rparr>) ` set (candidates E n now rows)"
  unfolding fetched_def Let_def by (rule fetched_rows[OF assms refl])

lemma fetched_in_table: "e \<in> set (fetched E n now rows) \<Longrightarrow> e \<in> set (after_fetch E n now rows)"
  by (auto simp: fetched_def after_fetch_def Let_def set_map_filter dest!: lookup_row_SomeD)

lemma keyed_after_fetch [table_simps]:
  "keyed ob_EventID rows \<Longrightarrow> keyed ob_EventID (after_fetch E n now rows)"
  by (simp add: after_fetch_def keyed_lock_rows)

lemma length_map_filter: "\<forall>x \<in> set xs. f x \<noteq> None \<Longrightarrow> length (List.map_filter f xs) = length xs"
  by (induction xs) (auto simp: List.map_filter_def)

lemma length_fetched:
  assumes "returning_permutes E"
  shows "length (fetched E n now rows) = length (candidates E n now rows)"
proof -
  let ?ids = "map ob_EventID (candidates E n now rows)"
  have perm: "mset (returning E ?ids) = mset ?ids"
    using assms by (simp add: returning_permutes_def)
  have "lookup_row ob_EventID (lock_rows (set ?ids) now rows) i \<noteq> None" if "i \<in> set (returning E ?ids)" for i
  proof -
    from that perm have "i \<in> set ?ids" by (metis set_mset_mset)
    then have "i \<in> set (map ob_EventID rows)" by (auto dest: candidatesD)
    then have "i \<in> set (map ob_EventID (lock_rows (set ?ids) now rows))"
      by (simp only: map_id_lock_rows)
    then obtain r where "r \<in> set (lock_rows (set ?ids) now rows)" "ob_EventID r = i"
      by (metis imageE list.set_map)
    then show ?thesis by (auto simp: lookup_row_None)
  qed
  then have "length (fetched E n now rows) = length (returning E ?ids)"
    unfolding fetched_def Let_def by (intro length_map_filter) blast
  also have "\<dots> = length ?ids"
    using perm by (metis size_mset)
  finally show ?thesis by simp
qed

lemmas store_ops = FetchUnpublished_def MarkPublished_def MarkFailed_def
  sql_mark_published_def sql_mark_failed_def

lemma fetch_result:
  assumes "FetchUnpublished E n w = (Inr evs, w')"
  shows "evs = fetched E n (w_pg_now w) (outbox_events (w_db w)) \<and>
    outbox_events (w_db w') = after_fetch E n (w_pg_now w) (outbox_events (w_db w)) \<and>
    w_pg_now w' = w_pg_now w \<and> w_trace w' = w_trace w"
  using assms
  by (rule run_okD) (simp add: FetchUnpublished_def wp_simps split: call_outcome.splits)

subsection \<open>Leases\<close>

text \<open>
  What happens to the table between two fetches: events are added by the transactions of the
  service, and relays fetch batches and mark events, in any order and with any failures.
\<close>

datatype store_op =
    Enqueue outbox_event
  | Fetch env nat
  | Publish_Mark string
  | Fail_Mark string "goerr option"

definition store_exec :: "store_op \<Rightarrow> ('d outbox_db_scheme, wire, unit) go" where
  "store_exec op =
     (case op of
        Enqueue e \<Rightarrow> with_tx (\<lambda>x. x) (bnd (InsertTx e) (\<lambda>_. commit_tx))
      | Fetch E n \<Rightarrow> bnd (FetchUnpublished E n) (\<lambda>_. ret ())
      | Publish_Mark i \<Rightarrow> MarkPublished i
      | Fail_Mark i cause \<Rightarrow> MarkFailed i cause)"

text \<open>Each operation runs at its clock readings; an error of one does not stop the others.\<close>

fun store_run ::
    "((int \<times> int) \<times> store_op) list \<Rightarrow> ('d outbox_db_scheme, wire) world \<Rightarrow> ('d outbox_db_scheme, wire) world" where
  "store_run [] w = w"
| "store_run ((t, op) # hs) w = store_run hs (snd (bnd (at_clocks t) (\<lambda>_. store_exec op) w))"

text \<open>The event \<open>i\<close> is published, or leased until \<open>t\<close>.\<close>

definition leased :: "string \<Rightarrow> int \<Rightarrow> 'd outbox_db_scheme \<Rightarrow> bool" where
  "leased i t d = (keyed ob_EventID (outbox_events d) \<and> i \<in> ob_EventID ` set (outbox_events d) \<and>
     (\<forall>r \<in> set (outbox_events d). ob_EventID r = i \<longrightarrow> ob_PublishedAt r \<noteq> None \<or> ob_LockedUntil r = Some t))"

definition store_op_ok :: "string \<Rightarrow> store_op \<Rightarrow> bool" where
  "store_op_ok i op = (case op of Fetch E n \<Rightarrow> returning_permutes E | Fail_Mark j _ \<Rightarrow> j \<noteq> i | _ \<Rightarrow> True)"

lemma leased_not_candidate:
  assumes "leased i t d" and "now \<le> t"
  shows "i \<notin> ob_EventID ` set (candidates E n now (outbox_events d))"
  using assms by (auto simp: leased_def fetchable_def dest!: candidatesD)

lemma leased_fetch:
  assumes "leased i t d" and "now \<le> t"
  shows "leased i t (d\<lparr>outbox_events := after_fetch E n now (outbox_events d)\<rparr>)"
proof -
  have "ob_EventID ` set (after_fetch E n now (outbox_events d)) = ob_EventID ` set (outbox_events d)"
    unfolding after_fetch_def by (metis map_id_lock_rows list.set_map)
  moreover have "keyed ob_EventID (after_fetch E n now (outbox_events d))"
    using assms(1) by (simp add: leased_def keyed_after_fetch)
  moreover have "r \<in> set (outbox_events d)" if "r \<in> set (after_fetch E n now (outbox_events d))" "ob_EventID r = i" for r
    using that leased_not_candidate[OF assms, of E n]
    by (auto simp: after_fetch_def lock_rows_def set_update_where split: if_splits)
  ultimately show ?thesis using assms(1) by (auto simp: leased_def)
qed

lemma leased_mark:
  assumes "leased i t d" and "\<And>r. ob_EventID (f r) = ob_EventID r"
    and "j = i \<Longrightarrow> \<forall>r. ob_PublishedAt (f r) \<noteq> None"
  shows "leased i t (d\<lparr>outbox_events := update_where (\<lambda>r. ob_EventID r = j) f (outbox_events d)\<rparr>)"
proof -
  let ?rows = "update_where (\<lambda>r. ob_EventID r = j) f (outbox_events d)"
  have "map ob_EventID ?rows = map ob_EventID (outbox_events d)"
    using assms(2) by (simp add: map_update_where_same)
  then have "ob_EventID ` set ?rows = ob_EventID ` set (outbox_events d)" by (metis list.set_map)
  with assms show ?thesis
    by (auto simp: leased_def set_update_where keyed_update_where split: if_splits)
qed

lemma leased_add:
  assumes "leased i t d"
  shows "leased i t (d\<lparr>outbox_events := add_event e (outbox_events d)\<rparr>)"
  using assms by (auto simp: leased_def keyed_add_event) (auto simp: add_event_def split: if_splits)

lemma store_exec_leased:
  fixes w :: "('d outbox_db_scheme, wire) world"
  assumes "leased i t (w_db w)" and "w_pg_now w \<le> t" and "store_op_ok i op"
  shows "leased i t (w_db (snd (store_exec op w)))"
proof -
  have "wp (store_exec op) (\<lambda>_ w'. leased i t (w_db w')) (\<lambda>_ w'. leased i t (w_db w')) w"
  proof (cases op)
    case (Enqueue e)
    then show ?thesis
      using assms(1) leased_add[OF assms(1)]
      by (simp add: store_exec_def wp_simps split: call_outcome.splits)
  next
    case (Fetch E n)
    then show ?thesis
      using assms(1) leased_fetch[OF assms(1,2)]
      by (simp add: store_exec_def FetchUnpublished_def wp_simps split: call_outcome.splits)
  next
    case (Publish_Mark j)
    then show ?thesis
      using assms(1) leased_mark[OF assms(1), of "published_row (w_pg_now w)" j]
      by (simp add: store_exec_def MarkPublished_def sql_mark_published_def published_row_def wp_simps split: call_outcome.splits)
  next
    case (Fail_Mark j c)
    then show ?thesis
      using assms(1,3) leased_mark[OF assms(1), of _ j]
      by (simp add: store_exec_def store_op_ok_def MarkFailed_def sql_mark_failed_def Let_def wp_simps split: call_outcome.splits)
  qed
  then show ?thesis by (simp add: wp_def split: sum.splits prod.splits)
qed

lemma store_run_leased:
  assumes "leased i t (w_db w)" and "\<forall>(at, op) \<in> set hs. snd at \<le> t \<and> store_op_ok i op"
  shows "leased i t (w_db (store_run hs w))"
  using assms
proof (induction hs arbitrary: w)
  case (Cons h hs)
  obtain at op where h: "h = (at, op)" by (cases h)
  let ?w = "w\<lparr>w_app_now := fst at, w_pg_now := snd at\<rparr>"
  have "leased i t (w_db (snd (store_exec op ?w)))"
    using Cons.prems h by (intro store_exec_leased) auto
  with Cons.IH Cons.prems(2) show ?case by (simp add: h bnd_def at_clocks_def)
qed simp

text \<open>
  C27. Lease: once a fetch has returned an event, no other fetch returns it while thirty seconds
  of the database's clock have not passed, whatever is done to the table between the two: events
  added, other batches fetched by this relay or another one, events marked published, and other
  events marked failed.  The lease ends earlier only when the event itself is marked failed, which
  frees it at once; so the statement is about an event that is not.  And a fetch returns
  at most its limit, only unpublished events whose lease has run out.
\<close>

theorem fetch_leases_are_exclusive:
  fixes w :: "('d outbox_db_scheme, wire) world"
  assumes "keyed ob_EventID (outbox_events (w_db w))" and "returning_permutes E"
    and "FetchUnpublished E n w = (Inr evs, w1)"
    and "\<forall>(at, op) \<in> set hs. snd at \<le> w_pg_now w + 30 * second_ns \<and>
      (\<forall>E2 m. op = Fetch E2 m \<longrightarrow> returning_permutes E2)"
    and "w_db w2 = w_db (store_run hs w1)" and "w_pg_now w2 \<le> w_pg_now w + 30 * second_ns"
    and "returning_permutes E2" and "FetchUnpublished E2 m w2 = (Inr evs2, w3)"
  shows "(\<forall>e \<in> set evs. ob_EventID e \<in> ob_EventID ` set evs2 \<longrightarrow> (\<exists>at c. (at, Fail_Mark (ob_EventID e) c) \<in> set hs)) \<and>
    (\<forall>e \<in> set evs. \<forall>c. w_script w1 = [] \<longrightarrow> (\<exists>w4. MarkFailed (ob_EventID e) c w1 = (Inr (), w4) \<and>
       (\<exists>r \<in> set (outbox_events (w_db w4)). ob_EventID r = ob_EventID e \<and> ob_PublishedAt r = None \<and> ob_LockedUntil r = None))) \<and>
    card (ob_EventID ` set evs) \<le> n \<and>
    (\<forall>e \<in> set evs. \<exists>r \<in> set (outbox_events (w_db w)). ob_EventID r = ob_EventID e \<and>
       ob_PublishedAt r = None \<and> (\<forall>t. ob_LockedUntil r = Some t \<longrightarrow> t < w_pg_now w))"
proof (intro conjI ballI impI allI)
  let ?rows = "outbox_events (w_db w)" and ?now = "w_pg_now w"
  let ?t = "?now + lock_time"
  note first = fetch_result[OF assms(3)] and second = fetch_result[OF assms(8)]
  have set1: "set evs = (\<lambda>r. r\<lparr>ob_LockedUntil := Some ?t\<rparr>) ` set (candidates E n ?now ?rows)"
    using first set_fetched[OF assms(1,2)] by simp
  have keyed1: "keyed ob_EventID (outbox_events (w_db w1))"
    using first keyed_after_fetch[OF assms(1)] by simp
  have row1: "e \<in> set (outbox_events (w_db w1)) \<and> ob_LockedUntil e = Some ?t \<and> ob_PublishedAt e = None" if "e \<in> set evs" for e
    using that first set1 fetched_in_table by (fastforce simp: fetchable_def dest: candidatesD)
  show "card (ob_EventID ` set evs) \<le> n"
  proof -
    have "ob_EventID ` set evs = set (map ob_EventID (candidates E n ?now ?rows))"
      by (simp add: set1 image_image)
    then have "card (ob_EventID ` set evs) \<le> length (candidates E n ?now ?rows)"
      by (metis card_length length_map)
    then show ?thesis by (simp add: length_candidates)
  qed
  fix e assume e: "e \<in> set evs"
  show "\<exists>r \<in> set ?rows. ob_EventID r = ob_EventID e \<and>
      ob_PublishedAt r = None \<and> (\<forall>t. ob_LockedUntil r = Some t \<longrightarrow> t < ?now)"
    using e by (force simp: set1 fetchable_def dest: candidatesD)
  show "\<exists>at c. (at, Fail_Mark (ob_EventID e) c) \<in> set hs" if again: "ob_EventID e \<in> ob_EventID ` set evs2"
  proof (rule ccontr)
    assume none: "\<not> ?thesis"
    have "leased (ob_EventID e) ?t (w_db w1)"
      using row1[OF e] keyed1 by (auto simp: leased_def dest: keyedD)
    then have lease: "leased (ob_EventID e) ?t (w_db w2)"
      unfolding assms(5) using assms(4) none
      by (intro store_run_leased) (auto simp: store_op_ok_def lock_time_def split: store_op.splits)
    then have keyed2: "keyed ob_EventID (outbox_events (w_db w2))" by (simp add: leased_def)
    have "ob_EventID ` set evs2 = ob_EventID ` set (candidates E2 m (w_pg_now w2) (outbox_events (w_db w2)))"
      using second set_fetched[OF keyed2 assms(7)] by (simp add: image_image)
    with again leased_not_candidate[OF lease, of "w_pg_now w2" E2 m] assms(6) show False
      by (simp add: lock_time_def)
  qed
  fix c assume calm: "w_script w1 = []"
  let ?f = "\<lambda>r. r\<lparr>ob_PublishAttempts := ob_PublishAttempts r + 1, ob_LockedUntil := None,
    ob_LastError := Some (case c of None \<Rightarrow> '''' | Some x \<Rightarrow> err_text x)\<rparr>"
  let ?rows1 = "update_where (\<lambda>r. ob_EventID r = ob_EventID e) ?f (outbox_events (w_db w1))"
  have run: "MarkFailed (ob_EventID e) c w1 = (Inr (), w1\<lparr>w_db := (w_db w1)\<lparr>outbox_events := ?rows1\<rparr>\<rparr>)"
    using calm by (simp add: MarkFailed_def sql_mark_failed_def Let_def exec_simps)
  have "?f e \<in> set ?rows1" using row1[OF e] by (auto simp: set_update_where)
  then show "\<exists>w4. MarkFailed (ob_EventID e) c w1 = (Inr (), w4) \<and>
      (\<exists>r \<in> set (outbox_events (w_db w4)). ob_EventID r = ob_EventID e \<and> ob_PublishedAt r = None \<and> ob_LockedUntil r = None)"
    using row1[OF e]
    by (intro exI[of _ "w1\<lparr>w_db := (w_db w1)\<lparr>outbox_events := ?rows1\<rparr>\<rparr>"] conjI run bexI[of _ "?f e"]) simp_all
qed

definition demo_row :: "string \<Rightarrow> int \<Rightarrow> outbox_event" where
  "demo_row i t = new_event i EventReleaseDetected t ''scanner'' ''c1'' TopicReleaseEvents
     ''golang/go'' (Some (JObj []))"

definition demo_outbox :: outbox_db where
  "demo_outbox = \<lparr>outbox_events = [demo_row ''e1'' 7, demo_row ''e2'' 5]\<rparr>"

lemma demo_outbox_facts:
  "keyed ob_EventID (outbox_events demo_outbox)" "returning_permutes demo_env"
  "\<forall>e \<in> set (outbox_events demo_outbox). ob_PublishedAt e = None"
  by (simp_all add: demo_outbox_def demo_row_def keyed_def returning_permutes_def)

lemma run_FetchUnpublished [exec_simps]:
  "w_script w = [] \<Longrightarrow> FetchUnpublished E n w =
     (Inr (fetched E n (w_pg_now w) (outbox_events (w_db w))),
      w\<lparr>w_db := (w_db w)\<lparr>outbox_events := after_fetch E n (w_pg_now w) (outbox_events (w_db w))\<rparr>\<rparr>)"
  by (simp add: FetchUnpublished_def exec_simps sql_fetch_apply)

text \<open>
  Two events; the first fetch takes one of them.  Another relay takes the second one and marks it
  failed, and a third event is added; the next fetch returns the second and the third.
\<close>

definition demo_between :: "((int \<times> int) \<times> store_op) list" where
  "demo_between = [((12, 12), Fetch demo_env 1), ((13, 13), Fail_Mark ''e1'' None), ((14, 14), Enqueue (demo_row ''e3'' 9))]"

theorem fetch_leases_witness:
  "\<exists>w1 e. FetchUnpublished demo_env 1 (calm_world demo_outbox 10) = (Inr [e], w1) \<and> ob_EventID e = ''e2'' \<and>
     (\<exists>evs2 w3. FetchUnpublished demo_env 5 (store_run demo_between w1) = (Inr evs2, w3) \<and> evs2 \<noteq> [] \<and>
        ''e2'' \<notin> ob_EventID ` set evs2)"
proof -
  let ?w = "calm_world demo_outbox 10 :: (outbox_db, wire) world"
  define w1 where "w1 = snd (FetchUnpublished demo_env 1 ?w)"
  let ?w2 = "store_run demo_between w1"
  let ?locked = "\<lambda>now r. r\<lparr>ob_LockedUntil := Some (now + lock_time)\<rparr>"
  note fetch_defs = demo_outbox_def fetched_def after_fetch_def Let_def candidates_def select_where_def fetchable_def
    demo_row_def outbox_order_def less_order_by_def lock_rows_def lock_time_def second_ns_def
  have w1: "FetchUnpublished demo_env 1 ?w = (Inr [?locked 10 (demo_row ''e2'' 5)], w1)"
    "w1 = calm_world (demo_outbox\<lparr>outbox_events := [demo_row ''e1'' 7, ?locked 10 (demo_row ''e2'' 5)]\<rparr>) 10"
    unfolding w1_def by (simp_all add: run_FetchUnpublished fetch_defs)
  let ?failed = "(demo_row ''e1'' 7)\<lparr>ob_PublishAttempts := 1, ob_LastError := Some []\<rparr>"
  let ?at = "\<lambda>rows. calm_world (demo_outbox\<lparr>outbox_events := rows\<rparr>)"
  have fetch_step: "snd (bnd (at_clocks (12, 12)) (\<lambda>_. store_exec (Fetch demo_env 1))
      (?at [demo_row ''e1'' 7, ?locked 10 (demo_row ''e2'' 5)] 10)) =
      ?at [?locked 12 (demo_row ''e1'' 7), ?locked 10 (demo_row ''e2'' 5)] 12"
    by (simp add: store_exec_def run_FetchUnpublished exec_simps at_clocks_def calm_world_def fetch_defs)
  have mark_step: "snd (bnd (at_clocks (13, 13)) (\<lambda>_. store_exec (Fail_Mark ''e1'' None))
      (?at [?locked 12 (demo_row ''e1'' 7), ?locked 10 (demo_row ''e2'' 5)] 12)) =
      ?at [?failed, ?locked 10 (demo_row ''e2'' 5)] 13"
    by (simp add: store_exec_def store_ops exec_simps at_clocks_def calm_world_def fetch_defs new_event_def)
  have enqueue_step: "snd (bnd (at_clocks (14, 14)) (\<lambda>_. store_exec (Enqueue (demo_row ''e3'' 9)))
      (?at [?failed, ?locked 10 (demo_row ''e2'' 5)] 13)) = ?at [?failed, ?locked 10 (demo_row ''e2'' 5), demo_row ''e3'' 9] 14"
    by (simp add: store_exec_def InsertTx_def sql_insert_outbox_apply exec_simps at_clocks_def calm_world_def
       demo_outbox_def demo_row_def zero_time_def add_event_def)
  let ?rows2 = "[?failed, ?locked 10 (demo_row ''e2'' 5), demo_row ''e3'' 9]"
  have w2: "?w2 = calm_world (demo_outbox\<lparr>outbox_events := ?rows2\<rparr>) 14"
    unfolding w1(2)
    by (simp only: demo_between_def store_run.simps fetch_step mark_step enqueue_step)
  let ?evs2 = "fetched demo_env 5 14 ?rows2"
  obtain w3 where w3: "FetchUnpublished demo_env 5 ?w2 = (Inr ?evs2, w3)"
    unfolding w2 by (simp add: run_FetchUnpublished)
  have hs: "\<forall>(at, op) \<in> set demo_between. snd at \<le> w_pg_now ?w + 30 * second_ns \<and>
      (\<forall>E2 m. op = Fetch E2 m \<longrightarrow> returning_permutes E2)"
    by (simp add: demo_between_def second_ns_def demo_outbox_facts)
  have "''e2'' \<notin> ob_EventID ` set ?evs2"
    using fetch_leases_are_exclusive[OF _ _ w1(1) hs refl _ _ w3]
    by (simp add: demo_outbox_facts w2 second_ns_def) (simp add: demo_between_def demo_row_def)
  moreover have "?evs2 \<noteq> []"
    unfolding length_0_conv[symmetric]
    by (simp add: length_fetched demo_outbox_facts length_candidates affected_def fetchable_def demo_row_def)
  ultimately show ?thesis using w1(1) w3 by (auto simp: demo_row_def)
qed

end
