(* ===== verification/Relay.thy ===== *)
theory Relay
  imports Outbox
begin

text \<open>
  The outbox relay of \<open>pkg/outbox/relay.go\<close>.  Go's interfaces \<open>Store\<close> and \<open>Publisher\<close>
  are a record of operations and a function; the locale \<open>outbox_relay\<close> states the laws the
  relay relies on and proves what a batch does under them, and the interpretation at the end
  discharges them for the repository and the Kafka producer.
\<close>

record 'db store =
  st_FetchUnpublished :: "nat \<Rightarrow> ('db, wire, outbox_event list) go"
  st_MarkPublished :: "string \<Rightarrow> ('db, wire, unit) go"
  st_MarkFailed :: "string \<Rightarrow> goerr option \<Rightarrow> ('db, wire, unit) go"

type_synonym 'db publisher = "string \<Rightarrow> string \<Rightarrow> wire \<Rightarrow> ('db, wire, unit) go"

record 'db relay =
  rl_repo :: "'db store"
  rl_publisher :: "'db publisher"
  rl_batchSize :: nat
  rl_interval :: int

definition NewRelay :: "'db store \<Rightarrow> 'db publisher \<Rightarrow> int \<Rightarrow> int \<Rightarrow> 'db relay" where
  "NewRelay repo pub batchSize interval =
     \<lparr>rl_repo = repo, rl_publisher = pub,
      rl_batchSize = (if batchSize \<le> 0 then 100 else nat batchSize),
      rl_interval = (if interval \<le> 0 then second_ns else interval)\<rparr>"

section \<open>A batch\<close>

text \<open>
  The loop over the fetched events: an event that cannot be published is marked failed and
  ends the batch without an error, an error of the store ends it with that error.
\<close>

fun publish_events ::
    "'db store \<Rightarrow> 'db publisher \<Rightarrow> outbox_event list \<Rightarrow> ('db, wire, unit) go" where
  "publish_events st pub [] = ret ()"
| "publish_events st pub (e # es) =
     bnd (attempt (pub (ob_Topic e) (ob_KafkaKey e) (ob_Payload e))) (\<lambda>r.
       (case r of
          Inl err \<Rightarrow> st_MarkFailed st (ob_EventID e) (Some err)
        | Inr _ \<Rightarrow> bnd (st_MarkPublished st (ob_EventID e)) (\<lambda>_. publish_events st pub es)))"

definition PublishOnce :: "'db relay \<Rightarrow> ('db, wire, unit) go" where
  "PublishOnce r =
     bnd (st_FetchUnpublished (rl_repo r) (rl_batchSize r))
       (\<lambda>events. publish_events (rl_repo r) (rl_publisher r) events)"

text \<open>
  \<open>Start\<close> runs one batch per tick of its ticker until the context is cancelled or a batch
  returns an error; a tick is the pair of clock readings at that moment.
\<close>

definition Start :: "'db relay \<Rightarrow> (int \<times> int) list \<Rightarrow> ('db, wire, unit) go" where
  "Start r ticks = for_each (\<lambda>t. bnd (at_clocks t) (\<lambda>_. PublishOnce r)) ticks"

section \<open>The producer and the repository as the relay's interfaces\<close>

definition Publish :: "'db publisher" where
  "Publish topic key value = send_out (Published topic key value)"

definition repository_store :: "env \<Rightarrow> ('d outbox_db_scheme) store" where
  "repository_store E =
     \<lparr>st_FetchUnpublished = FetchUnpublished E, st_MarkPublished = MarkPublished,
      st_MarkFailed = MarkFailed\<rparr>"

section \<open>The contract\<close>

text \<open>What the relay's guarantees speak about: an event's identity, its message, and whether it
  is marked published.\<close>

type_synonym core = "string \<times> wire sent_effect \<times> bool"

definition message :: "outbox_event \<Rightarrow> wire sent_effect" where
  "message r = Published (ob_Topic r) (ob_KafkaKey r) (ob_Payload r)"

definition core :: "outbox_event \<Rightarrow> core" where
  "core r = (ob_EventID r, message r, ob_PublishedAt r \<noteq> None)"

definition mark :: "string \<Rightarrow> core list \<Rightarrow> core list" where
  "mark i cs = map (\<lambda>(j, m, p). (j, m, p \<or> j = i)) cs"

definition covered :: "wire sent_effect list \<Rightarrow> core list \<Rightarrow> bool" where
  "covered tr cs = (\<forall>(i, m, p) \<in> set cs. p \<longrightarrow> m \<in> set tr)"

definition identity :: "core \<Rightarrow> string \<times> wire sent_effect" where
  "identity c = (fst c, fst (snd c))"

definition known :: "core list \<Rightarrow> outbox_event list \<Rightarrow> bool" where
  "known cs es = (\<forall>e \<in> set es. \<exists>p. (ob_EventID e, message e, p) \<in> set cs)"

lemma fst_mark: "map fst (mark i cs) = map fst cs"
  by (induction cs) (auto simp: mark_def)

lemma identity_mark: "map identity (mark i cs) = map identity cs"
  by (induction cs) (auto simp: mark_def identity_def)

lemma covered_append: "covered tr cs \<Longrightarrow> covered (tr @ tr') cs"
  by (auto simp: covered_def)

lemma covered_mark:
  assumes "covered tr cs" and "distinct (map fst cs)" and "(i, m, p) \<in> set cs" and "m \<in> set tr"
  shows "covered tr (mark i cs)"
proof -
  have "fst (snd c) \<in> set tr" if c: "c \<in> set cs" "snd (snd c) \<or> fst c = i" for c
  proof (cases "fst c = i")
    case True
    with c(1) assms(2,3) have "snd c = (m, p)"
      by (metis eq_key_imp_eq_value prod.collapse)
    with assms(4) show ?thesis by simp
  next
    case False
    with c assms(1) show ?thesis by (auto simp: covered_def)
  qed
  then show ?thesis by (simp add: covered_def mark_def case_prod_beta)
qed

lemma in_mark: "(j, m, p) \<in> set cs \<Longrightarrow> (j, m, p \<or> j = i) \<in> set (mark i cs)"
  by (force simp: mark_def)

lemma known_mark: "known cs es \<Longrightarrow> known (mark i cs) es"
  unfolding known_def using in_mark by blast

lemma known_Cons: "known cs (e # es) = ((\<exists>p. (ob_EventID e, message e, p) \<in> set cs) \<and> known cs es)"
  by (simp add: known_def)

locale message_publisher =
  fixes pub :: "'db publisher"
  assumes publish_uuids: "wp (pub t k v)
    (\<lambda>_ w'. w_uuids w' = w_uuids w) (\<lambda>_ w'. w_uuids w' = w_uuids w) w"
    and publish_law: "wp (pub t k v)
    (\<lambda>_ w'. w_db w' = w_db w \<and> w_trace w' = w_trace w @ [Published t k v])
    (\<lambda>_ w'. w_db w' = w_db w \<and> w_trace w' \<in> {w_trace w, w_trace w @ [Published t k v]}) w"

locale outbox_relay = message_publisher pub for pub :: "'db publisher" +
  fixes st :: "'db store" and cores :: "'db \<Rightarrow> core list"
  assumes fetch_law: "wp (st_FetchUnpublished st n)
      (\<lambda>evs w'. w_trace w' = w_trace w \<and> cores (w_db w') = cores (w_db w) \<and> known (cores (w_db w)) evs)
      (\<lambda>_ w'. w_trace w' = w_trace w \<and> cores (w_db w') = cores (w_db w)) w"
    and mark_law: "wp (st_MarkPublished st i)
      (\<lambda>_ w'. w_trace w' = w_trace w \<and> cores (w_db w') = mark i (cores (w_db w)))
      (\<lambda>_ w'. w_trace w' = w_trace w \<and> cores (w_db w') \<in> {cores (w_db w), mark i (cores (w_db w))}) w"
    and failed_law: "wp (st_MarkFailed st i c)
      (\<lambda>_ w'. w_trace w' = w_trace w \<and> cores (w_db w') = cores (w_db w))
      (\<lambda>_ w'. w_trace w' = w_trace w \<and> cores (w_db w') = cores (w_db w)) w"
begin

text \<open>
  The store is sound for a set \<open>K\<close> of identified messages: it holds exactly these, under
  distinct identities, and each one marked published is on the trace.
\<close>

definition sound :: "(string \<times> wire sent_effect) list \<Rightarrow> ('db, wire) world \<Rightarrow> bool" where
  "sound K w = (distinct (map fst (cores (w_db w))) \<and> covered (w_trace w) (cores (w_db w)) \<and>
     map identity (cores (w_db w)) = K)"

lemma sound_mark:
  assumes "sound K w" and "known (cores (w_db w)) (e # es)"
    and "w_trace w1 = w_trace w @ [message e]" and "cores (w_db w1) = mark (ob_EventID e) (cores (w_db w))"
  shows "sound K w1"
proof -
  from assms(2) obtain p where "(ob_EventID e, message e, p) \<in> set (cores (w_db w))"
    by (auto simp: known_Cons)
  moreover have "covered (w_trace w1) (cores (w_db w))" "distinct (map fst (cores (w_db w)))"
    using assms(1,3) by (simp_all add: sound_def covered_append)
  ultimately show ?thesis
    using assms(1,3,4) by (simp add: sound_def fst_mark covered_mark identity_mark)
qed

lemma sound_trace:
  assumes "sound K w" and "w_trace w1 \<in> {w_trace w, w_trace w @ [m]}" and "cores (w_db w1) = cores (w_db w)"
  shows "sound K w1"
  using assms by (auto simp: sound_def intro: covered_append)

text \<open>A batch over known events keeps the store sound, whatever fails.\<close>

lemma publish_events_sound:
  "sound K w \<Longrightarrow> known (cores (w_db w)) es \<Longrightarrow> wp (publish_events st pub es) (\<lambda>_. sound K) (\<lambda>_. sound K) w"
proof (induction es arbitrary: w)
  case Nil
  then show ?case by (simp add: wp_simps)
next
  case (Cons e es)
  have sent: "wp (bnd (st_MarkPublished st (ob_EventID e)) (\<lambda>_. publish_events st pub es))
      (\<lambda>_. sound K) (\<lambda>_. sound K) w1"
    if w1: "w_db w1 = w_db w" "w_trace w1 = w_trace w @ [message e]" for w1
    unfolding wp_bnd
  proof (rule wp_mono[OF mark_law])
    fix a and w2 :: "('db, wire) world" assume w2: "w_trace w2 = w_trace w1 \<and> cores (w_db w2) = mark (ob_EventID e) (cores (w_db w1))"
    show "wp (publish_events st pub es) (\<lambda>_. sound K) (\<lambda>_. sound K) w2"
    proof (rule Cons.IH)
      show "sound K w2"
        using sound_mark[OF Cons.prems, of w2] w1 w2 by simp
      show "known (cores (w_db w2)) es"
        using Cons.prems w1 w2 by (simp add: known_mark known_Cons)
    qed
  next
    fix x and w2 :: "('db, wire) world" assume "w_trace w2 = w_trace w1 \<and> cores (w_db w2) \<in> {cores (w_db w1), mark (ob_EventID e) (cores (w_db w1))}"
    then show "sound K w2"
      using w1 sound_mark[OF Cons.prems, of w2] sound_trace[OF Cons.prems(1), of w2 "message e"] by auto
  qed
  have failed: "wp (st_MarkFailed st (ob_EventID e) c) (\<lambda>_. sound K) (\<lambda>_. sound K) w1"
    if "w_db w1 = w_db w" "w_trace w1 \<in> {w_trace w, w_trace w @ [message e]}" for w1 c
    by (rule wp_mono[OF failed_law]) (use that sound_trace[OF Cons.prems(1), of _ "message e"] in simp_all)
  show ?case
    unfolding publish_events.simps wp_bnd[of "attempt _"] wp_attempt
    by (rule wp_mono[OF publish_law]) (simp_all add: sent failed message_def)
qed

lemma batch_sound:
  assumes "sound K w"
  shows "wp (bnd (st_FetchUnpublished st n) (publish_events st pub)) (\<lambda>_. sound K) (\<lambda>_. sound K) w"
  unfolding wp_bnd
  by (rule wp_mono[OF fetch_law]) (use assms in \<open>auto intro!: publish_events_sound simp: sound_def\<close>)

text \<open>Whatever fails, a batch sends a prefix of its events, in order.\<close>

lemma prefix_grows:
  assumes "tr1 = tr @ [message e]" and "\<exists>k \<le> length es. tr2 = tr1 @ map message (take k es)"
  shows "\<exists>k \<le> length (e # es). tr2 = tr @ map message (take k (e # es))"
proof -
  from assms obtain k where "k \<le> length es" "tr2 = tr @ message e # map message (take k es)" by auto
  then show ?thesis by (intro exI[of _ "Suc k"]) simp
qed

lemma publish_events_prefix:
  "wp (publish_events st pub es)
     (\<lambda>_ w'. \<exists>k \<le> length es. w_trace w' = w_trace w @ map message (take k es))
     (\<lambda>_ w'. \<exists>k \<le> length es. w_trace w' = w_trace w @ map message (take k es)) w"
proof (induction es arbitrary: w)
  case Nil
  then show ?case by (simp add: wp_simps)
next
  case (Cons e es)
  let ?prefix = "\<lambda>w'. \<exists>k \<le> length (e # es). w_trace w' = w_trace w @ map message (take k (e # es))"
  have short: "?prefix w1" if "w_trace w1 \<in> {w_trace w, w_trace w @ [message e]}" for w1 :: "('db, wire) world"
    using that by (auto intro: exI[of _ 0] exI[of _ 1])
  have sent: "wp (bnd (st_MarkPublished st (ob_EventID e)) (\<lambda>_. publish_events st pub es))
      (\<lambda>_. ?prefix) (\<lambda>_. ?prefix) w1" if w1: "w_trace w1 = w_trace w @ [message e]" for w1
    unfolding wp_bnd
  proof (rule wp_mono[OF mark_law])
    fix a and w2 :: "('db, wire) world"
    assume "w_trace w2 = w_trace w1 \<and> cores (w_db w2) = mark (ob_EventID e) (cores (w_db w1))"
    then have w2: "w_trace w2 = w_trace w @ [message e]" using w1 by simp
    show "wp (publish_events st pub es) (\<lambda>_. ?prefix) (\<lambda>_. ?prefix) w2"
      by (rule wp_mono[OF Cons.IH]) (rule prefix_grows[OF w2], assumption)+
  qed (rule short, use w1 in simp)
  have failed: "wp (st_MarkFailed st (ob_EventID e) c) (\<lambda>_. ?prefix) (\<lambda>_. ?prefix) w1"
    if "w_trace w1 \<in> {w_trace w, w_trace w @ [message e]}" for w1 c
    by (rule wp_mono[OF failed_law]) (use that short in auto)
  show ?case
    unfolding publish_events.simps wp_bnd[of "attempt _"] wp_attempt
    by (rule wp_mono[OF publish_law]; simp only: sum.case; (rule sent | rule failed); simp add: message_def)
qed

text \<open>When every call succeeds, the batch sends its events in order, and marks each of them.\<close>

lemma publish_events_ok:
  assumes "publish_events st pub es w = (Inr (), w')"
    and "\<And>t k v w. \<exists>w1. pub t k v w = (Inr (), w1)"
  shows "w_trace w' = w_trace w @ map message es"
  using assms(1)
proof (induction es arbitrary: w)
  case Nil
  then show ?case by (simp add: exec_simps)
next
  case (Cons e es)
  obtain w1 where w1: "pub (ob_Topic e) (ob_KafkaKey e) (ob_Payload e) w = (Inr (), w1)"
    using assms(2) by blast
  have t1: "w_trace w1 = w_trace w @ [message e]"
    using wp_okD[OF w1 publish_law] by (simp add: message_def)
  from Cons.prems w1 obtain w2 where w2: "st_MarkPublished st (ob_EventID e) w1 = (Inr (), w2)"
    and rest: "publish_events st pub es w2 = (Inr (), w')"
    by (auto simp: exec_simps split: prod.splits sum.splits)
  have "w_trace w2 = w_trace w1"
    using wp_okD[OF w2 mark_law] by simp
  with t1 Cons.IH[OF rest] show ?case by simp
qed

end

section \<open>The repository keeps the contract\<close>

definition db_cores :: "'d outbox_db_scheme \<Rightarrow> core list" where
  "db_cores d = map core (outbox_events d)"

lemma cores_after_fetch [simp]: "map core (after_fetch E n now rows) = map core rows"
  unfolding after_fetch_def lock_rows_def
  by (rule map_update_where_same) (simp add: core_def message_def)

lemma cores_marked:
  "map core (update_where (\<lambda>r. ob_EventID r = i) (published_row t) rows) = mark i (map core rows)"
  by (induction rows) (auto simp: mark_def core_def message_def published_row_def)

lemma cores_failed:
  "map core (update_where p
     (\<lambda>r. r\<lparr>ob_PublishAttempts := f r, ob_LockedUntil := None, ob_LastError := Some m\<rparr>) rows)
   = map core rows"
  by (rule map_update_where_same) (simp add: core_def message_def)

interpretation producer: message_publisher Publish
  by unfold_locales (simp_all add: Publish_def wp_simps split: call_outcome.splits)

interpretation repo_relay: outbox_relay Publish "repository_store E" db_cores for E
proof unfold_locales
  fix n and w :: "('d outbox_db_scheme, wire) world"
  have "known (db_cores (w_db w)) (fetched E n (w_pg_now w) (outbox_events (w_db w)))"
  proof -
    have "map core (after_fetch E n (w_pg_now w) (outbox_events (w_db w))) = db_cores (w_db w)"
      by (simp add: db_cores_def)
    then have "core e \<in> set (db_cores (w_db w))"
      if "e \<in> set (fetched E n (w_pg_now w) (outbox_events (w_db w)))" for e
      using fetched_in_table[OF that] by (metis list.set_map imageI)
    then show ?thesis by (auto simp: known_def core_def)
  qed
  then show "wp (st_FetchUnpublished (repository_store E) n)
      (\<lambda>evs w'. w_trace w' = w_trace w \<and> db_cores (w_db w') = db_cores (w_db w) \<and> known (db_cores (w_db w)) evs)
      (\<lambda>_ w'. w_trace w' = w_trace w \<and> db_cores (w_db w') = db_cores (w_db w)) w"
    by (simp add: repository_store_def FetchUnpublished_def wp_simps db_cores_def split: call_outcome.splits)
next
  fix i and w :: "('d outbox_db_scheme, wire) world"
  show "wp (st_MarkPublished (repository_store E) i)
      (\<lambda>_ w'. w_trace w' = w_trace w \<and> db_cores (w_db w') = mark i (db_cores (w_db w)))
      (\<lambda>_ w'. w_trace w' = w_trace w \<and> db_cores (w_db w') \<in> {db_cores (w_db w), mark i (db_cores (w_db w))}) w"
    by (simp add: repository_store_def store_ops wp_simps db_cores_def cores_marked split: call_outcome.splits)
next
  fix i c and w :: "('d outbox_db_scheme, wire) world"
  show "wp (st_MarkFailed (repository_store E) i c)
      (\<lambda>_ w'. w_trace w' = w_trace w \<and> db_cores (w_db w') = db_cores (w_db w))
      (\<lambda>_ w'. w_trace w' = w_trace w \<and> db_cores (w_db w') = db_cores (w_db w)) w"
    by (simp add: repository_store_def store_ops wp_simps db_cores_def cores_failed Let_def split: call_outcome.splits)
qed

lemma repo_batch_sound:
  assumes "repo_relay.sound K w"
  shows "wp (PublishOnce (NewRelay (repository_store E) Publish b i))
           (\<lambda>_. repo_relay.sound K) (\<lambda>_. repo_relay.sound K) w"
  unfolding PublishOnce_def NewRelay_def by (simp add: repo_relay.batch_sound[OF assms])

lemma repo_run_sound:
  assumes "repo_relay.sound K w"
  shows "wp (Start (NewRelay (repository_store E) Publish b i) ticks)
           (\<lambda>_. repo_relay.sound K) (\<lambda>_. repo_relay.sound K) w"
  unfolding Start_def
proof (rule wp_for_each_inv[where I = "repo_relay.sound K", OF assms])
  fix t :: "int \<times> int" and w :: "('a outbox_db_scheme, wire) world"
  assume "repo_relay.sound K w"
  then show "wp (bnd (at_clocks t) (\<lambda>_. PublishOnce (NewRelay (repository_store E) Publish b i)))
      (\<lambda>_. repo_relay.sound K) (\<lambda>_. repo_relay.sound K) w"
    by (simp add: wp_bnd wp_at_clocks repo_relay.sound_def repo_batch_sound)
qed

text \<open>
  C26. The relay loses no event: over any number of ticks, clocks and failures, every event of
  the outbox is still in the table with its message, and it is marked published only when its
  message has been sent to Kafka.
\<close>

theorem relay_loses_nothing:
  assumes "keyed ob_EventID (outbox_events (w_db w))"
    and "\<forall>e \<in> set (outbox_events (w_db w)). ob_PublishedAt e \<noteq> None \<longrightarrow> message e \<in> set (w_trace w)"
    and "Start (NewRelay (repository_store E) Publish b i) ticks w = (r, w')"
  shows "map (\<lambda>e. (ob_EventID e, message e)) (outbox_events (w_db w'))
           = map (\<lambda>e. (ob_EventID e, message e)) (outbox_events (w_db w)) \<and>
    (\<forall>e \<in> set (outbox_events (w_db w')). ob_PublishedAt e \<noteq> None \<longrightarrow> message e \<in> set (w_trace w'))"
proof -
  let ?K = "map (\<lambda>e. (ob_EventID e, message e)) (outbox_events (w_db w))"
  have "repo_relay.sound ?K w"
    using assms(1,2)
    by (auto simp: repo_relay.sound_def db_cores_def core_def keyed_def covered_def identity_def o_def)
  then have "wp (Start (NewRelay (repository_store E) Publish b i) ticks)
      (\<lambda>_. repo_relay.sound ?K) (\<lambda>_. repo_relay.sound ?K) w"
    by (rule repo_run_sound)
  from wp_bothD[OF assms(3) this] show ?thesis
    by (auto simp: repo_relay.sound_def db_cores_def core_def covered_def identity_def o_def)
qed

section \<open>Batches of the repository\<close>

lemma repo_batch_prefix:
  fixes w :: "('d outbox_db_scheme, wire) world"
  assumes Q_def: "Q = (\<lambda>w' :: ('d outbox_db_scheme, wire) world. \<exists>k. w_trace w' = w_trace w @
    map message (take k (fetched E n (w_pg_now w) (outbox_events (w_db w)))))"
  shows "wp (bnd (st_FetchUnpublished (repository_store E) n)
    (\<lambda>evs. publish_events (repository_store E) Publish evs)) (\<lambda>_. Q) (\<lambda>_. Q) w"
  unfolding wp_bnd
proof (rule wp_mono)
  show "wp (st_FetchUnpublished (repository_store E) n)
      (\<lambda>evs w1. evs = fetched E n (w_pg_now w) (outbox_events (w_db w)) \<and> w_trace w1 = w_trace w)
      (\<lambda>_ w1. w_trace w1 = w_trace w) w"
    by (simp add: repository_store_def FetchUnpublished_def wp_simps split: call_outcome.splits)
next
  fix evs and w1 :: "('d outbox_db_scheme, wire) world"
  assume "evs = fetched E n (w_pg_now w) (outbox_events (w_db w)) \<and> w_trace w1 = w_trace w"
  then show "wp (publish_events (repository_store E) Publish evs) (\<lambda>_. Q) (\<lambda>_. Q) w1"
    unfolding Q_def by (intro wp_mono[OF repo_relay.publish_events_prefix]) auto
next
  fix w1 :: "('d outbox_db_scheme, wire) world"
  assume "w_trace w1 = w_trace w"
  then show "Q w1" unfolding Q_def by (intro exI[of _ 0]) simp
qed

text \<open>
  A batch sends its events in the order the store returned them and stops at the first
  one it cannot send: whatever fails, what a batch adds to the topic is a prefix of the
  messages it fetched.
\<close>

theorem batch_publishes_prefix:
  assumes "PublishOnce (NewRelay (repository_store E) Publish b i) w = (r, w')"
    and "n = rl_batchSize (NewRelay (repository_store E) Publish b i)"
  shows "\<exists>k. w_trace w' = w_trace w @
    map message (take k (fetched E n (w_pg_now w) (outbox_events (w_db w))))"
proof -
  have run: "bnd (st_FetchUnpublished (repository_store E) n)
      (\<lambda>evs. publish_events (repository_store E) Publish evs) w = (r, w')"
    using assms by (simp add: PublishOnce_def NewRelay_def)
  show ?thesis
    by (rule wp_bothD[OF run repo_batch_prefix[OF refl]])
qed

lemma in_map_set: "f x = f y \<Longrightarrow> y \<in> set ys \<Longrightarrow> f x \<in> set (map f ys)"
  by simp

lemma fold_published:
  "fold (\<lambda>e. update_where (\<lambda>r. ob_EventID r = ob_EventID e) (published_row now)) es rows
   = update_where (\<lambda>r. ob_EventID r \<in> ob_EventID ` set es) (published_row now) rows"
  by (induction es arbitrary: rows) (auto simp: update_where_def published_row_def)

lemma run_publish_events:
  assumes "w_script w = []"
  shows "publish_events (repository_store E) Publish es w =
    (Inr (), w\<lparr>w_db := (w_db w)\<lparr>outbox_events :=
       fold (\<lambda>e. update_where (\<lambda>r. ob_EventID r = ob_EventID e) (published_row (w_pg_now w))) es
         (outbox_events (w_db w))\<rparr>,
      w_trace := w_trace w @ map message es\<rparr>)"
  using assms
proof (induction es arbitrary: w)
  case Nil
  then show ?case by (simp add: exec_simps)
next
  case (Cons e es)
  let ?w1 = "w\<lparr>w_trace := w_trace w @ [message e]\<rparr>"
  let ?w2 = "?w1\<lparr>w_db := (w_db w)\<lparr>outbox_events := update_where (\<lambda>r. ob_EventID r = ob_EventID e)
    (published_row (w_pg_now w)) (outbox_events (w_db w))\<rparr>\<rparr>"
  have "Publish (ob_Topic e) (ob_KafkaKey e) (ob_Payload e) w = (Inr (), ?w1)"
    using Cons.prems by (simp add: Publish_def exec_simps message_def)
  moreover have "st_MarkPublished (repository_store E) (ob_EventID e) ?w1 = (Inr (), ?w2)"
    using Cons.prems by (simp add: repository_store_def store_ops exec_simps)
  ultimately have "publish_events (repository_store E) Publish (e # es) w
      = publish_events (repository_store E) Publish es ?w2"
    by (simp add: exec_simps)
  with Cons.IH[of ?w2] Cons.prems show ?case by simp
qed

lemma map_filter_some: "\<forall>x \<in> set xs. f x \<noteq> None \<Longrightarrow> List.map_filter f xs = map (\<lambda>x. the (f x)) xs"
  by (induction xs) (auto simp: List.map_filter_def)

lemma mset_fetched:
  assumes "keyed ob_EventID rows" and "returning_permutes E"
  shows "mset (map message (fetched E n now rows)) = mset (map message (candidates E n now rows))"
proof -
  let ?cs = "candidates E n now rows" and ?rows1 = "after_fetch E n now rows"
  let ?lock = "\<lambda>r. r\<lparr>ob_LockedUntil := Some (now + lock_time)\<rparr>"
  have keyed: "keyed ob_EventID ?rows1" using assms(1) by (rule keyed_after_fetch)
  have "?lock c \<in> set ?rows1" if "c \<in> set ?cs" for c
    using that candidatesD[OF that] by (auto simp: after_fetch_def lock_rows_def set_update_where)
  then have found: "lookup_row ob_EventID ?rows1 (ob_EventID c) = Some (?lock c)" if "c \<in> set ?cs" for c
    using that lookup_row_keyed[OF keyed, of "?lock c"] by simp
  have perm: "mset (returning E (map ob_EventID ?cs)) = mset (map ob_EventID ?cs)"
    using assms(2) by (simp add: returning_permutes_def)
  then have all: "\<forall>i \<in> set (returning E (map ob_EventID ?cs)). lookup_row ob_EventID ?rows1 i \<noteq> None"
    using found mset_eq_setD[OF perm] by auto
  have "fetched E n now rows = List.map_filter (lookup_row ob_EventID ?rows1) (returning E (map ob_EventID ?cs))"
    by (simp add: fetched_def after_fetch_def Let_def)
  also have "\<dots> = map (\<lambda>i. the (lookup_row ob_EventID ?rows1 i)) (returning E (map ob_EventID ?cs))"
    using all by (rule map_filter_some)
  finally have fetch: "fetched E n now rows = map (\<lambda>i. the (lookup_row ob_EventID ?rows1 i)) (returning E (map ob_EventID ?cs))" .
  let ?m = "\<lambda>i. message (the (lookup_row ob_EventID ?rows1 i))"
  have "mset (map message (fetched E n now rows)) = mset (map ?m (returning E (map ob_EventID ?cs)))"
    by (simp add: fetch comp_def)
  also have "\<dots> = mset (map ?m (map ob_EventID ?cs))" by (simp only: mset_map perm)
  also have "map ?m (map ob_EventID ?cs) = map (\<lambda>c. message (?lock c)) ?cs" by (simp add: found)
  also have "map (\<lambda>c. message (?lock c)) ?cs = map message ?cs" by (simp add: message_def)
  finally show ?thesis .
qed

text \<open>
  C29. When nothing fails, one tick drains the outbox up to its batch size: with no more
  fetchable events than the batch takes, the messages sent are exactly those of the fetchable
  events, each of them as often as it is in the outbox and no other, and each of these events is
  marked published; the other rows stay as they were.
\<close>

theorem relay_batch_delivers:
  assumes "keyed ob_EventID (outbox_events (w_db w))" and "returning_permutes E"
    and "w_script w = []" and "0 < b"
    and "int (affected (fetchable E (w_pg_now w)) (outbox_events (w_db w))) \<le> b"
  shows "\<exists>w' sent. PublishOnce (NewRelay (repository_store E) Publish b i) w = (Inr (), w') \<and>
    w_trace w' = w_trace w @ sent \<and>
    mset sent = mset (map message (filter (fetchable E (w_pg_now w)) (outbox_events (w_db w)))) \<and>
    (\<forall>e \<in> set (outbox_events (w_db w)).
       if fetchable E (w_pg_now w) e
       then \<exists>e' \<in> set (outbox_events (w_db w')). ob_EventID e' = ob_EventID e \<and> ob_PublishedAt e' = Some (w_pg_now w)
       else e \<in> set (outbox_events (w_db w')))"
proof -
  let ?rows = "outbox_events (w_db w)" and ?now = "w_pg_now w" and ?n = "nat b"
  let ?evs = "fetched E ?n ?now ?rows" and ?rows1 = "after_fetch E ?n ?now ?rows"
  let ?w1 = "w\<lparr>w_db := (w_db w)\<lparr>outbox_events := ?rows1\<rparr>\<rparr>"
  let ?rows2 = "update_where (\<lambda>r. ob_EventID r \<in> ob_EventID ` set ?evs) (published_row ?now) ?rows1"
  let ?w' = "w\<lparr>w_db := (w_db w)\<lparr>outbox_events := ?rows2\<rparr>, w_trace := w_trace w @ map message ?evs\<rparr>"
  have "FetchUnpublished E ?n w = (Inr ?evs, ?w1)"
    using assms(3) by (simp add: FetchUnpublished_def exec_simps sql_fetch_apply)
  then have run: "PublishOnce (NewRelay (repository_store E) Publish b i) w = (Inr (), ?w')"
    using assms(3,4) run_publish_events[of ?w1 E ?evs]
    by (simp add: PublishOnce_def NewRelay_def exec_simps repository_store_def fold_published)
  have "affected (fetchable E ?now) ?rows \<le> ?n"
    using assms(5) by simp
  then have all_sent: "mset (map message ?evs) = mset (map message (filter (fetchable E ?now) ?rows))"
    unfolding mset_fetched[OF assms(1,2)] by (simp add: candidates_def select_where_def affected_def)
  have all: "set (candidates E ?n ?now ?rows) = {r \<in> set ?rows. fetchable E ?now r}"
    unfolding candidates_def using assms(5) by (intro select_where_all) simp
  have "\<exists>e' \<in> set ?rows2. ob_EventID e' = ob_EventID e \<and> ob_PublishedAt e' = Some ?now"
    if e: "e \<in> set ?rows" "fetchable E ?now e" for e
  proof -
    let ?e1 = "e\<lparr>ob_LockedUntil := Some (?now + lock_time)\<rparr>"
    have e1: "?e1 \<in> set ?evs"
      using e all by (simp add: set_fetched[OF assms(1,2)])
    have "(\<lambda>r. if ob_EventID r \<in> ob_EventID ` set ?evs then published_row ?now r else r) ?e1
        \<in> set ?rows2"
      unfolding set_update_where by (rule imageI) (rule fetched_in_table[OF e1])
    then have "published_row ?now ?e1 \<in> set ?rows2"
      using e1 by (simp only: imageI if_True)
    then show ?thesis by (intro bexI[of _ "published_row ?now ?e1"]) (simp_all add: published_row_def)
  qed
  moreover have "e \<in> set ?rows2" if e: "e \<in> set ?rows" "\<not> fetchable E ?now e" for e
  proof -
    have "ob_EventID e \<notin> ob_EventID ` set (candidates E ?n ?now ?rows)"
      using e keyedD[OF assms(1)] by (auto simp: all)
    moreover from this have "e \<in> set ?rows1"
      using e(1) by (auto simp: after_fetch_def lock_rows_def set_update_where)
    ultimately show ?thesis
      by (auto simp: set_update_where set_fetched[OF assms(1,2)] image_image)
  qed
  ultimately show ?thesis
    using run all_sent by (intro exI[of _ ?w'] exI[of _ "map message ?evs"]) simp
qed

section \<open>Concrete runs\<close>

definition demo_relay :: "outbox_db relay" where
  "demo_relay = NewRelay (repository_store demo_env) Publish 5 0"

text \<open>A world in which the reply to the second call, the first send, is lost.\<close>

definition lossy_world :: "(outbox_db, wire) world" where
  "lossy_world = (calm_world demo_outbox 10)\<lparr>w_script := [Succeed, Lost ''timeout'']\<rparr>"

lemma lossy_world_sel [simp]:
  "w_db lossy_world = demo_outbox" "w_pg_now lossy_world = 10" "w_trace lossy_world = []"
  by (simp_all add: lossy_world_def)

theorem relay_loses_nothing_witness:
  "let w' = snd (Start demo_relay [(10, 10), (11, 11)] lossy_world)
   in map (\<lambda>e. (ob_EventID e, message e)) (outbox_events (w_db w'))
        = [(''e1'', message (demo_row ''e1'' 7)), (''e2'', message (demo_row ''e2'' 5))] \<and>
      (\<forall>e \<in> set (outbox_events (w_db w')). ob_PublishedAt e \<noteq> None \<longrightarrow> message e \<in> set (w_trace w'))"
proof -
  obtain r w' where run: "Start demo_relay [(10, 10), (11, 11)] lossy_world = (r, w')"
    by (metis surj_pair)
  have "map (\<lambda>e. (ob_EventID e, message e)) (outbox_events demo_outbox)
      = [(''e1'', message (demo_row ''e1'' 7)), (''e2'', message (demo_row ''e2'' 5))]"
    by (simp add: demo_outbox_def demo_row_def)
  then show ?thesis
    using relay_loses_nothing[OF _ _ run[unfolded demo_relay_def]] demo_outbox_facts
    by (simp add: run)
qed

theorem batch_publishes_prefix_witness:
  "\<exists>k. w_trace (snd (PublishOnce demo_relay lossy_world)) =
     map message (take k (fetched demo_env 5 10 (outbox_events demo_outbox)))"
proof -
  obtain r w' where run: "PublishOnce demo_relay lossy_world = (r, w')"
    by (metis surj_pair)
  show ?thesis
    using batch_publishes_prefix[OF run[unfolded demo_relay_def] refl]
    by (simp add: run NewRelay_def)
qed

theorem relay_batch_delivers_witness:
  "\<exists>w'. PublishOnce demo_relay (calm_world demo_outbox 10) = (Inr (), w') \<and>
     mset (w_trace w') = mset (map message (outbox_events demo_outbox))"
proof -
  have two: "filter (fetchable demo_env 10) (outbox_events demo_outbox) = outbox_events demo_outbox"
    "length (outbox_events demo_outbox) = 2"
    by (simp_all add: fetchable_def demo_outbox_def demo_row_def)
  let ?w = "calm_world demo_outbox 10 :: (outbox_db, wire) world"
  have "keyed ob_EventID (outbox_events (w_db ?w))" "w_script ?w = []" "(0 :: int) < 5"
    "int (affected (fetchable demo_env (w_pg_now ?w)) (outbox_events (w_db ?w))) \<le> 5"
    using two demo_outbox_facts by (simp_all add: affected_def)
  from relay_batch_delivers[OF this(1) demo_outbox_facts(2) this(2-4), of 0, folded demo_relay_def] two(1)
  show ?thesis by auto
qed

end
