(* ===== verification/Consumer.thy ===== *)
theory Consumer
  imports Relay
begin

text \<open>
  The Kafka consumer of \<open>pkg/kafka/consumer.go\<close>: the loop that fetches a message, hands it to
  the service's handler, dead-letters what the handler rejects and commits the offset.  The
  reader and the broker are third-party code: what they deliver is the list of arrivals, an
  argument of the loop.  Its log line and counters are added in
  \<open>Consumer_Counters\<close>.

  The locale \<open>consumer_loop\<close> states what a handler promises and proves what the loop makes of
  it; the theories of the services interpret it on their handlers.
\<close>

record kafka_message =
  km_Topic :: string
  km_Partition :: int
  km_Offset :: int
  km_Key :: string
  km_Value :: wire

type_synonym 'db handler = "string \<Rightarrow> wire \<Rightarrow> ('db, wire, unit) go"

record 'db consumer =
  co_topic :: string
  co_groupID :: string
  co_deadLetterTopic :: string
  co_deadLetterPublisher :: "'db publisher option"

definition newConsumer :: "string \<Rightarrow> string \<Rightarrow> 'db consumer" where
  "newConsumer topic groupID =
     \<lparr>co_topic = topic, co_groupID = groupID, co_deadLetterTopic = '''',
      co_deadLetterPublisher = None\<rparr>"

definition WithDeadLetter :: "'db consumer \<Rightarrow> string \<Rightarrow> 'db publisher \<Rightarrow> 'db consumer" where
  "WithDeadLetter c topic pub =
     c\<lparr>co_deadLetterTopic := topic, co_deadLetterPublisher := Some pub\<rparr>"

text \<open>
  What one turn of the loop meets: a message, fetched at the given readings of the two clocks,
  or an error of the fetch; the flag says whether \<open>ctx.Err()\<close> is set when the loop asks.
\<close>

datatype arrival =
    Arrived "int \<times> int" kafka_message bool
  | FetchFailed goerr bool

text \<open>The loop ends because its context is cancelled, or still waits for the next message.\<close>

datatype loop_end = Cancelled | Waiting

section \<open>The loop\<close>

definition messageTopic :: "'db consumer \<Rightarrow> kafka_message \<Rightarrow> string" where
  "messageTopic c m = (if km_Topic m \<noteq> '''' then km_Topic m else co_topic c)"

definition dead_letter_event ::
    "'db consumer \<Rightarrow> kafka_message \<Rightarrow> goerr \<Rightarrow> int \<Rightarrow> string \<Rightarrow> dead_letter_payload envelope" where
  "dead_letter_event c m cause now eventID =
     \<lparr>EventID = eventID, EventType = EventConsumerDeadLettered, OccurredAt = now,
      Source = co_groupID c, CorrelationID = eventID, NotBefore = None,
      Payload = \<lparr>dl_OriginalTopic = messageTopic c m, dl_OriginalPartition = km_Partition m,
        dl_OriginalOffset = km_Offset m, dl_OriginalKey = km_Key m, dl_OriginalValue = km_Value m,
        dl_ConsumerGroup = co_groupID c, dl_Cause = err_text cause, dl_FailedAt = now\<rparr>\<rparr>"

definition publishDeadLetter ::
    "env \<Rightarrow> 'db consumer \<Rightarrow> kafka_message \<Rightarrow> goerr \<Rightarrow> ('db, wire, unit) go" where
  "publishDeadLetter E c m cause =
     (case co_deadLetterPublisher c of
        None \<Rightarrow> ret ()
      | Some pub \<Rightarrow>
          if co_deadLetterTopic c = '''' then ret ()
          else bnd app_clock (\<lambda>now.
               bnd (new_uuid (uuid_gen E)) (\<lambda>eventID.
               bnd (of_sum (encode_envelope E (encode_dead_letter E)
                      (dead_letter_event c m cause now eventID))) (\<lambda>value.
                 pub (co_deadLetterTopic c) (km_Key m) (Some value)))))"

definition commit_of :: "kafka_message \<Rightarrow> wire sent_effect" where
  "commit_of m = Committed (km_Topic m) (km_Partition m) (km_Offset m)"

definition CommitMessages :: "kafka_message \<Rightarrow> ('db, wire, unit) go" where
  "CommitMessages m = send_out (commit_of m)"

fun consume ::
    "env \<Rightarrow> 'db consumer \<Rightarrow> 'db handler \<Rightarrow> arrival list \<Rightarrow> ('db, wire, loop_end) go" where
  "consume E c handler [] = ret Waiting"
| "consume E c handler (FetchFailed err ctx_done # arr) =
     (if ctx_done then ret Cancelled else raise (errorf ''fetch kafka message: '' err))"
| "consume E c handler (Arrived t m ctx_done # arr) =
     bnd (at_clocks t) (\<lambda>_.
     bnd (attempt (handler (km_Key m) (km_Value m))) (\<lambda>r.
       case r of
         Inl handlerErr \<Rightarrow>
           (if ctx_done then ret Cancelled
            else if errors_is handlerErr ErrNonRetryable then
              bnd (annot (errorf ''publish kafka dead letter: '') (publishDeadLetter E c m handlerErr)) (\<lambda>_.
              bnd (annot (errorf ''commit skipped kafka message: '') (CommitMessages m)) (\<lambda>_.
                consume E c handler arr))
            else raise handlerErr)
       | Inr _ \<Rightarrow>
           bnd (annot (errorf ''commit kafka message: '') (CommitMessages m)) (\<lambda>_.
             consume E c handler arr)))"

text \<open>
  A consumer group resumes at the committed position: each session of the service is given the
  messages of the partition's log from there on.  A session is the list of its turns, as clock
  readings and cancellation flags.  A crash is a session whose remaining calls fail.
\<close>

fun is_commit :: "wire sent_effect \<Rightarrow> bool" where
  "is_commit (Committed topic part off) = True"
| "is_commit _ = False"

definition commits :: "wire sent_effect list \<Rightarrow> wire sent_effect list" where
  "commits tr = filter is_commit tr"

definition turns :: "((int \<times> int) \<times> bool) list \<Rightarrow> kafka_message list \<Rightarrow> arrival list" where
  "turns sched ms = map (\<lambda>((t, b), m). Arrived t m b) (zip sched ms)"

fun sessions ::
    "env \<Rightarrow> 'db consumer \<Rightarrow> 'db handler \<Rightarrow> kafka_message list \<Rightarrow> ((int \<times> int) \<times> bool) list list \<Rightarrow>
     ('db, wire, unit) go" where
  "sessions E c handler log [] = ret ()"
| "sessions E c handler log (s # ss) =
     (\<lambda>w. bnd (attempt (consume E c handler (turns s (drop (length (commits (w_trace w))) log))))
            (\<lambda>_. sessions E c handler log ss) w)"

section \<open>The contract between the loop and its handler\<close>

fun messages :: "arrival list \<Rightarrow> kafka_message list" where
  "messages [] = []"
| "messages (FetchFailed err b # arr) = messages arr"
| "messages (Arrived t m b # arr) = m # messages arr"

lemma messages_turns: "messages (turns sched ms) = take (length sched) ms"
  by (induction sched arbitrary: ms) (auto simp: turns_def zip_Cons1 split: list.splits)

lemma commits_simps [simp]:
  "commits [] = []" "commits (tr @ tr') = commits tr @ commits tr'"
  "commits [Published t k v] = []" "commits [commit_of m] = [commit_of m]"
  by (simp_all add: commits_def commit_of_def)

text \<open>The dead letter of a message carries its coordinates, key and value.\<close>

definition dead_lettered :: "env \<Rightarrow> 'db consumer \<Rightarrow> kafka_message \<Rightarrow> wire sent_effect list \<Rightarrow> bool" where
  "dead_lettered E c m tr =
     (\<exists>cause now i j. encode_envelope E (encode_dead_letter E) (dead_letter_event c m cause now i) = Inr j \<and>
        Published (co_deadLetterTopic c) (km_Key m) (Some j) \<in> set tr)"

definition has_dead_letter :: "'db consumer \<Rightarrow> bool" where
  "has_dead_letter c = (co_deadLetterPublisher c \<noteq> None \<and> co_deadLetterTopic c \<noteq> '''')"

lemma dead_lettered_append: "dead_lettered E c m tr \<Longrightarrow> dead_lettered E c m (tr @ tr')"
  by (force simp: dead_lettered_def)

text \<open>
  A step of a service that belongs to no offset: it commits nothing to Kafka, takes nothing
  back, and keeps the database sound and every message handled that was.
\<close>

definition handler_step ::
    "(('db, wire) world \<Rightarrow> bool) \<Rightarrow> (wire \<Rightarrow> 'db \<Rightarrow> bool) \<Rightarrow> ('db, wire) world \<Rightarrow> ('db, wire) world \<Rightarrow> bool" where
  "handler_step ok handled w w' =
     (ok w' \<and> commits (w_trace w') = commits (w_trace w) \<and>
      set (w_trace w) \<subseteq> set (w_trace w') \<and> (\<forall>v. handled v (w_db w) \<longrightarrow> handled v (w_db w')))"

locale consumer_loop =
  fixes E :: env and c :: "'db consumer" and handler :: "'db handler"
    and handled :: "wire \<Rightarrow> 'db \<Rightarrow> bool" and rejects :: "wire \<Rightarrow> bool" and ok :: "('db, wire) world \<Rightarrow> bool"
  assumes ok_frame: "ok w \<Longrightarrow> w_db w' = w_db w \<Longrightarrow> w_uuids w \<le> w_uuids w' \<Longrightarrow> ok w'"
    and dead_letter_law: "co_deadLetterPublisher c = Some pub \<Longrightarrow> message_publisher pub"
    and handler_law: "ok w \<Longrightarrow> wp (handler k v) (\<lambda>_ w'. handled v (w_db w'))
      (\<lambda>e _. errors_is e ErrNonRetryable \<longrightarrow> rejects v) w"
    and step_law: "ok w \<Longrightarrow>
      wp (handler k v) (\<lambda>_. handler_step ok handled w) (\<lambda>_. handler_step ok handled w) w"
begin

text \<open>A message is settled when it is handled, or rejected and dead-lettered.\<close>

definition settled :: "kafka_message \<Rightarrow> ('db, wire) world \<Rightarrow> bool" where
  "settled m w = (handled (km_Value m) (w_db w) \<or>
     rejects (km_Value m) \<and> (has_dead_letter c \<longrightarrow> dead_lettered E c m (w_trace w)))"

lemma settled_step: "handler_step ok handled w w' \<Longrightarrow> settled m w \<Longrightarrow> settled m w'"
  unfolding settled_def handler_step_def dead_lettered_def by blast

text \<open>
  Progress over the messages to come: the offsets committed are those of a prefix of them, in
  order, and every message of that prefix is settled.
\<close>

definition progress :: "kafka_message list \<Rightarrow> ('db, wire) world \<Rightarrow> ('db, wire) world \<Rightarrow> bool" where
  "progress ms w w' = (ok w' \<and> (\<forall>m. settled m w \<longrightarrow> settled m w') \<and>
     (\<exists>k \<le> length ms. commits (w_trace w') = commits (w_trace w) @ map commit_of (take k ms) \<and>
        (\<forall>m \<in> set (take k ms). settled m w')))"

lemma progress_zero:
  "ok w' \<Longrightarrow> (\<And>m. settled m w \<Longrightarrow> settled m w') \<Longrightarrow> commits (w_trace w') = commits (w_trace w)
   \<Longrightarrow> progress ms w w'"
  unfolding progress_def by (intro conjI exI[of _ 0]) auto

lemma progress_one:
  "ok w' \<Longrightarrow> (\<And>m. settled m w \<Longrightarrow> settled m w') \<Longrightarrow> settled m w'
   \<Longrightarrow> commits (w_trace w') = commits (w_trace w) @ [commit_of m] \<Longrightarrow> progress (m # ms) w w'"
  unfolding progress_def by (intro conjI exI[of _ 1]) auto

lemma progress_trans:
  assumes "ok w1" and "\<And>m. settled m w \<Longrightarrow> settled m w1" and "settled m w1"
    and "commits (w_trace w1) = commits (w_trace w) @ [commit_of m]" and "progress ms w1 w2"
  shows "progress (m # ms) w w2"
proof -
  from assms(5) obtain k where "k \<le> length ms" and "ok w2"
    and "\<forall>m. settled m w1 \<longrightarrow> settled m w2" and "\<forall>m \<in> set (take k ms). settled m w2"
    and "commits (w_trace w2) = commits (w_trace w1) @ map commit_of (take k ms)"
    unfolding progress_def by blast
  with assms show ?thesis
    unfolding progress_def by (intro conjI exI[of _ "Suc k"]) auto
qed

text \<open>The state in which the loop stands before it commits a message.\<close>

definition ready :: "kafka_message \<Rightarrow> ('db, wire) world \<Rightarrow> ('db, wire) world \<Rightarrow> bool" where
  "ready m w w' = (ok w' \<and> (\<forall>m. settled m w \<longrightarrow> settled m w') \<and> settled m w' \<and>
     commits (w_trace w') = commits (w_trace w))"

lemma settled_same:
  "w_db w' = w_db w \<Longrightarrow> w_trace w' = w_trace w @ tr \<Longrightarrow> settled m w \<Longrightarrow> settled m w'"
  by (auto simp: settled_def dead_lettered_append)

lemma commit_progress:
  assumes "ready m w w1" and "\<And>w2. ok w2 \<Longrightarrow> wp rest (\<lambda>_. progress ms w2) (\<lambda>_. progress ms w2) w2"
  shows "wp (bnd (annot g (CommitMessages m)) (\<lambda>_. rest)) (\<lambda>_. progress (m # ms) w) (\<lambda>_. progress (m # ms) w) w1"
proof -
  have committed: "ok w2 \<and> (\<forall>x. settled x w \<longrightarrow> settled x w2) \<and> settled m w2 \<and>
      commits (w_trace w2) = commits (w_trace w) @ [commit_of m]"
    if "w_db w2 = w_db w1" "w_trace w2 = w_trace w1 @ [commit_of m]" "w_uuids w2 = w_uuids w1" for w2
    using assms(1) that settled_same[OF that(1,2)] ok_frame[of w1 w2] by (auto simp: ready_def)
  have same: "progress (m # ms) w w2" if "w_db w2 = w_db w1" "w_trace w2 = w_trace w1" "w_uuids w2 = w_uuids w1" for w2
    using assms(1) that settled_same[of w2 w1 "[]"] ok_frame[of w1 w2] by (intro progress_zero) (auto simp: ready_def)
  have go_on: "wp rest (\<lambda>_. progress (m # ms) w) (\<lambda>_. progress (m # ms) w) w2"
    if "w_db w2 = w_db w1" "w_trace w2 = w_trace w1 @ [commit_of m]" "w_uuids w2 = w_uuids w1" for w2
    by (rule wp_mono[OF assms(2)]) (use committed[OF that] progress_trans in blast)+
  have lost: "progress (m # ms) w w2" if "w_db w2 = w_db w1" "w_trace w2 = w_trace w1 @ [commit_of m]"
      "w_uuids w2 = w_uuids w1" for w2
    using committed[OF that] progress_one by blast
  show ?thesis
    by (simp add: wp_simps CommitMessages_def same go_on lost split: call_outcome.splits)
qed

text \<open>Dead-lettering changes no database, and leaves the dead letter on the trace.\<close>

lemma dead_letter_wp:
  "wp (publishDeadLetter E c m cause)
     (\<lambda>_ w'. w_db w' = w_db w \<and> w_uuids w \<le> w_uuids w' \<and> (\<exists>tr. w_trace w' = w_trace w @ tr \<and> commits tr = []) \<and>
        (has_dead_letter c \<longrightarrow> dead_lettered E c m (w_trace w')))
     (\<lambda>_ w'. w_db w' = w_db w \<and> w_uuids w \<le> w_uuids w' \<and> (\<exists>tr. w_trace w' = w_trace w @ tr \<and> commits tr = [])) w"
proof (cases "has_dead_letter c")
  case False
  then show ?thesis
    by (auto simp: publishDeadLetter_def has_dead_letter_def wp_simps split: option.splits)
next
  case True
  then obtain pub where pub: "co_deadLetterPublisher c = Some pub" "co_deadLetterTopic c \<noteq> ''''"
    by (auto simp: has_dead_letter_def)
  note law = message_publisher.publish_law[OF dead_letter_law[OF pub(1)]]
    message_publisher.publish_uuids[OF dead_letter_law[OF pub(1)]]
  let ?w = "w\<lparr>w_uuids := Suc (w_uuids w)\<rparr>"
  let ?ev = "dead_letter_event c m cause (w_app_now w) (uuid_gen E (w_uuids w))"
  show ?thesis
  proof (cases "encode_envelope E (encode_dead_letter E) ?ev")
    case (Inl e)
    then show ?thesis by (simp add: publishDeadLetter_def pub wp_simps)
  next
    case (Inr j)
    then have "dead_lettered E c m (w_trace w @ [Published (co_deadLetterTopic c) (km_Key m) (Some j)])"
      unfolding dead_lettered_def by (intro exI conjI) auto
    then have "wp (pub (co_deadLetterTopic c) (km_Key m) (Some j))
      (\<lambda>_ w'. w_db w' = w_db w \<and> w_uuids w \<le> w_uuids w' \<and> (\<exists>tr. w_trace w' = w_trace w @ tr \<and> commits tr = []) \<and>
         dead_lettered E c m (w_trace w'))
      (\<lambda>_ w'. w_db w' = w_db w \<and> w_uuids w \<le> w_uuids w' \<and> (\<exists>tr. w_trace w' = w_trace w @ tr \<and> commits tr = [])) ?w"
      by (intro wp_mono[OF wp_conj[THEN iffD2, OF conjI[OF law]]]) auto
    with Inr True show ?thesis
      by (simp add: publishDeadLetter_def pub wp_simps)
  qed
qed

end


context consumer_loop
begin

lemma handler_wp:
  assumes "ok w"
  shows "wp (handler k v) (\<lambda>_ w'. handled v (w_db w') \<and> handler_step ok handled w w')
    (\<lambda>e w'. (errors_is e ErrNonRetryable \<longrightarrow> rejects v) \<and> handler_step ok handled w w') w"
  unfolding wp_conj by (intro conjI handler_law step_law assms)

lemma settled_db_trace:
  "w_db w' = w_db w \<Longrightarrow> set (w_trace w) \<subseteq> set (w_trace w') \<Longrightarrow> settled m w \<Longrightarrow> settled m w'"
  unfolding settled_def dead_lettered_def by (metis subsetD)

lemma skip_progress:
  assumes "ok w1" and "\<And>m. settled m w \<Longrightarrow> settled m w1"
    and "commits (w_trace w1) = commits (w_trace w)" and "rejects (km_Value m)"
    and "\<And>w2. ok w2 \<Longrightarrow> wp rest (\<lambda>_. progress ms w2) (\<lambda>_. progress ms w2) w2"
  shows "wp (bnd (annot f (publishDeadLetter E c m cause)) (\<lambda>_. bnd (annot g (CommitMessages m)) (\<lambda>_. rest)))
    (\<lambda>_. progress (m # ms) w) (\<lambda>_. progress (m # ms) w) w1"
  unfolding wp_bnd[of "annot f _"] wp_annot
proof (rule wp_mono[OF dead_letter_wp])
  fix a and w2 :: "('db, wire) world"
  assume w2: "w_db w2 = w_db w1 \<and> w_uuids w1 \<le> w_uuids w2 \<and> (\<exists>tr. w_trace w2 = w_trace w1 @ tr \<and> commits tr = []) \<and>
      (has_dead_letter c \<longrightarrow> dead_lettered E c m (w_trace w2))"
  have "settled x w2" if "settled x w" for x
    using w2 by (intro settled_db_trace[OF _ _ assms(2)[OF that]]) auto
  moreover have "ok w2" using ok_frame[OF assms(1)] w2 by simp
  ultimately have "ready m w w2" using w2 assms
    unfolding ready_def settled_def by auto
  then show "wp (bnd (annot g (CommitMessages m)) (\<lambda>_. rest)) (\<lambda>_. progress (m # ms) w) (\<lambda>_. progress (m # ms) w) w2"
    by (rule commit_progress) (rule assms(5))
next
  fix e and w2 :: "('db, wire) world"
  assume w2: "w_db w2 = w_db w1 \<and> w_uuids w1 \<le> w_uuids w2 \<and> (\<exists>tr. w_trace w2 = w_trace w1 @ tr \<and> commits tr = [])"
  have "settled x w2" if "settled x w" for x
    using w2 by (intro settled_db_trace[OF _ _ assms(2)[OF that]]) auto
  moreover have "ok w2" using ok_frame[OF assms(1)] w2 by simp
  ultimately show "progress (m # ms) w w2"
    using w2 assms(3) by (intro progress_zero) auto
qed

lemma consume_progress:
  "ok w \<Longrightarrow> wp (consume E c handler arr) (\<lambda>_. progress (messages arr) w) (\<lambda>_. progress (messages arr) w) w"
proof (induction arr arbitrary: w)
  case Nil
  then show ?case by (auto simp: wp_simps intro: progress_zero)
next
  case (Cons a arr)
  show ?case
  proof (cases a)
    case (FetchFailed e b)
    with Cons.prems show ?thesis by (auto simp: wp_simps intro: progress_zero)
  next
    case (Arrived t m b)
    let ?w = "w\<lparr>w_app_now := fst t, w_pg_now := snd t\<rparr>"
    have same: "settled x w = settled x ?w" for x by (simp add: settled_def)
    have ok: "ok ?w" using ok_frame[OF Cons.prems] by simp
    have after: "\<forall>x. settled x w \<longrightarrow> settled x w1" "ok w1" "commits (w_trace w1) = commits (w_trace w)"
      if "handler_step ok handled ?w w1" for w1
      using that settled_step[OF that] by (auto simp: same handler_step_def)
    have accepted: "wp (bnd (annot (errorf ''commit kafka message: '') (CommitMessages m)) (\<lambda>_. consume E c handler arr))
        (\<lambda>_. progress (m # messages arr) w) (\<lambda>_. progress (m # messages arr) w) w1"
      if "handled (km_Value m) (w_db w1) \<and> handler_step ok handled ?w w1" for w1
      by (rule commit_progress[OF _ Cons.IH]) (use that after[of w1] in \<open>auto simp: ready_def settled_def\<close>)
    have stopped: "progress (m # messages arr) w w1" if "handler_step ok handled ?w w1" for w1
      using after[OF that] by (intro progress_zero) auto
    have rejected: "wp (bnd (annot (errorf ''publish kafka dead letter: '') (publishDeadLetter E c m e))
          (\<lambda>_. bnd (annot (errorf ''commit skipped kafka message: '') (CommitMessages m)) (\<lambda>_. consume E c handler arr)))
        (\<lambda>_. progress (m # messages arr) w) (\<lambda>_. progress (m # messages arr) w) w1"
      if "rejects (km_Value m)" "handler_step ok handled ?w w1" for w1 e
      by (rule skip_progress) (use that after[of w1] Cons.IH in auto)
    show ?thesis
      unfolding Arrived consume.simps messages.simps wp_bnd[of "at_clocks _"] wp_at_clocks
        wp_bnd[of "attempt _"] wp_attempt
      by (rule wp_mono[OF handler_wp])
        (simp_all add: ok accepted stopped rejected wp_raise wp_ret)
  qed
qed

text \<open>
  Restarts included: the offsets a group has committed are those of a prefix of the log, in
  order, and every message of the prefix is settled.
\<close>

definition caught_up :: "kafka_message list \<Rightarrow> ('db, wire) world \<Rightarrow> bool" where
  "caught_up log w = (ok w \<and>
     commits (w_trace w) = map commit_of (take (length (commits (w_trace w))) log) \<and>
     (\<forall>m \<in> set (take (length (commits (w_trace w))) log). settled m w))"

lemma progress_caught_up:
  assumes "caught_up log w" and "progress (take n (drop (length (commits (w_trace w))) log)) w w'"
  shows "caught_up log w'"
proof -
  let ?p = "length (commits (w_trace w))"
  from assms(2) obtain k where k: "k \<le> length (take n (drop ?p log))"
    and tr: "commits (w_trace w') = commits (w_trace w) @ map commit_of (take k (take n (drop ?p log)))"
    and new: "\<forall>m \<in> set (take k (take n (drop ?p log))). settled m w'"
    and old: "\<forall>m. settled m w \<longrightarrow> settled m w'" and "ok w'"
    unfolding progress_def by blast
  from assms(1) have pre: "commits (w_trace w) = map commit_of (take ?p log)"
    and seen: "\<forall>m \<in> set (take ?p log). settled m w"
    by (simp_all add: caught_up_def)
  have "take k (take n (drop ?p log)) = take k (drop ?p log)"
    using k by (simp add: take_take min_absorb1)
  with tr pre have "commits (w_trace w') = map commit_of (take ?p log @ take k (drop ?p log))"
    by simp
  moreover have len: "length (commits (w_trace w')) = ?p + k"
    using tr k by simp
  moreover have "take (?p + k) log = take ?p log @ take k (drop ?p log)"
    by (rule take_add)
  ultimately show ?thesis
    unfolding caught_up_def using \<open>ok w'\<close> old new seen
      \<open>take k (take n (drop ?p log)) = take k (drop ?p log)\<close> by (auto simp: len)
qed

lemma sessions_caught_up:
  "caught_up log w \<Longrightarrow> wp (sessions E c handler log ss) (\<lambda>_. caught_up log) (\<lambda>_. caught_up log) w"
proof (induction ss arbitrary: w)
  case Nil
  then show ?case by (simp add: wp_simps)
next
  case (Cons s ss)
  let ?arr = "turns s (drop (length (commits (w_trace w))) log)"
  from Cons.prems have "wp (consume E c handler ?arr) (\<lambda>_. caught_up log) (\<lambda>_. caught_up log) w"
    by (intro wp_mono[OF consume_progress])
      (auto simp: messages_turns caught_up_def[of log w] intro: progress_caught_up[OF Cons.prems])
  then have "wp (attempt (consume E c handler ?arr)) (\<lambda>_. caught_up log) (\<lambda>_. caught_up log) w"
    by (simp add: wp_attempt)
  then have "wp (bnd (attempt (consume E c handler ?arr)) (\<lambda>_. sessions E c handler log ss))
      (\<lambda>_. caught_up log) (\<lambda>_. caught_up log) w"
    unfolding wp_bnd by (rule wp_mono) (auto intro: Cons.IH)
  then show ?case by (simp add: wp_def)
qed

end

end
