(* ===== verification/Tx_Logic.thy ===== *)
theory Tx_Logic
  imports Outbox
begin

text \<open>
  Rules for operations that run in one transaction.  \<open>tx_wp body P w w1\<close> speaks about a body
  that has reached \<open>w1\<close> after its transaction was opened in \<open>w\<close>: whatever fails, the
  committed database ends as it was in \<open>w\<close> or in a state that satisfies \<open>P\<close>, it satisfies
  \<open>P\<close> when the body returns without an error, and nothing is sent to any other system.  The
  rules of \<open>tx_rules\<close> follow the body statement by statement; the database that a rule speaks
  of is the transaction's own copy.
\<close>

named_theorems tx_rules \<open>rules for the statements of a transaction\<close>

definition outside :: "('db, 'v) world \<Rightarrow> ('db, 'v) world \<Rightarrow> bool" where
  "outside w w1 = (w_trace w1 = w_trace w \<and> w_app_now w1 = w_app_now w \<and>
     w_pg_now w1 = w_pg_now w \<and> w_uuids w \<le> w_uuids w1)"

definition same_clocks :: "('db, 'v) world \<Rightarrow> ('db, 'v) world \<Rightarrow> bool" where
  "same_clocks w w' = (w_app_now w' = w_app_now w \<and> w_pg_now w' = w_pg_now w \<and> w_uuids w \<le> w_uuids w')"

definition staged :: "('db, 'v) world \<Rightarrow> 'db \<Rightarrow> nat \<Rightarrow> ('db, 'v) world \<Rightarrow> bool" where
  "staged w d u w1 = (w_tx w1 = Some \<lparr>tx_db = d, tx_aborted = False\<rparr> \<and> w_db w1 = w_db w \<and>
     w_uuids w1 = u \<and> outside w w1)"

definition tx_wp ::
    "('db, 'v, 'a) go \<Rightarrow> ('a \<Rightarrow> 'db \<Rightarrow> nat \<Rightarrow> bool) \<Rightarrow> ('db, 'v) world \<Rightarrow> ('db, 'v) world \<Rightarrow> bool" where
  "tx_wp body P w w1 = wp body
     (\<lambda>a w'. outside w w' \<and> P a (w_db w') (w_uuids w'))
     (\<lambda>e w'. outside w w' \<and> (w_db w' = w_db w \<or> (\<exists>a. P a (w_db w') (w_uuids w')))) w1"

lemma tx_wp_with_tx:
  assumes "\<And>w1. staged w (w_db w) (w_uuids w) w1 \<Longrightarrow> tx_wp body P w w1"
  shows "tx_wp (with_tx g body) P w w"
proof -
  let ?w1 = "(next_w w)\<lparr>w_tx := Some \<lparr>tx_db = w_db w, tx_aborted = False\<rparr>\<rparr>"
  have "staged w (w_db w) (w_uuids w) ?w1"
    by (simp add: staged_def outside_def)
  from assms[OF this] have "wp body
     (\<lambda>a w2. outside w (w2\<lparr>w_tx := None\<rparr>) \<and> P a (w_db w2) (w_uuids w2))
     (\<lambda>e w2. outside w (w2\<lparr>w_tx := None\<rparr>) \<and> (w_db w2 = w_db w \<or> (\<exists>a. P a (w_db w2) (w_uuids w2)))) ?w1"
    unfolding tx_wp_def by (simp add: outside_def)
  then show ?thesis
    by (simp add: tx_wp_def wp_with_tx outside_def split: call_outcome.splits)
qed

lemma tx_wp_assoc [tx_rules]:
  "tx_wp (bnd m (\<lambda>a. bnd (f a) h)) P w w1 \<Longrightarrow> tx_wp (bnd (bnd m f) h) P w w1"
  by (simp add: tx_wp_def wp_bnd)

lemma tx_wp_raise [tx_rules]: "staged w d u w1 \<Longrightarrow> tx_wp (raise e) P w w1"
  by (simp add: tx_wp_def wp_raise staged_def)

lemma tx_wp_raise_bnd [tx_rules]: "staged w d u w1 \<Longrightarrow> tx_wp (bnd (raise e) f) P w w1"
  by (simp add: tx_wp_def wp_bnd wp_raise staged_def)

lemma tx_wp_ret_bnd [tx_rules]: "tx_wp (f a) P w w1 \<Longrightarrow> tx_wp (bnd (ret a) f) P w w1"
  by (simp add: tx_wp_def wp_bnd wp_ret)

lemma tx_wp_clock [tx_rules]:
  "staged w d u w1 \<Longrightarrow> tx_wp (f (w_app_now w)) P w w1 \<Longrightarrow> tx_wp (bnd app_clock f) P w w1"
  by (simp add: tx_wp_def wp_bnd wp_app_clock staged_def outside_def)

lemma tx_wp_of_sum [tx_rules]:
  "staged w d u w1 \<Longrightarrow> (\<And>a. r = Inr a \<Longrightarrow> tx_wp (f a) P w w1) \<Longrightarrow> tx_wp (bnd (of_sum r) f) P w w1"
  by (cases r) (simp_all add: tx_wp_def wp_bnd wp_of_sum staged_def)

lemma tx_wp_of_sum_annot [tx_rules]:
  "staged w d u w1 \<Longrightarrow> (\<And>a. r = Inr a \<Longrightarrow> tx_wp (f a) P w w1) \<Longrightarrow>
   tx_wp (bnd (annot g (of_sum r)) f) P w w1"
  by (cases r) (simp_all add: tx_wp_def wp_bnd wp_annot wp_of_sum staged_def)

lemma tx_wp_uuid [tx_rules]:
  assumes "staged w d u w1"
    and "\<And>w2. staged w d (Suc u) w2 \<Longrightarrow> tx_wp (f (gen u)) P w w2"
  shows "tx_wp (bnd (new_uuid gen) f) P w w1"
proof -
  have "staged w d (Suc u) (w1\<lparr>w_uuids := Suc (w_uuids w1)\<rparr>)"
    using assms(1) by (simp add: staged_def outside_def)
  from assms(2)[OF this] show ?thesis
    using assms(1) by (simp add: tx_wp_def wp_bnd wp_new_uuid staged_def)
qed

lemma tx_wp_stmt [tx_rules]:
  assumes "staged w d u w1"
    and "\<And>a d' w2. q d (w_pg_now w) = Inr (a, d') \<Longrightarrow> staged w d' u w2 \<Longrightarrow> tx_wp (f a) P w w2"
  shows "tx_wp (bnd (tx_stmt q) f) P w w1"
proof -
  have tx: "w_tx w1 = Some \<lparr>tx_db = d, tx_aborted = False\<rparr>" "w_pg_now w1 = w_pg_now w"
    using assms(1) by (simp_all add: staged_def outside_def)
  have step: "tx_wp (f a) P w ((next_w w1)\<lparr>w_tx := Some (\<lparr>tx_db = d, tx_aborted = False\<rparr>\<lparr>tx_db := d'\<rparr>)\<rparr>)"
    if "q d (w_pg_now w) = Inr (a, d')" for a d'
    by (rule assms(2)[OF that]) (use assms(1) in \<open>simp add: staged_def outside_def\<close>)
  show ?thesis
    using assms(1) step
    by (auto simp: tx_wp_def wp_bnd wp_tx_stmt tx staged_def outside_def
        split: call_outcome.splits sum.splits prod.splits)
qed

lemma tx_wp_annot: "tx_wp (annot g m) P w w1 = tx_wp m P w w1"
  by (simp add: tx_wp_def wp_annot)

lemma tx_wp_annot_bnd [tx_rules]: "tx_wp (bnd m f) P w w1 \<Longrightarrow> tx_wp (bnd (annot g m) f) P w w1"
  by (simp add: tx_wp_def wp_bnd wp_annot)

lemma tx_wp_commit [tx_rules]:
  "staged w d u w1 \<Longrightarrow> P () d u \<Longrightarrow> tx_wp commit_tx P w w1"
  by (auto simp: tx_wp_def wp_commit_tx staged_def outside_def split: call_outcome.splits)

lemma tx_wp_commit_ret [tx_rules]:
  "staged w d u w1 \<Longrightarrow> P a d u \<Longrightarrow> tx_wp (bnd commit_tx (\<lambda>_. ret a)) P w w1"
  by (auto simp: tx_wp_def wp_bnd wp_ret wp_commit_tx staged_def outside_def split: call_outcome.splits)

lemma tx_wp_InsertTx:
  fixes w :: "('d outbox_db_scheme, wire) world"
  assumes "staged w d u w1" and "ob_Payload e \<noteq> None"
    and "\<And>w2. staged w (d\<lparr>outbox_events := add_event
            (new_event (ob_EventID e) (ob_EventType e)
               (if ob_OccurredAt e = zero_time then w_app_now w else ob_OccurredAt e) (ob_Source e)
               (ob_CorrelationID e) (ob_Topic e) (ob_KafkaKey e) (ob_Payload e)) (outbox_events d)\<rparr>) u w2
          \<Longrightarrow> tx_wp (f ()) P w w2"
  shows "tx_wp (bnd (InsertTx e) f) P w w1"
proof -
  let ?e = "new_event (ob_EventID e) (ob_EventType e)
               (if ob_OccurredAt e = zero_time then w_app_now w else ob_OccurredAt e) (ob_Source e)
               (ob_CorrelationID e) (ob_Topic e) (ob_KafkaKey e) (ob_Payload e)"
  have "tx_wp (bnd (tx_stmt (sql_insert_outbox ?e)) (\<lambda>_. f ())) P w w1"
    by (rule tx_wp_stmt[OF assms(1)]) (auto simp: sql_insert_outbox_apply intro: assms(3))
  moreover have "w_app_now w1 = w_app_now w"
    using assms(1) by (simp add: staged_def outside_def)
  ultimately show ?thesis
    using assms(2) by (cases "ob_OccurredAt e = zero_time") (auto simp: tx_wp_def wp_bnd wp_InsertTx)
qed

lemma tx_wp_new_event [tx_rules]:
  fixes w :: "('d outbox_db_scheme, wire) world"
  assumes "staged w d u w1"
    and "\<And>w2. staged w (d\<lparr>outbox_events := add_event
            (new_event i ty (if t = zero_time then w_app_now w else t) src c topic k (Some v))
            (outbox_events d)\<rparr>) u w2 \<Longrightarrow> tx_wp (f ()) P w w2"
  shows "tx_wp (bnd (InsertTx (new_event i ty t src c topic k (Some v))) f) P w w1"
  using assms by (intro tx_wp_InsertTx[OF assms(1)]) (simp_all cong: if_cong)

text \<open>Before the transaction is opened, the operation may check its arguments.\<close>

lemma tx_wp_raise_early: "tx_wp (raise e) P w w"
  by (simp add: tx_wp_def wp_raise outside_def)

lemma tx_wp_of_sum_early:
  "(\<And>a. r = Inr a \<Longrightarrow> tx_wp (f a) P w w) \<Longrightarrow> tx_wp (bnd (of_sum r) f) P w w"
  by (cases r) (simp_all add: tx_wp_def wp_bnd wp_of_sum outside_def)

text \<open>A loop inside a transaction, by an invariant over the elements still to come.\<close>

lemma tx_wp_for_each:
  assumes "staged w d u w1" and "J xs d u"
    and step: "\<And>x xs d u w1 g. J (x # xs) d u \<Longrightarrow> staged w d u w1 \<Longrightarrow>
      (\<And>d' u' w2. J xs d' u' \<Longrightarrow> staged w d' u' w2 \<Longrightarrow> tx_wp g P w w2) \<Longrightarrow>
      tx_wp (bnd (f x) (\<lambda>_. g)) P w w1"
    and finish: "\<And>d u w1. J [] d u \<Longrightarrow> staged w d u w1 \<Longrightarrow> tx_wp (h ()) P w w1"
  shows "tx_wp (bnd (for_each f xs) h) P w w1"
  using assms(1,2)
proof (induction xs arbitrary: d u w1)
  case Nil
  then show ?case using finish by (auto intro: tx_wp_ret_bnd)
next
  case (Cons x xs)
  have eq: "bnd (for_each f (x # xs)) h = bnd (f x) (\<lambda>_. bnd (for_each f xs) h)"
    by (rule ext) (auto simp: bnd_def split: sum.splits prod.splits)
  show ?case
    unfolding eq by (rule step[OF Cons.prems(2,1)]) (rule Cons.IH)
qed

text \<open>From the judgement to the runs of the operation.\<close>

lemma tx_wpD:
  assumes "m w = (r, w')" and "tx_wp m P w w"
  shows "outside w w' \<and> (w_db w' = w_db w \<or> (\<exists>a. P a (w_db w') (w_uuids w'))) \<and>
    (\<forall>a. r = Inr a \<longrightarrow> P a (w_db w') (w_uuids w'))"
  using assms by (cases r) (auto simp: tx_wp_def wp_def)

lemma tx_wp_wp:
  assumes "tx_wp m P w w"
    and "\<And>a w'. outside w w' \<Longrightarrow> P a (w_db w') (w_uuids w') \<Longrightarrow> Q a w'"
    and "\<And>e w'. outside w w' \<Longrightarrow> w_db w' = w_db w \<or> (\<exists>a. P a (w_db w') (w_uuids w')) \<Longrightarrow> R e w'"
  shows "wp m Q R w"
  using assms(1) unfolding tx_wp_def by (rule wp_mono) (use assms(2,3) in blast)+

lemma tx_wp_mono: "tx_wp m P w w1 \<Longrightarrow> (\<And>a d u. P a d u \<Longrightarrow> P' a d u) \<Longrightarrow> tx_wp m P' w w1"
  unfolding tx_wp_def by (rule wp_mono) blast+

section \<open>Aborted transactions\<close>

text \<open>
  After a statement has failed the transaction is doomed: every later statement fails, and
  nothing of it will be committed.
\<close>

definition doomed :: "('db, 'v) world \<Rightarrow> ('db, 'v) world \<Rightarrow> bool" where
  "doomed w w1 = ((\<exists>t. w_tx w1 = Some t \<and> tx_aborted t) \<and> w_db w1 = w_db w \<and> outside w w1)"

lemma tx_wp_attempt_stmt:
  assumes "staged w d u w1"
    and "\<And>a d' w2. q d (w_pg_now w) = Inr (a, d') \<Longrightarrow> staged w d' u w2 \<Longrightarrow> tx_wp (f (Inr a)) P w w2"
    and "\<And>e w2. doomed w w2 \<Longrightarrow> tx_wp (f (Inl e)) P w w2"
  shows "tx_wp (bnd (attempt (annot g (tx_stmt q))) f) P w w1"
proof -
  have tx: "w_tx w1 = Some \<lparr>tx_db = d, tx_aborted = False\<rparr>" "w_pg_now w1 = w_pg_now w"
    using assms(1) by (simp_all add: staged_def outside_def)
  have ok: "tx_wp (f (Inr a)) P w ((next_w w1)\<lparr>w_tx := Some (\<lparr>tx_db = d, tx_aborted = False\<rparr>\<lparr>tx_db := d'\<rparr>)\<rparr>)"
    if "q d (w_pg_now w) = Inr (a, d')" for a d'
    by (rule assms(2)[OF that]) (use assms(1) in \<open>simp add: staged_def outside_def\<close>)
  have failed: "tx_wp (f (Inl e)) P w ((next_w w1)\<lparr>w_tx := Some (abort_tx \<lparr>tx_db = d, tx_aborted = False\<rparr>)\<rparr>)" for e
    by (rule assms(3)) (use assms(1) in \<open>simp add: staged_def outside_def doomed_def\<close>)
  show ?thesis
    using ok failed
    by (auto simp: tx_wp_def wp_bnd wp_attempt wp_annot wp_tx_stmt tx
        split: call_outcome.splits sum.splits prod.splits)
qed

lemma doomed_stmt: "doomed w w1 \<Longrightarrow> tx_wp (bnd (tx_stmt q) f) P w w1"
  by (auto simp: doomed_def tx_wp_def wp_bnd wp_tx_stmt outside_def)

lemma doomed_InsertTx: "doomed w w1 \<Longrightarrow> tx_wp (bnd (InsertTx e) f) P w w1"
  by (auto simp: doomed_def tx_wp_def wp_bnd wp_InsertTx wp_tx_stmt Let_def outside_def)

lemma doomed_clock:
  "doomed w w1 \<Longrightarrow> tx_wp (f (w_app_now w)) P w w1 \<Longrightarrow> tx_wp (bnd app_clock f) P w w1"
  by (simp add: doomed_def tx_wp_def wp_bnd wp_app_clock outside_def)

lemma doomed_uuid:
  assumes "doomed w w1" and "\<And>i w2. doomed w w2 \<Longrightarrow> tx_wp (f i) P w w2"
  shows "tx_wp (bnd (new_uuid gen) f) P w w1"
proof -
  have "doomed w (w1\<lparr>w_uuids := Suc (w_uuids w1)\<rparr>)"
    using assms(1) by (simp add: doomed_def outside_def)
  from assms(2)[OF this] show ?thesis
    by (simp add: tx_wp_def wp_bnd wp_new_uuid)
qed

lemma doomed_of_sum:
  "doomed w w1 \<Longrightarrow> (\<And>a. r = Inr a \<Longrightarrow> tx_wp (f a) P w w1) \<Longrightarrow> tx_wp (bnd (of_sum r) f) P w w1"
  by (cases r) (simp_all add: doomed_def tx_wp_def wp_bnd wp_of_sum)

section \<open>Fresh identifiers\<close>

text \<open>Identifiers still to be generated are not those of any event of the outbox.\<close>

definition uuids_fresh :: "env \<Rightarrow> nat \<Rightarrow> outbox_event list \<Rightarrow> bool" where
  "uuids_fresh E u rows = (inj (uuid_gen E) \<and> (\<forall>e \<in> set rows. \<forall>n \<ge> u. ob_EventID e \<noteq> uuid_gen E n))"

lemma fresh_event:
  assumes "uuids_fresh E u rows" and "ob_EventID e = uuid_gen E u"
  shows "add_event e rows = rows @ [e]" and "uuids_fresh E (Suc u) (rows @ [e])"
    and "keyed ob_EventID rows \<Longrightarrow> keyed ob_EventID (rows @ [e])"
proof -
  have "\<forall>x \<in> set rows. ob_EventID x \<noteq> ob_EventID e"
    using assms by (auto simp: uuids_fresh_def)
  then show "add_event e rows = rows @ [e]" "keyed ob_EventID rows \<Longrightarrow> keyed ob_EventID (rows @ [e])"
    by (auto simp: add_event_def keyed_append_row)
  show "uuids_fresh E (Suc u) (rows @ [e])"
    using assms by (auto simp: uuids_fresh_def inj_eq)
qed

lemma uuids_fresh_mono: "uuids_fresh E u rows \<Longrightarrow> u \<le> u' \<Longrightarrow> uuids_fresh E u' rows"
  by (auto simp: uuids_fresh_def)

section \<open>Messages in the outbox\<close>

text \<open>The notification that an outbox event asks for.\<close>

definition notification_in :: "env \<Rightarrow> outbox_event \<Rightarrow> notification_payload option" where
  "notification_in E e =
     (if ob_Topic e = TopicNotificationCommands
      then (case decode_envelope E decode_notification (ob_Payload e) of
              Inl _ \<Rightarrow> None
            | Inr ev \<Rightarrow> if EventType ev = EventNotificationRequested then Some (Payload ev) else None)
      else None)"

text \<open>No error of inserting an event is a sentinel.\<close>

lemma avoids_InsertTx [avoids_rules]: "avoids s (InsertTx e)"
  unfolding InsertTx_def
  by (auto intro!: avoids_rules simp: invalid_json_def sql_insert_outbox_def)

end
