(* ===== verification/Delivery.thy ===== *)
theory Delivery
  imports Consumer Tx_Logic
begin

text \<open>
  The notification service: the table \<open>notification_deliveries\<close> and the repository of
  \<open>internal/delivery/repository.go\<close>, the retry publisher, the service that sends one e-mail per
  command, the scheduler that puts failed commands back on the outbox, and the mail sender of
  \<open>internal/email/smtp.go\<close>.  Counters and log lines are added in \<open>Delivery_Counters\<close>; left out is the column
  \<open>created_at\<close>, which the code never reads.
\<close>

definition StatusPending :: string where "StatusPending = ''pending''"
definition StatusSent :: string where "StatusSent = ''sent''"
definition DeliveryFailed :: string where "DeliveryFailed = ''failed''"
definition StatusDead :: string where "StatusDead = ''dead''"

lemmas delivery_status_defs = StatusPending_def StatusSent_def DeliveryFailed_def StatusDead_def

lemma delivery_statuses_distinct [simp]:
  "StatusPending \<noteq> StatusSent" "StatusPending \<noteq> DeliveryFailed" "StatusPending \<noteq> StatusDead"
  "StatusSent \<noteq> StatusPending" "StatusSent \<noteq> DeliveryFailed" "StatusSent \<noteq> StatusDead"
  "DeliveryFailed \<noteq> StatusPending" "DeliveryFailed \<noteq> StatusSent" "DeliveryFailed \<noteq> StatusDead"
  "StatusDead \<noteq> StatusPending" "StatusDead \<noteq> StatusSent" "StatusDead \<noteq> DeliveryFailed"
  by (simp_all add: delivery_status_defs)

record delivery_row =
  dr_NotificationID :: string
  dr_IdempotencyKey :: string
  dr_RecipientEmail :: string
  dr_EmailHash :: string
  dr_Repo :: string
  dr_Tag :: string
  dr_Message :: string
  dr_Status :: string
  dr_AttemptCount :: int
  dr_LastError :: string
  dr_NextAttemptAt :: "int option"
  dr_SentAt :: "int option"
  dr_UpdatedAt :: int

record delivery_db = outbox_db +
  deliveries :: "delivery_row list"

lemma delivery_db_swap:
  "(d :: 'd delivery_db_scheme)\<lparr>deliveries := rows, outbox_events := evs\<rparr>
    = d\<lparr>outbox_events := evs, deliveries := rows\<rparr>"
  by (cases d) simp

section \<open>The repository\<close>

definition pending_row :: "notification_payload \<Rightarrow> int \<Rightarrow> delivery_row" where
  "pending_row p now =
     \<lparr>dr_NotificationID = np_NotificationID p, dr_IdempotencyKey = np_IdempotencyKey p,
      dr_RecipientEmail = np_RecipientEmail p, dr_EmailHash = np_EmailHash p, dr_Repo = np_Repo p,
      dr_Tag = np_Tag p, dr_Message = np_Message p, dr_Status = StatusPending, dr_AttemptCount = 0,
      dr_LastError = '''', dr_NextAttemptAt = None, dr_SentAt = None, dr_UpdatedAt = now\<rparr>"

definition unique_violation :: "string \<Rightarrow> goerr" where
  "unique_violation c = Plain (''ERROR: duplicate key value violates unique constraint '' @ go_quote c)"

text \<open>The \<open>DO UPDATE\<close> of the upsert writes back the value that is there.\<close>

definition sql_upsert_pending :: "notification_payload \<Rightarrow> ('d delivery_db_scheme, delivery_row) sql" where
  "sql_upsert_pending p = (\<lambda>d now.
     case lookup_row dr_IdempotencyKey (deliveries d) (np_IdempotencyKey p) of
       Some r \<Rightarrow> Inr (r, d)
     | None \<Rightarrow>
         if np_NotificationID p \<in> dr_NotificationID ` set (deliveries d)
         then Inl (unique_violation ''notification_deliveries_pkey'')
         else Inr (pending_row p now, d\<lparr>deliveries := deliveries d @ [pending_row p now]\<rparr>))"

definition UpsertPending :: "notification_payload \<Rightarrow> ('d delivery_db_scheme, wire, delivery_row) go" where
  "UpsertPending p = annot (errorf ''upsert notification delivery: '') (pool_stmt (sql_upsert_pending p))"

definition sql_update_delivery ::
    "string \<Rightarrow> (int \<Rightarrow> delivery_row \<Rightarrow> delivery_row) \<Rightarrow> ('d delivery_db_scheme, unit) sql" where
  "sql_update_delivery key f = (\<lambda>d now. Inr ((), d\<lparr>deliveries :=
     update_where (\<lambda>r. dr_IdempotencyKey r = key) (f now) (deliveries d)\<rparr>))"

definition sent_row :: "int \<Rightarrow> delivery_row \<Rightarrow> delivery_row" where
  "sent_row now r = r\<lparr>dr_Status := StatusSent, dr_LastError := '''', dr_NextAttemptAt := None,
     dr_SentAt := Some now, dr_UpdatedAt := now\<rparr>"

definition MarkSent :: "string \<Rightarrow> ('d delivery_db_scheme, wire, unit) go" where
  "MarkSent key = annot (errorf ''mark notification sent: '') (pool_stmt (sql_update_delivery key sent_row))"

definition cause_text :: "goerr option \<Rightarrow> string" where
  "cause_text cause = (case cause of None \<Rightarrow> '''' | Some e \<Rightarrow> err_text e)"

definition retry_row :: "string \<Rightarrow> int \<Rightarrow> int \<Rightarrow> delivery_row \<Rightarrow> delivery_row" where
  "retry_row msg nextAttemptAt now r = r\<lparr>dr_Status := DeliveryFailed,
     dr_AttemptCount := dr_AttemptCount r + 1, dr_LastError := msg,
     dr_NextAttemptAt := Some nextAttemptAt, dr_UpdatedAt := now\<rparr>"

definition MarkDeliveryFailed :: "string \<Rightarrow> goerr option \<Rightarrow> int \<Rightarrow> ('d delivery_db_scheme, wire, unit) go" where
  "MarkDeliveryFailed key cause nextAttemptAt = annot (errorf ''mark notification failed: '')
     (pool_stmt (sql_update_delivery key (retry_row (cause_text cause) nextAttemptAt)))"

definition dead_row :: "string \<Rightarrow> int \<Rightarrow> delivery_row \<Rightarrow> delivery_row" where
  "dead_row msg now r = r\<lparr>dr_Status := StatusDead, dr_AttemptCount := dr_AttemptCount r + 1,
     dr_LastError := msg, dr_NextAttemptAt := None, dr_UpdatedAt := now\<rparr>"

definition MarkDead :: "string \<Rightarrow> goerr option \<Rightarrow> ('d delivery_db_scheme, wire, unit) go" where
  "MarkDead key cause = annot (errorf ''mark notification dead: '')
     (pool_stmt (sql_update_delivery key (dead_row (cause_text cause))))"

subsection \<open>Due retries\<close>

definition retry_due :: "env \<Rightarrow> int \<Rightarrow> delivery_row \<Rightarrow> bool" where
  "retry_due E now r =
     (dr_Status r = DeliveryFailed \<and>
      (case dr_NextAttemptAt r of None \<Rightarrow> False | Some t \<Rightarrow> t \<le> now) \<and>
      \<not> row_locked E (dr_NotificationID r))"

definition retry_order :: "delivery_row \<Rightarrow> order_by" where
  "retry_order r = OrderBy (case dr_NextAttemptAt r of None \<Rightarrow> 0 | Some t \<Rightarrow> t) (dr_UpdatedAt r) (dr_NotificationID r)"

definition due_retries :: "env \<Rightarrow> nat \<Rightarrow> int \<Rightarrow> delivery_row list \<Rightarrow> delivery_row list" where
  "due_retries E limit now rows = select_where retry_order limit (retry_due E now) rows"

definition sql_due_retries :: "env \<Rightarrow> nat \<Rightarrow> ('d delivery_db_scheme, delivery_row list) sql" where
  "sql_due_retries E limit = (\<lambda>d now. Inr (due_retries E limit now (deliveries d), d))"

definition payload_of :: "delivery_row \<Rightarrow> notification_payload" where
  "payload_of r =
     \<lparr>np_NotificationID = dr_NotificationID r, np_IdempotencyKey = dr_IdempotencyKey r,
      np_RecipientEmail = dr_RecipientEmail r, np_EmailHash = dr_EmailHash r, np_Repo = dr_Repo r,
      np_Tag = dr_Tag r, np_Message = dr_Message r\<rparr>"

definition notification_event ::
    "notification_payload \<Rightarrow> string \<Rightarrow> string \<Rightarrow> int \<Rightarrow> int option \<Rightarrow> notification_payload envelope" where
  "notification_event p eventID correlationID occurredAt notBefore =
     \<lparr>EventID = eventID, EventType = EventNotificationRequested, OccurredAt = occurredAt,
      Source = ''notification-service'', CorrelationID = correlationID, NotBefore = notBefore,
      Payload = p\<rparr>"

definition marshalRetryEvent :: "env \<Rightarrow> notification_payload \<Rightarrow> int \<Rightarrow> string \<Rightarrow> goerr + json" where
  "marshalRetryEvent E p occurredAt eventID =
     encode_envelope E (\<lambda>p. Inr (encode_notification p))
       (notification_event p eventID (np_NotificationID p) occurredAt None)"

definition requeued_row :: "int \<Rightarrow> delivery_row \<Rightarrow> delivery_row" where
  "requeued_row now r = r\<lparr>dr_Status := StatusPending, dr_NextAttemptAt := None, dr_UpdatedAt := now\<rparr>"

text \<open>The body of the loop over the due deliveries.\<close>

definition requeue :: "env \<Rightarrow> int \<Rightarrow> delivery_row \<Rightarrow> ('d delivery_db_scheme, wire, unit) go" where
  "requeue E now r =
     bnd (new_uuid (uuid_gen E)) (\<lambda>eventID.
     bnd (annot (errorf ''marshal notification retry event: '')
            (of_sum (marshalRetryEvent E (payload_of r) now eventID))) (\<lambda>raw.
     bnd (new_uuid (uuid_gen E)) (\<lambda>outboxID.
     bnd (InsertTx (new_event outboxID EventNotificationRequested now ''notification-service''
            (dr_NotificationID r) TopicNotificationCommands (dr_EmailHash r) (Some raw))) (\<lambda>_.
       annot (errorf ''mark notification retry pending: '')
         (tx_stmt (sql_update_delivery (dr_IdempotencyKey r) requeued_row))))))"

definition EnqueueDueRetries :: "env \<Rightarrow> int \<Rightarrow> ('d delivery_db_scheme, wire, nat) go" where
  "EnqueueDueRetries E limit0 =
     (let limit = (if limit0 \<le> 0 then 100 else nat limit0) in
      with_tx (errorf ''begin enqueue notification retries: '')
        (bnd (annot (errorf ''fetch due notification retries: '') (tx_stmt (sql_due_retries E limit))) (\<lambda>due.
         bnd app_clock (\<lambda>now.
         bnd (for_each (requeue E now) due) (\<lambda>_.
         bnd (annot (errorf ''commit enqueue notification retries: '') commit_tx) (\<lambda>_.
           ret (length due)))))))"

section \<open>The retry publisher\<close>

definition publish_notification ::
    "env \<Rightarrow> 'db publisher \<Rightarrow> string \<Rightarrow> notification_payload \<Rightarrow> int option \<Rightarrow> ('db, wire, unit) go" where
  "publish_notification E pub topic p notBefore =
     bnd (new_uuid (uuid_gen E)) (\<lambda>eventID.
     bnd app_clock (\<lambda>occurredAt.
     bnd (of_sum (encode_envelope E (\<lambda>p. Inr (encode_notification p))
            (notification_event p eventID eventID occurredAt notBefore))) (\<lambda>value.
       pub topic (np_EmailHash p) (Some value))))"

definition Retry :: "env \<Rightarrow> 'db publisher \<Rightarrow> notification_payload \<Rightarrow> int \<Rightarrow> ('db, wire, unit) go" where
  "Retry E pub p delay =
     (let topic = (if delay \<le> minute_ns then TopicNotificationRetry1m else TopicNotificationRetry10m) in
      bnd app_clock (\<lambda>now. publish_notification E pub topic p (Some (now + delay))))"

definition DeadLetter :: "env \<Rightarrow> 'db publisher \<Rightarrow> notification_payload \<Rightarrow> goerr \<Rightarrow> ('db, wire, unit) go" where
  "DeadLetter E pub p cause = publish_notification E pub TopicNotificationDLQ p None"

section \<open>The mail sender\<close>

record smtp_config =
  SMTPHost :: string
  SMTPPort :: string
  SMTPEmail :: string
  SMTPPassword :: string

definition senderAddress :: "smtp_config \<Rightarrow> string" where
  "senderAddress cfg = (if SMTPEmail cfg \<noteq> '''' then SMTPEmail cfg else ''subber@localhost'')"

definition crlf :: string where
  "crlf = [CHR 0x0D, CHR 0x0A]"

definition mail_text :: "string \<Rightarrow> string \<Rightarrow> string \<Rightarrow> string" where
  "mail_text sender to body =
     ''From: '' @ sender @ crlf @ ''To: '' @ to @ crlf @ ''Subject: Subber Notification'' @ crlf @
     ''MIME-Version: 1.0'' @ crlf @ ''Content-Type: text/plain; charset='' @ [CHR 0x22] @ ''utf-8'' @ [CHR 0x22] @
     crlf @ crlf @ body"

text \<open>\<open>smtp.SendMail\<close> refuses an address with a line break before it opens a connection.\<close>

definition one_line :: "string \<Rightarrow> bool" where
  "one_line s = (CHR 0x0A \<notin> set s \<and> CHR 0x0D \<notin> set s)"

definition SendMail :: "string \<Rightarrow> string \<Rightarrow> string \<Rightarrow> ('db, wire, unit) go" where
  "SendMail sender to msg =
     (if \<not> one_line sender \<or> \<not> one_line to then raise (Plain ''smtp: A line must not contain CR or LF'')
      else send_out (Emailed to msg))"

definition SMTP_Send :: "smtp_config \<Rightarrow> string \<Rightarrow> string \<Rightarrow> ('db, wire, unit) go" where
  "SMTP_Send cfg to body = SendMail (senderAddress cfg) to (mail_text (senderAddress cfg) to body)"

section \<open>The service\<close>

record 'db delivery_store =
  ds_UpsertPending :: "notification_payload \<Rightarrow> ('db, wire, delivery_row) go"
  ds_MarkSent :: "string \<Rightarrow> ('db, wire, unit) go"
  ds_MarkFailed :: "string \<Rightarrow> goerr option \<Rightarrow> int \<Rightarrow> ('db, wire, unit) go"
  ds_MarkDead :: "string \<Rightarrow> goerr option \<Rightarrow> ('db, wire, unit) go"

type_synonym 'db email_sender = "string \<Rightarrow> string \<Rightarrow> ('db, wire, unit) go"

record 'db delivery_service =
  dv_repo :: "'db delivery_store"
  dv_sender :: "'db email_sender"
  dv_retries :: "(notification_payload \<Rightarrow> goerr \<Rightarrow> ('db, wire, unit) go) option"
  dv_maxAttempts :: int
  dv_retryDelays :: "int list"

definition NewDeliveryService ::
    "'db delivery_store \<Rightarrow> 'db email_sender \<Rightarrow> (notification_payload \<Rightarrow> goerr \<Rightarrow> ('db, wire, unit) go) option \<Rightarrow>
     int \<Rightarrow> int list \<Rightarrow> 'db delivery_service" where
  "NewDeliveryService repo sender retries maxAttempts delays =
     \<lparr>dv_repo = repo, dv_sender = sender, dv_retries = retries,
      dv_maxAttempts = (if maxAttempts \<le> 0 then 3 else maxAttempts), dv_retryDelays = delays\<rparr>"

definition delivery_repository :: "('d delivery_db_scheme) delivery_store" where
  "delivery_repository =
     \<lparr>ds_UpsertPending = UpsertPending, ds_MarkSent = MarkSent, ds_MarkFailed = MarkDeliveryFailed,
      ds_MarkDead = MarkDead\<rparr>"

definition confirmation_text :: "string \<Rightarrow> string" where
  "confirmation_text link =
     ''Welcome! Please confirm your subscription to GitHub repository updates by clicking here: '' @ link"

definition Delivery_SendConfirmation ::
    "'db delivery_service \<Rightarrow> string \<Rightarrow> string \<Rightarrow> string \<Rightarrow> ('db, wire, unit) go" where
  "Delivery_SendConfirmation s email repo confirmURL =
     annot (errorf ''send confirmation email: '') (dv_sender s email (confirmation_text confirmURL))"

text \<open>The service's field \<open>retryDelays\<close> is the first argument.\<close>

definition delivery_retryDelay :: "int list \<Rightarrow> int \<Rightarrow> int" where
  "delivery_retryDelay delays n =
     (if n \<le> 0 \<or> delays = [] then minute_ns
      else let index = n - 1;
               index' = (if index \<ge> int (length delays) then int (length delays) - 1 else index)
           in delays ! nat index')"

definition handleFailure ::
    "'db delivery_service \<Rightarrow> notification_payload \<Rightarrow> int \<Rightarrow> goerr \<Rightarrow> ('db, wire, unit) go" where
  "handleFailure s p currentAttempts cause =
     (let nextAttempt = currentAttempts + 1 in
      if nextAttempt \<ge> dv_maxAttempts s
      then bnd (ds_MarkDead (dv_repo s) (np_IdempotencyKey p) (Some cause)) (\<lambda>_.
        case dv_retries s of
          None \<Rightarrow> ret ()
        | Some dead_letter \<Rightarrow> annot (errorf ''publish notification dlq: '') (dead_letter p cause))
      else bnd app_clock (\<lambda>now.
        ds_MarkFailed (dv_repo s) (np_IdempotencyKey p) (Some cause) (now + delivery_retryDelay (dv_retryDelays s) nextAttempt)))"

definition Process :: "'db delivery_service \<Rightarrow> notification_payload \<Rightarrow> ('db, wire, unit) go" where
  "Process s p =
     bnd (ds_UpsertPending (dv_repo s) p) (\<lambda>row.
     if dr_Status row = StatusSent then ret ()
     else if dr_Status row = StatusDead then ret ()
     else bnd (attempt (dv_sender s (np_RecipientEmail p) (np_Message p))) (\<lambda>r.
       case r of
         Inl err \<Rightarrow> handleFailure s p (dr_AttemptCount row) err
       | Inr _ \<Rightarrow> ds_MarkSent (dv_repo s) (np_IdempotencyKey p)))"

section \<open>The retry scheduler\<close>

record 'db retry_scheduler =
  rs_EnqueueDueRetries :: "int \<Rightarrow> ('db, wire, nat) go"
  rs_batchSize :: int
  rs_interval :: int

definition NewRetryScheduler :: "(int \<Rightarrow> ('db, wire, nat) go) \<Rightarrow> int \<Rightarrow> int \<Rightarrow> 'db retry_scheduler" where
  "NewRetryScheduler enqueue batchSize interval =
     \<lparr>rs_EnqueueDueRetries = enqueue, rs_batchSize = (if batchSize \<le> 0 then 100 else batchSize),
      rs_interval = (if interval \<le> 0 then second_ns else interval)\<rparr>"

text \<open>One batch per tick; the first error ends the loop, and with it the process.\<close>

definition Scheduler_Start :: "'db retry_scheduler \<Rightarrow> (int \<times> int) list \<Rightarrow> ('db, wire, unit) go" where
  "Scheduler_Start s ticks =
     for_each (\<lambda>t. bnd (at_clocks t) (\<lambda>_. bnd (rs_EnqueueDueRetries s (rs_batchSize s)) (\<lambda>_. ret ()))) ticks"

section \<open>The process\<close>

text \<open>\<open>notification-service/main.go\<close>: the service, and the consumer of its commands.\<close>

definition notification_process :: "env \<Rightarrow> smtp_config \<Rightarrow> int \<Rightarrow> int list \<Rightarrow> ('d delivery_db_scheme) delivery_service" where
  "notification_process E cfg maxAttempts delays =
     NewDeliveryService delivery_repository (SMTP_Send cfg) (Some (DeadLetter E Publish)) maxAttempts delays"

definition notificationConsumer :: "'db consumer" where
  "notificationConsumer =
     WithDeadLetter (newConsumer TopicNotificationCommands ''notification-service'') TopicNotificationDLQ Publish"

definition notification_handler :: "env \<Rightarrow> 'db delivery_service \<Rightarrow> 'db handler" where
  "notification_handler E s key v =
     (case decode_envelope E decode_notification v of
        Inl e \<Rightarrow> raise (non_retryable (errorf ''decode notification command: '' e))
      | Inr event \<Rightarrow>
          if EventType event \<noteq> EventNotificationRequested
          then raise (non_retryable (Plain (''unsupported notification event type '' @ go_quote (EventType event))))
          else Process s (Payload event))"

end
