(* ===== verification/Watch_Saga.thy ===== *)
theory Watch_Saga
  imports Consumer Tx_Logic
begin

text \<open>
  The saga orchestrator of \<open>internal/watchsaga/orchestrator.go\<close>: the table
  \<open>saga_instances\<close>, the handlers of requests and acknowledgements, and the retry sweep.

  A \<open>UUID\<close> column holds the canonical text that \<open>uuid.NewString\<close> writes; a text the server
  does not take for a UUID makes the statement fail, as any \<open>Fail\<close> outcome of the script does.
  The clock of the orchestrator, \<open>o.now\<close>, is the service's clock.
\<close>

record saga_row =
  sg_SagaID :: string
  sg_Type :: string
  sg_Repo :: string
  sg_Action :: string
  sg_Status :: string
  sg_Attempts :: int
  sg_CorrelationID :: string
  sg_NextRetryAt :: "int option"
  sg_DeadlineAt :: int
  sg_LastError :: "string option"
  sg_CreatedAt :: int
  sg_UpdatedAt :: int

record saga_db = outbox_db +
  saga_instances :: "saga_row list"

lemma saga_db_swap:
  "(d :: 'd saga_db_scheme)\<lparr>saga_instances := rows, outbox_events := evs\<rparr>
    = d\<lparr>outbox_events := evs, saga_instances := rows\<rparr>"
  by (cases d) simp

definition TypeRepoWatch :: string where
  "TypeRepoWatch = ''repo_watch''"

definition StatusCommandSent :: string where
  "StatusCommandSent = ''command_sent''"

definition StatusRetrying :: string where
  "StatusRetrying = ''retrying''"

definition StatusCompleted :: string where
  "StatusCompleted = ''completed''"

definition StatusFailed :: string where
  "StatusFailed = ''failed''"

lemmas status_defs = StatusCommandSent_def StatusRetrying_def StatusCompleted_def StatusFailed_def

lemma statuses_distinct [simp]:
  "distinct [StatusCommandSent, StatusRetrying, StatusCompleted, StatusFailed]"
  "StatusCommandSent \<noteq> StatusRetrying" "StatusRetrying \<noteq> StatusCommandSent"
  "StatusCommandSent \<noteq> StatusCompleted" "StatusCompleted \<noteq> StatusCommandSent"
  "StatusCommandSent \<noteq> StatusFailed" "StatusFailed \<noteq> StatusCommandSent"
  "StatusRetrying \<noteq> StatusCompleted" "StatusCompleted \<noteq> StatusRetrying"
  "StatusRetrying \<noteq> StatusFailed" "StatusFailed \<noteq> StatusRetrying"
  "StatusCompleted \<noteq> StatusFailed" "StatusFailed \<noteq> StatusCompleted"
  by (simp_all add: status_defs)

definition DefaultRetryLimit :: nat where
  "DefaultRetryLimit = 50"

definition DefaultDeadline :: int where
  "DefaultDeadline = 24 * hour_ns"

definition retryDelays :: "int list" where
  "retryDelays = [minute_ns, 5 * minute_ns, 15 * minute_ns, hour_ns]"

record orchestrator =
  or_deadline :: int

definition New :: orchestrator where
  "New = \<lparr>or_deadline = DefaultDeadline\<rparr>"

section \<open>Pure parts\<close>

definition commandEventType :: "string \<Rightarrow> goerr + string" where
  "commandEventType action =
     (if action = RepoWatchActionStart then Inr EventStartWatchingRepo
      else if action = RepoWatchActionStop then Inr EventStopWatchingRepo
      else Inl (Plain (''unsupported repo watch action '' @ go_quote action)))"

definition validateAction :: "string \<Rightarrow> goerr + unit" where
  "validateAction action = sum_map (\<lambda>_. ()) (commandEventType action)"

definition retryDelay :: "int \<Rightarrow> int" where
  "retryDelay n =
     (if n \<le> 1 then retryDelays ! 0
      else if n \<ge> int (length retryDelays) then retryDelays ! (length retryDelays - 1)
      else retryDelays ! nat (n - 1))"

definition repoWatchAckEventType :: "string \<Rightarrow> goerr + string" where
  "repoWatchAckEventType action =
     (if action = RepoWatchActionStart then Inr EventRepoWatchStarted
      else if action = RepoWatchActionStop then Inr EventRepoWatchStopped
      else Inl (Plain (''unsupported repo watch action '' @ go_quote action)))"

section \<open>Preparing a command\<close>

definition watch_command ::
    "string \<Rightarrow> string \<Rightarrow> string \<Rightarrow> string \<Rightarrow> string \<Rightarrow> string \<Rightarrow> int \<Rightarrow> command_payload envelope" where
  "watch_command eventID eventType sagaID action repo correlationID occurredAt =
     \<lparr>EventID = eventID, EventType = eventType, OccurredAt = occurredAt,
      Source = ''subscription-api-saga-orchestrator'', CorrelationID = correlationID,
      NotBefore = None, Payload = \<lparr>cp_SagaID = sagaID, cp_Action = action, cp_Repo = repo\<rparr>\<rparr>"

definition prepareWatchCommand ::
    "env \<Rightarrow> string \<Rightarrow> string \<Rightarrow> string \<Rightarrow> string \<Rightarrow> int \<Rightarrow> ('d outbox_db_scheme, wire, unit) go" where
  "prepareWatchCommand E sagaID action repo correlationID occurredAt =
     bnd (new_uuid (uuid_gen E)) (\<lambda>eventID.
     bnd (of_sum (commandEventType action)) (\<lambda>eventType.
     let event = watch_command eventID eventType sagaID action repo correlationID occurredAt in
     bnd (annot (errorf ''marshal repo watch command: '')
            (of_sum (encode_envelope E (\<lambda>p. Inr (encode_command p)) event))) (\<lambda>payload.
       InsertTx (new_event eventID (EventType event) (OccurredAt event) (Source event)
         correlationID TopicWatchlistCommands repo (Some payload)))))"

section \<open>Requests\<close>

definition sql_insert_saga :: "saga_row \<Rightarrow> ('d saga_db_scheme, nat) sql" where
  "sql_insert_saga r = (\<lambda>d now.
     if sg_SagaID r \<in> sg_SagaID ` set (saga_instances d) then Inr (0, d)
     else Inr (1, d\<lparr>saga_instances := saga_instances d @ [r\<lparr>sg_CreatedAt := now, sg_UpdatedAt := now\<rparr>]\<rparr>))"

definition new_saga :: "string \<Rightarrow> string \<Rightarrow> string \<Rightarrow> string \<Rightarrow> int \<Rightarrow> int \<Rightarrow> saga_row" where
  "new_saga sagaID repo action correlationID nextRetryAt deadlineAt =
     \<lparr>sg_SagaID = sagaID, sg_Type = TypeRepoWatch, sg_Repo = repo, sg_Action = action,
      sg_Status = StatusCommandSent, sg_Attempts = 1, sg_CorrelationID = correlationID,
      sg_NextRetryAt = Some nextRetryAt, sg_DeadlineAt = deadlineAt, sg_LastError = None,
      sg_CreatedAt = 0, sg_UpdatedAt = 0\<rparr>"

definition HandleRequest ::
    "env \<Rightarrow> orchestrator \<Rightarrow> saga_payload envelope \<Rightarrow> ('d saga_db_scheme, wire, unit) go" where
  "HandleRequest E orc event =
     (let p = Payload event in
      if EventType event \<noteq> EventRepoWatchSagaRequested
      then raise (Plain (''unsupported saga request event type '' @ go_quote (EventType event)))
      else bnd (of_sum (validateAction (sp_Action p))) (\<lambda>_.
      if \<not> uuid_parses E (sp_SagaID p) then raise (errorf ''invalid saga id: '' (Plain ''invalid UUID''))
      else if sp_Repo p = '''' then raise (Plain ''repo is required'')
      else with_tx (errorf ''begin saga request: '')
        (bnd app_clock (\<lambda>now.
         bnd (annot (errorf ''create saga instance: '')
                (tx_stmt (sql_insert_saga
                   (new_saga (sp_SagaID p) (sp_Repo p) (sp_Action p) (CorrelationID event)
                      (now + retryDelay 1) (now + or_deadline orc))))) (\<lambda>tag.
         if tag = 0 then commit_tx
         else bnd (prepareWatchCommand E (sp_SagaID p) (sp_Action p) (sp_Repo p) (CorrelationID event) now)
                (\<lambda>_. commit_tx))))))"

section \<open>Acknowledgements\<close>

definition err_no_rows :: goerr where
  "err_no_rows = Plain ''no rows in result set''"

text \<open>\<open>SELECT ... FOR UPDATE\<close> of one row; \<open>None\<close> is pgx's \<open>ErrNoRows\<close>.\<close>

definition loadSagaInstanceForUpdate :: "string \<Rightarrow> ('d saga_db_scheme, wire, saga_row option) go" where
  "loadSagaInstanceForUpdate sagaID =
     tx_stmt (\<lambda>d now. Inr (lookup_row sg_SagaID (saga_instances d) sagaID, d))"

definition terminal :: "string \<Rightarrow> bool" where
  "terminal status = (status = StatusCompleted \<or> status = StatusFailed)"

text \<open>\<open>UPDATE saga_instances SET ... WHERE ...\<close> returns the number of rows it changed.\<close>

definition sql_update_saga ::
    "(saga_row \<Rightarrow> bool) \<Rightarrow> (int \<Rightarrow> saga_row \<Rightarrow> saga_row) \<Rightarrow> ('d saga_db_scheme, nat) sql" where
  "sql_update_saga p f = (\<lambda>d now.
     Inr (affected p (saga_instances d),
          d\<lparr>saga_instances := update_where p (f now) (saga_instances d)\<rparr>))"

definition handleSuccessAck ::
    "ack_payload envelope \<Rightarrow> saga_row \<Rightarrow> ('d saga_db_scheme, wire, unit) go" where
  "handleSuccessAck event inst =
     bnd (of_sum (repoWatchAckEventType (sg_Action inst))) (\<lambda>ackEventType.
     if EventType event \<noteq> ackEventType
     then raise (Plain (''unexpected saga ack event type '' @ go_quote (EventType event)
            @ '' for action '' @ go_quote (sg_Action inst)))
     else if terminal (sg_Status inst) then commit_tx
     else bnd (annot (errorf ''complete saga instance: '')
            (tx_stmt (sql_update_saga
               (\<lambda>r. sg_SagaID r = ap_SagaID (Payload event) \<and> sg_Repo r = sg_Repo inst \<and>
                    sg_Action r = sg_Action inst \<and> sg_Status r \<notin> {StatusCompleted, StatusFailed})
               (\<lambda>now r. r\<lparr>sg_Status := StatusCompleted, sg_LastError := None, sg_UpdatedAt := now\<rparr>)))) (\<lambda>tag.
       if tag = 0
       then raise (Plain (''saga instance '' @ ap_SagaID (Payload event) @ '' was not updated''))
       else commit_tx))"

definition failed_row :: "int \<Rightarrow> int \<Rightarrow> string \<Rightarrow> int \<Rightarrow> saga_row \<Rightarrow> saga_row" where
  "failed_row now nextRetryAt cause pg_now r =
     r\<lparr>sg_Status := (if sg_DeadlineAt r \<le> now then StatusFailed else StatusRetrying),
       sg_NextRetryAt := (if sg_DeadlineAt r \<le> now then None else Some nextRetryAt),
       sg_LastError := Some cause, sg_UpdatedAt := pg_now\<rparr>"

definition handleFailedAck ::
    "ack_payload envelope \<Rightarrow> saga_row \<Rightarrow> ('d saga_db_scheme, wire, unit) go" where
  "handleFailedAck event inst =
     bnd app_clock (\<lambda>now.
     let nextRetryAt = now + retryDelay 1;
         cause = (if ap_Error (Payload event) = '''' then ''watch command failed''
                    else ap_Error (Payload event)) in
     if terminal (sg_Status inst) then commit_tx
     else bnd (annot (errorf ''mark saga failed ack: '')
            (tx_stmt (sql_update_saga
               (\<lambda>r. sg_SagaID r = ap_SagaID (Payload event) \<and> sg_Repo r = sg_Repo inst \<and>
                    sg_Action r = sg_Action inst \<and> sg_Status r \<notin> {StatusFailed, StatusCompleted})
               (failed_row now nextRetryAt cause)))) (\<lambda>tag.
       if tag = 0
       then raise (Plain (''saga instance '' @ ap_SagaID (Payload event) @ '' was not updated''))
       else commit_tx))"

definition HandleAck ::
    "orchestrator \<Rightarrow> ack_payload envelope \<Rightarrow> ('d saga_db_scheme, wire, unit) go" where
  "HandleAck orc event =
     (let p = Payload event in
      if ap_SagaID p = '''' then raise (Plain ''saga id is required'')
      else bnd (of_sum (validateAction (ap_Action p))) (\<lambda>_.
      with_tx (errorf ''begin saga ack: '')
        (bnd (annot (errorf ''load saga instance: '') (loadSagaInstanceForUpdate (ap_SagaID p))) (\<lambda>row.
         case row of
           None \<Rightarrow> raise (Plain (''saga instance '' @ ap_SagaID p @ '' not found''))
         | Some inst \<Rightarrow>
             (if sg_Repo inst \<noteq> ap_Repo p \<or> sg_Action inst \<noteq> ap_Action p
              then raise (Plain (''saga instance '' @ ap_SagaID p @ '' payload mismatch''))
              else if EventType event = EventRepoWatchStarted \<or> EventType event = EventRepoWatchStopped
              then handleSuccessAck event inst
              else if EventType event = EventRepoWatchFailed then handleFailedAck event inst
              else raise (Plain (''unsupported saga ack event type '' @ go_quote (EventType event))))))))"

section \<open>The retry sweep\<close>

definition saga_due :: "env \<Rightarrow> int \<Rightarrow> saga_row \<Rightarrow> bool" where
  "saga_due E now r =
     (sg_Status r \<in> {StatusCommandSent, StatusRetrying} \<and>
      (case sg_NextRetryAt r of None \<Rightarrow> False | Some t \<Rightarrow> t \<le> now) \<and>
      \<not> row_locked E (sg_SagaID r))"

definition saga_order :: "saga_row \<Rightarrow> order_by" where
  "saga_order r = OrderBy (case sg_NextRetryAt r of None \<Rightarrow> 0 | Some t \<Rightarrow> t) (sg_CreatedAt r) ''''"

definition due_sagas :: "env \<Rightarrow> int \<Rightarrow> nat \<Rightarrow> saga_row list \<Rightarrow> saga_row list" where
  "due_sagas E now limit rows = select_where saga_order limit (saga_due E now) rows"

definition sql_due_sagas :: "env \<Rightarrow> int \<Rightarrow> nat \<Rightarrow> ('d saga_db_scheme, saga_row list) sql" where
  "sql_due_sagas E now limit = (\<lambda>d _. Inr (due_sagas E now limit (saga_instances d), d))"

definition expired_row :: "int \<Rightarrow> saga_row \<Rightarrow> saga_row" where
  "expired_row pg_now r =
     r\<lparr>sg_Status := StatusFailed, sg_NextRetryAt := None,
       sg_LastError := Some ''timeout waiting for scanner ack'', sg_UpdatedAt := pg_now\<rparr>"

definition retried_row :: "int \<Rightarrow> int \<Rightarrow> int \<Rightarrow> saga_row \<Rightarrow> saga_row" where
  "retried_row attempts nextRetryAt pg_now r =
     r\<lparr>sg_Status := StatusRetrying, sg_Attempts := attempts, sg_NextRetryAt := Some nextRetryAt,
       sg_UpdatedAt := pg_now\<rparr>"

text \<open>The body of the loop over the due instances.\<close>

definition retry_instance :: "env \<Rightarrow> int \<Rightarrow> saga_row \<Rightarrow> ('d saga_db_scheme, wire, unit) go" where
  "retry_instance E now inst =
     (if \<not> now < sg_DeadlineAt inst
      then bnd (annot (errorf ''expire saga instance: '')
             (tx_stmt (sql_update_saga (\<lambda>r. sg_SagaID r = sg_SagaID inst) expired_row))) (\<lambda>_. ret ())
      else let attempts = sg_Attempts inst + 1; nextRetryAt = now + retryDelay attempts in
           bnd (prepareWatchCommand E (sg_SagaID inst) (sg_Action inst) (sg_Repo inst)
                  (sg_CorrelationID inst) now) (\<lambda>_.
           bnd (annot (errorf ''update retried saga instance: '')
                  (tx_stmt (sql_update_saga (\<lambda>r. sg_SagaID r = sg_SagaID inst)
                     (retried_row attempts nextRetryAt)))) (\<lambda>_. ret ())))"

definition RetryDue :: "env \<Rightarrow> orchestrator \<Rightarrow> int \<Rightarrow> ('d saga_db_scheme, wire, unit) go" where
  "RetryDue E orc limit0 =
     (let limit = (if limit0 \<le> 0 then DefaultRetryLimit else nat limit0) in
      with_tx (errorf ''begin saga retries: '')
        (bnd app_clock (\<lambda>now.
         bnd (annot (errorf ''select due saga retries: '') (tx_stmt (sql_due_sagas E now limit))) (\<lambda>due.
         bnd (for_each (retry_instance E now) due) (\<lambda>_.
           commit_tx)))))"

section \<open>The consumers of the orchestrator\<close>

text \<open>\<open>cmd/saga-orchestrator/main.go\<close>: decode the envelope, hand it to the orchestrator.\<close>

definition request_handler :: "env \<Rightarrow> orchestrator \<Rightarrow> ('d saga_db_scheme) handler" where
  "request_handler E orc key v =
     (case decode_envelope E decode_saga v of
        Inl e \<Rightarrow> raise (non_retryable (errorf ''decode repo watch saga request: '' e))
      | Inr event \<Rightarrow> HandleRequest E orc event)"

definition ack_handler :: "env \<Rightarrow> orchestrator \<Rightarrow> ('d saga_db_scheme) handler" where
  "ack_handler E orc key v =
     (case decode_envelope E decode_ack v of
        Inl e \<Rightarrow> raise (non_retryable (errorf ''decode repo watch ack: '' e))
      | Inr event \<Rightarrow> HandleAck orc event)"

definition orchestrator_group :: string where
  "orchestrator_group = ''subscription-api-saga-orchestrator''"

definition requestConsumer :: "'db consumer" where
  "requestConsumer = newConsumer TopicWatchlistSagaRequests orchestrator_group"

definition ackConsumer :: "'db consumer" where
  "ackConsumer = newConsumer TopicWatchlistSagaEvents orchestrator_group"


section \<open>The specification: one saga as a state machine\<close>

text \<open>
  A saga in flight has its number of attempts, the time of its next retry and its deadline.
  The steps are those of the design: a request starts it, an acknowledgement finishes it, a
  failure reschedules it, the sweep sends its command again with a growing delay, and past the
  deadline it is given up.  The last two states have no step.
\<close>

datatype saga_abs = Absent | InFlight int int int | Finished int | GaveUp int

inductive saga_step :: "int \<Rightarrow> saga_abs \<Rightarrow> saga_abs \<Rightarrow> bool" for now :: int where
  start: "saga_step now Absent (InFlight 1 (now + minute_ns) (now + 24 * hour_ns))"
| acked: "saga_step now (InFlight a t dl) (Finished a)"
| nacked: "now < dl \<Longrightarrow> saga_step now (InFlight a t dl) (InFlight a (now + minute_ns) dl)"
| nacked_late: "dl \<le> now \<Longrightarrow> saga_step now (InFlight a t dl) (GaveUp a)"
| resent: "t \<le> now \<Longrightarrow> now < dl \<Longrightarrow>
    saga_step now (InFlight a t dl) (InFlight (a + 1) (now + retryDelay (a + 1)) dl)"
| expired: "t \<le> now \<Longrightarrow> dl \<le> now \<Longrightarrow> saga_step now (InFlight a t dl) (GaveUp a)"

inductive_cases saga_stepE: "saga_step now s s'"

inductive_simps saga_step_absent: "saga_step now Absent s"
inductive_simps saga_step_finished [simp]: "saga_step now (Finished a) s"
inductive_simps saga_step_gaveup [simp]: "saga_step now (GaveUp a) s"
inductive_simps saga_step_to_absent [simp]: "saga_step now s Absent"

definition abs_row :: "saga_row \<Rightarrow> saga_abs" where
  "abs_row r =
     (if sg_Status r = StatusCompleted then Finished (sg_Attempts r)
      else if sg_Status r = StatusFailed then GaveUp (sg_Attempts r)
      else InFlight (sg_Attempts r) (case sg_NextRetryAt r of None \<Rightarrow> 0 | Some t \<Rightarrow> t) (sg_DeadlineAt r))"

definition saga_of :: "'d saga_db_scheme \<Rightarrow> string \<Rightarrow> saga_row option" where
  "saga_of d i = lookup_row sg_SagaID (saga_instances d) i"

definition abs_saga :: "'d saga_db_scheme \<Rightarrow> string \<Rightarrow> saga_abs" where
  "abs_saga d i = (case saga_of d i of None \<Rightarrow> Absent | Some r \<Rightarrow> abs_row r)"

section \<open>The invariant of the tables\<close>

definition row_ok :: "saga_row \<Rightarrow> bool" where
  "row_ok r = (sg_Type r = TypeRepoWatch \<and> sg_Repo r \<noteq> '''' \<and> validateAction (sg_Action r) = Inr () \<and>
     1 \<le> sg_Attempts r \<and>
     sg_Status r \<in> {StatusCommandSent, StatusRetrying, StatusCompleted, StatusFailed} \<and>
     (sg_Status r \<in> {StatusCommandSent, StatusRetrying} \<longrightarrow> sg_NextRetryAt r \<noteq> None))"

text \<open>The command an outbox event carries, as the scanner will read it.\<close>

definition command_of :: "env \<Rightarrow> outbox_event \<Rightarrow> command_payload option" where
  "command_of E e =
     (if ob_Topic e = TopicWatchlistCommands
      then (case decode_envelope E decode_command (ob_Payload e) of
              Inl _ \<Rightarrow> None | Inr ev \<Rightarrow> Some (Payload ev))
      else None)"

definition commands_for :: "env \<Rightarrow> string \<Rightarrow> outbox_event list \<Rightarrow> outbox_event list" where
  "commands_for E i rows = filter (\<lambda>e. map_option cp_SagaID (command_of E e) = Some i) rows"

definition attempts_of :: "'d saga_db_scheme \<Rightarrow> string \<Rightarrow> int" where
  "attempts_of d i = (case saga_of d i of None \<Rightarrow> 0 | Some r \<Rightarrow> sg_Attempts r)"

definition carries :: "env \<Rightarrow> saga_row \<Rightarrow> outbox_event \<Rightarrow> bool" where
  "carries E r e = (command_of E e =
     Some \<lparr>cp_SagaID = sg_SagaID r, cp_Action = sg_Action r, cp_Repo = sg_Repo r\<rparr>)"

text \<open>
  The outbox holds one command per attempt of each saga, and every command is one of a saga of
  the table.
\<close>

definition saga_rows_ok :: "'d saga_db_scheme \<Rightarrow> bool" where
  "saga_rows_ok d = (keyed sg_SagaID (saga_instances d) \<and> (\<forall>r \<in> set (saga_instances d). row_ok r))"

definition commands_ok :: "env \<Rightarrow> 'd saga_db_scheme \<Rightarrow> bool" where
  "commands_ok E d =
     ((\<forall>i. int (length (commands_for E i (outbox_events d))) = attempts_of d i) \<and>
      (\<forall>e \<in> set (outbox_events d). command_of E e \<noteq> None \<longrightarrow>
         (\<exists>r \<in> set (saga_instances d). carries E r e)))"

definition saga_inv :: "env \<Rightarrow> nat \<Rightarrow> 'd saga_db_scheme \<Rightarrow> bool" where
  "saga_inv E u d = (keyed ob_EventID (outbox_events d) \<and> uuids_fresh E u (outbox_events d) \<and>
     saga_rows_ok d \<and> commands_ok E d)"

lemma commandEventType_ok: "(commandEventType a = Inr t) =
   (a = RepoWatchActionStart \<and> t = EventStartWatchingRepo \<or> a = RepoWatchActionStop \<and> t = EventStopWatchingRepo)"
  by (auto simp: commandEventType_def)

lemma validateAction_ok: "(validateAction a = Inr ()) = (a = RepoWatchActionStart \<or> a = RepoWatchActionStop)"
  by (auto simp: validateAction_def commandEventType_def)

lemma commands_for_append: "commands_for E i (xs @ ys) = commands_for E i xs @ commands_for E i ys"
  by (simp add: commands_for_def)

lemma commands_for_carries:
  "\<forall>e \<in> set es. carries E r e \<Longrightarrow> commands_for E i es = (if i = sg_SagaID r then es else [])"
  by (induction es) (auto simp: commands_for_def carries_def)

lemma saga_of_SomeD: "saga_of d i = Some r \<Longrightarrow> r \<in> set (saga_instances d) \<and> sg_SagaID r = i"
  unfolding saga_of_def by (rule lookup_row_SomeD)

lemma saga_of_in: "(i \<in> sg_SagaID ` set (saga_instances d)) = (saga_of d i \<noteq> None)"
  unfolding saga_of_def lookup_row_None by auto

lemma saga_of_keyed:
  "saga_rows_ok d \<Longrightarrow> r \<in> set (saga_instances d) \<Longrightarrow> saga_of d (sg_SagaID r) = Some r"
  by (simp add: saga_of_def saga_rows_ok_def lookup_row_keyed)

text \<open>One saga row is rewritten and its commands are added to the outbox.\<close>

definition step_db ::
    "outbox_event list \<Rightarrow> string \<Rightarrow> (saga_row \<Rightarrow> saga_row) \<Rightarrow> 'd saga_db_scheme \<Rightarrow> 'd saga_db_scheme" where
  "step_db es i f d = d\<lparr>outbox_events := outbox_events d @ es,
     saga_instances := update_where (\<lambda>r. sg_SagaID r = i) f (saga_instances d)\<rparr>"

definition keeps_saga :: "(saga_row \<Rightarrow> saga_row) \<Rightarrow> bool" where
  "keeps_saga f = (\<forall>r. sg_SagaID (f r) = sg_SagaID r \<and> sg_Action (f r) = sg_Action r \<and>
     sg_Repo (f r) = sg_Repo r)"

lemma saga_of_step_db:
  assumes "keeps_saga f"
  shows "saga_of (step_db es i f d) j = (if j = i then map_option f (saga_of d i) else saga_of d j)"
  using lookup_row_update[of sg_SagaID f] assms by (auto simp: keeps_saga_def saga_of_def step_db_def)

lemma abs_saga_step_db:
  assumes "keeps_saga f" and "saga_of d i = Some r"
  shows "abs_saga (step_db es i f d) j = (if j = i then abs_row (f r) else abs_saga d j)"
  by (simp add: abs_saga_def saga_of_step_db[OF assms(1)] assms(2))

lemma saga_rows_ok_step_db:
  assumes "saga_rows_ok d" and "saga_of d i = Some r" and "keeps_saga f" and "row_ok (f r)"
  shows "saga_rows_ok (step_db es i f d)"
proof -
  have keyed: "keyed sg_SagaID (update_where (\<lambda>r. sg_SagaID r = i) f (saga_instances d))"
    using assms(1,3) by (intro keyed_update_where) (simp_all add: saga_rows_ok_def keeps_saga_def)
  have "row_ok (if sg_SagaID x = i then f x else x)" if "x \<in> set (saga_instances d)" for x
    using that assms(1,2,4) saga_of_keyed[OF assms(1) that] by (auto simp: saga_rows_ok_def)
  then have "\<forall>x \<in> set (update_where (\<lambda>r. sg_SagaID r = i) f (saga_instances d)). row_ok x"
    unfolding set_update_where by blast
  with keyed show ?thesis
    by (simp add: saga_rows_ok_def step_db_def)
qed

lemma commands_ok_step_db:
  assumes "commands_ok E d" and "saga_of d i = Some r" and "keeps_saga f"
    and "\<forall>e \<in> set es. carries E r e" and "sg_Attempts (f r) = sg_Attempts r + int (length es)"
  shows "commands_ok E (step_db es i f d)"
proof -
  have r: "r \<in> set (saga_instances d)" "sg_SagaID r = i"
    using saga_of_SomeD[OF assms(2)] by simp_all
  let ?g = "\<lambda>x. if sg_SagaID x = i then f x else x"
  have same: "carries E (?g x) e = carries E x e" for x e
    using assms(3) by (simp add: carries_def keeps_saga_def)
  have count: "int (length (commands_for E j (outbox_events d @ es))) = attempts_of (step_db es i f d) j" for j
  proof -
    have "int (length (commands_for E j (outbox_events d))) = attempts_of d j"
      using assms(1) by (simp add: commands_ok_def)
    then show ?thesis
      using assms(2,5) r(2) commands_for_carries[OF assms(4), of j]
      by (simp add: commands_for_append attempts_of_def saga_of_step_db[OF assms(3)])
  qed
  have "\<exists>x \<in> set (saga_instances d). carries E (?g x) e"
    if "e \<in> set (outbox_events d @ es)" "command_of E e \<noteq> None" for e
    using that assms(1,4) r unfolding same by (auto simp: commands_ok_def)
  then have "\<forall>e \<in> set (outbox_events d @ es). command_of E e \<noteq> None \<longrightarrow>
      (\<exists>x \<in> set (update_where (\<lambda>r. sg_SagaID r = i) f (saga_instances d)). carries E x e)"
    unfolding set_update_where by blast
  with count show ?thesis
    by (simp add: commands_ok_def step_db_def)
qed

lemma saga_inv_step_db:
  assumes "saga_inv E u d" and "saga_of d i = Some r" and "keeps_saga f" and "row_ok (f r)"
    and "\<forall>e \<in> set es. carries E r e" and "sg_Attempts (f r) = sg_Attempts r + int (length es)"
    and "keyed ob_EventID (outbox_events d @ es)" and "uuids_fresh E u' (outbox_events d @ es)"
  shows "saga_inv E u' (step_db es i f d)"
proof -
  have "saga_rows_ok (step_db es i f d)"
    using assms by (intro saga_rows_ok_step_db) (simp_all add: saga_inv_def)
  moreover have "commands_ok E (step_db es i f d)"
    using assms by (intro commands_ok_step_db) (simp_all add: saga_inv_def)
  ultimately show ?thesis
    using assms(7,8) by (simp add: saga_inv_def step_db_def)
qed


section \<open>Commands\<close>

lemma command_of_watch_command:
  assumes "time_codec E"
    and "encode_envelope E (\<lambda>p. Inr (encode_command p)) (watch_command i t sid action repo corr now) = Inr v"
  shows "command_of E (new_event i' t' x src corr' TopicWatchlistCommands k (Some v))
    = Some \<lparr>cp_SagaID = sid, cp_Action = action, cp_Repo = repo\<rparr>"
  using envelope_round_trip[OF assms(1) command_codec assms(2)]
  by (simp add: command_of_def watch_command_def)

lemma tx_wp_prepare:
  fixes w :: "('d outbox_db_scheme, wire) world"
  assumes "time_codec E" and "staged w d u w1" and "uuids_fresh E u (outbox_events d)"
    and next_stmt: "\<And>e w2. ob_EventID e = uuid_gen E u \<Longrightarrow>
      command_of E e = Some \<lparr>cp_SagaID = sid, cp_Action = action, cp_Repo = repo\<rparr> \<Longrightarrow>
      staged w (d\<lparr>outbox_events := outbox_events d @ [e]\<rparr>) (Suc u) w2 \<Longrightarrow> tx_wp (f ()) P w w2"
  shows "tx_wp (bnd (prepareWatchCommand E sid action repo corr now) f) P w w1"
  unfolding prepareWatchCommand_def Let_def
proof (rule tx_wp_assoc, rule tx_wp_uuid[OF assms(2)], rule tx_wp_assoc, rule tx_wp_of_sum, assumption,
    rule tx_wp_assoc, rule tx_wp_of_sum_annot, assumption)
  fix w2 t v
  assume w2: "staged w d (Suc u) w2" and
    v: "encode_envelope E (\<lambda>p. Inr (encode_command p)) (watch_command (uuid_gen E u) t sid action repo corr now) = Inr v"
  let ?c = "watch_command (uuid_gen E u) t sid action repo corr now"
  let ?e = "new_event (uuid_gen E u) (EventType ?c)
      (if now = zero_time then w_app_now w else now) (Source ?c) corr TopicWatchlistCommands repo (Some v)"
  have occurred: "OccurredAt ?c = now" by (simp add: watch_command_def)
  show "tx_wp (bnd (InsertTx (new_event (uuid_gen E u) (EventType ?c) (OccurredAt ?c)
      (Source ?c) corr TopicWatchlistCommands repo (Some v))) f) P w w2"
  proof (rule tx_wp_new_event[OF w2], unfold occurred)
    fix w3
    assume "staged w (d\<lparr>outbox_events := add_event ?e (outbox_events d)\<rparr>) (Suc u) w3"
    then have "staged w (d\<lparr>outbox_events := outbox_events d @ [?e]\<rparr>) (Suc u) w3"
      using fresh_event(1)[OF assms(3), of ?e] by simp
    moreover have "command_of E ?e = Some \<lparr>cp_SagaID = sid, cp_Action = action, cp_Repo = repo\<rparr>"
      by (rule command_of_watch_command[OF assms(1) v])
    ultimately show "tx_wp (f ()) P w w3"
      by (intro next_stmt[of ?e]) simp_all
  qed
qed


section \<open>Every handler takes each saga at most one step\<close>

definition saga_trans :: "env \<Rightarrow> ('d saga_db_scheme, wire) world \<Rightarrow> 'd saga_db_scheme \<Rightarrow> nat \<Rightarrow> bool" where
  "saga_trans E w d u = (saga_inv E u d \<and>
     (\<forall>i. abs_saga d i = abs_saga (w_db w) i \<or> saga_step (w_app_now w) (abs_saga (w_db w) i) (abs_saga d i)))"

lemma saga_trans_same: "saga_inv E u (w_db w) \<Longrightarrow> saga_trans E w (w_db w) u"
  by (simp add: saga_trans_def)

lemma retryDelay_simps [simp]: "retryDelay 1 = minute_ns"
  by (simp add: retryDelay_def retryDelays_def)

lemma saga_inv_start:
  assumes "saga_inv E u d" and "saga_of d (sg_SagaID r) = None" and "row_ok r" and "sg_Attempts r = 1"
    and "carries E r e" and "ob_EventID e = uuid_gen E u"
  shows "saga_inv E (Suc u) (d\<lparr>outbox_events := outbox_events d @ [e],
           saga_instances := saga_instances d @ [r]\<rparr>)"
proof -
  let ?d = "d\<lparr>outbox_events := outbox_events d @ [e], saga_instances := saga_instances d @ [r]\<rparr>"
  have fresh: "uuids_fresh E u (outbox_events d)" "keyed ob_EventID (outbox_events d)"
    and rows: "saga_rows_ok d" and cmds: "commands_ok E d"
    using assms(1) by (simp_all add: saga_inv_def)
  have none: "\<forall>x \<in> set (saga_instances d). sg_SagaID x \<noteq> sg_SagaID r"
    using assms(2) by (simp add: saga_of_def lookup_row_None)
  then have "saga_rows_ok ?d"
    using rows assms(3) by (auto simp: saga_rows_ok_def keyed_append_row)
  moreover have "commands_ok E ?d"
  proof -
    have "saga_of ?d j = (if j = sg_SagaID r then Some r else saga_of d j)" for j
      using assms(2) by (auto simp: saga_of_def lookup_row_append split: option.splits)
    then have "attempts_of ?d j = (if j = sg_SagaID r then 1 else attempts_of d j)" for j
      using assms(4) by (simp add: attempts_of_def)
    moreover have "attempts_of d (sg_SagaID r) = 0"
      using assms(2) by (simp add: attempts_of_def)
    moreover have "commands_for E j (outbox_events d @ [e])
        = commands_for E j (outbox_events d) @ (if j = sg_SagaID r then [e] else [])" for j
      using assms(5) commands_for_carries[of "[e]" E r j] by (simp add: commands_for_append)
    ultimately show ?thesis
      using cmds assms(5) by (auto simp: commands_ok_def)
  qed
  ultimately show ?thesis
    using fresh_event[OF fresh(1) assms(6)] fresh(2) by (simp add: saga_inv_def)
qed

definition created_saga :: "saga_payload envelope \<Rightarrow> int \<Rightarrow> int \<Rightarrow> saga_row" where
  "created_saga event now pg_now =
     (new_saga (sp_SagaID (Payload event)) (sp_Repo (Payload event)) (sp_Action (Payload event)) (CorrelationID event)
        (now + retryDelay 1) (now + or_deadline New))\<lparr>sg_CreatedAt := pg_now, sg_UpdatedAt := pg_now\<rparr>"

lemma saga_trans_created:
  assumes "saga_inv E (w_uuids w) (w_db w)" and "validateAction (sp_Action (Payload event)) = Inr ()"
    and "uuid_parses E (sp_SagaID (Payload event))" "sp_Repo (Payload event) \<noteq> ''''"
    and new: "saga_of (w_db w) (sp_SagaID (Payload event)) = None" and e: "ob_EventID e = uuid_gen E (w_uuids w)"
      "command_of E e = Some \<lparr>cp_SagaID = sp_SagaID (Payload event), cp_Action = sp_Action (Payload event),
         cp_Repo = sp_Repo (Payload event)\<rparr>"
  defines "r \<equiv> created_saga event (w_app_now w) (w_pg_now w)"
  shows "saga_trans E w ((w_db w)\<lparr>outbox_events := outbox_events (w_db w) @ [e],
    saga_instances := saga_instances (w_db w) @ [r]\<rparr>) (Suc (w_uuids w))" (is "saga_trans E w ?d' _")
proof -
  let ?id = "sp_SagaID (Payload event)"
  have "row_ok r" "sg_Attempts r = 1" "carries E r e" and id: "sg_SagaID r = ?id"
    using assms(2-4) e(2) by (simp_all add: r_def created_saga_def row_ok_def carries_def new_saga_def)
  then have "saga_inv E (Suc (w_uuids w)) ?d'"
    using new e(1) by (intro saga_inv_start[OF assms(1)]) simp_all
  moreover have "saga_of ?d' j = (if j = ?id then Some r else saga_of (w_db w) j)" for j
    using new id by (auto simp: saga_of_def lookup_row_append split: option.splits)
  then have "abs_saga ?d' j = (if j = ?id then InFlight 1 (w_app_now w + minute_ns) (w_app_now w + 24 * hour_ns)
      else abs_saga (w_db w) j)" for j
    by (simp add: abs_saga_def abs_row_def r_def created_saga_def new_saga_def New_def DefaultDeadline_def)
  moreover have "abs_saga (w_db w) ?id = Absent" using new by (simp add: abs_saga_def)
  ultimately show ?thesis by (simp add: saga_trans_def saga_step.start)
qed

text \<open>What the insertion of a saga does: a row for a new identifier, nothing for a known one.\<close>

lemma insert_created_saga:
  assumes "sql_insert_saga (new_saga (sp_SagaID (Payload event)) (sp_Repo (Payload event)) (sp_Action (Payload event))
      (CorrelationID event) (now + minute_ns) (now + or_deadline New)) d pg_now = Inr (tag, d')"
  shows "saga_of d (sp_SagaID (Payload event)) = None \<and> tag = 1 \<and>
      d' = d\<lparr>saga_instances := saga_instances d @ [created_saga event now pg_now]\<rparr> \<or>
    tag = 0 \<and> d' = d"
  using assms by (auto simp: sql_insert_saga_def created_saga_def new_saga_def saga_of_in split: if_splits)

lemma HandleRequest_trans:
  assumes "time_codec E" and "saga_inv E (w_uuids w) (w_db w)"
  shows "tx_wp (HandleRequest E New event) (\<lambda>_. saga_trans E w) w w"
proof (cases "EventType event = EventRepoWatchSagaRequested \<and> uuid_parses E (sp_SagaID (Payload event)) \<and>
    sp_Repo (Payload event) \<noteq> ''''")
  case False
  then show ?thesis
    by (auto simp: HandleRequest_def Let_def intro: tx_wp_raise_early tx_wp_of_sum_early)
next
  case True
  let ?p = "Payload event" and ?now = "w_app_now w" and ?d = "w_db w"
  have inserted: "tx_wp (if tag = 0 then commit_tx
       else bnd (prepareWatchCommand E (sp_SagaID ?p) (sp_Action ?p) (sp_Repo ?p) (CorrelationID event) ?now)
          (\<lambda>_. commit_tx)) (\<lambda>_. saga_trans E w) w w2"
    if v: "validateAction (sp_Action ?p) = Inr ()" and w2: "staged w d' (w_uuids w) w2"
      and q: "sql_insert_saga (new_saga (sp_SagaID ?p) (sp_Repo ?p) (sp_Action ?p) (CorrelationID event)
          (?now + minute_ns) (?now + or_deadline New)) ?d (w_pg_now w) = Inr (tag, d')" for tag d' w2
    using insert_created_saga[OF q]
  proof (elim disjE conjE)
    assume "tag = 0" "d' = ?d"
    with w2 assms(2) show ?thesis by (simp add: tx_wp_commit saga_trans_same)
  next
    assume new: "saga_of ?d (sp_SagaID ?p) = None" and tag: "tag = 1"
      and d': "d' = ?d\<lparr>saga_instances := saga_instances ?d @ [created_saga event ?now (w_pg_now w)]\<rparr>"
    have "uuids_fresh E (w_uuids w) (outbox_events d')" using assms(2) by (simp add: d' saga_inv_def)
    then have "tx_wp (bnd (prepareWatchCommand E (sp_SagaID ?p) (sp_Action ?p) (sp_Repo ?p)
        (CorrelationID event) ?now) (\<lambda>_. commit_tx)) (\<lambda>_. saga_trans E w) w w2"
    proof (rule tx_wp_prepare[OF assms(1) w2])
      fix e w3
      assume "ob_EventID e = uuid_gen E (w_uuids w)"
        "command_of E e = Some \<lparr>cp_SagaID = sp_SagaID ?p, cp_Action = sp_Action ?p, cp_Repo = sp_Repo ?p\<rparr>"
        and w3: "staged w (d'\<lparr>outbox_events := outbox_events d' @ [e]\<rparr>) (Suc (w_uuids w)) w3"
      with saga_trans_created[OF assms(2) v _ _ new] True show "tx_wp commit_tx (\<lambda>_. saga_trans E w) w w3"
        by (intro tx_wp_commit[OF w3]) (simp add: d' saga_db_swap)
    qed
    with tag show ?thesis by simp
  qed
  show ?thesis
    unfolding HandleRequest_def Let_def using True
    by (simp, intro tx_wp_of_sum_early tx_wp_with_tx, intro tx_wp_clock tx_wp_annot_bnd tx_wp_stmt)
      (assumption | simp add: inserted)+
qed

text \<open>An update that singles out one saga is the step of that saga.\<close>

lemma sql_update_one:
  assumes "saga_rows_ok d" and "saga_of d i = Some r" and "p r" and "\<And>x. p x \<Longrightarrow> sg_SagaID x = i"
    and "sql_update_saga p f d now = Inr (n, d')"
  shows "d' = step_db [] i (f now) d \<and> n \<noteq> 0"
proof -
  have r: "r \<in> set (saga_instances d)" "sg_SagaID r = i"
    using saga_of_SomeD[OF assms(2)] by simp_all
  have "p x = (sg_SagaID x = i)" if "x \<in> set (saga_instances d)" for x
  proof
    assume "sg_SagaID x = i"
    then have "x = r" using saga_of_keyed[OF assms(1) that] assms(2) by simp
    then show "p x" using assms(3) by simp
  qed (rule assms(4))
  then have "update_where p (f now) (saga_instances d)
      = update_where (\<lambda>x. sg_SagaID x = i) (f now) (saga_instances d)"
    by (simp add: update_where_def)
  moreover have "affected p (saga_instances d) \<noteq> 0"
    using r(1) assms(3) by (auto simp: affected_zero)
  ultimately show ?thesis
    using assms(5) by (auto simp: sql_update_saga_def step_db_def)
qed

lemma saga_trans_step:
  assumes "saga_inv E (w_uuids w) (w_db w)" and "saga_of (w_db w) i = Some r" and "keeps_saga f"
    and "row_ok (f r)" and "sg_Attempts (f r) = sg_Attempts r"
    and "saga_step (w_app_now w) (abs_row r) (abs_row (f r))"
  shows "saga_trans E w (step_db [] i f (w_db w)) (w_uuids w)"
proof -
  have "saga_inv E (w_uuids w) (step_db [] i f (w_db w))"
    by (rule saga_inv_step_db[OF assms(1-4)]) (use assms(1,5) in \<open>simp_all add: saga_inv_def\<close>)
  moreover have "abs_saga (w_db w) i = abs_row r"
    by (simp add: abs_saga_def assms(2))
  ultimately show ?thesis
    using assms(6) by (simp add: saga_trans_def abs_saga_step_db[OF assms(3,2)])
qed

lemma saga_row_ok: "saga_inv E u d \<Longrightarrow> saga_of d i = Some r \<Longrightarrow> row_ok r"
  by (auto simp: saga_inv_def saga_rows_ok_def dest: saga_of_SomeD)

lemma abs_row_active:
  "row_ok r \<Longrightarrow> \<not> terminal (sg_Status r) \<Longrightarrow>
   \<exists>t. sg_NextRetryAt r = Some t \<and> abs_row r = InFlight (sg_Attempts r) t (sg_DeadlineAt r)"
  by (auto simp: row_ok_def terminal_def abs_row_def)

lemma handleSuccessAck_trans:
  assumes "saga_inv E (w_uuids w) (w_db w)" and "saga_of (w_db w) (ap_SagaID (Payload event)) = Some r"
    and "staged w (w_db w) (w_uuids w) w1"
  shows "tx_wp (handleSuccessAck event r) (\<lambda>_. saga_trans E w) w w1"
proof -
  let ?i = "ap_SagaID (Payload event)" and ?p = "\<lambda>x. sg_SagaID x = ap_SagaID (Payload event) \<and>
    sg_Repo x = sg_Repo r \<and> sg_Action x = sg_Action r \<and> sg_Status x \<notin> {StatusCompleted, StatusFailed}"
  let ?f = "\<lambda>now x. x\<lparr>sg_Status := StatusCompleted, sg_LastError := None, sg_UpdatedAt := now\<rparr>"
  have ok: "row_ok r" and rows: "saga_rows_ok (w_db w)"
    using saga_row_ok[OF assms(1,2)] assms(1) by (simp_all add: saga_inv_def)
  have update: "tx_wp (bnd (annot g (tx_stmt (sql_update_saga ?p ?f)))
      (\<lambda>tag. if tag = 0 then raise e else commit_tx)) (\<lambda>_. saga_trans E w) w w1"
    if active: "\<not> terminal (sg_Status r)" for g e
  proof (intro tx_wp_annot_bnd tx_wp_stmt[OF assms(3)])
    fix n d' w2
    assume "sql_update_saga ?p ?f (w_db w) (w_pg_now w) = Inr (n, d')" and w2: "staged w d' (w_uuids w) w2"
    moreover have "?p r" using saga_of_SomeD[OF assms(2)] active by (auto simp: terminal_def)
    ultimately have d': "d' = step_db [] ?i (?f (w_pg_now w)) (w_db w) \<and> n \<noteq> 0"
      using sql_update_one[OF rows assms(2), of ?p ?f] by blast
    have "saga_trans E w (step_db [] ?i (?f (w_pg_now w)) (w_db w)) (w_uuids w)"
      by (rule saga_trans_step[OF assms(1,2)])
        (use ok abs_row_active[OF ok active] in
          \<open>auto simp: keeps_saga_def row_ok_def saga_step.acked abs_row_def[of "_\<lparr>sg_UpdatedAt := _\<rparr>"]\<close>)
    with d' w2 show "tx_wp (if n = 0 then raise e else commit_tx) (\<lambda>_. saga_trans E w) w w2"
      by (simp add: tx_wp_commit)
  qed
  have "tx_wp commit_tx (\<lambda>_. saga_trans E w) w w1"
    using assms(1,3) by (simp add: tx_wp_commit saga_trans_same)
  then show ?thesis
    unfolding handleSuccessAck_def
    by (intro tx_wp_of_sum[OF assms(3)], simp only: split: if_split)
      (intro conjI impI tx_wp_raise[OF assms(3)] update; assumption)
qed

lemma handleFailedAck_trans:
  assumes "saga_inv E (w_uuids w) (w_db w)" and "saga_of (w_db w) (ap_SagaID (Payload event)) = Some r"
    and "staged w (w_db w) (w_uuids w) w1"
  shows "tx_wp (handleFailedAck event r) (\<lambda>_. saga_trans E w) w w1"
proof -
  let ?i = "ap_SagaID (Payload event)" and ?p = "\<lambda>x. sg_SagaID x = ap_SagaID (Payload event) \<and>
    sg_Repo x = sg_Repo r \<and> sg_Action x = sg_Action r \<and> sg_Status x \<notin> {StatusFailed, StatusCompleted}"
  let ?cause = "if ap_Error (Payload event) = '''' then ''watch command failed'' else ap_Error (Payload event)"
  let ?f = "failed_row (w_app_now w) (w_app_now w + retryDelay 1) ?cause"
  have ok: "row_ok r" and rows: "saga_rows_ok (w_db w)"
    using saga_row_ok[OF assms(1,2)] assms(1) by (simp_all add: saga_inv_def)
  have update: "tx_wp (bnd (annot g (tx_stmt (sql_update_saga ?p ?f)))
      (\<lambda>tag. if tag = 0 then raise e else commit_tx)) (\<lambda>_. saga_trans E w) w w1"
    if active: "\<not> terminal (sg_Status r)" for g e
  proof (intro tx_wp_annot_bnd tx_wp_stmt[OF assms(3)])
    fix n d' w2
    assume "sql_update_saga ?p ?f (w_db w) (w_pg_now w) = Inr (n, d')" and w2: "staged w d' (w_uuids w) w2"
    moreover have "?p r" using saga_of_SomeD[OF assms(2)] active by (auto simp: terminal_def)
    ultimately have d': "d' = step_db [] ?i (?f (w_pg_now w)) (w_db w) \<and> n \<noteq> 0"
      using sql_update_one[OF rows assms(2), of ?p ?f] by blast
    obtain t where r: "abs_row r = InFlight (sg_Attempts r) t (sg_DeadlineAt r)"
      using abs_row_active[OF ok active] by blast
    have "saga_trans E w (step_db [] ?i (?f (w_pg_now w)) (w_db w)) (w_uuids w)"
    proof (rule saga_trans_step[OF assms(1,2)])
      show "saga_step (w_app_now w) (abs_row r) (abs_row (?f (w_pg_now w) r))"
        unfolding r by (auto simp: abs_row_def failed_row_def intro: saga_step.nacked saga_step.nacked_late)
    qed (use ok in \<open>auto simp: keeps_saga_def row_ok_def failed_row_def\<close>)
    with d' w2 show "tx_wp (if n = 0 then raise e else commit_tx) (\<lambda>_. saga_trans E w) w w2"
      by (simp add: tx_wp_commit)
  qed
  have "tx_wp commit_tx (\<lambda>_. saga_trans E w) w w1"
    using assms(1,3) by (simp add: tx_wp_commit saga_trans_same)
  then show ?thesis
    unfolding handleFailedAck_def Let_def
    by (intro tx_wp_clock[OF assms(3)], cases "terminal (sg_Status r)")
      (simp_all only: if_True if_False not_False_eq_True update)
qed

lemma HandleAck_trans:
  assumes "saga_inv E (w_uuids w) (w_db w)"
  shows "tx_wp (HandleAck New event) (\<lambda>_. saga_trans E w) w w"
proof (cases "ap_SagaID (Payload event) = ''''")
  case True
  then show ?thesis by (simp add: HandleAck_def tx_wp_raise_early)
next
  case False
  let ?i = "ap_SagaID (Payload event)"
  have row: "tx_wp (case row of None \<Rightarrow> raise e1 | Some r \<Rightarrow> if b1 r then raise e2
        else if b2 then handleSuccessAck event r else if b3 then handleFailedAck event r else raise e3)
      (\<lambda>_. saga_trans E w) w w1"
    if "saga_of (w_db w) ?i = row" "staged w (w_db w) (w_uuids w) w1" for row w1 e1 e2 e3 b1 b2 b3
  proof (cases row)
    case None
    with that(2) show ?thesis by (simp add: tx_wp_raise)
  next
    case (Some r)
    with that show ?thesis
      by (simp add: tx_wp_raise handleSuccessAck_trans[OF assms] handleFailedAck_trans[OF assms])
  qed
  have "tx_wp (bnd (of_sum (validateAction (ap_Action (Payload event)))) (\<lambda>_.
      with_tx g (bnd (annot h (loadSagaInstanceForUpdate ?i)) (\<lambda>row.
        case row of None \<Rightarrow> raise e1 | Some r \<Rightarrow> if b1 r then raise e2
        else if b2 then handleSuccessAck event r else if b3 then handleFailedAck event r else raise e3))))
      (\<lambda>_. saga_trans E w) w w" for g h e1 e2 e3 b1 b2 b3
    unfolding loadSagaInstanceForUpdate_def
    by (intro tx_wp_of_sum_early tx_wp_with_tx tx_wp_annot_bnd tx_wp_stmt, assumption, rule row)
      (simp_all add: saga_of_def)
  with False show ?thesis
    unfolding HandleAck_def Let_def by (simp only: if_False)
qed


text \<open>Where the sweep takes a due saga, and what it has done once every selected one is taken.\<close>

definition retry_target :: "int \<Rightarrow> saga_row \<Rightarrow> saga_abs" where
  "retry_target now r =
     (if now < sg_DeadlineAt r
      then InFlight (sg_Attempts r + 1) (now + retryDelay (sg_Attempts r + 1)) (sg_DeadlineAt r)
      else GaveUp (sg_Attempts r))"

definition watch_command_for :: "saga_row \<Rightarrow> command_payload" where
  "watch_command_for r = \<lparr>cp_SagaID = sg_SagaID r, cp_Action = sg_Action r, cp_Repo = sg_Repo r\<rparr>"

text \<open>The commands a sweep has sent again: one for each instance before its deadline, in their order.\<close>

definition sweep_sent :: "env \<Rightarrow> ('d saga_db_scheme, wire) world \<Rightarrow> saga_row list \<Rightarrow> 'd saga_db_scheme \<Rightarrow> bool" where
  "sweep_sent E w ys d = (\<exists>es. outbox_events d = outbox_events (w_db w) @ es \<and>
     map (command_of E) es =
       map (\<lambda>y. Some (watch_command_for y)) (filter (\<lambda>y. w_app_now w < sg_DeadlineAt y) ys))"

definition sweep_done ::
    "env \<Rightarrow> ('d saga_db_scheme, wire) world \<Rightarrow> saga_row list \<Rightarrow> saga_row list \<Rightarrow> 'd saga_db_scheme \<Rightarrow> bool" where
  "sweep_done E w due xs d =
     ((\<forall>y \<in> set due. sg_SagaID y \<in> sg_SagaID ` set xs \<or> abs_saga d (sg_SagaID y) = retry_target (w_app_now w) y) \<and>
      (\<forall>i. i \<notin> sg_SagaID ` set due \<longrightarrow> saga_of d i = saga_of (w_db w) i) \<and>
      (\<exists>ys. due = ys @ xs \<and> sweep_sent E w ys d))"

text \<open>
  The sweep: the instances still to come are as they were selected, the others are taken, and
  every saga has taken at most one step.
\<close>

definition sweep_inv ::
    "env \<Rightarrow> ('d saga_db_scheme, wire) world \<Rightarrow> saga_row list \<Rightarrow> saga_row list \<Rightarrow> 'd saga_db_scheme \<Rightarrow> nat \<Rightarrow> bool" where
  "sweep_inv E w due xs d u = (saga_trans E w d u \<and> distinct (map sg_SagaID xs) \<and>
     set xs \<subseteq> set due \<and> keyed sg_SagaID due \<and> sweep_done E w due xs d \<and>
     (\<forall>x \<in> set xs. saga_of d (sg_SagaID x) = Some x \<and> saga_of (w_db w) (sg_SagaID x) = Some x \<and>
        saga_due E (w_app_now w) x))"

lemma sweep_sent_step:
  assumes "sweep_sent E w ys d"
    and "map (command_of E) es = (if w_app_now w < sg_DeadlineAt x then [Some (watch_command_for x)] else [])"
  shows "sweep_sent E w (ys @ [x]) (step_db es i f d)"
proof -
  obtain es0 where "outbox_events d = outbox_events (w_db w) @ es0"
    "map (command_of E) es0 = map (\<lambda>y. Some (watch_command_for y)) (filter (\<lambda>y. w_app_now w < sg_DeadlineAt y) ys)"
    using assms(1) unfolding sweep_sent_def by blast
  then show ?thesis
    unfolding sweep_sent_def using assms(2) by (intro exI[of _ "es0 @ es"]) (simp add: step_db_def)
qed

lemma sweep_done_step:
  assumes "sweep_inv E w due (x # xs) d u" and "keeps_saga f" and "abs_row (f x) = retry_target (w_app_now w) x"
    and "map (command_of E) es = (if w_app_now w < sg_DeadlineAt x then [Some (watch_command_for x)] else [])"
  shows "sweep_done E w due xs (step_db es (sg_SagaID x) f d)"
  unfolding sweep_done_def
proof (intro conjI ballI allI impI)
  have x: "saga_of d (sg_SagaID x) = Some x" and in_due: "x \<in> set due" "keyed sg_SagaID due"
    using assms(1) by (simp_all add: sweep_inv_def)
  fix y assume y: "y \<in> set due"
  show "sg_SagaID y \<in> sg_SagaID ` set xs \<or>
      abs_saga (step_db es (sg_SagaID x) f d) (sg_SagaID y) = retry_target (w_app_now w) y"
  proof (cases "sg_SagaID y = sg_SagaID x")
    case True
    then have "y = x" using in_due keyedD[OF _ y] by metis
    then show ?thesis using assms(3) by (simp add: abs_saga_step_db[OF assms(2) x])
  next
    case False
    then show ?thesis
      using assms(1) y by (auto simp: abs_saga_step_db[OF assms(2) x] sweep_inv_def sweep_done_def)
  qed
next
  fix i assume i: "i \<notin> sg_SagaID ` set due"
  have "x \<in> set due" using assms(1) by (simp add: sweep_inv_def)
  with i have "i \<noteq> sg_SagaID x" by blast
  with i assms(1) show "saga_of (step_db es (sg_SagaID x) f d) i = saga_of (w_db w) i"
    by (simp add: saga_of_step_db[OF assms(2)] sweep_inv_def sweep_done_def)
next
  obtain ys where "due = ys @ x # xs" "sweep_sent E w ys d"
    using assms(1) by (auto simp: sweep_inv_def sweep_done_def)
  with sweep_sent_step[OF _ assms(4)] show "\<exists>ys. due = ys @ xs \<and> sweep_sent E w ys (step_db es (sg_SagaID x) f d)"
    by (intro exI[of _ "ys @ [x]"]) simp
qed

lemma sweep_inv_step:
  assumes "sweep_inv E w due (x # xs) d u" and "keeps_saga f" and "row_ok (f x)"
    and "\<forall>e \<in> set es. carries E x e" and "sg_Attempts (f x) = sg_Attempts x + int (length es)"
    and "keyed ob_EventID (outbox_events d @ es)" and "uuids_fresh E u' (outbox_events d @ es)"
    and "saga_step (w_app_now w) (abs_row x) (abs_row (f x))"
    and "abs_row (f x) = retry_target (w_app_now w) x"
    and "map (command_of E) es = (if w_app_now w < sg_DeadlineAt x then [Some (watch_command_for x)] else [])"
  shows "sweep_inv E w due xs (step_db es (sg_SagaID x) f d) u'"
proof -
  have x: "saga_of d (sg_SagaID x) = Some x" "saga_of (w_db w) (sg_SagaID x) = Some x"
    and inv: "saga_inv E u d" and new: "sg_SagaID x \<notin> sg_SagaID ` set xs"
    using assms(1) by (simp_all add: sweep_inv_def saga_trans_def)
  have "saga_inv E u' (step_db es (sg_SagaID x) f d)"
    by (rule saga_inv_step_db[OF inv x(1) assms(2-7)])
  moreover have "abs_saga (step_db es (sg_SagaID x) f d) i = abs_saga (w_db w) i \<or>
      saga_step (w_app_now w) (abs_saga (w_db w) i) (abs_saga (step_db es (sg_SagaID x) f d) i)" for i
  proof (cases "i = sg_SagaID x")
    case True
    with assms(8) show ?thesis
      by (simp add: abs_saga_step_db[OF assms(2) x(1)]) (simp add: abs_saga_def x(2))
  next
    case False
    with assms(1) show ?thesis
      by (simp add: abs_saga_step_db[OF assms(2) x(1)] sweep_inv_def saga_trans_def)
  qed
  moreover have "saga_of (step_db es (sg_SagaID x) f d) (sg_SagaID y) = saga_of d (sg_SagaID y)"
    if "y \<in> set xs" for y
  proof -
    have "sg_SagaID y \<noteq> sg_SagaID x" using that new by (metis imageI)
    then show ?thesis by (simp add: saga_of_step_db[OF assms(2)])
  qed
  ultimately show ?thesis
    using assms(1) sweep_done_step[OF assms(1,2,9,10)] by (simp add: sweep_inv_def saga_trans_def)
qed

lemma abs_row_due:
  "row_ok r \<Longrightarrow> saga_due E now r \<Longrightarrow>
   \<exists>t \<le> now. sg_NextRetryAt r = Some t \<and> abs_row r = InFlight (sg_Attempts r) t (sg_DeadlineAt r)"
  by (auto simp: saga_due_def abs_row_def split: option.splits)

lemma expired_sweep:
  assumes inv: "sweep_inv E w due (x # xs) d u" and late: "\<not> w_app_now w < sg_DeadlineAt x"
  shows "sweep_inv E w due xs (step_db [] (sg_SagaID x) (expired_row (w_pg_now w)) d) u"
proof -
  have x: "saga_of d (sg_SagaID x) = Some x" and due: "saga_due E (w_app_now w) x" and sinv: "saga_inv E u d"
    using inv by (simp_all add: sweep_inv_def saga_trans_def)
  have ok: "row_ok x" by (rule saga_row_ok[OF sinv x])
  obtain t where t: "t \<le> w_app_now w" and abs: "abs_row x = InFlight (sg_Attempts x) t (sg_DeadlineAt x)"
    using abs_row_due[OF ok due] by blast
  show ?thesis
  proof (rule sweep_inv_step[OF inv])
    show "saga_step (w_app_now w) (abs_row x) (abs_row (expired_row (w_pg_now w) x))"
      using late t unfolding abs by (simp add: abs_row_def expired_row_def saga_step.expired)
    show "abs_row (expired_row (w_pg_now w) x) = retry_target (w_app_now w) x"
      using late by (simp add: abs_row_def expired_row_def retry_target_def)
  qed (use ok sinv late in \<open>auto simp: keeps_saga_def row_ok_def expired_row_def saga_inv_def\<close>)
qed

lemma resent_sweep:
  assumes inv: "sweep_inv E w due (x # xs) d u" and intime: "w_app_now w < sg_DeadlineAt x"
    and e: "ob_EventID e = uuid_gen E u"
      "command_of E e = Some \<lparr>cp_SagaID = sg_SagaID x, cp_Action = sg_Action x, cp_Repo = sg_Repo x\<rparr>"
  defines "f \<equiv> retried_row (sg_Attempts x + 1) (w_app_now w + retryDelay (sg_Attempts x + 1)) (w_pg_now w)"
  shows "sweep_inv E w due xs (step_db [e] (sg_SagaID x) f d) (Suc u)"
proof -
  have x: "saga_of d (sg_SagaID x) = Some x" and due: "saga_due E (w_app_now w) x" and sinv: "saga_inv E u d"
    using inv by (simp_all add: sweep_inv_def saga_trans_def)
  have ok: "row_ok x" by (rule saga_row_ok[OF sinv x])
  obtain t where t: "t \<le> w_app_now w" and abs: "abs_row x = InFlight (sg_Attempts x) t (sg_DeadlineAt x)"
    using abs_row_due[OF ok due] by blast
  have fresh: "keyed ob_EventID (outbox_events d @ [e])" "uuids_fresh E (Suc u) (outbox_events d @ [e])"
    using fresh_event[of E u "outbox_events d" e] sinv e(1) by (simp_all add: saga_inv_def)
  show ?thesis
  proof (rule sweep_inv_step[OF inv])
    show "saga_step (w_app_now w) (abs_row x) (abs_row (f x))"
      using intime t unfolding abs by (simp add: f_def abs_row_def retried_row_def saga_step.resent)
    show "abs_row (f x) = retry_target (w_app_now w) x"
      using intime by (simp add: f_def abs_row_def retried_row_def retry_target_def)
  qed (use ok e fresh intime in \<open>auto simp: f_def keeps_saga_def row_ok_def retried_row_def carries_def watch_command_for_def\<close>)
qed

lemma retry_instance_sweep:
  fixes w :: "('d saga_db_scheme, wire) world"
  assumes "time_codec E" and inv: "sweep_inv E w due (x # xs) d u" and w1: "staged w d u w1"
    and rest: "\<And>d' u' w2. sweep_inv E w due xs d' u' \<Longrightarrow> staged w d' u' w2 \<Longrightarrow> tx_wp g P w w2"
  shows "tx_wp (bnd (retry_instance E (w_app_now w) x) (\<lambda>_. g)) P w w1"
proof -
  let ?now = "w_app_now w" and ?id = "sg_SagaID x"
  have x: "saga_of d ?id = Some x" and rows: "saga_rows_ok d" and fresh: "uuids_fresh E u (outbox_events d)"
    using inv by (simp_all add: sweep_inv_def saga_trans_def saga_inv_def)
  show ?thesis
  proof (cases "?now < sg_DeadlineAt x")
    case False
    have "d' = step_db [] ?id (expired_row (w_pg_now w)) d"
      if "sql_update_saga (\<lambda>r. sg_SagaID r = ?id) expired_row d (w_pg_now w) = Inr (n, d')" for n d'
      using sql_update_one[OF rows x _ _ that] by simp
    then show ?thesis
      using False expired_sweep[OF inv False] unfolding retry_instance_def
      by (simp, intro tx_wp_assoc tx_wp_annot_bnd tx_wp_stmt[OF w1] tx_wp_ret_bnd rest) auto
  next
    case True
    let ?a = "sg_Attempts x + 1"
    let ?f = "retried_row ?a (?now + retryDelay ?a)"
    have "tx_wp (bnd (prepareWatchCommand E ?id (sg_Action x) (sg_Repo x) (sg_CorrelationID x) ?now)
        (\<lambda>_. bnd (annot h (tx_stmt (sql_update_saga (\<lambda>r. sg_SagaID r = ?id) ?f))) (\<lambda>_. g))) P w w1" for h
    proof (rule tx_wp_prepare[OF assms(1) w1 fresh])
      fix e w2
      let ?d = "d\<lparr>outbox_events := outbox_events d @ [e]\<rparr>"
      assume e: "ob_EventID e = uuid_gen E u"
        "command_of E e = Some \<lparr>cp_SagaID = ?id, cp_Action = sg_Action x, cp_Repo = sg_Repo x\<rparr>"
        and w2: "staged w ?d (Suc u) w2"
      show "tx_wp (bnd (annot h (tx_stmt (sql_update_saga (\<lambda>r. sg_SagaID r = ?id) ?f))) (\<lambda>_. g)) P w w2"
      proof (intro tx_wp_annot_bnd tx_wp_stmt[OF w2])
        fix n d' w3
        assume upd: "sql_update_saga (\<lambda>r. sg_SagaID r = ?id) ?f ?d (w_pg_now w) = Inr (n, d')"
          and w3: "staged w d' (Suc u) w3"
        have "saga_rows_ok ?d" "saga_of ?d ?id = Some x"
          using rows x by (simp_all add: saga_rows_ok_def saga_of_def)
        then have "d' = step_db [e] ?id (?f (w_pg_now w)) d"
          using sql_update_one[OF _ _ _ _ upd] by (simp add: step_db_def)
        with resent_sweep[OF inv True e] w3 show "tx_wp g P w w3" by (intro rest[of d' "Suc u"]) simp_all
      qed
    qed
    with True show ?thesis
      unfolding retry_instance_def Let_def by (simp add: tx_wp_def wp_bnd wp_ret)
  qed
qed

text \<open>The instances one sweep selects.\<close>

definition swept :: "env \<Rightarrow> ('d saga_db_scheme, wire) world \<Rightarrow> int \<Rightarrow> saga_row list" where
  "swept E w limit = due_sagas E (w_app_now w) (if limit \<le> 0 then DefaultRetryLimit else nat limit)
     (saga_instances (w_db w))"

lemma RetryDue_trans:
  assumes "time_codec E" and "saga_inv E (w_uuids w) (w_db w)"
  shows "tx_wp (RetryDue E New limit) (\<lambda>_ d u. saga_trans E w d u \<and>
    sweep_done E w (swept E w limit) [] d) w w"
  unfolding RetryDue_def Let_def
proof (intro tx_wp_with_tx, rule tx_wp_clock, assumption, intro tx_wp_annot_bnd, rule tx_wp_stmt, assumption)
  fix w1 due d' w2
  let ?post = "\<lambda>_ d u. saga_trans E w d u \<and> sweep_done E w (swept E w limit) [] d"
  let ?n = "if limit \<le> 0 then DefaultRetryLimit else nat limit"
  assume "sql_due_sagas E (w_app_now w) ?n (w_db w) (w_pg_now w) = Inr (due, d')"
    and w2: "staged w d' (w_uuids w) w2"
  then have d': "d' = w_db w" and due: "due = due_sagas E (w_app_now w) ?n (saga_instances (w_db w))"
    unfolding sql_due_sagas_def by (blast dest: sum.inject(2)[THEN iffD1])+
  have "due = swept E w limit" by (simp only: due swept_def)
  have rows: "saga_rows_ok (w_db w)" using assms(2) by (simp add: saga_inv_def)
  have "keyed sg_SagaID due"
    unfolding due due_sagas_def using rows by (intro keyed_select_where) (simp add: saga_rows_ok_def)
  moreover have "\<forall>x \<in> set due. x \<in> set (saga_instances (w_db w)) \<and> saga_due E (w_app_now w) x"
    unfolding due due_sagas_def using select_whereD by fast
  ultimately have inv: "sweep_inv E w due due d' (w_uuids w)"
    using saga_trans_same[OF assms(2)] saga_of_keyed[OF rows]
    by (simp add: sweep_inv_def sweep_done_def sweep_sent_def d' keyed_def)
  show "tx_wp (bnd (for_each (retry_instance E (w_app_now w)) due) (\<lambda>_. commit_tx)) ?post w w2"
  proof (rule tx_wp_for_each[OF w2, of "sweep_inv E w due", OF inv])
    fix x xs d u w3 and g :: "('a saga_db_scheme, wire, unit) go"
    assume "sweep_inv E w due (x # xs) d u" "staged w d u w3"
      "\<And>d' u' w2. sweep_inv E w due xs d' u' \<Longrightarrow> staged w d' u' w2 \<Longrightarrow> tx_wp g ?post w w2"
    then show "tx_wp (bnd (retry_instance E (w_app_now w) x) (\<lambda>_. g)) ?post w w3"
      by (rule retry_instance_sweep[OF assms(1)])
  next
    fix d u w3
    assume "sweep_inv E w due [] d u" "staged w d u w3"
    then show "tx_wp commit_tx ?post w w3"
      using \<open>due = swept E w limit\<close> by (auto simp: sweep_inv_def intro: tx_wp_commit)
  qed
qed

end
