(* ===== verification/Release_Provider.thy ===== *)
theory Release_Provider
  imports Tx_Logic
begin

text \<open>
  The release providers of \<open>scanner-service/internal/github/provider.go\<close>.  GitHub itself is an
  argument: what it answers to a URL at a moment.  A failure of the request, a URL the client
  does not accept included, is an answer of its own; so is a body that is no JSON.  The cache
  is third-party too: a pair of operations.
\<close>

datatype http_reply =
    HttpFailed string
  | HttpReply int wire

type_synonym http_server = "int \<Rightarrow> string \<Rightarrow> http_reply"

type_synonym 'db release_provider = "string \<Rightarrow> ('db, wire, string) go"

definition StatusOK :: int where "StatusOK = 200"
definition StatusNotFound :: int where "StatusNotFound = 404"
definition StatusTooManyRequests :: int where "StatusTooManyRequests = 429"

definition int_text :: "int \<Rightarrow> string" where
  "int_text n = (if n < 0 then ''-'' @ dec_text (nat (- n)) else dec_text (nat n))"

text \<open>The request: the clock tells which answer the server gives.\<close>

definition http_get :: "http_server \<Rightarrow> string \<Rightarrow> ('db, wire, int \<times> wire) go" where
  "http_get server link =
     bnd app_clock (\<lambda>now.
       read_in (case server now link of HttpFailed e \<Rightarrow> Inl (Plain e) | HttpReply code body \<Rightarrow> Inr (code, body)))"

definition defaultBaseURL :: string where
  "defaultBaseURL = ''https://api.github.com''"

definition NewHTTPReleaseProvider :: "string \<Rightarrow> string" where
  "NewHTTPReleaseProvider baseURL = (if baseURL = '''' then defaultBaseURL else baseURL)"

definition latest_link :: "string \<Rightarrow> string \<Rightarrow> string" where
  "latest_link baseURL repo = baseURL @ ''/repos/'' @ repo @ ''/releases/latest''"

text \<open>\<open>Decode(&release)\<close> on the body.\<close>

definition decode_tag_name :: "wire \<Rightarrow> goerr + string" where
  "decode_tag_name body = decode_struct (string_field ''tag_name'') body"

definition HTTP_GetLatestTag :: "http_server \<Rightarrow> string \<Rightarrow> 'db release_provider" where
  "HTTP_GetLatestTag server baseURL repo =
     bnd (http_get server (latest_link baseURL repo)) (\<lambda>(code, body).
       if code = StatusNotFound then ret ''''
       else if code = StatusTooManyRequests then raise (Plain ''github rate limit exceeded'')
       else if code \<noteq> StatusOK then raise (Plain (''github error: '' @ int_text code))
       else of_sum (decode_tag_name body))"

section \<open>The cached provider\<close>

record 'db cache =
  ca_Get :: "string \<Rightarrow> ('db, wire, string) go"
  ca_Set :: "string \<Rightarrow> string \<Rightarrow> int \<Rightarrow> ('db, wire, unit) go"

definition cacheKeyPrefix :: string where
  "cacheKeyPrefix = ''github:latest_tag:''"

definition NewCachedReleaseProvider :: "int \<Rightarrow> int" where
  "NewCachedReleaseProvider ttl = (if ttl \<le> 0 then 45 * second_ns else ttl)"

definition Cached_GetLatestTag ::
    "'db cache option \<Rightarrow> 'db release_provider \<Rightarrow> int \<Rightarrow> 'db release_provider" where
  "Cached_GetLatestTag c nxt ttl repo =
     (let key = cacheKeyPrefix @ repo;
          fetch = bnd (nxt repo) (\<lambda>tag.
            case c of
              None \<Rightarrow> ret tag
            | Some ca \<Rightarrow>
                if tag = '''' then ret tag
                else bnd (attempt (ca_Set ca key tag ttl)) (\<lambda>_. ret tag))
      in case c of
           None \<Rightarrow> fetch
         | Some ca \<Rightarrow>
             bnd (attempt (ca_Get ca key)) (\<lambda>r.
               case r of
                 Inr cached \<Rightarrow> if cached \<noteq> '''' then ret cached else fetch
               | Inl _ \<Rightarrow> fetch))"

text \<open>A provider neither changes the database nor sends anything.\<close>

definition reads_only :: "('db, 'v, 'a) go \<Rightarrow> bool" where
  "reads_only m = (\<forall>w. wp m (\<lambda>_ w'. outside w w' \<and> w_db w' = w_db w) (\<lambda>_ w'. outside w w' \<and> w_db w' = w_db w) w)"

lemma reads_onlyD:
  "reads_only m \<Longrightarrow> wp m (\<lambda>_ w'. outside w w' \<and> w_db w' = w_db w) (\<lambda>_ w'. outside w w' \<and> w_db w' = w_db w) w"
  by (simp add: reads_only_def)

lemma outside_refl [simp]: "outside w w"
  by (simp add: outside_def)

lemma outside_trans: "outside w w1 \<Longrightarrow> outside w1 w2 \<Longrightarrow> outside w w2"
  by (simp add: outside_def)

lemma reads_only_bnd:
  assumes "reads_only m" and "\<And>a. reads_only (f a)"
  shows "reads_only (bnd m f)"
  unfolding reads_only_def wp_bnd
proof
  fix w :: "('a, 'b) world"
  show "wp m (\<lambda>a. wp (f a) (\<lambda>_ w'. outside w w' \<and> w_db w' = w_db w) (\<lambda>_ w'. outside w w' \<and> w_db w' = w_db w))
      (\<lambda>_ w'. outside w w' \<and> w_db w' = w_db w) w"
    using reads_onlyD[OF assms(1)]
    by (rule wp_mono) (auto intro: wp_mono[OF reads_onlyD[OF assms(2)]] outside_trans)
qed

lemma reads_only_simple: "reads_only (ret a)" "reads_only (raise e)" "reads_only (of_sum r)" "reads_only app_clock"
  by (simp_all add: reads_only_def wp_simps split: sum.splits)

lemma reads_only_read_in: "reads_only (read_in r)"
  by (simp add: reads_only_def wp_simps outside_def split: call_outcome.splits sum.splits)

lemma reads_only_attempt: "reads_only m \<Longrightarrow> reads_only (attempt m)"
  by (simp add: reads_only_def wp_attempt)

lemmas reads_only_rules = reads_only_bnd reads_only_simple reads_only_read_in reads_only_attempt

lemma reads_only_HTTP: "reads_only (HTTP_GetLatestTag server baseURL repo)"
  unfolding HTTP_GetLatestTag_def http_get_def case_prod_beta
  by (auto intro!: reads_only_rules)

lemma reads_only_Cached:
  assumes "\<And>repo. reads_only (nxt repo)"
    and "\<And>ca k. c = Some ca \<Longrightarrow> reads_only (ca_Get ca k)"
    and "\<And>ca k v t. c = Some ca \<Longrightarrow> reads_only (ca_Set ca k v t)"
  shows "reads_only (Cached_GetLatestTag c nxt ttl repo)"
  unfolding Cached_GetLatestTag_def Let_def
  using assms by (auto intro!: reads_only_rules split: option.split sum.split)

section \<open>The provider of the scanner process\<close>

text \<open>
  \<open>scanner-service/main.go\<close> puts the cache, Redis, before GitHub.  What Redis answers at a
  moment is an argument, so are its failures; an entry it holds is any text.
\<close>

type_synonym redis = "int \<Rightarrow> string \<Rightarrow> string option"

definition RedisCache :: "redis \<Rightarrow> 'db cache" where
  "RedisCache entries =
     \<lparr>ca_Get = (\<lambda>key. bnd app_clock (\<lambda>now.
        read_in (case entries now key of None \<Rightarrow> Inl (Plain ''redis: nil'') | Some v \<Rightarrow> Inr v))),
      ca_Set = (\<lambda>key v ttl. read_in (Inr ()))\<rparr>"

definition scanner_provider :: "redis \<Rightarrow> http_server \<Rightarrow> string \<Rightarrow> 'db release_provider" where
  "scanner_provider entries server baseURL =
     Cached_GetLatestTag (Some (RedisCache entries))
       (HTTP_GetLatestTag server (NewHTTPReleaseProvider baseURL))
       (NewCachedReleaseProvider (45 * second_ns))"

lemma reads_only_provider: "reads_only (scanner_provider entries server baseURL repo)"
  unfolding scanner_provider_def
  by (rule reads_only_Cached) (auto simp: RedisCache_def intro!: reads_only_rules reads_only_HTTP)

end
