(* ===== verification/Hashing.thy ===== *)
theory Hashing
  imports Codec "HOL-Library.Word"
begin

unbundle bit_operations_syntax

text \<open>
  The hashes of \<open>subscription-api/internal/hash/hash.go\<close>, with what they use of the standard
  library: \<open>crypto/sha256\<close> on words of 32 bits, \<open>encoding/hex\<close>, \<open>strings.TrimSpace\<close> and
  \<open>strings.ToLower\<close>.  The last two treat a text of ASCII characters byte by byte; on any other
  text they consult the Unicode tables, which are functions of the environment.
\<close>

section \<open>SHA-256\<close>

definition rotr :: "nat \<Rightarrow> 32 word \<Rightarrow> 32 word" where
  "rotr n w = drop_bit n w OR push_bit (32 - n) w"

text \<open>
  The constants are the first 32 bits of the fractional parts of roots of the first primes: the
  \<open>k\<close>-th root of \<open>p * 2 ^ (32 * k)\<close>, bit by bit, of which the word keeps the lowest 32.
\<close>

definition first_primes :: "nat list" where
  "first_primes = filter (\<lambda>n. list_all (\<lambda>d. n mod d \<noteq> 0) [2..<n]) [2..<312]"

primrec root_bits :: "nat \<Rightarrow> nat \<Rightarrow> int \<Rightarrow> int \<Rightarrow> int" where
  "root_bits 0 k n acc = acc"
| "root_bits (Suc b) k n acc = (let c = acc + 2 ^ b in root_bits b k n (if c ^ k \<le> n then c else acc))"

definition root_word :: "nat \<Rightarrow> nat \<Rightarrow> 32 word" where
  "root_word k p = word_of_int (root_bits 38 k (int p * 2 ^ (32 * k)) 0)"

definition sha_k :: "32 word list" where
  "sha_k = map (root_word 3) first_primes"

datatype sha_state =
  Sha "32 word" "32 word" "32 word" "32 word" "32 word" "32 word" "32 word" "32 word"

definition sha_init :: sha_state where
  "sha_init = Sha (root_word 2 2) (root_word 2 3) (root_word 2 5) (root_word 2 7)
     (root_word 2 11) (root_word 2 13) (root_word 2 17) (root_word 2 19)"

text \<open>One round, with its constant and its word of the message schedule.\<close>

fun sha_round :: "32 word \<times> 32 word \<Rightarrow> sha_state \<Rightarrow> sha_state" where
  "sha_round (k, w) (Sha a b c d e f g h) =
     (let s1 = rotr 6 e XOR rotr 11 e XOR rotr 25 e;
          ch = (e AND f) XOR (NOT e AND g);
          t1 = h + s1 + ch + k + w;
          s0 = rotr 2 a XOR rotr 13 a XOR rotr 22 a;
          maj = (a AND b) XOR (a AND c) XOR (b AND c);
          t2 = s0 + maj
      in Sha (t1 + t2) a b c (d + t1) e f g)"

text \<open>The schedule, newest word first.\<close>

primrec sha_expand :: "nat \<Rightarrow> 32 word list \<Rightarrow> 32 word list" where
  "sha_expand 0 ws = ws"
| "sha_expand (Suc n) ws =
     (let x = ws ! 14; y = ws ! 1;
          s0 = rotr 7 x XOR rotr 18 x XOR drop_bit 3 x;
          s1 = rotr 17 y XOR rotr 19 y XOR drop_bit 10 y
      in sha_expand n ((ws ! 15 + s0 + ws ! 6 + s1) # ws))"

fun sha_add :: "sha_state \<Rightarrow> sha_state \<Rightarrow> sha_state" where
  "sha_add (Sha a b c d e f g h) (Sha a' b' c' d' e' f' g' h') =
     Sha (a + a') (b + b') (c + c') (d + d') (e + e') (f + f') (g + g') (h + h')"

definition sha_block :: "32 word list \<Rightarrow> sha_state \<Rightarrow> sha_state" where
  "sha_block ws s = sha_add s (fold sha_round (zip sha_k (rev (sha_expand 48 (rev ws)))) s)"

fun be_words :: "8 word list \<Rightarrow> 32 word list" where
  "be_words (a # b # c # d # bs) =
     (push_bit 24 (ucast a) OR push_bit 16 (ucast b) OR push_bit 8 (ucast c) OR ucast d) # be_words bs"
| "be_words _ = []"

text \<open>The padding: a one bit, zeros up to eight bytes short of a block, the length in bits.\<close>

definition sha_pad :: "8 word list \<Rightarrow> 8 word list" where
  "sha_pad bs =
     (let l = length bs in
      bs @ [0x80] @ replicate ((55 + 64 - l mod 64) mod 64) 0 @
      map (\<lambda>i. ucast (drop_bit (56 - 8 * i) (word_of_int (8 * int l) :: 64 word))) [0..<8])"

fun sha_blocks :: "32 word list \<Rightarrow> sha_state \<Rightarrow> sha_state" where
  "sha_blocks ws s = (if length ws < 16 then s else sha_blocks (drop 16 ws) (sha_block (take 16 ws) s))"

declare sha_blocks.simps [simp del]

fun sha_digest :: "sha_state \<Rightarrow> 32 word list" where
  "sha_digest (Sha a b c d e f g h) = [a, b, c, d, e, f, g, h]"

definition bytes_of :: "string \<Rightarrow> 8 word list" where
  "bytes_of s = map of_char s"

definition sha256 :: "8 word list \<Rightarrow> 32 word list" where
  "sha256 bs = sha_digest (sha_blocks (be_words (sha_pad bs)) sha_init)"

text \<open>\<open>hex.EncodeToString\<close> of the digest, eight digits per word.\<close>

definition hex_word :: "32 word \<Rightarrow> string" where
  "hex_word w = map (\<lambda>i. hex_digit (unat (drop_bit (28 - 4 * i) w AND 0xF))) [0..<8]"

definition hex_digest :: "string \<Rightarrow> string" where
  "hex_digest s = concat (map hex_word (sha256 (bytes_of s)))"

section \<open>The hashes of the program\<close>

definition TextHash :: "string \<Rightarrow> string" where
  "TextHash value = take 12 (hex_digest value)"

definition ascii :: "string \<Rightarrow> bool" where
  "ascii s = list_all (\<lambda>c. (of_char c :: nat) < 128) s"

definition is_space :: "char \<Rightarrow> bool" where
  "is_space c = (c \<in> {CHR 0x09, CHR 0x0A, CHR 0x0B, CHR 0x0C, CHR 0x0D, CHR 0x20})"

definition TrimSpace :: "env \<Rightarrow> string \<Rightarrow> string" where
  "TrimSpace E s = (if ascii s then rev (dropWhile is_space (rev (dropWhile is_space s))) else unicode_trim E s)"

definition ToLower :: "env \<Rightarrow> string \<Rightarrow> string" where
  "ToLower E s = (if ascii s then map lower_char s else unicode_lower E s)"

definition EmailHash :: "env \<Rightarrow> string \<Rightarrow> string" where
  "EmailHash E email = (let normalized = ToLower E (TrimSpace E email) in TextHash normalized)"

section \<open>The form of a hash\<close>

lemma length_sha256: "length (sha256 bs) = 8"
  by (cases "sha_blocks (be_words (sha_pad bs)) sha_init") (simp add: sha256_def)

lemma length_hex_digest: "length (hex_digest s) = 64"
proof -
  have "length (concat (map hex_word ws)) = 8 * length ws" for ws
    by (induction ws) (simp_all add: hex_word_def)
  then show ?thesis by (simp add: hex_digest_def length_sha256)
qed

lemma hex_digit_in: "hex_digit n \<in> set ''0123456789abcdef''"
  unfolding hex_digit_def by (rule nth_mem) simp

lemma hex_digest_digits: "set (hex_digest s) \<subseteq> set ''0123456789abcdef''"
  using hex_digit_in by (auto simp: hex_digest_def hex_word_def simp del: set_simps)

section \<open>Normalisation\<close>

lemma ascii_simps [simp]:
  "ascii []" "ascii (c # s) = ((of_char c :: nat) < 128 \<and> ascii s)" "ascii (s @ t) = (ascii s \<and> ascii t)"
  "ascii (rev s) = ascii s"
  by (simp_all add: ascii_def)

lemma ascii_dropWhile: "ascii s \<Longrightarrow> ascii (dropWhile p s)"
  by (induction s) auto

lemma space_ascii: "list_all is_space s \<Longrightarrow> ascii s"
  by (induction s) (auto simp: is_space_def)

lemma lower_char_idem [simp]: "lower_char (lower_char c) = lower_char c"
proof -
  have "(of_char c :: nat) < 256" by simp
  then show ?thesis by (auto simp: lower_char_def Let_def)
qed

lemma is_space_lower [simp]: "is_space (lower_char c) = is_space c"
proof (cases "65 \<le> (of_char c :: nat) \<and> (of_char c :: nat) \<le> 90")
  case True
  then have "(of_char (lower_char c) :: nat) = of_char c + 32" by (simp add: lower_char_def)
  with True have "(of_char (lower_char c) :: nat) \<ge> 97" "(of_char c :: nat) \<ge> 65" by simp_all
  then show ?thesis by (auto simp: is_space_def)
next
  case False
  then have "lower_char c = c" by (auto simp: lower_char_def Let_def)
  then show ?thesis by simp
qed

lemma ascii_lower [simp]: "ascii (map lower_char s) = ascii s"
proof (induction s)
  case (Cons c s)
  have "((of_char (lower_char c) :: nat) < 128) = ((of_char c :: nat) < 128)"
    by (auto simp: lower_char_def Let_def)
  with Cons show ?case by simp
qed simp

lemma dropWhile_spaces: "list_all is_space pre \<Longrightarrow> dropWhile is_space (pre @ s) = dropWhile is_space s"
  by (induction pre) auto

definition trim_ascii :: "string \<Rightarrow> string" where
  "trim_ascii s = rev (dropWhile is_space (rev (dropWhile is_space s)))"

lemma trim_around:
  assumes "list_all is_space pre" and "list_all is_space post"
  shows "trim_ascii (pre @ s @ post) = trim_ascii s"
proof -
  have post: "list_all is_space (rev post)" using assms(2) by (simp add: list_all_iff)
  show ?thesis
  proof (cases "list_all is_space s")
    case True
    then have none: "dropWhile is_space (s @ post) = []" "dropWhile is_space s = []"
      using assms(2) by (simp_all add: list_all_iff)
    show ?thesis unfolding trim_ascii_def dropWhile_spaces[OF assms(1)] none ..
  next
    case False
    then have "dropWhile is_space (s @ post) = dropWhile is_space s @ post"
      by (subst dropWhile_append) (auto simp: list_all_iff)
    then show ?thesis by (simp add: trim_ascii_def dropWhile_spaces[OF assms(1)] dropWhile_spaces[OF post])
  qed
qed

lemma trim_lower: "trim_ascii (map lower_char s) = map lower_char (trim_ascii s)"
proof -
  have drop: "dropWhile is_space (map lower_char t) = map lower_char (dropWhile is_space t)" for t
    by (induction t) simp_all
  show ?thesis unfolding trim_ascii_def drop rev_map[symmetric] by (simp add: drop rev_map)
qed

lemma EmailHash_ascii: "ascii s \<Longrightarrow> EmailHash E s = TextHash (map lower_char (trim_ascii s))"
  by (simp add: EmailHash_def Let_def TrimSpace_def ToLower_def trim_ascii_def ascii_dropWhile)

text \<open>
  C34. Every hash is twelve lower-case hexadecimal digits, and the hash of an e-mail does not depend
  on the case of its letters nor on white space around it, so that one mailbox has one Kafka key
  and one idempotency key per release.
\<close>

theorem email_hash_normalises:
  "length (EmailHash E s) = 12 \<and> set (EmailHash E s) \<subseteq> set ''0123456789abcdef'' \<and>
   (ascii s \<and> list_all is_space pre \<and> list_all is_space post \<longrightarrow>
      EmailHash E (pre @ map lower_char s @ post) = EmailHash E s)"
proof (intro conjI impI)
  show "length (EmailHash E s) = 12" by (simp add: EmailHash_def Let_def TextHash_def length_hex_digest)
  show "set (EmailHash E s) \<subseteq> set ''0123456789abcdef''"
    unfolding EmailHash_def Let_def TextHash_def using hex_digest_digits set_take_subset by fastforce
  assume "ascii s \<and> list_all is_space pre \<and> list_all is_space post"
  then show "EmailHash E (pre @ map lower_char s @ post) = EmailHash E s"
    by (simp add: EmailHash_ascii space_ascii trim_around trim_lower comp_def)
qed

end
