(* ===== verification/Subscription.thy ===== *)
theory Subscription
  imports Watch_Saga Release_Provider Hashing
begin

text \<open>
  The subscriptions of \<open>subscription-api/internal/subscription\<close>: the table \<open>subscriptions\<close>, the
  repository of \<open>repository.go\<close>, the GitHub client of \<open>github.go\<close>, the service of
  \<open>service.go\<close>, the two publishers of notifications and the expander of release events.  The
  table stands in the same database as the sagas and the outbox.  The column \<open>id\<close> is never read
  and left out; a request identifier that the context carries is an argument.
\<close>

record subscription_row =
  su_Email :: string
  su_Repo :: string
  su_Confirmed :: bool
  su_LastSeenTag :: string
  su_Token :: string

record api_db = saga_db +
  subscriptions :: "subscription_row list"

lemma api_db_swap:
  "(d :: 'd api_db_scheme)\<lparr>subscriptions := rows, outbox_events := evs\<rparr>
    = d\<lparr>outbox_events := evs, subscriptions := rows\<rparr>"
  by (cases d) simp

section \<open>The repository\<close>

text \<open>
  \<open>VARCHAR(n)\<close> counts characters: bytes that do not continue a UTF-8 sequence.  A longer text is
  an error unless the excess is blank, which is cut off.
\<close>

definition continues_utf8 :: "char \<Rightarrow> bool" where
  "continues_utf8 c = (let n = of_char c :: nat in 128 \<le> n \<and> n < 192)"

fun split_chars :: "nat \<Rightarrow> string \<Rightarrow> string \<times> string" where
  "split_chars n [] = ([], [])"
| "split_chars n (c # s) =
     (if continues_utf8 c then (case split_chars n s of (a, b) \<Rightarrow> (c # a, b))
      else if n = 0 then ([], c # s)
      else (case split_chars (n - 1) s of (a, b) \<Rightarrow> (c # a, b)))"

definition varchar :: "nat \<Rightarrow> string \<Rightarrow> string option" where
  "varchar n s = (case split_chars n s of (a, b) \<Rightarrow> if list_all (\<lambda>c. c = CHR '' '') b then Some a else None)"

definition too_long :: "nat \<Rightarrow> goerr" where
  "too_long n = Plain (''ERROR: value too long for type character varying('' @ dec_text n @ '')'')"

definition fits :: "subscription_row \<Rightarrow> goerr + subscription_row" where
  "fits r =
     (case (varchar 255 (su_Email r), varchar 255 (su_Repo r), varchar 100 (su_LastSeenTag r), varchar 255 (su_Token r)) of
        (Some e, Some p, Some t, Some k) \<Rightarrow> Inr (r\<lparr>su_Email := e, su_Repo := p, su_LastSeenTag := t, su_Token := k\<rparr>)
      | (_, _, None, _) \<Rightarrow> Inl (too_long 100)
      | _ \<Rightarrow> Inl (too_long 255))"

definition sub_key :: "subscription_row \<Rightarrow> string \<times> string" where
  "sub_key r = (su_Email r, su_Repo r)"

definition sql_exists :: "string \<Rightarrow> string \<Rightarrow> ('d api_db_scheme, bool) sql" where
  "sql_exists email repo = (\<lambda>d now.
     Inr (list_ex (\<lambda>r. su_Email r = email \<and> su_Repo r = repo) (subscriptions d), d))"

definition SubscriptionExists :: "string \<Rightarrow> string \<Rightarrow> ('d api_db_scheme, wire, bool) go" where
  "SubscriptionExists email repo =
     annot (errorf ''check subscription exists: '') (pool_stmt (sql_exists email repo))"

text \<open>A row of the same e-mail and repository only gets the new tag.\<close>

definition token_taken :: goerr where
  "token_taken = Plain (''ERROR: duplicate key value violates unique constraint '' @ go_quote ''idx_subscriptions_token'')"

definition save_rows :: "subscription_row \<Rightarrow> subscription_row list \<Rightarrow> goerr + subscription_row list" where
  "save_rows r rows =
     (if sub_key r \<in> sub_key ` set rows
      then Inr (update_where (\<lambda>x. sub_key x = sub_key r) (\<lambda>x. x\<lparr>su_LastSeenTag := su_LastSeenTag r\<rparr>) rows)
      else if su_Token r \<in> su_Token ` set rows then Inl token_taken
      else Inr (rows @ [r]))"

definition sql_save :: "subscription_row \<Rightarrow> ('d api_db_scheme, unit) sql" where
  "sql_save r0 = (\<lambda>d now.
     sum_bind (fits r0) (\<lambda>r. sum_map (\<lambda>rows. ((), d\<lparr>subscriptions := rows\<rparr>)) (save_rows r (subscriptions d))))"

definition saveSubscription :: "subscription_row \<Rightarrow> ('d api_db_scheme, wire, unit) go" where
  "saveSubscription r = annot (errorf ''save subscription: '') (tx_stmt (sql_save r))"

definition SaveSubscription :: "subscription_row \<Rightarrow> ('d api_db_scheme, wire, unit) go" where
  "SaveSubscription r = with_tx (errorf ''begin save subscription: '')
     (bnd (saveSubscription r) (\<lambda>_. commit_tx))"

definition unconfirmed_of :: "string \<Rightarrow> string \<Rightarrow> string \<Rightarrow> subscription_row \<Rightarrow> bool" where
  "unconfirmed_of email repo token r =
     (su_Email r = email \<and> su_Repo r = repo \<and> su_Token r = token \<and> \<not> su_Confirmed r)"

definition sql_delete_unconfirmed :: "string \<Rightarrow> string \<Rightarrow> string \<Rightarrow> ('d api_db_scheme, nat) sql" where
  "sql_delete_unconfirmed email repo token = (\<lambda>d now.
     Inr (affected (unconfirmed_of email repo token) (subscriptions d),
          d\<lparr>subscriptions := delete_where (unconfirmed_of email repo token) (subscriptions d)\<rparr>))"

definition DeleteUnconfirmedSubscription :: "string \<Rightarrow> string \<Rightarrow> string \<Rightarrow> ('d api_db_scheme, wire, unit) go" where
  "DeleteUnconfirmedSubscription email repo token =
     bnd (annot (errorf ''delete unconfirmed subscription compensation: '')
            (pool_stmt (sql_delete_unconfirmed email repo token))) (\<lambda>n.
       if n = 0 then raise (Plain ''unconfirmed subscription compensation skipped'') else ret ())"

definition sql_subscriptions :: "env \<Rightarrow> string \<Rightarrow> ('d api_db_scheme, subscription_row list) sql" where
  "sql_subscriptions E email = (\<lambda>d now.
     let rows = filter (\<lambda>r. su_Email r = email \<and> su_Confirmed r) (subscriptions d)
     in Inr (map (\<lambda>r. r\<lparr>su_Token := ''''\<rparr>)
               (List.map_filter (lookup_row su_Repo rows) (returning E (map su_Repo rows))), d))"

definition GetSubscriptions :: "env \<Rightarrow> string \<Rightarrow> ('d api_db_scheme, wire, subscription_row list) go" where
  "GetSubscriptions E email =
     annot (errorf ''query subscriptions: '') (pool_stmt (sql_subscriptions E email))"

definition confirmed_of :: "string \<Rightarrow> subscription_row \<Rightarrow> bool" where
  "confirmed_of repo r = (su_Repo r = repo \<and> su_Confirmed r)"

definition sql_subscribers :: "env \<Rightarrow> string \<Rightarrow> ('d api_db_scheme, string list) sql" where
  "sql_subscribers E repo = (\<lambda>d now.
     Inr (returning E (remdups (map su_Email (filter (confirmed_of repo) (subscriptions d)))), d))"

definition GetSubscribers :: "env \<Rightarrow> string \<Rightarrow> ('d api_db_scheme, wire, string list) go" where
  "GetSubscribers E repo = annot (errorf ''query subscribers: '') (pool_stmt (sql_subscribers E repo))"

subsection \<open>Saga requests\<close>

definition correlationIDFromContext :: "env \<Rightarrow> string option \<Rightarrow> string \<Rightarrow> string" where
  "correlationIDFromContext E rid fallback =
     (case rid of Some i \<Rightarrow> if uuid_parses E i then i else fallback | None \<Rightarrow> fallback)"

definition saga_request :: "string \<Rightarrow> string \<Rightarrow> string \<Rightarrow> string \<Rightarrow> string \<Rightarrow> int \<Rightarrow> saga_payload envelope" where
  "saga_request action repo email sagaID correlationID occurredAt =
     \<lparr>EventID = sagaID, EventType = EventRepoWatchSagaRequested, OccurredAt = occurredAt,
      Source = ''subscription-api'', CorrelationID = correlationID, NotBefore = None,
      Payload = \<lparr>sp_SagaID = sagaID, sp_Action = action, sp_Repo = repo, sp_Email = email\<rparr>\<rparr>"

definition buildRepoWatchSagaRequest ::
    "env \<Rightarrow> string \<Rightarrow> string \<Rightarrow> string \<Rightarrow> string \<Rightarrow> string \<Rightarrow> int \<Rightarrow> goerr + (saga_payload envelope \<times> json)" where
  "buildRepoWatchSagaRequest E action repo email sagaID correlationID occurredAt =
     (let event = saga_request action repo email sagaID correlationID occurredAt
      in sum_map (\<lambda>raw. (event, raw)) (encode_envelope E (\<lambda>p. Inr (encode_saga p)) event))"

definition insertRepoWatchSagaRequest ::
    "env \<Rightarrow> string option \<Rightarrow> string \<Rightarrow> string \<Rightarrow> string \<Rightarrow> ('d api_db_scheme, wire, unit) go" where
  "insertRepoWatchSagaRequest E rid action repo email =
     bnd (new_uuid (uuid_gen E)) (\<lambda>sagaID.
     let correlationID = correlationIDFromContext E rid sagaID in
     bnd app_clock (\<lambda>occurredAt.
     bnd (annot (errorf ''marshal repo watch saga request: '')
            (of_sum (buildRepoWatchSagaRequest E action repo email sagaID correlationID occurredAt))) (\<lambda>built.
       InsertTx (new_event sagaID (EventType (fst built)) (OccurredAt (fst built)) (Source (fst built))
         correlationID TopicWatchlistSagaRequests repo (Some (snd built))))))"

definition RequestRepoWatchSaga ::
    "env \<Rightarrow> string option \<Rightarrow> string \<Rightarrow> string \<Rightarrow> string \<Rightarrow> ('d api_db_scheme, wire, unit) go" where
  "RequestRepoWatchSaga E rid action repo email =
     with_tx (errorf ''begin repo watch saga request: '')
       (bnd (insertRepoWatchSagaRequest E rid action repo email) (\<lambda>_. commit_tx))"

subsection \<open>Confirming and unsubscribing\<close>

definition sql_by_token :: "string \<Rightarrow> ('d api_db_scheme, subscription_row option) sql" where
  "sql_by_token token = (\<lambda>d now. Inr (find_row (\<lambda>r. su_Token r = token) (subscriptions d), d))"

definition sql_count_confirmed :: "string \<Rightarrow> ('d api_db_scheme, nat) sql" where
  "sql_count_confirmed repo = (\<lambda>d now. Inr (affected (confirmed_of repo) (subscriptions d), d))"

definition sql_confirm :: "string \<Rightarrow> ('d api_db_scheme, unit) sql" where
  "sql_confirm token = (\<lambda>d now. Inr ((), d\<lparr>subscriptions :=
     update_where (\<lambda>r. su_Token r = token) (\<lambda>r. r\<lparr>su_Confirmed := True\<rparr>) (subscriptions d)\<rparr>))"

definition sql_delete_token :: "string \<Rightarrow> ('d api_db_scheme, unit) sql" where
  "sql_delete_token token = (\<lambda>d now. Inr ((), d\<lparr>subscriptions :=
     delete_where (\<lambda>r. su_Token r = token) (subscriptions d)\<rparr>))"

text \<open>Every error of the lookup, of the connection too, is taken for an unknown token.\<close>

definition row_by_token :: "goerr \<Rightarrow> string \<Rightarrow> ('d api_db_scheme, wire, subscription_row) go" where
  "row_by_token err token =
     bnd (annot (\<lambda>_. err) (tx_stmt (sql_by_token token)))
       (\<lambda>found. case found of None \<Rightarrow> raise err | Some r \<Rightarrow> ret r)"

record confirm_result =
  cr_Repo :: string
  cr_Email :: string
  cr_WasFirstConfirmed :: bool

definition Repo_ConfirmSubscriptionByToken :: "string \<Rightarrow> ('d api_db_scheme, wire, confirm_result) go" where
  "Repo_ConfirmSubscriptionByToken token =
     with_tx (errorf ''begin confirm subscription: '')
       (bnd (row_by_token (Sentinel ErrTokenNotFound) token) (\<lambda>r.
        bnd (annot (errorf ''count confirmed subscriptions: '') (tx_stmt (sql_count_confirmed (su_Repo r)))) (\<lambda>confirmedBefore.
        bnd (annot (errorf ''confirm subscription: '') (tx_stmt (sql_confirm token))) (\<lambda>_.
        bnd commit_tx (\<lambda>_.
          ret \<lparr>cr_Repo = su_Repo r, cr_Email = su_Email r,
               cr_WasFirstConfirmed = (\<not> su_Confirmed r \<and> confirmedBefore = 0)\<rparr>)))))"

definition Unsubscribe :: "env \<Rightarrow> string option \<Rightarrow> string \<Rightarrow> ('d api_db_scheme, wire, unit) go" where
  "Unsubscribe E rid token =
     with_tx (errorf ''begin unsubscribe: '')
       (bnd (row_by_token (Plain ''token not found'') token) (\<lambda>r.
        bnd (annot (errorf ''delete subscription: '') (tx_stmt (sql_delete_token token))) (\<lambda>_.
        bnd (if su_Confirmed r
             then bnd (annot (errorf ''count remaining confirmed subscriptions: '')
                         (tx_stmt (sql_count_confirmed (su_Repo r)))) (\<lambda>confirmedAfter.
                  if confirmedAfter = 0
                  then insertRepoWatchSagaRequest E rid RepoWatchActionStop (su_Repo r) ''''
                  else ret ())
             else ret ()) (\<lambda>_. commit_tx))))"

section \<open>GitHub\<close>

text \<open>The client's requests differ in their method only; each has its answers.\<close>

record 'db github_client =
  gh_GetLatestTag :: "string \<Rightarrow> ('db, wire, string) go"
  gh_CheckIfRepoExists :: "string \<Rightarrow> ('db, wire, unit) go"

definition GitHub_GetLatestTag :: "http_server \<Rightarrow> string \<Rightarrow> string \<Rightarrow> ('db, wire, string) go" where
  "GitHub_GetLatestTag gets baseURL repo =
     bnd (http_get gets (baseURL @ ''/repos/'' @ repo @ ''/releases/latest'')) (\<lambda>(code, body).
       if code = StatusNotFound then ret ''''
       else if code = StatusTooManyRequests then raise (Sentinel ErrGitHubAPILimit)
       else if code \<noteq> StatusOK then raise (Plain (''github error: '' @ int_text code))
       else of_sum (decode_tag_name body))"

definition GitHub_CheckIfRepoExists :: "http_server \<Rightarrow> string \<Rightarrow> string \<Rightarrow> ('db, wire, unit) go" where
  "GitHub_CheckIfRepoExists heads baseURL repo =
     bnd (http_get heads (baseURL @ ''/repos/'' @ repo)) (\<lambda>(code, body).
       if code = StatusOK then ret ()
       else if code = StatusNotFound then raise (Sentinel ErrGitHubNotFound)
       else if code = StatusTooManyRequests then raise (Sentinel ErrGitHubAPILimit)
       else raise (Plain (''github error: '' @ int_text code)))"

definition NewHTTPGitHubClient :: "http_server \<Rightarrow> http_server \<Rightarrow> string \<Rightarrow> 'db github_client" where
  "NewHTTPGitHubClient gets heads baseURL0 =
     (let baseURL = (if baseURL0 = '''' then ''https://api.github.com'' else baseURL0)
      in \<lparr>gh_GetLatestTag = GitHub_GetLatestTag gets baseURL,
          gh_CheckIfRepoExists = GitHub_CheckIfRepoExists heads baseURL\<rparr>)"

section \<open>The service\<close>

record 'db subscription_store =
  ub_SubscriptionExists :: "string \<Rightarrow> string \<Rightarrow> ('db, wire, bool) go"
  ub_SaveSubscription :: "subscription_row \<Rightarrow> ('db, wire, unit) go"
  ub_DeleteUnconfirmedSubscription :: "string \<Rightarrow> string \<Rightarrow> string \<Rightarrow> ('db, wire, unit) go"
  ub_ConfirmSubscriptionByToken :: "string \<Rightarrow> ('db, wire, confirm_result) go"
  ub_RequestRepoWatchSaga :: "string option \<Rightarrow> string \<Rightarrow> string \<Rightarrow> string \<Rightarrow> ('db, wire, unit) go"

text \<open>\<open>SendConfirmation\<close> is given the request identifier, the e-mail, the repository and the token.\<close>

record 'db subscription_service =
  uv_repo :: "'db subscription_store"
  uv_notifications :: "string option \<Rightarrow> string \<Rightarrow> string \<Rightarrow> string \<Rightarrow> ('db, wire, unit) go"
  uv_github :: "'db github_client"

definition subscription_repository :: "env \<Rightarrow> ('d api_db_scheme) subscription_store" where
  "subscription_repository E =
     \<lparr>ub_SubscriptionExists = SubscriptionExists, ub_SaveSubscription = SaveSubscription,
      ub_DeleteUnconfirmedSubscription = DeleteUnconfirmedSubscription,
      ub_ConfirmSubscriptionByToken = Repo_ConfirmSubscriptionByToken,
      ub_RequestRepoWatchSaga = RequestRepoWatchSaga E\<rparr>"

definition validateRepo :: "'db subscription_service \<Rightarrow> string \<Rightarrow> ('db, wire, unit) go" where
  "validateRepo s repo =
     bnd (attempt (gh_CheckIfRepoExists (uv_github s) repo)) (\<lambda>r.
       case r of
         Inr _ \<Rightarrow> ret ()
       | Inl err \<Rightarrow>
           if errors_is err ErrGitHubNotFound then raise (Sentinel ErrRepoNotFound)
           else if errors_is err ErrGitHubAPILimit then raise (Sentinel ErrGitHubRateLimit)
           else raise (Wrapf ['''', '': '', ''''] [Sentinel ErrGitHubUnavailable, err]))"

definition new_subscription :: "string \<Rightarrow> string \<Rightarrow> string \<Rightarrow> string \<Rightarrow> subscription_row" where
  "new_subscription email repo tag token =
     \<lparr>su_Email = email, su_Repo = repo, su_Confirmed = False, su_LastSeenTag = tag, su_Token = token\<rparr>"

text \<open>The steps of \<open>Subscribe\<close> after the checks: save, notify, and compensate when that fails.\<close>

definition compensate :: "'db subscription_service \<Rightarrow> subscription_row \<Rightarrow> goerr \<Rightarrow> ('db, wire, unit) go" where
  "compensate s sub err =
     bnd (attempt (ub_DeleteUnconfirmedSubscription (uv_repo s) (su_Email sub) (su_Repo sub) (su_Token sub))) (\<lambda>r.
       case r of
         Inl compensationErr \<Rightarrow>
           raise (Wrapf ['''', '': send confirmation: '', ''; compensate subscription: '', '''']
             [Sentinel ErrConfirmationUnavailable, err, compensationErr])
       | Inr _ \<Rightarrow> raise (Wrapf ['''', '': '', ''''] [Sentinel ErrConfirmationUnavailable, err]))"

definition save_and_notify :: "'db subscription_service \<Rightarrow> string option \<Rightarrow> subscription_row \<Rightarrow> ('db, wire, unit) go" where
  "save_and_notify s rid sub =
     bnd (ub_SaveSubscription (uv_repo s) sub) (\<lambda>_.
     bnd (attempt (uv_notifications s rid (su_Email sub) (su_Repo sub) (su_Token sub))) (\<lambda>r.
       case r of Inl err \<Rightarrow> compensate s sub err | Inr _ \<Rightarrow> ret ()))"

definition Subscribe ::
    "env \<Rightarrow> 'db subscription_service \<Rightarrow> string option \<Rightarrow> string \<Rightarrow> string \<Rightarrow> ('db, wire, unit) go" where
  "Subscribe E s rid email repo =
     bnd (annot (errorf ''check subscription: '') (ub_SubscriptionExists (uv_repo s) email repo)) (\<lambda>exists.
     if exists then raise (Sentinel ErrAlreadySubscribed)
     else bnd (validateRepo s repo) (\<lambda>_.
     bnd (attempt (gh_GetLatestTag (uv_github s) repo)) (\<lambda>r.
     let tag = (case r of Inr t \<Rightarrow> t | Inl _ \<Rightarrow> '''') in
     bnd (new_uuid (uuid_gen E)) (\<lambda>token.
       save_and_notify s rid (new_subscription email repo tag token)))))"

definition Service_ConfirmSubscriptionByToken ::
    "'db subscription_service \<Rightarrow> string option \<Rightarrow> string \<Rightarrow> ('db, wire, unit) go" where
  "Service_ConfirmSubscriptionByToken s rid token =
     bnd (ub_ConfirmSubscriptionByToken (uv_repo s) token) (\<lambda>result.
       if \<not> cr_WasFirstConfirmed result then ret ()
       else ub_RequestRepoWatchSaga (uv_repo s) rid RepoWatchActionStart (cr_Repo result) (cr_Email result))"

end
