(* ===== verification/Notifications.thy ===== *)
theory Notifications
  imports Subscription
begin

text \<open>
  The publishers of \<open>notification_publisher.go\<close> and \<open>grpc_notification_publisher.go\<close>, the
  expander of \<open>release_expander.go\<close> and the release consumer of \<open>subscription-api/main.go\<close>.  The
  notification service is another process: a request that reaches it is an effect of the trace,
  and what it answers is an argument.
\<close>

definition release_notification :: "env \<Rightarrow> string \<Rightarrow> string \<Rightarrow> string \<Rightarrow> string \<Rightarrow> notification_payload" where
  "release_notification E email repo tag notificationID =
     (let emailHash = EmailHash E email in
      \<lparr>np_NotificationID = notificationID,
       np_IdempotencyKey = repo @ '':'' @ tag @ '':'' @ emailHash,
       np_RecipientEmail = email, np_EmailHash = emailHash, np_Repo = repo, np_Tag = tag,
       np_Message = ''New release '' @ tag @ '' for '' @ repo @ ''!''\<rparr>)"

definition release_notification_event ::
    "env \<Rightarrow> string \<Rightarrow> string \<Rightarrow> string \<Rightarrow> string \<Rightarrow> string \<Rightarrow> int \<Rightarrow> notification_payload envelope" where
  "release_notification_event E email repo tag notificationID correlationID occurredAt =
     \<lparr>EventID = notificationID, EventType = EventNotificationRequested, OccurredAt = occurredAt,
      Source = ''subscription-api'', CorrelationID = correlationID, NotBefore = None,
      Payload = release_notification E email repo tag notificationID\<rparr>"

definition buildReleaseNotification ::
    "env \<Rightarrow> string \<Rightarrow> string \<Rightarrow> string \<Rightarrow> string \<Rightarrow> string \<Rightarrow> int \<Rightarrow> goerr + (notification_payload envelope \<times> json)" where
  "buildReleaseNotification E email repo tag notificationID correlationID occurredAt =
     (let event = release_notification_event E email repo tag notificationID correlationID occurredAt
      in sum_map (\<lambda>raw. (event, raw)) (encode_envelope E (\<lambda>p. Inr (encode_notification p)) event))"

section \<open>The publisher over HTTP and the outbox\<close>

record outbox_publisher =
  op_baseURL :: string
  op_notificationServiceURL :: string

definition trim_slashes :: "string \<Rightarrow> string" where
  "trim_slashes s = rev (dropWhile (\<lambda>c. c = CHR ''/'') (rev s))"

definition NewOutboxNotificationPublisher :: "string \<Rightarrow> string \<Rightarrow> outbox_publisher" where
  "NewOutboxNotificationPublisher baseURL notificationServiceURL =
     \<lparr>op_baseURL = baseURL, op_notificationServiceURL = trim_slashes notificationServiceURL\<rparr>"

definition confirm_url :: "string \<Rightarrow> string \<Rightarrow> string" where
  "confirm_url baseURL token = baseURL @ ''/api/confirm/'' @ token"

definition confirmation_body :: "string \<Rightarrow> string \<Rightarrow> string \<Rightarrow> json" where
  "confirmation_body email repo confirmURL =
     JObj [(''email'', JStr email), (''repo'', JStr repo), (''confirm_url'', JStr confirmURL)]"

text \<open>
  A POST.  \<open>HttpFailed\<close> is a request that cannot be built or never reaches the server, and leaves
  no effect.  Any other one is a call of the script with the request identifier in its header: it
  goes through and gets a status, it fails before it is sent (\<open>Fail\<close>), or it reaches the server
  and times out, or its reply is lost (\<open>Lost\<close>): then the caller gets an error and the effect
  \<open>Posted\<close> is left.
\<close>

definition http_post :: "http_server \<Rightarrow> string \<Rightarrow> string option \<Rightarrow> json \<Rightarrow> ('db, wire, int) go" where
  "http_post server link rid body =
     bnd app_clock (\<lambda>now.
       case server now link of
         HttpFailed e \<Rightarrow> raise (Plain e)
       | HttpReply code _ \<Rightarrow> bnd (send_out (Posted link rid (Some body))) (\<lambda>_. ret code))"

definition Outbox_SendConfirmation ::
    "http_server \<Rightarrow> outbox_publisher \<Rightarrow> string option \<Rightarrow> string \<Rightarrow> string \<Rightarrow> string \<Rightarrow> ('db, wire, unit) go" where
  "Outbox_SendConfirmation server p rid email repo token =
     (if op_notificationServiceURL p = '''' then raise (Plain ''notification service url is empty'')
      else bnd (annot (errorf ''send confirmation request: '')
             (http_post server (op_notificationServiceURL p @ ''/internal/notifications/confirmation'') rid
               (confirmation_body email repo (confirm_url (op_baseURL p) token)))) (\<lambda>code.
        if code < 200 \<or> code \<ge> 300 then raise (Plain (''send confirmation request: status '' @ int_text code))
        else ret ()))"

definition Outbox_PublishReleaseNotification ::
    "env \<Rightarrow> string \<Rightarrow> string \<Rightarrow> string \<Rightarrow> string \<Rightarrow> ('d outbox_db_scheme, wire, unit) go" where
  "Outbox_PublishReleaseNotification E email repo tag correlationID =
     with_tx (errorf ''begin release notification: '')
       (bnd (new_uuid (uuid_gen E)) (\<lambda>notificationID.
        bnd app_clock (\<lambda>now.
        bnd (annot (errorf ''marshal release notification: '')
               (of_sum (buildReleaseNotification E email repo tag notificationID correlationID now))) (\<lambda>built.
        bnd (InsertTx (new_event notificationID EventNotificationRequested (OccurredAt (fst built))
               ''subscription-api'' correlationID TopicNotificationCommands
               (np_EmailHash (Payload (fst built))) (Some (snd built)))) (\<lambda>_.
          commit_tx)))))"

section \<open>The publisher over gRPC\<close>

text \<open>What the server answers to a call: \<open>None\<close> is success.\<close>

type_synonym grpc_server = "int \<Rightarrow> string list \<Rightarrow> string option"

definition grpc_fields :: "notification_payload \<Rightarrow> string \<Rightarrow> string list" where
  "grpc_fields p correlationID =
     [np_NotificationID p, np_IdempotencyKey p, np_RecipientEmail p, np_EmailHash p, np_Repo p, np_Tag p,
      np_Message p, correlationID]"

definition grpc_call :: "grpc_server \<Rightarrow> string \<Rightarrow> string list \<Rightarrow> ('db, wire, unit) go" where
  "grpc_call server name args =
     bnd app_clock (\<lambda>now. bnd (send_out (Called name args)) (\<lambda>_.
       case server now args of None \<Rightarrow> ret () | Some e \<Rightarrow> raise (Plain e)))"

record grpc_publisher =
  gp_baseURL :: string
  gp_timeout :: int

definition defaultNotificationGRPCTimeout :: int where
  "defaultNotificationGRPCTimeout = 5 * second_ns"

definition newGrpcNotificationPublisher :: "string \<Rightarrow> int \<Rightarrow> grpc_publisher" where
  "newGrpcNotificationPublisher baseURL timeout =
     \<lparr>gp_baseURL = baseURL, gp_timeout = (if timeout \<le> 0 then defaultNotificationGRPCTimeout else timeout)\<rparr>"

definition grpc_send :: "grpc_server \<Rightarrow> notification_payload \<Rightarrow> string \<Rightarrow> ('db, wire, unit) go" where
  "grpc_send server p correlationID =
     annot (errorf ''send notification over grpc: '') (grpc_call server ''SendNotification'' (grpc_fields p correlationID))"

definition confirmation_payload :: "env \<Rightarrow> string \<Rightarrow> string \<Rightarrow> string \<Rightarrow> string \<Rightarrow> notification_payload" where
  "confirmation_payload E email repo message0 notificationID =
     (let emailHash = EmailHash E email in
      \<lparr>np_NotificationID = notificationID,
       np_IdempotencyKey = ''confirmation:'' @ repo @ '':'' @ emailHash @ '':'' @ TextHash message0,
       np_RecipientEmail = email, np_EmailHash = emailHash, np_Repo = repo, np_Tag = '''',
       np_Message = message0\<rparr>)"

definition correlationIDFromRequest :: "env \<Rightarrow> string option \<Rightarrow> string \<Rightarrow> string" where
  "correlationIDFromRequest E rid fallback =
     (case rid of Some i \<Rightarrow> if uuid_parses E i then i else fallback | None \<Rightarrow> fallback)"

definition Grpc_SendConfirmation ::
    "env \<Rightarrow> grpc_server \<Rightarrow> grpc_publisher \<Rightarrow> string option \<Rightarrow> string \<Rightarrow> string \<Rightarrow> string \<Rightarrow> ('db, wire, unit) go" where
  "Grpc_SendConfirmation E server p rid email repo token =
     bnd (new_uuid (uuid_gen E)) (\<lambda>notificationID.
     let correlationID = correlationIDFromRequest E rid notificationID;
         message0 = ''Welcome! Please confirm your subscription to GitHub repository updates by clicking here: '' @
           confirm_url (gp_baseURL p) token
     in grpc_send server (confirmation_payload E email repo message0 notificationID) correlationID)"

definition Grpc_PublishReleaseNotification ::
    "env \<Rightarrow> grpc_server \<Rightarrow> string \<Rightarrow> string \<Rightarrow> string \<Rightarrow> string \<Rightarrow> ('db, wire, unit) go" where
  "Grpc_PublishReleaseNotification E server email repo tag correlationID =
     bnd (new_uuid (uuid_gen E)) (\<lambda>notificationID.
     bnd app_clock (\<lambda>now.
     bnd (annot (errorf ''build release notification: '')
            (of_sum (buildReleaseNotification E email repo tag notificationID correlationID now))) (\<lambda>built.
       grpc_send server (Payload (fst built)) (CorrelationID (fst built)))))"

section \<open>The expander and its consumer\<close>

record 'db release_expander =
  re_GetSubscribers :: "string \<Rightarrow> ('db, wire, string list) go"
  re_PublishReleaseNotification :: "string \<Rightarrow> string \<Rightarrow> string \<Rightarrow> string \<Rightarrow> ('db, wire, unit) go"

definition Expand :: "'db release_expander \<Rightarrow> release_payload envelope \<Rightarrow> ('db, wire, unit) go" where
  "Expand e event =
     bnd (annot (errorf ''get release subscribers: '') (re_GetSubscribers e (rp_Repo (Payload event)))) (\<lambda>subscribers.
       for_each (\<lambda>email. annot (errorf ''publish release notification: '')
         (re_PublishReleaseNotification e email (rp_Repo (Payload event)) (rp_Tag (Payload event)) (CorrelationID event)))
         subscribers)"

definition releaseConsumer :: "'db consumer" where
  "releaseConsumer = newConsumer TopicReleaseEvents ''subscription-api''"

definition release_handler :: "env \<Rightarrow> 'db release_expander \<Rightarrow> 'db handler" where
  "release_handler E e key v =
     (case decode_envelope E decode_release v of
        Inl err \<Rightarrow> raise (errorf ''decode release event: '' err)
      | Inr event \<Rightarrow> Expand e event)"

section \<open>The process\<close>

text \<open>\<open>subscription-api/main.go\<close> chooses one publisher for confirmations and releases.\<close>

record 'db notifier =
  nf_SendConfirmation :: "string option \<Rightarrow> string \<Rightarrow> string \<Rightarrow> string \<Rightarrow> ('db, wire, unit) go"
  nf_PublishReleaseNotification :: "string \<Rightarrow> string \<Rightarrow> string \<Rightarrow> string \<Rightarrow> ('db, wire, unit) go"

definition outbox_notifier :: "env \<Rightarrow> http_server \<Rightarrow> string \<Rightarrow> string \<Rightarrow> ('d outbox_db_scheme) notifier" where
  "outbox_notifier E server baseURL notificationServiceURL =
     \<lparr>nf_SendConfirmation = Outbox_SendConfirmation server (NewOutboxNotificationPublisher baseURL notificationServiceURL),
      nf_PublishReleaseNotification = Outbox_PublishReleaseNotification E\<rparr>"

definition grpc_notifier :: "env \<Rightarrow> grpc_server \<Rightarrow> string \<Rightarrow> 'db notifier" where
  "grpc_notifier E server baseURL =
     \<lparr>nf_SendConfirmation = Grpc_SendConfirmation E server (newGrpcNotificationPublisher baseURL defaultNotificationGRPCTimeout),
      nf_PublishReleaseNotification = Grpc_PublishReleaseNotification E server\<rparr>"

definition choose_notifier ::
    "env \<Rightarrow> string \<Rightarrow> http_server \<Rightarrow> grpc_server \<Rightarrow> string \<Rightarrow> string \<Rightarrow> goerr + ('d outbox_db_scheme) notifier" where
  "choose_notifier E transport hs gs baseURL notificationServiceURL =
     (let t = ToLower E transport in
      if t = '''' \<or> t = ''kafka'' then Inr (outbox_notifier E hs baseURL notificationServiceURL)
      else if t = ''grpc'' then Inr (grpc_notifier E gs baseURL)
      else Inl (Plain (''unsupported notification transport '' @ go_quote transport)))"

definition subscription_process ::
    "env \<Rightarrow> ('d api_db_scheme) notifier \<Rightarrow> ('d api_db_scheme) github_client \<Rightarrow> ('d api_db_scheme) subscription_service" where
  "subscription_process E n github =
     \<lparr>uv_repo = subscription_repository E, uv_notifications = nf_SendConfirmation n, uv_github = github\<rparr>"

definition release_process :: "env \<Rightarrow> ('d api_db_scheme) notifier \<Rightarrow> ('d api_db_scheme) release_expander" where
  "release_process E n =
     \<lparr>re_GetSubscribers = GetSubscribers E, re_PublishReleaseNotification = nf_PublishReleaseNotification n\<rparr>"

end
