(* ===== verification/Delivery_Api.thy ===== *)
theory Delivery_Api
  imports Delivery Notifications
begin

text \<open>
  The two doors of the notification service besides Kafka: the HTTP handler of
  \<open>internal/delivery/http.go\<close>, which sends confirmations, and the gRPC server of
  \<open>internal/grpcapi/server.go\<close>, which takes any notification; and the choice of the transport in
  its \<open>main.go\<close>.  The multiplexer of the standard library answers 404 on every other path.  The
  request validator is third-party: an argument, whose documented behaviour is to enforce the rules
  that the proto file declares.
\<close>

section \<open>HTTP\<close>

record confirmation_request =
  cq_Email :: string
  cq_Repo :: string
  cq_ConfirmURL :: string

definition decode_confirmation :: "(string \<times> json) list \<Rightarrow> goerr + confirmation_request" where
  "decode_confirmation kvs =
     sum_bind (string_field ''email'' kvs) (\<lambda>e.
     sum_bind (string_field ''repo'' kvs) (\<lambda>r.
     sum_bind (string_field ''confirm_url'' kvs) (\<lambda>u.
       Inr \<lparr>cq_Email = e, cq_Repo = r, cq_ConfirmURL = u\<rparr>)))"

text \<open>
  \<open>body\<close> is the first JSON value of the request's body, \<open>None\<close> when there is none that parses: the
  code reads it with \<open>json.NewDecoder(r.Body).Decode\<close>, which reads one value and leaves whatever
  follows it unread.
\<close>

definition NewHTTPHandler :: "'db delivery_service \<Rightarrow> string \<Rightarrow> string \<Rightarrow> wire \<Rightarrow> ('db, wire, int) go" where
  "NewHTTPHandler s path meth body =
     (if path \<noteq> ''/internal/notifications/confirmation'' then ret 404
      else if meth \<noteq> ''POST'' then ret 405
      else (case decode_struct decode_confirmation body of
          Inl _ \<Rightarrow> ret 400
        | Inr q \<Rightarrow>
            if cq_Email q = '''' \<or> cq_Repo q = '''' \<or> cq_ConfirmURL q = '''' then ret 400
            else bnd (attempt (Delivery_SendConfirmation s (cq_Email q) (cq_Repo q) (cq_ConfirmURL q))) (\<lambda>r.
              case r of Inl _ \<Rightarrow> ret 503 | Inr _ \<Rightarrow> ret 202)))"

section \<open>gRPC\<close>

record send_request =
  sq_NotificationId :: string
  sq_IdempotencyKey :: string
  sq_RecipientEmail :: string
  sq_EmailHash :: string
  sq_Repo :: string
  sq_Tag :: string
  sq_Message :: string
  sq_CorrelationId :: string

text \<open>The request that the client of the subscription API fills in, field by field.\<close>

definition send_request_of :: "notification_payload \<Rightarrow> string \<Rightarrow> send_request" where
  "send_request_of p correlationID =
     \<lparr>sq_NotificationId = np_NotificationID p, sq_IdempotencyKey = np_IdempotencyKey p,
      sq_RecipientEmail = np_RecipientEmail p, sq_EmailHash = np_EmailHash p, sq_Repo = np_Repo p,
      sq_Tag = np_Tag p, sq_Message = np_Message p, sq_CorrelationId = correlationID\<rparr>"

definition request_fields :: "send_request \<Rightarrow> string list" where
  "request_fields q = [sq_NotificationId q, sq_IdempotencyKey q, sq_RecipientEmail q, sq_EmailHash q, sq_Repo q,
     sq_Tag q, sq_Message q, sq_CorrelationId q]"

text \<open>The rules of \<open>notification.proto\<close>: every field but the tag and the identifier has \<open>min_len = 1\<close>.\<close>

definition min_len_rules :: "send_request \<Rightarrow> bool" where
  "min_len_rules q = list_all (\<lambda>f. f q \<noteq> '''')
     [sq_NotificationId, sq_IdempotencyKey, sq_RecipientEmail, sq_EmailHash, sq_Repo, sq_Message]"

type_synonym validator = "send_request \<Rightarrow> string option"

datatype grpc_code = InvalidArgument | Internal

definition buildNotification :: "send_request \<Rightarrow> notification_payload" where
  "buildNotification q =
     \<lparr>np_NotificationID = sq_NotificationId q, np_IdempotencyKey = sq_IdempotencyKey q,
      np_RecipientEmail = sq_RecipientEmail q, np_EmailHash = sq_EmailHash q, np_Repo = sq_Repo q,
      np_Tag = sq_Tag q, np_Message = sq_Message q\<rparr>"

text \<open>
  The answer is a status, \<open>None\<close> for success.  The identifier that the server puts into the context
  is read by no code that it calls.
\<close>

definition SendNotification ::
    "validator \<Rightarrow> (notification_payload \<Rightarrow> ('db, wire, unit) go) \<Rightarrow> send_request \<Rightarrow>
     ('db, wire, (grpc_code \<times> string) option) go" where
  "SendNotification V processor q =
     (case V q of
        Some e \<Rightarrow> ret (Some (InvalidArgument, ''invalid notification request: '' @ e))
      | None \<Rightarrow> bnd (attempt (processor (buildNotification q))) (\<lambda>r.
          case r of
            Inl err \<Rightarrow> ret (Some (Internal, ''process notification: '' @ err_text err))
          | Inr _ \<Rightarrow> ret None))"

section \<open>The choice of the transport\<close>

definition notificationTransport :: "env \<Rightarrow> string \<Rightarrow> goerr + string" where
  "notificationTransport E v =
     (let transport = (if ToLower E v = '''' then ''kafka'' else ToLower E v) in
      if transport \<noteq> ''kafka'' \<and> transport \<noteq> ''grpc''
      then Inl (Plain (''unsupported notification transport '' @ go_quote v)) else Inr transport)"

end
