(* ===== verification/Patterns.thy ===== *)
theory Patterns
  imports Hashing
begin

text \<open>
  The regular expressions of the program.  Each of them is anchored at both ends and a sequence of
  bounded repetitions of a class of ASCII characters, so a pattern is the list of these
  repetitions; \<open>matches\<close> tries every length of the first one.  A byte outside ASCII is in no
  class.
\<close>

type_synonym class_of = "char \<Rightarrow> bool"
type_synonym pattern = "(class_of \<times> nat \<times> nat option) list"

fun matches :: "pattern \<Rightarrow> string \<Rightarrow> bool" where
  "matches [] s = (s = [])"
| "matches ((C, lo, hi) # ps) s =
     list_ex (\<lambda>i. lo \<le> i \<and> (case hi of None \<Rightarrow> True | Some h \<Rightarrow> i \<le> h) \<and> list_all C (take i s) \<and> matches ps (drop i s))
       [0..<Suc (length s)]"

definition between :: "char \<Rightarrow> char \<Rightarrow> class_of" where
  "between a b c = ((of_char a :: nat) \<le> of_char c \<and> (of_char c :: nat) \<le> of_char b)"

definition letter :: class_of where
  "letter c = (between CHR ''a'' CHR ''z'' c \<or> between CHR ''A'' CHR ''Z'' c)"

definition decimal :: class_of where
  "decimal c = between CHR ''0'' CHR ''9'' c"

definition lit :: "char \<Rightarrow> class_of \<times> nat \<times> nat option" where
  "lit c = (\<lambda>x. x = c, 1, Some 1)"

definition many :: "class_of \<Rightarrow> class_of \<times> nat \<times> nat option" where
  "many C = (C, 1, None)"

text \<open>\<open>httpapi/router.go\<close>\<close>

definition repo_char :: class_of where
  "repo_char c = (letter c \<or> decimal c \<or> c \<in> set ''._-'')"

definition repoPattern :: pattern where
  "repoPattern = [many repo_char, lit CHR ''/'', many repo_char]"

definition local_char :: class_of where
  "local_char c = (letter c \<or> decimal c \<or> c \<in> set ''._%+-'')"

definition domain_char :: class_of where
  "domain_char c = (letter c \<or> decimal c \<or> c \<in> set ''.-'')"

definition emailPattern :: pattern where
  "emailPattern = [many local_char, lit CHR ''@'', many domain_char, lit CHR ''.'', (letter, 2, None)]"

text \<open>\<open>pkg/requestid/requestid.go\<close>\<close>

definition request_id_char :: class_of where
  "request_id_char c = (letter c \<or> decimal c \<or> c \<in> set ''._:-'')"

definition validRequestID :: pattern where
  "validRequestID = [(request_id_char, 1, Some 128)]"

text \<open>\<open>pkg/migrations/migrations.go\<close>\<close>

definition name_char :: class_of where
  "name_char c = (letter c \<or> decimal c \<or> c \<in> set ''_-'')"

definition fileNamePattern :: pattern where
  "fileNamePattern = [many decimal, lit CHR ''_'', many name_char, lit CHR ''.'', lit CHR ''s'', lit CHR ''q'', lit CHR ''l'']"

section \<open>What the patterns accept\<close>

lemma matches_Cons:
  "matches ((C, lo, hi) # ps) s =
     (\<exists>a b. s = a @ b \<and> lo \<le> length a \<and> (case hi of None \<Rightarrow> True | Some h \<Rightarrow> length a \<le> h) \<and> list_all C a \<and> matches ps b)"
proof
  assume "matches ((C, lo, hi) # ps) s"
  then obtain i where "i \<in> set [0..<Suc (length s)]" and i: "lo \<le> i" "case hi of None \<Rightarrow> True | Some h \<Rightarrow> i \<le> h"
      "list_all C (take i s)" "matches ps (drop i s)"
    unfolding matches.simps list_ex_iff by blast
  then have "i \<le> length s" by auto
  then have len: "length (take i s) = i" by simp
  have "s = take i s @ drop i s \<and> lo \<le> length (take i s) \<and>
      (case hi of None \<Rightarrow> True | Some h \<Rightarrow> length (take i s) \<le> h) \<and> list_all C (take i s) \<and> matches ps (drop i s)"
    using i unfolding len by simp
  then show "\<exists>a b. s = a @ b \<and> lo \<le> length a \<and> (case hi of None \<Rightarrow> True | Some h \<Rightarrow> length a \<le> h) \<and> list_all C a \<and> matches ps b"
    by blast
next
  assume "\<exists>a b. s = a @ b \<and> lo \<le> length a \<and> (case hi of None \<Rightarrow> True | Some h \<Rightarrow> length a \<le> h) \<and> list_all C a \<and> matches ps b"
  then obtain a b where "s = a @ b" "lo \<le> length a" "case hi of None \<Rightarrow> True | Some h \<Rightarrow> length a \<le> h" "list_all C a" "matches ps b"
    by blast
  then show "matches ((C, lo, hi) # ps) s"
    unfolding matches.simps list_ex_iff by (intro bexI[of _ "length a"]) simp_all
qed

declare matches.simps(2) [simp del]

lemma matches_many: "matches (many C # ps) s = (\<exists>a b. s = a @ b \<and> a \<noteq> [] \<and> list_all C a \<and> matches ps b)"
  by (auto simp: many_def matches_Cons Suc_le_eq)

lemma matches_lit: "matches (lit c # ps) s = (\<exists>b. s = c # b \<and> matches ps b)"
proof
  assume "matches (lit c # ps) s"
  then obtain a b where a: "s = a @ b" "1 \<le> length a" "length a \<le> 1" "list_all (\<lambda>x. x = c) a" "matches ps b"
    by (auto simp: lit_def matches_Cons)
  then have "a = [c]" by (cases a) auto
  with a show "\<exists>b. s = c # b \<and> matches ps b" by simp
next
  assume "\<exists>b. s = c # b \<and> matches ps b"
  then obtain b where "s = [c] @ b \<and> 1 \<le> length [c] \<and> (case Some 1 of None \<Rightarrow> True | Some h \<Rightarrow> length [c] \<le> h) \<and>
      list_all (\<lambda>x. x = c) [c] \<and> matches ps b" by auto
  then show "matches (lit c # ps) s" unfolding lit_def matches_Cons by blast
qed

lemma repo_split:
  "matches repoPattern s = (\<exists>owner name. s = owner @ ''/'' @ name \<and> owner \<noteq> [] \<and> name \<noteq> [] \<and>
     list_all repo_char owner \<and> list_all repo_char name)"
  unfolding repoPattern_def matches_many matches_lit by auto

lemma email_split:
  "matches emailPattern s = (\<exists>user host tld. s = user @ ''@'' @ host @ ''.'' @ tld \<and> user \<noteq> [] \<and> host \<noteq> [] \<and>
     2 \<le> length tld \<and> list_all local_char user \<and> list_all domain_char host \<and> list_all letter tld)"
proof -
  have "matches [(letter, 2, None)] t = (2 \<le> length t \<and> list_all letter t)" for t
    by (auto simp: matches_Cons)
  then show ?thesis unfolding emailPattern_def matches_many matches_lit by auto blast
qed

lemma request_id_split: "matches validRequestID s = (s \<noteq> [] \<and> length s \<le> 128 \<and> list_all request_id_char s)"
  by (auto simp: validRequestID_def matches_Cons Suc_le_eq)

text \<open>
  The patterns accept exactly what they should: a repository is an owner and a name with one
  slash between them, an e-mail a local part, an at sign and a host that ends in a dot and at
  least two letters, a request identifier one to 128 of its characters; the matcher finds the
  split whenever there is one.
\<close>

theorem patterns_split:
  "(matches repoPattern s = (\<exists>owner name. s = owner @ ''/'' @ name \<and> owner \<noteq> [] \<and> name \<noteq> [] \<and>
      list_all repo_char owner \<and> list_all repo_char name)) \<and>
   (matches emailPattern s = (\<exists>user host tld. s = user @ ''@'' @ host @ ''.'' @ tld \<and> user \<noteq> [] \<and> host \<noteq> [] \<and>
      2 \<le> length tld \<and> list_all local_char user \<and> list_all domain_char host \<and> list_all letter tld)) \<and>
   (matches validRequestID s = (s \<noteq> [] \<and> length s \<le> 128 \<and> list_all request_id_char s))"
  by (intro conjI repo_split email_split request_id_split)

section \<open>What accepted text is free of\<close>

lemmas class_defs = letter_def decimal_def between_def repo_char_def local_char_def domain_char_def request_id_char_def name_char_def

lemma classes_plain:
  "repo_char c \<Longrightarrow> (of_char c :: nat) < 128 \<and> c \<notin> {CHR '' '', CHR 0x0A, CHR 0x0D, CHR ''/''}"
  "local_char c \<Longrightarrow> (of_char c :: nat) < 128 \<and> c \<notin> {CHR '' '', CHR 0x0A, CHR 0x0D, CHR ''@''}"
  "domain_char c \<Longrightarrow> (of_char c :: nat) < 128 \<and> c \<notin> {CHR '' '', CHR 0x0A, CHR 0x0D, CHR ''@''}"
  by (auto simp: class_defs)

definition plain_text :: "string \<Rightarrow> bool" where
  "plain_text s = (ascii s \<and> set s \<inter> {CHR '' '', CHR 0x0A, CHR 0x0D} = {})"

lemma plain_text_simps [simp]:
  "plain_text []" "plain_text (c # s) = ((of_char c :: nat) < 128 \<and> c \<notin> {CHR '' '', CHR 0x0A, CHR 0x0D} \<and> plain_text s)"
  "plain_text (s @ t) = (plain_text s \<and> plain_text t)"
  by (auto simp: plain_text_def)

lemma classes_plain_text:
  "list_all repo_char s \<Longrightarrow> plain_text s" "list_all local_char s \<Longrightarrow> plain_text s" "list_all domain_char s \<Longrightarrow> plain_text s"
  "list_all letter s \<Longrightarrow> plain_text s"
proof -
  show "list_all repo_char s \<Longrightarrow> plain_text s" "list_all local_char s \<Longrightarrow> plain_text s" "list_all domain_char s \<Longrightarrow> plain_text s"
    using classes_plain by (induction s) auto
  have "letter c \<Longrightarrow> repo_char c" for c by (simp add: repo_char_def)
  then show "list_all letter s \<Longrightarrow> plain_text s"
    using classes_plain(1) by (induction s) auto
qed

lemma matched_plain_text:
  "matches repoPattern s \<Longrightarrow> plain_text s" "matches emailPattern s \<Longrightarrow> plain_text s"
  by (auto simp: repo_split email_split classes_plain_text)

end
