(* ===== verification/Http_Api.thy ===== *)
theory Http_Api
  imports Patterns Notifications
begin

text \<open>
  The HTTP interface of the subscription API: \<open>httpapi/router.go\<close> with the request identifiers of
  \<open>pkg/requestid\<close>.  Gin is third-party: it matches a request against the routes of the router,
  so a request carries its method and the path of the route that gin has matched.  A header or
  query parameter that is missing reads as the empty text.  The body is the first JSON value of
  the body, which is all that the decoder reads.  The counter of the subscribe
  handler is added in \<open>Metrics\<close>; what gin answers on the other paths is an argument.
\<close>

record request =
  rq_Method :: string
  rq_FullPath :: string
  rq_Header :: "string \<Rightarrow> string"
  rq_Query :: "string \<Rightarrow> string"
  rq_Param :: "string \<Rightarrow> string"
  rq_Body :: wire

record response =
  ht_Status :: int
  ht_JSON :: json

text \<open>A handler gets the identifier that the context of the request carries.\<close>

type_synonym 'db api_handler = "string option \<Rightarrow> request \<Rightarrow> ('db, wire, response) go"

definition respond :: "int \<Rightarrow> json \<Rightarrow> ('db, wire, response) go" where
  "respond code j = ret \<lparr>ht_Status = code, ht_JSON = j\<rparr>"

definition problem :: "int \<Rightarrow> string \<Rightarrow> ('db, wire, response) go" where
  "problem code msg = respond code (JObj [(''error'', JStr msg)])"

section \<open>Request identifiers\<close>

definition Request_Header :: string where
  "Request_Header = ''X-Request-ID''"

definition Normalize :: "env \<Rightarrow> string \<Rightarrow> ('db, wire, string) go" where
  "Normalize E i = (if matches validRequestID i then ret i else new_uuid (uuid_gen E))"

text \<open>What \<open>FromContext\<close> reads after \<open>WithContext\<close>: the empty identifier counts as none.\<close>

definition context_id :: "string \<Rightarrow> string option" where
  "context_id i = (if i = '''' then None else Some i)"

section \<open>Reading and writing a subscription\<close>

fun as_bool :: "json \<Rightarrow> bool option" where
  "as_bool (JBool b) = Some b"
| "as_bool _ = None"

definition bool_field :: "string \<Rightarrow> (string \<times> json) list \<Rightarrow> goerr + bool" where
  "bool_field k kvs = sum_map (last_or False) (typed_members as_bool (set_members k kvs))"

text \<open>The token has the tag \<open>json:"-"\<close>: it is neither read nor written.\<close>

definition decode_subscription :: "(string \<times> json) list \<Rightarrow> goerr + subscription_row" where
  "decode_subscription kvs =
     sum_bind (string_field ''email'' kvs) (\<lambda>e.
     sum_bind (string_field ''repo'' kvs) (\<lambda>r.
     sum_bind (bool_field ''confirmed'' kvs) (\<lambda>c.
     sum_bind (string_field ''last_seen_tag'' kvs) (\<lambda>t.
       Inr \<lparr>su_Email = e, su_Repo = r, su_Confirmed = c, su_LastSeenTag = t, su_Token = ''''\<rparr>))))"

definition bind_subscription :: "wire \<Rightarrow> goerr + subscription_row" where
  "bind_subscription body = decode_struct decode_subscription body"

definition encode_subscription :: "subscription_row \<Rightarrow> json" where
  "encode_subscription r = JObj
     [(''email'', JStr (su_Email r)), (''repo'', JStr (su_Repo r)), (''confirmed'', JBool (su_Confirmed r)),
      (''last_seen_tag'', JStr (su_LastSeenTag r))]"

text \<open>Without rows the slice is nil, which is written as \<open>null\<close>.\<close>

definition encode_subscriptions :: "subscription_row list \<Rightarrow> json" where
  "encode_subscriptions rows = (if rows = [] then JNull else JArr (map encode_subscription rows))"

section \<open>The handlers\<close>

text \<open>The operations of \<open>SubscriptionReader\<close> and \<open>SubscriptionCreator\<close>.\<close>

record 'db router_deps =
  rd_APIKey :: string
  rd_GetSubscriptions :: "string \<Rightarrow> ('db, wire, subscription_row list) go"
  rd_Unsubscribe :: "string option \<Rightarrow> string \<Rightarrow> ('db, wire, unit) go"
  rd_Subscribe :: "string option \<Rightarrow> string \<Rightarrow> string \<Rightarrow> ('db, wire, unit) go"
  rd_Confirm :: "string option \<Rightarrow> string \<Rightarrow> ('db, wire, unit) go"

definition subscribe_problem :: "goerr \<Rightarrow> int \<times> string" where
  "subscribe_problem err =
     (if errors_is err ErrAlreadySubscribed then (409, ''Email already subscribed to this repository'')
      else if errors_is err ErrRepoNotFound then (404, ''Repository not found on GitHub'')
      else if errors_is err ErrGitHubRateLimit then (429, ''GitHub API rate limit exceeded. Try again later.'')
      else if errors_is err ErrGitHubUnavailable then (502, ''External API error'')
      else if errors_is err ErrConfirmationUnavailable then (503, ''Service temporarily unavailable. Try again later.'')
      else (500, ''Internal server error''))"

definition handle_subscribe :: "'db router_deps \<Rightarrow> 'db api_handler" where
  "handle_subscribe h rid rq =
     (case bind_subscription (rq_Body rq) of
        Inl _ \<Rightarrow> problem 400 ''Invalid JSON''
      | Inr input \<Rightarrow>
          if \<not> matches emailPattern (su_Email input) then problem 400 ''Invalid email''
          else if \<not> matches repoPattern (su_Repo input) then problem 400 ''Invalid repository format''
          else bnd (attempt (rd_Subscribe h rid (su_Email input) (su_Repo input))) (\<lambda>r.
            case r of
              Inr _ \<Rightarrow> respond 200 (JObj [(''success'', JStr ''Subscription successful. Confirmation email sent.'')])
            | Inl err \<Rightarrow> case_prod problem (subscribe_problem err)))"

definition handle_getSubscriptions :: "'db router_deps \<Rightarrow> 'db api_handler" where
  "handle_getSubscriptions h rid rq =
     (let email = rq_Query rq ''email'' in
      if email = '''' \<or> \<not> matches emailPattern email then problem 400 ''Invalid email''
      else bnd (attempt (rd_GetSubscriptions h email)) (\<lambda>r.
        case r of
          Inl _ \<Rightarrow> problem 500 ''Internal server error''
        | Inr rows \<Rightarrow> respond 200 (encode_subscriptions rows)))"

definition handle_confirm :: "env \<Rightarrow> 'db router_deps \<Rightarrow> 'db api_handler" where
  "handle_confirm E h rid rq =
     (let token = rq_Param rq ''token'' in
      if \<not> uuid_validates E token then problem 400 ''Invalid token''
      else bnd (attempt (rd_Confirm h rid token)) (\<lambda>r.
        case r of
          Inl err \<Rightarrow> if errors_is err ErrTokenNotFound then problem 404 ''Token not found''
            else problem 500 ''Internal server error''
        | Inr _ \<Rightarrow> respond 200 (JObj [(''message'', JStr ''Subscription confirmed successfully'')])))"

definition handle_unsubscribe :: "env \<Rightarrow> 'db router_deps \<Rightarrow> 'db api_handler" where
  "handle_unsubscribe E h rid rq =
     (let token = rq_Param rq ''token'' in
      if \<not> uuid_validates E token then problem 400 ''Invalid token''
      else bnd (attempt (rd_Unsubscribe h rid token)) (\<lambda>r.
        case r of
          Inl _ \<Rightarrow> problem 404 ''Token not found.''
        | Inr _ \<Rightarrow> respond 200 (JObj [(''message'', JStr ''Unsubscribed successfully'')])))"

section \<open>The router\<close>

definition apiKeyAuth :: "string \<Rightarrow> 'db api_handler \<Rightarrow> 'db api_handler" where
  "apiKeyAuth apiKey next_h rid rq =
     (if apiKey = '''' \<or> rq_Header rq ''X-API-Key'' = apiKey then next_h rid rq
      else problem 401 ''Unauthorized'')"

text \<open>The answer also has the identifier in its header.\<close>

definition requestIDMiddleware :: "env \<Rightarrow> 'db api_handler \<Rightarrow> request \<Rightarrow> ('db, wire, string \<times> response) go" where
  "requestIDMiddleware E next_h rq =
     bnd (Normalize E (rq_Header rq Request_Header)) (\<lambda>i. bnd (next_h (context_id i) rq) (\<lambda>rp. ret (i, rp)))"

definition api_routes :: "env \<Rightarrow> 'db router_deps \<Rightarrow> ((string \<times> string) \<times> 'db api_handler) list" where
  "api_routes E h =
     [((''GET'', ''/api/confirm/:token''), handle_confirm E h),
      ((''GET'', ''/api/unsubscribe/:token''), handle_unsubscribe E h),
      ((''POST'', ''/api/subscribe''), apiKeyAuth (rd_APIKey h) (handle_subscribe h)),
      ((''GET'', ''/api/subscriptions/''), apiKeyAuth (rd_APIKey h) (handle_getSubscriptions h))]"

definition serve ::
    "env \<Rightarrow> 'db router_deps \<Rightarrow> (request \<Rightarrow> response) \<Rightarrow> request \<Rightarrow> ('db, wire, string \<times> response) go" where
  "serve E h other rq =
     requestIDMiddleware E
       (case map_of (api_routes E h) (rq_Method rq, rq_FullPath rq) of
          Some handler \<Rightarrow> handler
        | None \<Rightarrow> (\<lambda>_ q. ret (other q))) rq"

text \<open>The router of \<open>subscription-api/main.go\<close>.\<close>

definition api_deps ::
    "env \<Rightarrow> string \<Rightarrow> ('d api_db_scheme) notifier \<Rightarrow> ('d api_db_scheme) github_client \<Rightarrow> ('d api_db_scheme) router_deps" where
  "api_deps E apiKey n github =
     (let s = subscription_process E n github in
      \<lparr>rd_APIKey = apiKey, rd_GetSubscriptions = GetSubscriptions E, rd_Unsubscribe = Unsubscribe E,
       rd_Subscribe = Subscribe E s, rd_Confirm = Service_ConfirmSubscriptionByToken s\<rparr>)"

end
