(* ===== verification/Subscription_Store.thy ===== *)
theory Subscription_Store
  imports Notifications
begin

text \<open>
  What the operations of the subscription repository do to the table and to the saga requests of
  the outbox, whatever fails, and the contract \<open>subscriber_store\<close> that the service relies on.
\<close>

section \<open>Saga requests in the outbox\<close>

text \<open>The action and the repository that an outbox event requests.\<close>

definition request_of :: "env \<Rightarrow> outbox_event \<Rightarrow> (string \<times> string) option" where
  "request_of E e =
     (if ob_Topic e = TopicWatchlistSagaRequests
      then (case decode_envelope E decode_saga (ob_Payload e) of
              Inl _ \<Rightarrow> None
            | Inr ev \<Rightarrow> if EventType ev = EventRepoWatchSagaRequested
                then Some (sp_Action (Payload ev), sp_Repo (Payload ev)) else None)
      else None)"

definition requests :: "env \<Rightarrow> 'd outbox_db_scheme \<Rightarrow> (string \<times> string) list" where
  "requests E d = List.map_filter (request_of E) (outbox_events d)"

lemma requests_append:
  "outbox_events d' = outbox_events d @ [e] \<Longrightarrow>
   requests E d' = requests E d @ (case request_of E e of None \<Rightarrow> [] | Some x \<Rightarrow> [x])"
  by (simp add: requests_def List.map_filter_def split: option.splits)

lemma requests_same: "outbox_events d' = outbox_events d \<Longrightarrow> requests E d' = requests E d"
  by (simp add: requests_def)

lemma decode_saga_request:
  assumes "time_codec E" and "buildRepoWatchSagaRequest E action repo email i c now = Inr built"
  shows "request_of E (new_event i' ty t src c' TopicWatchlistSagaRequests k (Some (snd built))) = Some (action, repo)"
proof -
  from assms(2) obtain j where "built = (saga_request action repo email i c now, j)"
    and "encode_envelope E (\<lambda>p. Inr (encode_saga p)) (saga_request action repo email i c now) = Inr j"
    by (auto simp: buildRepoWatchSagaRequest_def Let_def sum_map_def split: sum.splits)
  with envelope_round_trip[OF assms(1) saga_codec this(2)] show ?thesis
    by (simp add: request_of_def saga_request_def)
qed

lemma tx_wp_request:
  fixes w :: "('d api_db_scheme, wire) world"
  assumes "time_codec E" and "staged w d u w1" and "uuids_fresh E u (outbox_events d)"
    and k: "\<And>e w2. request_of E e = Some (action, repo) \<Longrightarrow> ob_EventID e = uuid_gen E u \<Longrightarrow>
      staged w (d\<lparr>outbox_events := outbox_events d @ [e]\<rparr>) (Suc u) w2 \<Longrightarrow> tx_wp (f ()) P w w2"
  shows "tx_wp (bnd (insertRepoWatchSagaRequest E rid action repo email) f) P w w1"
  unfolding insertRepoWatchSagaRequest_def Let_def
proof (rule tx_wp_assoc, rule tx_wp_uuid[OF assms(2)], rule tx_wp_assoc, rule tx_wp_clock, assumption,
    rule tx_wp_assoc, rule tx_wp_of_sum_annot, assumption, rule tx_wp_new_event, assumption)
  fix w2 built w3
  let ?c = "correlationIDFromContext E rid (uuid_gen E u)"
  assume built: "buildRepoWatchSagaRequest E action repo email (uuid_gen E u) ?c (w_app_now w) = Inr built"
  let ?e = "new_event (uuid_gen E u) (EventType (fst built))
    (if OccurredAt (fst built) = zero_time then w_app_now w else OccurredAt (fst built)) (Source (fst built)) ?c
    TopicWatchlistSagaRequests repo (Some (snd built))"
  assume "staged w (d\<lparr>outbox_events := add_event ?e (outbox_events d)\<rparr>) (Suc u) w3"
  moreover have "request_of E ?e = Some (action, repo)" by (rule decode_saga_request[OF assms(1) built])
  moreover have "add_event ?e (outbox_events d) = outbox_events d @ [?e]" using fresh_event(1)[OF assms(3)] by simp
  ultimately show "tx_wp (f ()) P w w3" using k[of ?e] by simp
qed

section \<open>The repository\<close>

definition api_ok :: "env \<Rightarrow> ('d api_db_scheme, wire) world \<Rightarrow> bool" where
  "api_ok E w = (time_codec E \<and> keyed sub_key (subscriptions (w_db w)) \<and> keyed su_Token (subscriptions (w_db w)) \<and>
     uuids_fresh E (w_uuids w) (outbox_events (w_db w)))"

definition books :: "env \<Rightarrow> 'd api_db_scheme \<Rightarrow> subscription_row list \<times> (string \<times> string) list" where
  "books E d = (subscriptions d, requests E d)"

definition confirm_rows :: "string \<Rightarrow> subscription_row list \<Rightarrow> subscription_row list" where
  "confirm_rows token rows = update_where (\<lambda>r. su_Token r = token) (\<lambda>r. r\<lparr>su_Confirmed := True\<rparr>) rows"

definition leave_rows :: "string \<Rightarrow> subscription_row list \<Rightarrow> subscription_row list" where
  "leave_rows token rows = delete_where (\<lambda>r. su_Token r = token) rows"

text \<open>Every statement on the table keeps its two keys.\<close>

lemma save_rows_keyed:
  assumes "save_rows r rows = Inr rows'" and "keyed sub_key rows" and "keyed su_Token rows"
  shows "keyed sub_key rows' \<and> keyed su_Token rows'"
proof (cases "sub_key r \<in> sub_key ` set rows")
  case True
  with assms show ?thesis by (auto simp: save_rows_def sub_key_def intro!: keyed_update_where)
next
  case False
  with assms have "rows' = rows @ [r]" "su_Token r \<notin> su_Token ` set rows"
    by (auto simp: save_rows_def split: if_splits)
  with False assms(2,3) show ?thesis by (auto simp: keyed_def)
qed

lemma confirm_rows_keyed:
  "keyed sub_key rows \<Longrightarrow> keyed su_Token rows \<Longrightarrow> keyed sub_key (confirm_rows t rows) \<and> keyed su_Token (confirm_rows t rows)"
  by (auto simp: confirm_rows_def sub_key_def intro!: keyed_update_where)

lemma leave_rows_keyed:
  "keyed sub_key rows \<Longrightarrow> keyed su_Token rows \<Longrightarrow> keyed sub_key (leave_rows t rows) \<and> keyed su_Token (leave_rows t rows)"
  by (simp add: leave_rows_def keyed_delete_where)

text \<open>What a transaction may leave behind: the tables given, and identifiers still fresh.\<close>

definition leaves ::
    "env \<Rightarrow> subscription_row list \<Rightarrow> (string \<times> string) list \<Rightarrow> ('d api_db_scheme) \<Rightarrow> nat \<Rightarrow> bool" where
  "leaves E rows rq d u = (books E d = (rows, rq) \<and> uuids_fresh E u (outbox_events d))"

lemma leaves_ok:
  assumes "api_ok E w" and "outside w w'" and "leaves E rows rq (w_db w') (w_uuids w')"
    and "keyed sub_key rows \<and> keyed su_Token rows"
  shows "api_ok E w' \<and> books E (w_db w') = (rows, rq)"
  using assms by (auto simp: api_ok_def leaves_def books_def)

lemma api_ok_same:
  assumes "api_ok E w" and "w_db w' = w_db w" and "w_uuids w \<le> w_uuids w'"
  shows "api_ok E w'"
  using assms by (auto simp: api_ok_def intro: uuids_fresh_mono)

lemma Save_tx:
  assumes "api_ok E w"
  shows "tx_wp (SaveSubscription r) (\<lambda>_ d u. \<exists>r' rows. fits r = Inr r' \<and>
    save_rows r' (subscriptions (w_db w)) = Inr rows \<and> leaves E rows (requests E (w_db w)) d u) w w"
  unfolding SaveSubscription_def saveSubscription_def
proof (intro tx_wp_with_tx tx_wp_annot_bnd, rule tx_wp_stmt, assumption, rule tx_wp_commit, assumption)
  fix w1 a d' w2
  assume "sql_save r (w_db w) (w_pg_now w) = Inr (a, d')"
  then obtain r' rows where "fits r = Inr r'" "save_rows r' (subscriptions (w_db w)) = Inr rows"
    "d' = (w_db w)\<lparr>subscriptions := rows\<rparr>"
    by (auto simp: sql_save_def sum_bind_def sum_map_def split: sum.splits)
  then show "\<exists>r' rows. fits r = Inr r' \<and> save_rows r' (subscriptions (w_db w)) = Inr rows \<and>
      leaves E rows (requests E (w_db w)) d' (w_uuids w)"
    using assms by (auto simp: leaves_def books_def requests_def api_ok_def)
qed

lemma tx_wp_row_by_token:
  assumes "staged w d u w1"
    and "\<And>r w2. find_row (\<lambda>r. su_Token r = token) (subscriptions d) = Some r \<Longrightarrow> staged w d u w2 \<Longrightarrow> tx_wp (f r) P w w2"
  shows "tx_wp (bnd (row_by_token err token) f) P w w1"
  unfolding row_by_token_def
proof (intro tx_wp_assoc tx_wp_annot_bnd, rule tx_wp_stmt[OF assms(1)])
  fix a d' w2
  assume "sql_by_token token d (w_pg_now w) = Inr (a, d')" and w2: "staged w d' u w2"
  then have a: "a = find_row (\<lambda>r. su_Token r = token) (subscriptions d)" and d: "d' = d"
    by (auto simp: sql_by_token_def)
  show "tx_wp (bnd (case a of None \<Rightarrow> raise err | Some r \<Rightarrow> ret r) f) P w w2"
    using w2 assms(2) by (cases a) (auto simp: a d intro: tx_wp_raise_bnd tx_wp_ret_bnd)
qed

lemma tx_wp_count:
  assumes "staged w d u w1"
    and "\<And>w2. staged w d u w2 \<Longrightarrow> tx_wp (f (affected (confirmed_of repo) (subscriptions d))) P w w2"
  shows "tx_wp (bnd (annot g (tx_stmt (sql_count_confirmed repo))) f) P w w1"
  by (intro tx_wp_annot_bnd, rule tx_wp_stmt[OF assms(1)]) (auto simp: sql_count_confirmed_def intro: assms(2))

definition first_confirmed :: "subscription_row \<Rightarrow> subscription_row list \<Rightarrow> confirm_result" where
  "first_confirmed r rows = \<lparr>cr_Repo = su_Repo r, cr_Email = su_Email r,
     cr_WasFirstConfirmed = (\<not> su_Confirmed r \<and> affected (confirmed_of (su_Repo r)) rows = 0)\<rparr>"

lemma Confirm_tx:
  assumes "api_ok E w"
  shows "tx_wp (Repo_ConfirmSubscriptionByToken token) (\<lambda>res d u.
    \<exists>r. find_row (\<lambda>r. su_Token r = token) (subscriptions (w_db w)) = Some r \<and>
      res = first_confirmed r (subscriptions (w_db w)) \<and>
      leaves E (confirm_rows token (subscriptions (w_db w))) (requests E (w_db w)) d u) w w"
  unfolding Repo_ConfirmSubscriptionByToken_def
proof (rule tx_wp_with_tx, rule tx_wp_row_by_token, assumption, rule tx_wp_count, assumption,
    intro tx_wp_annot_bnd, rule tx_wp_stmt, assumption, rule tx_wp_commit_ret, assumption)
  fix r w1 w2 w3 a d' w4
  assume r: "find_row (\<lambda>r. su_Token r = token) (subscriptions (w_db w)) = Some r"
    and "sql_confirm token (w_db w) (w_pg_now w) = Inr (a, d')"
  then have "leaves E (confirm_rows token (subscriptions (w_db w))) (requests E (w_db w)) d' (w_uuids w)"
    using assms by (auto simp: sql_confirm_def leaves_def books_def requests_def api_ok_def confirm_rows_def)
  with r show "\<exists>r'. find_row (\<lambda>r. su_Token r = token) (subscriptions (w_db w)) = Some r' \<and>
      \<lparr>cr_Repo = su_Repo r, cr_Email = su_Email r, cr_WasFirstConfirmed =
        (\<not> su_Confirmed r \<and> affected (confirmed_of (su_Repo r)) (subscriptions (w_db w)) = 0)\<rparr>
        = first_confirmed r' (subscriptions (w_db w)) \<and>
      leaves E (confirm_rows token (subscriptions (w_db w))) (requests E (w_db w)) d' (w_uuids w)"
    by (simp add: first_confirmed_def)
qed

lemma Request_tx:
  assumes "api_ok E w"
  shows "tx_wp (RequestRepoWatchSaga E rid action repo email) (\<lambda>_ d u.
    leaves E (subscriptions (w_db w)) (requests E (w_db w) @ [(action, repo)]) d u) w w"
  unfolding RequestRepoWatchSaga_def
proof -
  have E: "time_codec E" "uuids_fresh E (w_uuids w) (outbox_events (w_db w))"
    using assms by (simp_all add: api_ok_def)
  show "tx_wp (with_tx (errorf ''begin repo watch saga request: '')
      (bnd (insertRepoWatchSagaRequest E rid action repo email) (\<lambda>_. commit_tx)))
      (\<lambda>_ d u. leaves E (subscriptions (w_db w)) (requests E (w_db w) @ [(action, repo)]) d u) w w"
  proof (rule tx_wp_with_tx, rule tx_wp_request[OF E(1)], assumption, rule E(2), rule tx_wp_commit, assumption)
    fix e assume "request_of E e = Some (action, repo)" and i: "ob_EventID e = uuid_gen E (w_uuids w)"
    then show "leaves E (subscriptions (w_db w)) (requests E (w_db w) @ [(action, repo)])
        ((w_db w)\<lparr>outbox_events := outbox_events (w_db w) @ [e]\<rparr>) (Suc (w_uuids w))"
      using fresh_event(2)[OF E(2) i] requests_append[of "(w_db w)\<lparr>outbox_events := outbox_events (w_db w) @ [e]\<rparr>" "w_db w" e]
      by (simp add: leaves_def books_def)
  qed
qed

text \<open>The requests of a repository's last confirmed subscriber leaving.\<close>

definition stop_requests :: "subscription_row \<Rightarrow> subscription_row list \<Rightarrow> (string \<times> string) list" where
  "stop_requests r rows =
     (if su_Confirmed r \<and> affected (confirmed_of (su_Repo r)) rows = 0 then [(RepoWatchActionStop, su_Repo r)] else [])"

lemma left_rows:
  fixes w :: "('d api_db_scheme, wire) world"
  assumes "api_ok E w" and "sql_delete_token token (w_db w) (w_pg_now w) = Inr (a, d1)"
  defines "rows \<equiv> leave_rows token (subscriptions (w_db w))"
  shows "stop_requests r rows = [] \<Longrightarrow>
      leaves E rows (requests E (w_db w) @ stop_requests r rows) d1 (w_uuids w)"
    and "stop_requests r rows = [(RepoWatchActionStop, su_Repo r)] \<Longrightarrow>
      request_of E e = Some (RepoWatchActionStop, su_Repo r) \<Longrightarrow> ob_EventID e = uuid_gen E (w_uuids w) \<Longrightarrow>
      leaves E rows (requests E (w_db w) @ stop_requests r rows)
        (d1\<lparr>outbox_events := outbox_events d1 @ [e]\<rparr>) (Suc (w_uuids w))"
proof -
  have d1: "subscriptions d1 = rows" "outbox_events d1 = outbox_events (w_db w)"
    using assms(2) by (auto simp: sql_delete_token_def leave_rows_def rows_def)
  have fresh: "uuids_fresh E (w_uuids w) (outbox_events d1)" using assms(1) d1 by (simp add: api_ok_def)
  show "leaves E rows (requests E (w_db w) @ stop_requests r rows) d1 (w_uuids w)" if "stop_requests r rows = []"
    using that d1 fresh by (auto simp: leaves_def books_def requests_def)
  show "leaves E rows (requests E (w_db w) @ stop_requests r rows)
        (d1\<lparr>outbox_events := outbox_events d1 @ [e]\<rparr>) (Suc (w_uuids w))"
    if "stop_requests r rows = [(RepoWatchActionStop, su_Repo r)]" "request_of E e = Some (RepoWatchActionStop, su_Repo r)"
      "ob_EventID e = uuid_gen E (w_uuids w)"
    using that d1 fresh_event(2)[OF fresh that(3)] requests_append[of "d1\<lparr>outbox_events := outbox_events d1 @ [e]\<rparr>" "w_db w" e]
    by (auto simp: leaves_def books_def)
qed

lemma Unsubscribe_tx:
  fixes w :: "('d api_db_scheme, wire) world"
  assumes "api_ok E w"
  shows "tx_wp (Unsubscribe E rid token) (\<lambda>_ d u.
    \<exists>r. find_row (\<lambda>r. su_Token r = token) (subscriptions (w_db w)) = Some r \<and>
      leaves E (leave_rows token (subscriptions (w_db w)))
        (requests E (w_db w) @ stop_requests r (leave_rows token (subscriptions (w_db w)))) d u) w w"
    (is "tx_wp _ ?P w w")
  unfolding Unsubscribe_def
proof (rule tx_wp_with_tx, rule tx_wp_row_by_token, assumption, intro tx_wp_annot_bnd, rule tx_wp_stmt, assumption)
  let ?rows = "leave_rows token (subscriptions (w_db w))"
  fix r w1 w2 a d1 w3
  assume r: "find_row (\<lambda>r. su_Token r = token) (subscriptions (w_db w)) = Some r"
    and q: "sql_delete_token token (w_db w) (w_pg_now w) = Inr (a, d1)" and w3: "staged w d1 (w_uuids w) w3"
  note left = left_rows[OF assms q]
  have E: "time_codec E" and d1: "subscriptions d1 = ?rows" and fresh: "uuids_fresh E (w_uuids w) (outbox_events d1)"
    using assms q by (auto simp: api_ok_def sql_delete_token_def leave_rows_def)
  have quiet: "tx_wp (bnd (ret ()) (\<lambda>_. commit_tx)) ?P w w4" if "staged w d1 (w_uuids w) w4" "stop_requests r ?rows = []" for w4
    using that r left(1) by (intro tx_wp_ret_bnd) (rule tx_wp_commit, assumption, blast)
  show "tx_wp (bnd (if su_Confirmed r
      then bnd (annot (errorf ''count remaining confirmed subscriptions: '') (tx_stmt (sql_count_confirmed (su_Repo r))))
        (\<lambda>n. if n = 0 then insertRepoWatchSagaRequest E rid RepoWatchActionStop (su_Repo r) '''' else ret ())
      else ret ()) (\<lambda>_. commit_tx)) ?P w w3"
  proof (cases "su_Confirmed r")
    case False
    then show ?thesis
      by (simp only: if_False) (rule quiet[OF w3], simp add: stop_requests_def)
  next
    case confirmed: True
    have "tx_wp (bnd (if affected (confirmed_of (su_Repo r)) ?rows = 0
        then insertRepoWatchSagaRequest E rid RepoWatchActionStop (su_Repo r) '''' else ret ()) (\<lambda>_. commit_tx)) ?P w w4"
      if w4: "staged w d1 (w_uuids w) w4" for w4
    proof (cases "affected (confirmed_of (su_Repo r)) ?rows = 0")
      case True
      then have "stop_requests r ?rows = [(RepoWatchActionStop, su_Repo r)]"
        using confirmed by (simp add: stop_requests_def)
      then show ?thesis
        using True r left(2) by (simp, intro tx_wp_request[OF E w4 fresh]) (rule tx_wp_commit, assumption, simp)
    next
      case False
      then show ?thesis
        by (simp only: if_False) (rule quiet[OF w4], simp add: stop_requests_def)
    qed
    then show ?thesis
      using confirmed by (simp, intro tx_wp_assoc tx_wp_count[OF w3]) (simp add: d1)
  qed
qed

end
