(* ===== verification/Subscriber_Store.thy ===== *)
theory Subscriber_Store
  imports Subscription_Store
begin

text \<open>
  The contract between the subscription service and its store, and what the service makes of it.
  The view of a database is the table of subscriptions and the list of the saga requests.
\<close>

type_synonym sub_view = "subscription_row list \<times> (string \<times> string) list"

text \<open>
  An operation of the store relates the views by \<open>T\<close> when it returns, and leaves the view as it
  was or relates it by \<open>T\<close> when it fails; it sends nothing.
\<close>

definition store_wp ::
    "(('db, wire) world \<Rightarrow> bool) \<Rightarrow> ('db \<Rightarrow> 'x) \<Rightarrow> ('db, wire, 'a) go \<Rightarrow> ('a \<Rightarrow> 'x \<Rightarrow> 'x \<Rightarrow> bool) \<Rightarrow> bool" where
  "store_wp ok view m T = (\<forall>w. ok w \<longrightarrow> wp m
     (\<lambda>a w'. outside w w' \<and> ok w' \<and> T a (view (w_db w)) (view (w_db w')))
     (\<lambda>_ w'. outside w w' \<and> ok w' \<and> (view (w_db w') = view (w_db w) \<or> (\<exists>a. T a (view (w_db w)) (view (w_db w'))))) w)"

lemma store_wpD:
  "store_wp ok view m T \<Longrightarrow> ok w \<Longrightarrow> wp m
     (\<lambda>a w'. outside w w' \<and> ok w' \<and> T a (view (w_db w)) (view (w_db w')))
     (\<lambda>_ w'. outside w w' \<and> ok w' \<and> (view (w_db w') = view (w_db w) \<or> (\<exists>a. T a (view (w_db w)) (view (w_db w'))))) w"
  by (simp add: store_wp_def)

definition find_token :: "string \<Rightarrow> subscription_row list \<Rightarrow> subscription_row option" where
  "find_token token rows = find_row (\<lambda>r. su_Token r = token) rows"

text \<open>The requests that the first confirmation of a repository adds.\<close>

definition start_requests :: "subscription_row \<Rightarrow> subscription_row list \<Rightarrow> (string \<times> string) list" where
  "start_requests r rows =
     (if \<not> su_Confirmed r \<and> affected (confirmed_of (su_Repo r)) rows = 0 then [(RepoWatchActionStart, su_Repo r)] else [])"

text \<open>The error that \<open>Subscribe\<close> returns when the compensation went through.\<close>

definition compensated :: "goerr \<Rightarrow> bool" where
  "compensated e = (\<exists>err. e = Wrapf ['''', '': '', ''''] [Sentinel ErrConfirmationUnavailable, err])"

lemma compensated_is: "compensated e \<Longrightarrow> errors_is e ErrConfirmationUnavailable"
  by (auto simp: compensated_def)

section \<open>The contract\<close>

locale subscriber_store =
  fixes st :: "'db subscription_store" and ok :: "('db, wire) world \<Rightarrow> bool" and view :: "'db \<Rightarrow> sub_view"
  assumes ok_frame: "ok w \<Longrightarrow> w_db w' = w_db w \<Longrightarrow> w_uuids w \<le> w_uuids w' \<Longrightarrow> ok w'"
    and exists_law: "store_wp ok view (ub_SubscriptionExists st email repo)
      (\<lambda>b x y. y = x \<and> b = ((email, repo) \<in> sub_key ` set (fst x)))"
    and save_law: "store_wp ok view (ub_SaveSubscription st r)
      (\<lambda>_ x y. \<exists>r'. fits r = Inr r' \<and> save_rows r' (fst x) = Inr (fst y) \<and> snd y = snd x)"
    and delete_law: "store_wp ok view (ub_DeleteUnconfirmedSubscription st email repo token)
      (\<lambda>_ x y. fst y = delete_where (unconfirmed_of email repo token) (fst x) \<and> snd y = snd x)"
    and confirm_law: "store_wp ok view (ub_ConfirmSubscriptionByToken st token)
      (\<lambda>res x y. \<exists>r. find_token token (fst x) = Some r \<and> res = first_confirmed r (fst x) \<and>
         y = (confirm_rows token (fst x), snd x))"
    and request_law: "store_wp ok view (ub_RequestRepoWatchSaga st rid action repo email)
      (\<lambda>_ x y. y = (fst x, snd x @ [(action, repo)]))"
    and exists_errors: "avoids ErrConfirmationUnavailable (ub_SubscriptionExists st email repo)"
    and save_errors: "avoids ErrConfirmationUnavailable (ub_SaveSubscription st r)"
begin

text \<open>A confirmation that fails may have left the row confirmed without its request.\<close>

lemma Confirm_wp:
  assumes "ok w" and "uv_repo s = st"
  shows "wp (Service_ConfirmSubscriptionByToken s rid token)
    (\<lambda>_ w'. outside w w' \<and> ok w' \<and> (\<exists>r. find_token token (fst (view (w_db w))) = Some r \<and>
       view (w_db w') = (confirm_rows token (fst (view (w_db w))), snd (view (w_db w)) @ start_requests r (fst (view (w_db w))))))
    (\<lambda>_ w'. outside w w' \<and> ok w' \<and> (view (w_db w') = view (w_db w) \<or>
       (\<exists>r. find_token token (fst (view (w_db w))) = Some r \<and>
          (\<exists>rq \<in> {[], start_requests r (fst (view (w_db w)))}.
             view (w_db w') = (confirm_rows token (fst (view (w_db w))), snd (view (w_db w)) @ rq))))) w"
    (is "wp _ ?Q ?R w")
  unfolding Service_ConfirmSubscriptionByToken_def assms(2) wp_bnd
proof (rule wp_mono[OF store_wpD[OF confirm_law assms(1)]])
  let ?x = "view (w_db w)"
  fix res w1
  assume "outside w w1 \<and> ok w1 \<and> (\<exists>r. find_token token (fst ?x) = Some r \<and> res = first_confirmed r (fst ?x) \<and>
      view (w_db w1) = (confirm_rows token (fst ?x), snd ?x))"
  then obtain r where w1: "outside w w1" "ok w1" and r: "find_token token (fst ?x) = Some r" "res = first_confirmed r (fst ?x)"
    and v: "view (w_db w1) = (confirm_rows token (fst ?x), snd ?x)" by blast
  show "wp (if \<not> cr_WasFirstConfirmed res then ret ()
      else ub_RequestRepoWatchSaga st rid RepoWatchActionStart (cr_Repo res) (cr_Email res)) ?Q ?R w1"
  proof (cases "cr_WasFirstConfirmed res")
    case False
    then have "start_requests r (fst ?x) = []" by (auto simp: r(2) first_confirmed_def start_requests_def)
    with False w1 r v show ?thesis by (simp add: wp_ret)
  next
    case True
    then have req: "start_requests r (fst ?x) = [(RepoWatchActionStart, su_Repo r)]" "cr_Repo res = su_Repo r"
      by (auto simp: r(2) first_confirmed_def start_requests_def)
    show ?thesis
      using True by simp (rule wp_mono[OF store_wpD[OF request_law w1(2)]]; use w1 r v req in \<open>auto intro: outside_trans\<close>)
  qed
qed (use assms in auto)

end

text \<open>The service with its two other collaborators: GitHub, which it only reads, and the notifier.\<close>

locale subscription_desk = subscriber_store "uv_repo s" ok view
  for s :: "'db subscription_service" and ok :: "('db, wire) world \<Rightarrow> bool" and view :: "'db \<Rightarrow> sub_view" +
  fixes E :: env and told :: "string option \<Rightarrow> string \<Rightarrow> string \<Rightarrow> string \<Rightarrow> wire sent_effect list \<Rightarrow> bool"
  assumes repo_law: "reads_only (gh_CheckIfRepoExists (uv_github s) repo)"
    and repo_errors: "avoids ErrConfirmationUnavailable (gh_CheckIfRepoExists (uv_github s) repo)"
    and tag_law: "reads_only (gh_GetLatestTag (uv_github s) repo)"
    and notify_law: "wp (uv_notifications s rid email repo token)
      (\<lambda>_ w'. same_clocks w w' \<and> w_db w' = w_db w \<and> (\<exists>tr. w_trace w' = w_trace w @ tr \<and> told rid email repo token tr))
      (\<lambda>_ w'. same_clocks w w' \<and> w_db w' = w_db w \<and> (\<exists>tr. w_trace w' = w_trace w @ tr)) w"
begin

lemma ok_outside: "ok w \<Longrightarrow> outside w w' \<Longrightarrow> w_db w' = w_db w \<Longrightarrow> ok w'"
  using ok_frame by (simp add: outside_def)

text \<open>
  The rows that \<open>save_and_notify\<close> may leave for the new row \<open>sub\<close>, written \<open>sub'\<close> once the
  columns have cut it; without an error the row is there and the subscriber is told.
\<close>

definition saved :: "subscription_row \<Rightarrow> ('db, wire) world \<Rightarrow> ('db, wire) world \<Rightarrow> bool" where
  "saved sub w w' = (\<exists>sub' rows. fits sub = Inr sub' \<and> save_rows sub' (fst (view (w_db w))) = Inr rows \<and>
     view (w_db w') = (rows, snd (view (w_db w))))"

definition removed :: "subscription_row \<Rightarrow> ('db, wire) world \<Rightarrow> ('db, wire) world \<Rightarrow> bool" where
  "removed sub w w' = (\<exists>sub' rows. fits sub = Inr sub' \<and> save_rows sub' (fst (view (w_db w))) = Inr rows \<and>
     view (w_db w') = (delete_where (unconfirmed_of (su_Email sub) (su_Repo sub) (su_Token sub)) rows, snd (view (w_db w))))"

definition extends :: "('db, wire) world \<Rightarrow> ('db, wire) world \<Rightarrow> bool" where
  "extends w w' = (same_clocks w w' \<and> ok w' \<and> (\<exists>tr. w_trace w' = w_trace w @ tr))"

lemma extends_outside: "extends w w1 \<Longrightarrow> outside w1 w2 \<Longrightarrow> ok w2 \<Longrightarrow> extends w w2"
  by (auto simp: extends_def outside_def same_clocks_def)

lemma compensate_wp:
  assumes "extends w w1" and "saved sub w w1"
  shows "wp (compensate s sub err) (\<lambda>_ _. False)
    (\<lambda>e w'. extends w w' \<and> (saved sub w w' \<or> removed sub w w') \<and> (compensated e \<longrightarrow> removed sub w w')) w1"
proof -
  have ok: "ok w1" using assms(1) by (simp add: extends_def)
  have gone: "removed sub w w2"
    if "fst (view (w_db w2)) = delete_where (unconfirmed_of (su_Email sub) (su_Repo sub) (su_Token sub)) (fst (view (w_db w1)))"
      "snd (view (w_db w2)) = snd (view (w_db w1))" for w2
    using assms(2) that unfolding saved_def removed_def by (metis fst_conv prod.collapse snd_conv)
  have kept: "saved sub w w2" if "view (w_db w2) = view (w_db w1)" for w2
    using assms(2) that by (simp add: saved_def)
  show ?thesis
    unfolding compensate_def wp_bnd wp_attempt
    by (rule wp_mono[OF store_wpD[OF delete_law ok]])
      (auto simp: wp_raise compensated_def intro: extends_outside[OF assms(1)] gone dest: kept)
qed

lemma saved_by_store:
  assumes "ok w"
  shows "wp (ub_SaveSubscription (uv_repo s) sub)
    (\<lambda>_ w1. True \<and> outside w w1 \<and> ok w1 \<and> saved sub w w1)
    (\<lambda>e w1. \<not> errors_is e ErrConfirmationUnavailable \<and> outside w w1 \<and> ok w1 \<and>
       (view (w_db w1) = view (w_db w) \<or> saved sub w w1)) w"
  unfolding wp_conj[of _ "\<lambda>_ _. True"]
  by (intro conjI avoidsD save_errors, rule wp_mono[OF store_wpD[OF save_law assms]])
    (auto simp: saved_def, (metis prod.collapse)+)

lemma save_and_notify_wp:
  assumes "ok w"
  shows "wp (save_and_notify s rid sub)
    (\<lambda>_ w'. extends w w' \<and> saved sub w w' \<and>
       (\<exists>tr. w_trace w' = w_trace w @ tr \<and> told rid (su_Email sub) (su_Repo sub) (su_Token sub) tr))
    (\<lambda>e w'. extends w w' \<and> (view (w_db w') = view (w_db w) \<or> saved sub w w' \<or> removed sub w w') \<and>
       (compensated e \<longrightarrow> removed sub w w')) w"
    (is "wp _ (\<lambda>_. ?told) ?undone w")
proof -
  have notified: "wp (case r of Inl err \<Rightarrow> compensate s sub err | Inr _ \<Rightarrow> ret ()) (\<lambda>_. ?told) ?undone w2"
    if "outside w w1" "ok w1" "saved sub w w1" "same_clocks w1 w2" "w_db w2 = w_db w1"
      "\<exists>tr. w_trace w2 = w_trace w1 @ tr \<and> (r = Inr () \<longrightarrow> told rid (su_Email sub) (su_Repo sub) (su_Token sub) tr)"
    for r w1 w2
  proof -
    have w2: "extends w w2" "saved sub w w2"
      using that ok_frame[OF that(2,5)] by (auto simp: extends_def outside_def same_clocks_def saved_def)
    have "w_trace w1 = w_trace w" using that(1) by (simp add: outside_def)
    then show ?thesis
      using that(6) w2 by (cases r) (auto simp: wp_ret intro: wp_mono[OF compensate_wp[OF w2]])
  qed
  show ?thesis
    unfolding save_and_notify_def wp_bnd[of "ub_SaveSubscription _ _"]
  proof (rule wp_mono[OF saved_by_store[OF assms]])
    fix u w1 assume "True \<and> outside w w1 \<and> ok w1 \<and> saved sub w w1"
    then show "wp (bnd (attempt (uv_notifications s rid (su_Email sub) (su_Repo sub) (su_Token sub))) (\<lambda>r. case r of
          Inl err \<Rightarrow> compensate s sub err | Inr _ \<Rightarrow> ret ())) (\<lambda>_. ?told) ?undone w1"
      unfolding wp_bnd wp_attempt
      by (intro wp_mono[OF notify_law])
        (auto intro: notified[where r = "Inr ()", simplified] notified[where r = "Inl e" for e, simplified])
  qed (auto simp: extends_def outside_def same_clocks_def dest: compensated_is)
qed

text \<open>The row a new subscriber gets.\<close>

definition newcomer :: "string \<Rightarrow> string \<Rightarrow> ('db, wire) world \<Rightarrow> subscription_row \<Rightarrow> bool" where
  "newcomer email repo w sub = ((email, repo) \<notin> sub_key ` set (fst (view (w_db w))) \<and>
     (\<exists>tag n. w_uuids w \<le> n \<and> sub = new_subscription email repo tag (uuid_gen E n)))"

lemma same_view: "extends w w1 \<Longrightarrow> w_db w1 = w_db w \<Longrightarrow> saved sub w1 w' = saved sub w w' \<and> removed sub w1 w' = removed sub w w'"
  by (simp add: saved_def removed_def)

lemma extends_trans: "extends w w1 \<Longrightarrow> extends w1 w2 \<Longrightarrow> extends w w2"
  by (auto simp: extends_def same_clocks_def)

lemma reads_extends:
  "reads_only m \<Longrightarrow> ok w \<Longrightarrow> wp m (\<lambda>_ w'. outside w w' \<and> ok w' \<and> w_db w' = w_db w)
     (\<lambda>_ w'. outside w w' \<and> ok w' \<and> w_db w' = w_db w) w"
  by (rule wp_mono[OF reads_onlyD]) (auto intro: ok_outside)

definition enrolled :: "string option \<Rightarrow> string \<Rightarrow> string \<Rightarrow> ('db, wire) world \<Rightarrow> ('db, wire) world \<Rightarrow> bool" where
  "enrolled rid email repo w w' = (extends w w' \<and> (\<exists>sub. newcomer email repo w sub \<and> saved sub w w' \<and>
     (\<exists>tr. w_trace w' = w_trace w @ tr \<and> told rid email repo (su_Token sub) tr)))"

definition turned_away :: "string \<Rightarrow> string \<Rightarrow> goerr \<Rightarrow> ('db, wire) world \<Rightarrow> ('db, wire) world \<Rightarrow> bool" where
  "turned_away email repo e w w' = (extends w w' \<and>
     (view (w_db w') = view (w_db w) \<or> (\<exists>sub. newcomer email repo w sub \<and> (saved sub w w' \<or> removed sub w w'))) \<and>
     (compensated e \<longrightarrow> (\<exists>sub. newcomer email repo w sub \<and> removed sub w w')) \<and>
     ((email, repo) \<in> sub_key ` set (fst (view (w_db w))) \<longrightarrow> view (w_db w') = view (w_db w)))"

lemma turned_away_early:
  "outside w w' \<Longrightarrow> ok w' \<Longrightarrow> view (w_db w') = view (w_db w) \<Longrightarrow> \<not> errors_is e ErrConfirmationUnavailable \<Longrightarrow>
   turned_away email repo e w w'"
  by (auto simp: turned_away_def extends_def outside_def same_clocks_def dest: compensated_is)

text \<open>After the repository was found, whatever GitHub says about its tags.\<close>

lemma enrol_wp:
  assumes "outside w w1" and "ok w1" and "view (w_db w1) = view (w_db w)" and "(email, repo) \<notin> sub_key ` set (fst (view (w_db w)))"
  shows "wp (bnd (new_uuid (uuid_gen E)) (\<lambda>token. save_and_notify s rid (new_subscription email repo tag token)))
    (\<lambda>_. enrolled rid email repo w) (\<lambda>e. turned_away email repo e w) w1"
proof -
  let ?sub = "new_subscription email repo tag (uuid_gen E (w_uuids w1))" and ?w = "w1\<lparr>w_uuids := Suc (w_uuids w1)\<rparr>"
  have new: "newcomer email repo w ?sub"
    unfolding newcomer_def using assms(1,4) by (intro conjI exI[of _ tag] exI[of _ "w_uuids w1"]) (auto simp: outside_def)
  have w2: "extends w ?w" "ok ?w" "w_trace ?w = w_trace w"
    using assms(1) ok_frame[OF assms(2), of ?w] by (auto simp: extends_def outside_def same_clocks_def)
  have v: "saved ?sub ?w w' = saved ?sub w w'" "removed ?sub ?w w' = removed ?sub w w'" for w'
    using assms(3) by (simp_all add: saved_def removed_def)
  have sel: "su_Email ?sub = email" "su_Repo ?sub = repo" by (simp_all add: new_subscription_def)
  show ?thesis
    unfolding wp_bnd wp_new_uuid
    by (rule wp_mono[OF save_and_notify_wp[OF w2(2)]])
      (use new w2 v sel assms(3,4) extends_trans[OF w2(1)] in \<open>auto simp: enrolled_def turned_away_def\<close>)
qed

lemma validateRepo_wp:
  assumes w1: "outside w w1" "ok w1" "view (w_db w1) = view (w_db w)"
  shows "wp (validateRepo s repo) (\<lambda>_ w2. outside w w2 \<and> ok w2 \<and> view (w_db w2) = view (w_db w))
    (\<lambda>e w2. turned_away email repo e w w2) w1"
proof -
  have "wp (gh_CheckIfRepoExists (uv_github s) repo) (\<lambda>_ w'. True \<and> outside w1 w' \<and> ok w' \<and> w_db w' = w_db w1)
      (\<lambda>e w'. \<not> errors_is e ErrConfirmationUnavailable \<and> outside w1 w' \<and> ok w' \<and> w_db w' = w_db w1) w1"
    unfolding wp_conj[of _ "\<lambda>_ _. True"] by (intro conjI avoidsD repo_errors reads_extends repo_law w1)
  then show ?thesis
    unfolding validateRepo_def wp_bnd wp_attempt
    by (rule wp_mono) (use w1 in \<open>auto simp: wp_ret wp_raise intro: outside_trans intro!: turned_away_early\<close>)
qed

lemma Subscribe_wp:
  assumes "ok w"
  shows "wp (Subscribe E s rid email repo) (\<lambda>_. enrolled rid email repo w) (\<lambda>e. turned_away email repo e w) w"
proof -
  let ?known = "(email, repo) \<in> sub_key ` set (fst (view (w_db w)))"
  have exists: "wp (ub_SubscriptionExists (uv_repo s) email repo)
      (\<lambda>b w1. True \<and> outside w w1 \<and> ok w1 \<and> view (w_db w1) = view (w_db w) \<and> b = ?known)
      (\<lambda>e w1. \<not> errors_is e ErrConfirmationUnavailable \<and> outside w w1 \<and> ok w1 \<and> view (w_db w1) = view (w_db w)) w"
    unfolding wp_conj[of _ "\<lambda>_ _. True"]
    by (intro conjI avoidsD exists_errors, rule wp_mono[OF store_wpD[OF exists_law assms]]) auto
  have tags: "wp (bnd (attempt (gh_GetLatestTag (uv_github s) repo)) (\<lambda>r.
        bnd (new_uuid (uuid_gen E)) (\<lambda>token. save_and_notify s rid (new_subscription email repo (h r) token))))
      (\<lambda>_. enrolled rid email repo w) (\<lambda>e. turned_away email repo e w) w2"
    if w2: "outside w w2 \<and> ok w2 \<and> view (w_db w2) = view (w_db w)" and new: "\<not> ?known" for w2 h
    unfolding wp_bnd[of "attempt _"] wp_attempt
    by (rule wp_mono[OF reads_extends[OF tag_law]])
      (use w2 in \<open>auto intro!: enrol_wp[OF _ _ _ new] intro: outside_trans\<close>)
  show ?thesis
    unfolding Subscribe_def wp_bnd[of "annot _ _"] wp_annot
  proof (rule wp_mono[OF exists])
    fix b w1 assume b: "True \<and> outside w w1 \<and> ok w1 \<and> view (w_db w1) = view (w_db w) \<and> b = ?known"
    show "wp (if b then raise (Sentinel ErrAlreadySubscribed) else bnd (validateRepo s repo) (\<lambda>_.
          bnd (attempt (gh_GetLatestTag (uv_github s) repo)) (\<lambda>r. let tag = (case r of Inr t \<Rightarrow> t | Inl _ \<Rightarrow> '''') in
          bnd (new_uuid (uuid_gen E)) (\<lambda>token. save_and_notify s rid (new_subscription email repo tag token)))))
        (\<lambda>_. enrolled rid email repo w) (\<lambda>e. turned_away email repo e w) w1"
    proof (cases b)
      case True
      then show ?thesis using b by (auto simp: wp_raise intro!: turned_away_early)
    next
      case False
      then have "\<not> ?known" using b by simp
      with False b show ?thesis
        unfolding Let_def by (simp only: if_False wp_bnd[of "validateRepo _ _"]) (rule wp_mono[OF validateRepo_wp], auto intro!: tags)
    qed
  qed (auto intro!: turned_away_early)
qed

end

end
