(* ===== verification/Subscription_Properties.thy ===== *)
theory Subscription_Properties
  imports Subscriber_Store
begin

text \<open>
  The repository, GitHub's client and both publishers keep the contracts of the service, and the
  properties of \<open>Subscribe\<close> that follow.
\<close>

section \<open>The repository keeps the contract\<close>

lemma tx_store:
  fixes P :: "('d api_db_scheme, wire) world \<Rightarrow> 'a \<Rightarrow> 'd api_db_scheme \<Rightarrow> nat \<Rightarrow> bool"
  assumes "\<And>w. api_ok E w \<Longrightarrow> tx_wp m (P w) w w"
    and "\<And>w a d u. api_ok E w \<Longrightarrow> P w a d u \<Longrightarrow> \<exists>rows rq. T a (books E (w_db w)) (rows, rq) \<and>
      leaves E rows rq d u \<and> keyed sub_key rows \<and> keyed su_Token rows"
  shows "store_wp (api_ok E) (books E) m T"
  unfolding store_wp_def
proof (intro allI impI)
  fix w :: "('d api_db_scheme, wire) world"
  assume ok: "api_ok E w"
  have *: "api_ok E w' \<and> T a (books E (w_db w)) (books E (w_db w'))"
    if "outside w w'" "P w a (w_db w') (w_uuids w')" for a w'
    using assms(2)[OF ok that(2)] leaves_ok[OF ok that(1)] by auto
  show "wp m (\<lambda>a w'. outside w w' \<and> api_ok E w' \<and> T a (books E (w_db w)) (books E (w_db w')))
      (\<lambda>_ w'. outside w w' \<and> api_ok E w' \<and> (books E (w_db w') = books E (w_db w) \<or>
         (\<exists>a. T a (books E (w_db w)) (books E (w_db w'))))) w"
    by (rule tx_wp_wp[OF assms(1)[OF ok]]) (use * api_ok_same[OF ok] in \<open>auto simp: outside_def\<close>)
qed

lemma books_sel [simp]: "fst (books E d) = subscriptions d" "snd (books E d) = requests E d"
  by (simp_all add: books_def)

lemma subscriptions_requests: "requests E (d\<lparr>subscriptions := rows\<rparr>) = requests E d"
  by (rule requests_same) simp

lemma exists_store: "store_wp (api_ok E) (books E) (SubscriptionExists email repo)
    (\<lambda>b x y. y = x \<and> b = ((email, repo) \<in> sub_key ` set (fst x)))"
  unfolding store_wp_def SubscriptionExists_def
  by (auto simp: wp_simps sql_exists_def outside_def list_ex_iff sub_key_def image_iff
      intro: api_ok_same split: call_outcome.split)

lemma delete_store: "store_wp (api_ok E) (books E) (DeleteUnconfirmedSubscription email repo token)
    (\<lambda>_ x y. fst y = delete_where (unconfirmed_of email repo token) (fst x) \<and> snd y = snd x)"
proof -
  have gone: "api_ok E (w\<lparr>w_db := (w_db w)\<lparr>subscriptions := delete_where q (subscriptions (w_db w))\<rparr>\<rparr>)"
    if "api_ok E w" for w and q
    using that by (auto simp: api_ok_def keyed_delete_where)
  have next_ok: "api_ok E (next_w w)" if "api_ok E w" for w using api_ok_same[OF that] by simp
  show ?thesis
    unfolding store_wp_def DeleteUnconfirmedSubscription_def
    by (auto simp: wp_simps sql_delete_unconfirmed_def outside_def subscriptions_requests split: call_outcome.split
        intro: next_ok gone[OF next_ok, simplified])
qed

interpretation api_store: subscriber_store "subscription_repository E" "api_ok E" "books E" for E
proof (rule subscriber_store.intro, unfold subscription_repository_def subscription_store.simps)
  fix w w' :: "('d api_db_scheme, wire) world"
  show "api_ok E w \<Longrightarrow> w_db w' = w_db w \<Longrightarrow> w_uuids w \<le> w_uuids w' \<Longrightarrow> api_ok E w'" by (rule api_ok_same)
next
  fix r
  show "store_wp (api_ok E) (books E) (SaveSubscription r)
      (\<lambda>_ x y. \<exists>r'. fits r = Inr r' \<and> save_rows r' (fst x) = Inr (fst y) \<and> snd y = snd x)"
    by (rule tx_store, rule Save_tx) (auto simp: api_ok_def dest: save_rows_keyed)
next
  fix token
  show "store_wp (api_ok E) (books E) (Repo_ConfirmSubscriptionByToken token)
      (\<lambda>res x y. \<exists>r. find_token token (fst x) = Some r \<and> res = first_confirmed r (fst x) \<and>
         y = (confirm_rows token (fst x), snd x))"
    by (rule tx_store, rule Confirm_tx) (auto simp: api_ok_def find_token_def confirm_rows_keyed)
next
  fix rid action repo email
  show "store_wp (api_ok E) (books E) (RequestRepoWatchSaga E rid action repo email)
      (\<lambda>_ x y. y = (fst x, snd x @ [(action, repo)]))"
    by (rule tx_store, rule Request_tx) (auto simp: api_ok_def)
next
  fix email repo
  show "avoids ErrConfirmationUnavailable (SubscriptionExists email repo)"
    unfolding SubscriptionExists_def by (auto intro!: avoids_rules simp: sql_exists_def)
next
  fix r
  have "\<not> errors_is e ErrConfirmationUnavailable" if "sql_save r d now = Inl e" for d now e
    using that by (auto simp: sql_save_def fits_def save_rows_def too_long_def token_taken_def sum_bind_def sum_map_def
        split: sum.splits option.splits if_splits)
  then show "avoids ErrConfirmationUnavailable (SaveSubscription r)"
    unfolding SaveSubscription_def saveSubscription_def by (auto intro!: avoids_rules)
qed (auto intro: exists_store delete_store)

section \<open>The other collaborators\<close>

lemma github_laws:
  "reads_only (gh_GetLatestTag (NewHTTPGitHubClient gets heads base) repo)"
  "reads_only (gh_CheckIfRepoExists (NewHTTPGitHubClient gets heads base) repo)"
  "avoids ErrConfirmationUnavailable (gh_CheckIfRepoExists (NewHTTPGitHubClient gets heads base) repo)"
  unfolding NewHTTPGitHubClient_def GitHub_GetLatestTag_def GitHub_CheckIfRepoExists_def http_get_def Let_def
    github_client.simps case_prod_beta
  by (auto intro!: reads_only_rules avoids_rules split: http_reply.splits)

definition confirmation_link :: "string \<Rightarrow> string" where
  "confirmation_link notificationServiceURL = trim_slashes notificationServiceURL @ ''/internal/notifications/confirmation''"

definition told_by_post :: "string \<Rightarrow> string \<Rightarrow> string option \<Rightarrow> string \<Rightarrow> string \<Rightarrow> string \<Rightarrow> wire sent_effect list \<Rightarrow> bool" where
  "told_by_post baseURL notificationServiceURL rid email repo token tr =
     (tr = [Posted (confirmation_link notificationServiceURL) rid
        (Some (confirmation_body email repo (confirm_url baseURL token)))])"

definition welcome_text :: "string \<Rightarrow> string" where
  "welcome_text link = ''Welcome! Please confirm your subscription to GitHub repository updates by clicking here: '' @ link"

definition told_by_call :: "env \<Rightarrow> string \<Rightarrow> string option \<Rightarrow> string \<Rightarrow> string \<Rightarrow> string \<Rightarrow> wire sent_effect list \<Rightarrow> bool" where
  "told_by_call E baseURL rid email repo token tr =
     (\<exists>i c. tr = [Called ''SendNotification''
        (grpc_fields (confirmation_payload E email repo (welcome_text (confirm_url baseURL token)) i) c)])"

lemma post_law:
  "wp (nf_SendConfirmation (outbox_notifier E hs baseURL url) rid email repo token)
     (\<lambda>_ w'. same_clocks w w' \<and> w_db w' = w_db w \<and>
        (\<exists>tr. w_trace w' = w_trace w @ tr \<and> told_by_post baseURL url rid email repo token tr))
     (\<lambda>_ w'. same_clocks w w' \<and> w_db w' = w_db w \<and> (\<exists>tr. w_trace w' = w_trace w @ tr)) w"
  by (auto simp: outbox_notifier_def Outbox_SendConfirmation_def NewOutboxNotificationPublisher_def http_post_def
      told_by_post_def confirmation_link_def wp_simps same_clocks_def split: http_reply.split call_outcome.split)

lemma call_law:
  "wp (nf_SendConfirmation (grpc_notifier E gs baseURL) rid email repo token)
     (\<lambda>_ w'. same_clocks w w' \<and> w_db w' = w_db w \<and>
        (\<exists>tr. w_trace w' = w_trace w @ tr \<and> told_by_call E baseURL rid email repo token tr))
     (\<lambda>_ w'. same_clocks w w' \<and> w_db w' = w_db w \<and> (\<exists>tr. w_trace w' = w_trace w @ tr)) w"
  by (auto simp: grpc_notifier_def Grpc_SendConfirmation_def newGrpcNotificationPublisher_def grpc_send_def grpc_call_def
      Let_def told_by_call_def welcome_text_def wp_simps same_clocks_def split: option.split call_outcome.split)

section \<open>The two processes\<close>

definition post_process ::
    "env \<Rightarrow> http_server \<Rightarrow> string \<Rightarrow> string \<Rightarrow> http_server \<Rightarrow> http_server \<Rightarrow> string \<Rightarrow> ('d api_db_scheme) subscription_service" where
  "post_process E hs baseURL url gets heads gbase =
     subscription_process E (outbox_notifier E hs baseURL url) (NewHTTPGitHubClient gets heads gbase)"

definition call_process ::
    "env \<Rightarrow> grpc_server \<Rightarrow> string \<Rightarrow> http_server \<Rightarrow> http_server \<Rightarrow> string \<Rightarrow> ('d api_db_scheme) subscription_service" where
  "call_process E gs baseURL gets heads gbase =
     subscription_process E (grpc_notifier E gs baseURL) (NewHTTPGitHubClient gets heads gbase)"

lemma service_sel [simp]:
  "uv_repo (subscription_process E n g) = subscription_repository E"
  "uv_notifications (subscription_process E n g) = nf_SendConfirmation n" "uv_github (subscription_process E n g) = g"
  by (simp_all add: subscription_process_def)

lemma service_repo [simp]:
  "uv_repo (post_process E hs baseURL url gets heads gbase) = subscription_repository E"
  "uv_repo (call_process E gs baseURL gets heads gbase) = subscription_repository E"
  by (simp_all add: post_process_def call_process_def)

interpretation post_desk: subscription_desk "post_process E hs baseURL url gets heads gbase" "api_ok E" "books E" E
  "told_by_post baseURL url" for E hs baseURL url gets heads gbase
  by (intro subscription_desk.intro subscription_desk_axioms.intro)
    (simp_all add: post_process_def api_store.subscriber_store_axioms github_laws post_law)

interpretation call_desk: subscription_desk "call_process E gs baseURL gets heads gbase" "api_ok E" "books E" E
  "told_by_call E baseURL" for E gs baseURL gets heads gbase
  by (intro subscription_desk.intro subscription_desk_axioms.intro)
    (simp_all add: call_process_def api_store.subscriber_store_axioms github_laws call_law)

end
