(* ===== verification/Release_Expansion.thy ===== *)
theory Release_Expansion
  imports Subscription_Properties
begin

text \<open>
  The expansion of a release into one notification per confirmed subscriber.  The locale
  \<open>release_announcer\<close> states what the expander relies on in its store and its publisher; it is
  interpreted on the repository with the publisher over the outbox and with the one over gRPC.
\<close>

definition appended :: "('db, wire) world \<Rightarrow> ('db, wire) world \<Rightarrow> bool" where
  "appended w w' = (\<exists>tr. w_trace w' = w_trace w @ tr \<and> commits tr = [])"

lemma appended_refl: "w_trace w' = w_trace w \<Longrightarrow> appended w w'"
  by (simp add: appended_def)

lemma appended_trans: "appended w w1 \<Longrightarrow> appended w1 w2 \<Longrightarrow> appended w w2"
  by (auto simp: appended_def)

locale release_announcer =
  fixes x :: "'db release_expander" and ok :: "('db, wire) world \<Rightarrow> bool"
    and subs :: "'db \<Rightarrow> string \<Rightarrow> string list" and told_of :: "('db, wire) world \<Rightarrow> (string \<times> string \<times> string) list"
  assumes get_law: "ok w \<Longrightarrow> wp (re_GetSubscribers x repo)
      (\<lambda>es w'. ok w' \<and> appended w w' \<and> subs (w_db w') = subs (w_db w) \<and> told_of w' = told_of w \<and> mset es = mset (subs (w_db w) repo))
      (\<lambda>_ w'. ok w' \<and> appended w w' \<and> subs (w_db w') = subs (w_db w) \<and> told_of w' = told_of w) w"
    and publish_law: "ok w \<Longrightarrow> wp (re_PublishReleaseNotification x e repo tag c)
      (\<lambda>_ w'. ok w' \<and> appended w w' \<and> subs (w_db w') = subs (w_db w) \<and> told_of w' = told_of w @ [(e, repo, tag)])
      (\<lambda>_ w'. ok w' \<and> appended w w' \<and> subs (w_db w') = subs (w_db w) \<and> told_of w' \<in> {told_of w, told_of w @ [(e, repo, tag)]}) w"
begin

text \<open>The state after the first subscribers of a list have been notified.\<close>

definition told_first :: "string \<Rightarrow> string \<Rightarrow> ('db, wire) world \<Rightarrow> string list \<Rightarrow> ('db, wire) world \<Rightarrow> bool" where
  "told_first repo tag w es w' = (ok w' \<and> appended w w' \<and> subs (w_db w') = subs (w_db w) \<and>
     told_of w' = told_of w @ map (\<lambda>e. (e, repo, tag)) es)"

lemma told_first_one: "told_first repo tag w es w1 \<Longrightarrow> ok w2 \<Longrightarrow> appended w1 w2 \<Longrightarrow> subs (w_db w2) = subs (w_db w1) \<Longrightarrow>
    told_of w2 = told_of w1 @ [(e, repo, tag)] \<Longrightarrow> told_first repo tag w (es @ [e]) w2"
  by (auto simp: told_first_def intro: appended_trans)

lemma told_first_same: "told_first repo tag w es w1 \<Longrightarrow> ok w2 \<Longrightarrow> appended w1 w2 \<Longrightarrow> subs (w_db w2) = subs (w_db w1) \<Longrightarrow>
    told_of w2 = told_of w1 \<Longrightarrow> told_first repo tag w es w2"
  by (auto simp: told_first_def intro: appended_trans)

lemma notify_each_wp:
  assumes "told_first repo tag w [] w1"
  shows "wp (for_each (\<lambda>email. annot g (re_PublishReleaseNotification x email repo tag c)) es)
    (\<lambda>_. told_first repo tag w es) (\<lambda>_ w'. \<exists>k \<le> length es. told_first repo tag w (take k es) w') w1"
proof (rule wp_for_each[where I = "\<lambda>rest w'. \<exists>k. k + length rest = length es \<and> drop k es = rest \<and> told_first repo tag w (take k es) w'"])
  show "\<exists>k. k + length es = length es \<and> drop k es = es \<and> told_first repo tag w (take k es) w1"
    using assms by (intro exI[of _ 0]) simp
next
  fix e rest w2
  assume "\<exists>k. k + length (e # rest) = length es \<and> drop k es = e # rest \<and> told_first repo tag w (take k es) w2"
  then obtain k where k: "k + length (e # rest) = length es" "drop k es = e # rest" and I: "told_first repo tag w (take k es) w2"
    by blast
  then have next_take: "take (Suc k) es = take k es @ [e]" "drop (Suc k) es = rest"
    by (auto simp: take_Suc_conv_app_nth hd_drop_conv_nth[symmetric] drop_Suc tl_drop[symmetric])
  have ok: "ok w2" using I by (simp add: told_first_def)
  show "wp (annot g (re_PublishReleaseNotification x e repo tag c))
      (\<lambda>_ w'. \<exists>k. k + length rest = length es \<and> drop k es = rest \<and> told_first repo tag w (take k es) w')
      (\<lambda>_ w'. \<exists>k\<le>length es. told_first repo tag w (take k es) w') w2"
    unfolding wp_annot
  proof (rule wp_mono[OF publish_law[OF ok]])
    fix u w3 assume w3: "ok w3 \<and> appended w2 w3 \<and> subs (w_db w3) = subs (w_db w2) \<and> told_of w3 = told_of w2 @ [(e, repo, tag)]"
    then have "told_first repo tag w (take (Suc k) es) w3"
      unfolding next_take by (intro told_first_one[OF I]) auto
    then show "\<exists>k. k + length rest = length es \<and> drop k es = rest \<and> told_first repo tag w (take k es) w3"
      using k next_take by (intro exI[of _ "Suc k"]) simp
  next
    fix err w3 assume w3: "ok w3 \<and> appended w2 w3 \<and> subs (w_db w3) = subs (w_db w2) \<and>
        told_of w3 \<in> {told_of w2, told_of w2 @ [(e, repo, tag)]}"
    then have "told_first repo tag w (take k es) w3 \<or> told_first repo tag w (take (Suc k) es) w3"
      unfolding next_take using told_first_one[OF I] told_first_same[OF I] by auto
    then show "\<exists>k\<le>length es. told_first repo tag w (take k es) w3"
      using k(1) by (metis Suc_leI le_add1 less_add_same_cancel1 length_greater_0_conv list.distinct(1))
  qed
qed auto

lemma Expand_wp:
  assumes "ok w" and "repo = rp_Repo (Payload event)" and "tag = rp_Tag (Payload event)"
  shows "wp (Expand x event)
    (\<lambda>_ w'. \<exists>es. mset es = mset (subs (w_db w) repo) \<and> told_first repo tag w es w')
    (\<lambda>_ w'. \<exists>es k. mset es = mset (subs (w_db w) repo) \<and> told_first repo tag w (take k es) w') w"
  unfolding Expand_def wp_bnd wp_annot assms(2,3)[symmetric]
proof (rule wp_mono[OF get_law[OF assms(1)]])
  fix es w1
  assume w1: "ok w1 \<and> appended w w1 \<and> subs (w_db w1) = subs (w_db w) \<and> told_of w1 = told_of w \<and> mset es = mset (subs (w_db w) repo)"
  then have start: "told_first repo tag w [] w1" by (simp add: told_first_def)
  show "wp (for_each (\<lambda>email. annot (errorf ''publish release notification: '')
        (re_PublishReleaseNotification x email repo tag (CorrelationID event))) es)
      (\<lambda>_ w'. \<exists>es. mset es = mset (subs (w_db w) repo) \<and> told_first repo tag w es w')
      (\<lambda>_ w'. \<exists>es k. mset es = mset (subs (w_db w) repo) \<and> told_first repo tag w (take k es) w') w1"
    by (rule wp_mono[OF notify_each_wp[OF start]]) (use w1 in blast)+
next
  fix e w1
  assume "ok w1 \<and> appended w w1 \<and> subs (w_db w1) = subs (w_db w) \<and> told_of w1 = told_of w"
  then show "\<exists>es k. mset es = mset (subs (w_db w) repo) \<and> told_first repo tag w (take k es) w1"
    by (intro exI[of _ "subs (w_db w) repo"] exI[of _ 0]) (simp add: told_first_def)
qed

end


section \<open>The publisher over the outbox\<close>

text \<open>The subscribers with a confirmed subscription, each once, and the notifications of an outbox.\<close>

definition confirmed_emails :: "'d api_db_scheme \<Rightarrow> string \<Rightarrow> string list" where
  "confirmed_emails d repo = remdups (map su_Email (filter (confirmed_of repo) (subscriptions d)))"

lemma set_confirmed_emails: "set (confirmed_emails d repo) = {su_Email r |r. r \<in> set (subscriptions d) \<and> confirmed_of repo r}"
  by (auto simp: confirmed_emails_def)

text \<open>A release notification as the publisher builds it, with its idempotency key.\<close>

definition note_in :: "env \<Rightarrow> outbox_event \<Rightarrow> (string \<times> string \<times> string) option" where
  "note_in E e =
     (case notification_in E e of
        None \<Rightarrow> None
      | Some p \<Rightarrow>
          if p = release_notification E (np_RecipientEmail p) (np_Repo p) (np_Tag p) (np_NotificationID p)
          then Some (np_RecipientEmail p, np_Repo p, np_Tag p) else None)"

definition outbox_notes :: "env \<Rightarrow> 'd outbox_db_scheme \<Rightarrow> (string \<times> string \<times> string) list" where
  "outbox_notes E d = List.map_filter (note_in E) (outbox_events d)"

lemma outbox_notes_append:
  "outbox_events d' = outbox_events d @ [e] \<Longrightarrow>
   outbox_notes E d' = outbox_notes E d @ (case note_in E e of None \<Rightarrow> [] | Some x \<Rightarrow> [x])"
  by (simp add: outbox_notes_def List.map_filter_def split: option.splits)

lemma build_note:
  assumes "time_codec E" and "buildReleaseNotification E email repo tag i c now = Inr built"
  shows "notification_in E (new_event i' ty t src c' TopicNotificationCommands k (Some (snd built)))
    = Some (release_notification E email repo tag i)"
proof -
  have "encode_envelope E (\<lambda>p. Inr (encode_notification p)) (release_notification_event E email repo tag i c now) = Inr (snd built)"
    using assms(2) by (auto simp: buildReleaseNotification_def Let_def sum_map_def split: sum.splits)
  from envelope_round_trip[OF assms(1) notification_codec this] show ?thesis
    by (simp add: notification_in_def release_notification_event_def)
qed

lemma release_notification_sel [simp]:
  "np_RecipientEmail (release_notification E email repo tag i) = email"
  "np_Repo (release_notification E email repo tag i) = repo" "np_Tag (release_notification E email repo tag i) = tag"
  "np_NotificationID (release_notification E email repo tag i) = i"
  by (simp_all add: release_notification_def Let_def)

lemma note_of_notification:
  "notification_in E e = Some (release_notification E email repo tag i) \<Longrightarrow> note_in E e = Some (email, repo, tag)"
  by (simp add: note_in_def)

lemma notification_topic: "notification_in E e = Some p \<Longrightarrow> request_of E e = None"
  by (auto simp: notification_in_def request_of_def split: if_splits)

lemma Publish_tx:
  fixes w :: "('d outbox_db_scheme, wire) world"
  assumes "time_codec E" and "uuids_fresh E (w_uuids w) (outbox_events (w_db w))"
  shows "tx_wp (Outbox_PublishReleaseNotification E email repo tag c) (\<lambda>_ d u. \<exists>e.
    d = (w_db w)\<lparr>outbox_events := outbox_events (w_db w) @ [e]\<rparr> \<and> uuids_fresh E u (outbox_events d) \<and>
    notification_in E e = Some (release_notification E email repo tag (uuid_gen E (w_uuids w)))) w w"
  unfolding Outbox_PublishReleaseNotification_def
proof (rule tx_wp_with_tx, rule tx_wp_uuid, assumption, rule tx_wp_clock, assumption, rule tx_wp_of_sum_annot, assumption,
    rule tx_wp_new_event, assumption, rule tx_wp_commit, assumption)
  fix w1 w2 built w3
  assume built: "buildReleaseNotification E email repo tag (uuid_gen E (w_uuids w)) c (w_app_now w) = Inr built"
  let ?e = "new_event (uuid_gen E (w_uuids w)) EventNotificationRequested
    (if OccurredAt (fst built) = zero_time then w_app_now w else OccurredAt (fst built)) ''subscription-api'' c
    TopicNotificationCommands (np_EmailHash (Payload (fst built))) (Some (snd built))"
  show "\<exists>e. (w_db w)\<lparr>outbox_events := add_event ?e (outbox_events (w_db w))\<rparr> = (w_db w)\<lparr>outbox_events := outbox_events (w_db w) @ [e]\<rparr> \<and>
      uuids_fresh E (Suc (w_uuids w)) (outbox_events ((w_db w)\<lparr>outbox_events := add_event ?e (outbox_events (w_db w))\<rparr>)) \<and>
      notification_in E e = Some (release_notification E email repo tag (uuid_gen E (w_uuids w)))"
    using fresh_event[OF assms(2), of ?e] build_note[OF assms(1) built] by (intro exI[of _ ?e]) simp
qed

text \<open>The release operations change no subscription and ask for no saga.\<close>

definition expanding :: "env \<Rightarrow> sub_view \<Rightarrow> ('d api_db_scheme, wire) world \<Rightarrow> bool" where
  "expanding E v w = (api_ok E w \<and> returning_permutes E \<and> books E (w_db w) = v)"

lemma confirmed_emails_cong: "subscriptions d' = subscriptions d \<Longrightarrow> confirmed_emails d' = confirmed_emails d"
  by (rule ext) (simp add: confirmed_emails_def)

lemma outbox_publish_wp:
  assumes "expanding E v w"
  shows "wp (nf_PublishReleaseNotification (outbox_notifier E hs baseURL url) e repo tag c)
    (\<lambda>_ w'. expanding E v w' \<and> appended w w' \<and> confirmed_emails (w_db w') = confirmed_emails (w_db w) \<and>
       outbox_notes E (w_db w') = outbox_notes E (w_db w) @ [(e, repo, tag)])
    (\<lambda>_ w'. expanding E v w' \<and> appended w w' \<and> confirmed_emails (w_db w') = confirmed_emails (w_db w) \<and>
       outbox_notes E (w_db w') \<in> {outbox_notes E (w_db w), outbox_notes E (w_db w) @ [(e, repo, tag)]}) w"
proof -
  have E: "time_codec E" "uuids_fresh E (w_uuids w) (outbox_events (w_db w))"
    using assms by (simp_all add: expanding_def api_ok_def)
  have done1: "expanding E v w' \<and> appended w w' \<and> confirmed_emails (w_db w') = confirmed_emails (w_db w) \<and>
       outbox_notes E (w_db w') = outbox_notes E (w_db w) @ [(e, repo, tag)]"
    if "outside w w'" "w_db w' = (w_db w)\<lparr>outbox_events := outbox_events (w_db w) @ [ev]\<rparr>"
      "uuids_fresh E (w_uuids w') (outbox_events (w_db w'))"
      "notification_in E ev = Some (release_notification E e repo tag i)" for w' ev i
    using that assms outbox_notes_append[of "w_db w'" "w_db w" ev E] requests_append[of "w_db w'" "w_db w" ev E]
      note_of_notification[OF that(4)] notification_topic[OF that(4)]
    by (auto simp: expanding_def api_ok_def books_def outside_def appended_refl intro: confirmed_emails_cong)
  have same: "expanding E v w' \<and> appended w w' \<and> confirmed_emails (w_db w') = confirmed_emails (w_db w) \<and>
       outbox_notes E (w_db w') = outbox_notes E (w_db w)" if "outside w w'" "w_db w' = w_db w" for w'
    using that assms api_ok_same[of E w w'] by (auto simp: expanding_def outside_def appended_refl)
  show ?thesis
    unfolding outbox_notifier_def notifier.simps
    by (rule tx_wp_wp[OF Publish_tx[OF E]]) (use done1 same in blast)+
qed

lemma subscribers_wp:
  assumes "expanding E v w"
  shows "wp (GetSubscribers E repo)
    (\<lambda>es w'. expanding E v w' \<and> appended w w' \<and> w_db w' = w_db w \<and> w_trace w' = w_trace w \<and> mset es = mset (confirmed_emails (w_db w) repo))
    (\<lambda>_ w'. expanding E v w' \<and> appended w w' \<and> w_db w' = w_db w \<and> w_trace w' = w_trace w) w"
proof -
  have "expanding E v w'" if "w_db w' = w_db w" "w_uuids w' = w_uuids w" for w'
    using assms api_ok_same[of E w w'] that by (simp add: expanding_def)
  moreover have "mset (returning E (remdups (map su_Email (filter (confirmed_of repo) (subscriptions (w_db w))))))
      = mset (confirmed_emails (w_db w) repo)"
    using assms by (simp add: expanding_def returning_permutes_def confirmed_emails_def)
  ultimately show ?thesis
    by (simp add: GetSubscribers_def wp_simps sql_subscribers_def appended_refl split: call_outcome.split)
qed

interpretation outbox_releases: release_announcer "release_process E (outbox_notifier E hs baseURL url)" "expanding E v"
  confirmed_emails "\<lambda>w. outbox_notes E (w_db w)" for E hs baseURL url v
proof (rule release_announcer.intro, unfold release_process_def release_expander.simps)
  fix w :: "('d api_db_scheme, wire) world" and repo
  assume ok: "expanding E v w"
  show "wp (GetSubscribers E repo)
      (\<lambda>es w'. expanding E v w' \<and> appended w w' \<and> confirmed_emails (w_db w') = confirmed_emails (w_db w) \<and>
         outbox_notes E (w_db w') = outbox_notes E (w_db w) \<and> mset es = mset (confirmed_emails (w_db w) repo))
      (\<lambda>_ w'. expanding E v w' \<and> appended w w' \<and> confirmed_emails (w_db w') = confirmed_emails (w_db w) \<and>
         outbox_notes E (w_db w') = outbox_notes E (w_db w)) w"
    by (rule wp_mono[OF subscribers_wp[OF ok]]) auto
qed (rule outbox_publish_wp)

section \<open>The publisher over gRPC\<close>

text \<open>The release notifications among the calls of a trace.\<close>

fun payload_of_fields :: "string list \<Rightarrow> notification_payload option" where
  "payload_of_fields [i, k, e, h, repo, tag, m, c] = Some
     \<lparr>np_NotificationID = i, np_IdempotencyKey = k, np_RecipientEmail = e, np_EmailHash = h, np_Repo = repo,
      np_Tag = tag, np_Message = m\<rparr>"
| "payload_of_fields _ = None"

fun called_note :: "env \<Rightarrow> wire sent_effect \<Rightarrow> (string \<times> string \<times> string) option" where
  "called_note E (Called name args) =
     (case payload_of_fields args of
        None \<Rightarrow> None
      | Some p \<Rightarrow>
          if name = ''SendNotification'' \<and>
             p = release_notification E (np_RecipientEmail p) (np_Repo p) (np_Tag p) (np_NotificationID p)
          then Some (np_RecipientEmail p, np_Repo p, np_Tag p) else None)"
| "called_note E _ = None"

definition called_notes :: "env \<Rightarrow> wire sent_effect list \<Rightarrow> (string \<times> string \<times> string) list" where
  "called_notes E tr = List.map_filter (called_note E) tr"

lemma payload_of_grpc_fields [simp]: "payload_of_fields (grpc_fields p c) = Some p"
  by (simp add: grpc_fields_def)

lemma called_notes_append: "called_notes E (tr @ [x]) = called_notes E tr @ (case called_note E x of None \<Rightarrow> [] | Some n \<Rightarrow> [n])"
  by (simp add: called_notes_def List.map_filter_def split: option.splits)

lemma grpc_publish_wp:
  assumes "expanding E v w"
  shows "wp (nf_PublishReleaseNotification (grpc_notifier E gs baseURL) e repo tag c)
    (\<lambda>_ w'. expanding E v w' \<and> appended w w' \<and> confirmed_emails (w_db w') = confirmed_emails (w_db w) \<and>
       called_notes E (w_trace w') = called_notes E (w_trace w) @ [(e, repo, tag)])
    (\<lambda>_ w'. expanding E v w' \<and> appended w w' \<and> confirmed_emails (w_db w') = confirmed_emails (w_db w) \<and>
       called_notes E (w_trace w') \<in> {called_notes E (w_trace w), called_notes E (w_trace w) @ [(e, repo, tag)]}) w"
proof -
  let ?i = "uuid_gen E (w_uuids w)" and ?w = "w\<lparr>w_uuids := Suc (w_uuids w)\<rparr>"
  have frame: "expanding E v w'" if "w_db w' = w_db w" "w_uuids w' = Suc (w_uuids w)" for w'
    using assms api_ok_same[of E w w'] that by (simp add: expanding_def)
  show ?thesis
  proof (cases "buildReleaseNotification E e repo tag ?i c (w_app_now w)")
    case (Inl err)
    then show ?thesis
      by (simp add: grpc_notifier_def Grpc_PublishReleaseNotification_def wp_simps frame appended_refl)
  next
    case (Inr built)
    then have p: "Payload (fst built) = release_notification E e repo tag ?i"
      by (auto simp: buildReleaseNotification_def Let_def sum_map_def release_notification_event_def split: sum.splits)
    have "called_note E (Called ''SendNotification'' (grpc_fields (release_notification E e repo tag ?i) k)) = Some (e, repo, tag)" for k
      by simp
    moreover have "appended w w'" if "w_trace w' = w_trace w @ [Called x y]" for w' x y
      using that by (simp add: appended_def commits_def)
    ultimately show ?thesis
      using Inr p
      by (simp add: grpc_notifier_def Grpc_PublishReleaseNotification_def grpc_send_def grpc_call_def wp_simps frame
          appended_refl called_notes_append split: call_outcome.split option.split)
  qed
qed

interpretation grpc_releases: release_announcer "release_process E (grpc_notifier E gs baseURL)" "expanding E v"
  confirmed_emails "\<lambda>w. called_notes E (w_trace w)" for E gs baseURL v
proof (rule release_announcer.intro, unfold release_process_def release_expander.simps)
  fix w :: "('d api_db_scheme, wire) world" and repo
  assume ok: "expanding E v w"
  show "wp (GetSubscribers E repo)
      (\<lambda>es w'. expanding E v w' \<and> appended w w' \<and> confirmed_emails (w_db w') = confirmed_emails (w_db w) \<and>
         called_notes E (w_trace w') = called_notes E (w_trace w) \<and> mset es = mset (confirmed_emails (w_db w) repo))
      (\<lambda>_ w'. expanding E v w' \<and> appended w w' \<and> confirmed_emails (w_db w') = confirmed_emails (w_db w) \<and>
         called_notes E (w_trace w') = called_notes E (w_trace w)) w"
    by (rule wp_mono[OF subscribers_wp[OF ok]]) auto
qed (rule grpc_publish_wp)

end
