(* ===== verification/Subscription_Watch.thy ===== *)
theory Subscription_Watch
  imports Release_Expansion
begin

text \<open>
  What the operations of the subscription API mean for the watching of a repository: the abstract
  machine \<open>watch_step\<close> on the number of its confirmed subscribers and its last saga request.
\<close>

section \<open>The abstract machine\<close>

text \<open>
  The state of a repository: the number of its confirmed subscribers, and the saga requests made
  for it so far.  Another subscriber joins; the first one joins, and the start is asked for, or,
  when the confirmation returns an error, may not have been; one of several leaves; the last one
  leaves, and the stop is asked for at the same moment.  Nothing else is ever asked for.
\<close>

type_synonym watch = "nat \<times> string list"

inductive watch_step :: "bool \<Rightarrow> watch \<Rightarrow> watch \<Rightarrow> bool" for succeeded where
  joined: "0 < n \<Longrightarrow> watch_step succeeded (n, q) (Suc n, q)"
| first_joined: "watch_step succeeded (0, q) (Suc 0, q @ [RepoWatchActionStart])"
| first_unasked: "\<not> succeeded \<Longrightarrow> watch_step succeeded (0, q) (Suc 0, q)"
| left: "0 < n \<Longrightarrow> watch_step succeeded (Suc n, q) (n, q)"
| last_left: "watch_step succeeded (Suc 0, q) (0, q @ [RepoWatchActionStop])"

text \<open>A repository whose watching was asked for last has a confirmed subscriber.\<close>

definition watched_for :: "watch \<Rightarrow> bool" where
  "watched_for x = (snd x \<noteq> [] \<and> last (snd x) = RepoWatchActionStart \<longrightarrow> 0 < fst x)"

lemma watched_for_step: "watch_step b x y \<Longrightarrow> watched_for x \<Longrightarrow> watched_for y"
  by (induction rule: watch_step.induct) (auto simp: watched_for_def)

definition asked_for :: "string \<Rightarrow> (string \<times> string) list \<Rightarrow> string list" where
  "asked_for repo rq = map fst (filter (\<lambda>x. snd x = repo) rq)"

lemma asked_for_append [simp]:
  "asked_for repo [] = []" "asked_for repo (rq @ rq') = asked_for repo rq @ asked_for repo rq'"
  "asked_for repo [(a, p)] = (if p = repo then [a] else [])"
  by (simp_all add: asked_for_def)

definition last_request :: "string \<Rightarrow> (string \<times> string) list \<Rightarrow> string option" where
  "last_request repo rq =
     (case rev (filter (\<lambda>x. snd x = repo) rq) of [] \<Rightarrow> None | x # xs \<Rightarrow> Some (fst x))"

lemma last_request_append:
  "last_request repo (rq @ [(a, p)]) = (if p = repo then Some a else last_request repo rq)"
  by (auto simp: last_request_def split: list.splits)

lemma last_request_asked:
  "last_request repo rq = (if asked_for repo rq = [] then None else Some (last (asked_for repo rq)))"
  by (induction rq rule: rev_induct) (auto simp: last_request_def asked_for_def)

definition watch_of :: "string \<Rightarrow> sub_view \<Rightarrow> watch" where
  "watch_of repo x = (affected (confirmed_of repo) (fst x), asked_for repo (snd x))"

section \<open>The operations on the counts\<close>

lemma save_count:
  assumes "fits r = Inr r'" and "\<not> su_Confirmed r" and "save_rows r' rows = Inr rows'"
  shows "affected (confirmed_of repo) rows' = affected (confirmed_of repo) rows"
proof -
  have "\<not> su_Confirmed r'" using assms(1,2) by (auto simp: fits_def split: option.splits)
  moreover have "affected (confirmed_of repo) (update_where q (\<lambda>x. x\<lparr>su_LastSeenTag := t\<rparr>) rows) = affected (confirmed_of repo) rows"
    for q t by (rule affected_update_same) (simp add: confirmed_of_def)
  ultimately show ?thesis
    using assms(3) by (auto simp: save_rows_def confirmed_of_def split: if_splits)
qed

lemma unconfirmed_count:
  "affected (confirmed_of repo) (delete_where (unconfirmed_of e p t) rows) = affected (confirmed_of repo) rows"
  by (rule affected_delete_same) (auto simp: unconfirmed_of_def confirmed_of_def)

lemma confirm_count:
  assumes "keyed su_Token rows" and "find_token token rows = Some r"
  shows "affected (confirmed_of repo) (confirm_rows token rows) =
    affected (confirmed_of repo) rows + of_bool (su_Repo r = repo \<and> \<not> su_Confirmed r)"
proof -
  have r: "r \<in> set rows" "token = su_Token r" using find_row_SomeD assms(2) by (fastforce simp: find_token_def)+
  from affected_update_key[OF assms(1) r(1), where p = "confirmed_of repo" and f = "\<lambda>r. r\<lparr>su_Confirmed := True\<rparr>"] r(2)
  show ?thesis by (auto simp: confirm_rows_def confirmed_of_def of_bool_def split: if_splits)
qed

lemma leave_count:
  assumes "keyed su_Token rows" and "find_token token rows = Some r"
  shows "affected (confirmed_of repo) (leave_rows token rows) + of_bool (confirmed_of repo r) = affected (confirmed_of repo) rows"
proof -
  have r: "r \<in> set rows" "token = su_Token r" using find_row_SomeD assms(2) by (fastforce simp: find_token_def)+
  from affected_delete_key[OF assms(1) r(1), where p = "confirmed_of repo"] r(2) show ?thesis by (simp add: leave_rows_def)
qed

section \<open>The operations on the machine\<close>

datatype api_op =
    OpSubscribe "string option" string string
  | OpConfirm "string option" string
  | OpUnsubscribe "string option" string
  | OpRelease wire

definition api_exec ::
    "env \<Rightarrow> ('d api_db_scheme) notifier \<Rightarrow> ('d api_db_scheme) github_client \<Rightarrow> api_op \<Rightarrow> ('d api_db_scheme, wire, unit) go" where
  "api_exec E n g aop =
     (case aop of
        OpSubscribe rid email repo \<Rightarrow> Subscribe E (subscription_process E n g) rid email repo
      | OpConfirm rid token \<Rightarrow> Service_ConfirmSubscriptionByToken (subscription_process E n g) rid token
      | OpUnsubscribe rid token \<Rightarrow> Unsubscribe E rid token
      | OpRelease v \<Rightarrow> release_handler E (release_process E n) '''' v)"

definition api_history ::
    "env \<Rightarrow> ('d api_db_scheme) notifier \<Rightarrow> ('d api_db_scheme) github_client \<Rightarrow> ((int \<times> int) \<times> api_op) list \<Rightarrow>
     ('d api_db_scheme, wire, unit) go" where
  "api_history E n g ops = for_each (\<lambda>(t, aop). bnd (at_clocks t)
     (\<lambda>_. bnd (attempt (api_exec E n g aop)) (\<lambda>_. ret ()))) ops"

text \<open>The collaborators of a process that has started, with either transport.\<close>

definition deployed :: "env \<Rightarrow> ('d api_db_scheme) notifier \<Rightarrow> ('d api_db_scheme) github_client \<Rightarrow> bool" where
  "deployed E n g = (\<exists>transport hs gs base url gets heads gbase.
     choose_notifier E transport hs gs base url = Inr n \<and> g = NewHTTPGitHubClient gets heads gbase)"

lemma deployedE:
  assumes "deployed E n g"
  obtains (posts) hs base url gets heads gbase where "n = outbox_notifier E hs base url"
      "subscription_process E n g = post_process E hs base url gets heads gbase"
  | (calls) gs base gets heads gbase where "n = grpc_notifier E gs base"
      "subscription_process E n g = call_process E gs base gets heads gbase"
  using assms by (auto simp: deployed_def choose_notifier_def Let_def post_process_def call_process_def split: if_splits)

definition is_confirm :: "api_op \<Rightarrow> bool" where
  "is_confirm aop = (case aop of OpConfirm rid token \<Rightarrow> True | _ \<Rightarrow> False)"

text \<open>
  The repository that an operation may move: that of the row of the token, when a confirmation
  finds it unconfirmed or an unsubscription finds it confirmed.
\<close>

definition moved_repo :: "api_op \<Rightarrow> subscription_row list \<Rightarrow> string option" where
  "moved_repo aop rows =
     (case aop of
        OpConfirm rid token \<Rightarrow> (case find_token token rows of
            Some r \<Rightarrow> if su_Confirmed r then None else Some (su_Repo r) | None \<Rightarrow> None)
      | OpUnsubscribe rid token \<Rightarrow> (case find_token token rows of
            Some r \<Rightarrow> if su_Confirmed r then Some (su_Repo r) else None | None \<Rightarrow> None)
      | _ \<Rightarrow> None)"

text \<open>
  What an operation does to the view: it takes the repository it moves one step up when it is a
  confirmation, down when it is an unsubscription, or none when it failed, and leaves all others.
\<close>

definition watch_moves :: "api_op \<Rightarrow> bool \<Rightarrow> sub_view \<Rightarrow> sub_view \<Rightarrow> bool" where
  "watch_moves aop succeeded x y = (\<forall>repo.
     if moved_repo aop (fst x) = Some repo
     then watch_step succeeded (watch_of repo x) (watch_of repo y) \<and>
         is_confirm aop = (fst (watch_of repo x) < fst (watch_of repo y)) \<or>
       \<not> succeeded \<and> watch_of repo y = watch_of repo x
     else watch_of repo y = watch_of repo x)"

definition exact :: "sub_view \<Rightarrow> bool" where
  "exact x = (\<forall>repo. (last_request repo (snd x) = Some RepoWatchActionStart) = (0 < affected (confirmed_of repo) (fst x)))"

lemma watch_moves_cases:
  assumes "watch_moves aop succeeded x y"
  shows "watch_of repo y = watch_of repo x \<or> watch_step succeeded (watch_of repo x) (watch_of repo y) \<and>
    is_confirm aop = (fst (watch_of repo x) < fst (watch_of repo y))"
  using assms by (auto simp: watch_moves_def split: if_splits)

lemma watch_moves_same: "(\<And>repo. watch_of repo y = watch_of repo x) \<Longrightarrow> moved_repo aop (fst x) = None \<Longrightarrow> watch_moves aop b x y"
  by (simp add: watch_moves_def)

lemma watch_moves_failed: "watch_moves aop False x x"
  by (simp add: watch_moves_def)

text \<open>Exactness, seen in the state of each repository.\<close>

definition asked_right :: "watch \<Rightarrow> bool" where
  "asked_right v = ((snd v \<noteq> [] \<and> last (snd v) = RepoWatchActionStart) = (0 < fst v))"

lemma exact_asked: "exact x = (\<forall>repo. asked_right (watch_of repo x))"
proof -
  have "(last_request repo (snd x) = Some RepoWatchActionStart) = (0 < affected (confirmed_of repo) (fst x)) \<longleftrightarrow>
      asked_right (watch_of repo x)" for repo
    by (simp add: asked_right_def watch_of_def last_request_asked)
  then show ?thesis by (simp add: exact_def)
qed

lemma asked_right_step:
  "watch_step succeeded v v' \<Longrightarrow> succeeded \<or> \<not> fst v < fst v' \<Longrightarrow> asked_right v \<Longrightarrow> asked_right v'"
  by (induction rule: watch_step.induct) (auto simp: asked_right_def action_defs)

lemma watch_moves_exact:
  assumes "watch_moves aop succeeded x y" and "exact x" and "succeeded \<or> \<not> is_confirm aop"
  shows "exact y"
  unfolding exact_asked
proof
  fix repo
  show "asked_right (watch_of repo y)"
    using watch_moves_cases[OF assms(1), of repo] asked_right_step[of succeeded "watch_of repo x" "watch_of repo y"]
      assms(2,3) by (auto simp: exact_asked)
qed

lemma confirm_moves:
  assumes "keyed su_Token rows" and "find_token token rows = Some r"
    and "rq' = start_requests r rows \<or> \<not> succeeded \<and> rq' = []"
  shows "watch_moves (OpConfirm rid token) succeeded (rows, rq) (confirm_rows token rows, rq @ rq')"
  unfolding watch_moves_def
proof
  fix repo
  let ?n = "affected (confirmed_of repo) rows"
  note n = confirm_count[OF assms(1,2), of repo]
  show "if moved_repo (OpConfirm rid token) (fst (rows, rq)) = Some repo
      then watch_step succeeded (watch_of repo (rows, rq)) (watch_of repo (confirm_rows token rows, rq @ rq')) \<and>
          is_confirm (OpConfirm rid token) =
            (fst (watch_of repo (rows, rq)) < fst (watch_of repo (confirm_rows token rows, rq @ rq'))) \<or>
        \<not> succeeded \<and> watch_of repo (confirm_rows token rows, rq @ rq') = watch_of repo (rows, rq)
      else watch_of repo (confirm_rows token rows, rq @ rq') = watch_of repo (rows, rq)"
    using n assms(2,3)
    by (cases "?n = 0") (auto simp: moved_repo_def is_confirm_def watch_of_def start_requests_def intro: watch_step.intros)
qed

lemma leave_moves:
  assumes "keyed su_Token rows" and "find_token token rows = Some r"
  shows "watch_moves (OpUnsubscribe rid token) succeeded (rows, rq) (leave_rows token rows, rq @ stop_requests r (leave_rows token rows))"
  unfolding watch_moves_def
proof
  fix repo
  let ?y = "(leave_rows token rows, rq @ stop_requests r (leave_rows token rows))"
  note n = leave_count[OF assms, of repo]
  show "if moved_repo (OpUnsubscribe rid token) (fst (rows, rq)) = Some repo
      then watch_step succeeded (watch_of repo (rows, rq)) (watch_of repo ?y) \<and>
          is_confirm (OpUnsubscribe rid token) = (fst (watch_of repo (rows, rq)) < fst (watch_of repo ?y)) \<or>
        \<not> succeeded \<and> watch_of repo ?y = watch_of repo (rows, rq)
      else watch_of repo ?y = watch_of repo (rows, rq)"
  proof (cases "confirmed_of repo r")
    case True
    then have "affected (confirmed_of repo) rows = Suc (affected (confirmed_of repo) (leave_rows token rows))"
      using n by simp
    then show ?thesis
      using True assms(2) last_left[of succeeded] left[of "affected (confirmed_of repo) (leave_rows token rows)" succeeded]
      by (auto simp: moved_repo_def is_confirm_def watch_of_def stop_requests_def confirmed_of_def)
  next
    case False
    then show ?thesis
      using n assms(2) by (auto simp: moved_repo_def watch_of_def stop_requests_def confirmed_of_def split: if_splits)
  qed
qed

section \<open>The operations on the database\<close>

definition op_moves :: "env \<Rightarrow> api_op \<Rightarrow> ('d api_db_scheme, wire, 'a) go \<Rightarrow> ('d api_db_scheme, wire) world \<Rightarrow> bool" where
  "op_moves E aop m w = wp m
     (\<lambda>_ w'. api_ok E w' \<and> watch_moves aop True (books E (w_db w)) (books E (w_db w')))
     (\<lambda>_ w'. api_ok E w' \<and> watch_moves aop False (books E (w_db w)) (books E (w_db w'))) w"

text \<open>An operation that moves no repository.\<close>

definition still :: "sub_view \<Rightarrow> sub_view \<Rightarrow> bool" where
  "still x y = (\<forall>repo. watch_of repo y = watch_of repo x)"

lemma still_moves:
  assumes "moved_repo aop = (\<lambda>_. None)" and "wp m (\<lambda>_ w'. api_ok E w' \<and> still (books E (w_db w)) (books E (w_db w')))
    (\<lambda>_ w'. api_ok E w' \<and> still (books E (w_db w)) (books E (w_db w'))) w"
  shows "op_moves E aop m w"
  unfolding op_moves_def by (rule wp_mono[OF assms(2)]) (use assms(1) in \<open>auto simp: still_def intro: watch_moves_same\<close>)

context subscription_desk
begin

text \<open>What \<open>Subscribe\<close> may do to the view: rows come and go unconfirmed.\<close>

lemma newcomer_counts:
  assumes "newcomer email repo w sub" and "saved sub w w' \<or> removed sub w w'"
  shows "still (view (w_db w)) (view (w_db w'))"
proof -
  obtain sub' rows where fit: "fits sub = Inr sub'" and save: "save_rows sub' (fst (view (w_db w))) = Inr rows"
    and v: "view (w_db w') = (rows, snd (view (w_db w))) \<or>
      view (w_db w') = (delete_where (unconfirmed_of (su_Email sub) (su_Repo sub) (su_Token sub)) rows, snd (view (w_db w)))"
    using assms(2) by (auto simp: saved_def removed_def)
  have "\<not> su_Confirmed sub" using assms(1) by (auto simp: newcomer_def new_subscription_def)
  note n = save_count[OF fit this save]
  from v show ?thesis by (auto simp: still_def watch_of_def n unconfirmed_count)
qed

lemma Subscribe_still:
  assumes "ok w"
  shows "wp (Subscribe E s rid email repo) (\<lambda>_ w'. ok w' \<and> still (view (w_db w)) (view (w_db w')))
    (\<lambda>_ w'. ok w' \<and> still (view (w_db w)) (view (w_db w'))) w"
  by (rule wp_mono[OF Subscribe_wp[OF assms]])
    (auto simp: enrolled_def turned_away_def extends_def still_def[of x x for x] intro: newcomer_counts)

end

lemma Subscribe_op:
  assumes "api_ok E w" and "deployed E n g"
  shows "op_moves E (OpSubscribe rid email repo) (Subscribe E (subscription_process E n g) rid email repo) w"
  using assms(2) by (cases rule: deployedE)
    (auto intro!: still_moves post_desk.Subscribe_still call_desk.Subscribe_still assms(1) simp: moved_repo_def)

lemma Confirm_op:
  assumes "api_ok E w"
  shows "op_moves E (OpConfirm rid token) (Service_ConfirmSubscriptionByToken (subscription_process E n g) rid token) w"
proof -
  have tok: "keyed su_Token (subscriptions (w_db w))" using assms by (simp add: api_ok_def)
  have v: "books E (w_db w) = (subscriptions (w_db w), requests E (w_db w))" by (simp add: books_def)
  show ?thesis
    unfolding op_moves_def
    by (rule wp_mono[OF api_store.Confirm_wp[OF assms, of "subscription_process E n g", OF service_sel(1)]])
      (use confirm_moves[OF tok] confirm_moves[OF tok, where rq' = "[]", simplified] watch_moves_failed in
        \<open>auto simp: v\<close>)
qed

lemma Unsubscribe_op:
  assumes "api_ok E w"
  shows "op_moves E (OpUnsubscribe rid' token) (Unsubscribe E rid token) w"
proof -
  let ?x = "books E (w_db w)" and ?moves = "watch_moves (OpUnsubscribe rid' token)"
  have tok: "keyed sub_key (subscriptions (w_db w))" "keyed su_Token (subscriptions (w_db w))"
    using assms by (simp_all add: api_ok_def)
  have moves: "api_ok E w' \<and> ?moves b ?x (books E (w_db w'))"
    if "outside w w'" "find_row (\<lambda>r. su_Token r = token) (subscriptions (w_db w)) = Some r"
      "leaves E (leave_rows token (subscriptions (w_db w)))
        (requests E (w_db w) @ stop_requests r (leave_rows token (subscriptions (w_db w)))) (w_db w') (w_uuids w')" for w' r b
    using leaves_ok[OF assms that(1,3) leave_rows_keyed[OF tok]] leave_moves[OF tok(2), of token r rid' b "requests E (w_db w)"] that(2)
    by (auto simp: books_def find_token_def)
  have same: "api_ok E w' \<and> ?moves False ?x (books E (w_db w'))" if "outside w w'" "w_db w' = w_db w" for w'
    using that api_ok_same[OF assms] by (auto simp: outside_def watch_moves_failed)
  show ?thesis
    unfolding op_moves_def by (rule tx_wp_wp[OF Unsubscribe_tx[OF assms]]) (use moves same in blast)+
qed

context release_announcer
begin

lemma Expand_ok:
  assumes "ok w"
  shows "wp (Expand x event) (\<lambda>_. ok) (\<lambda>_. ok) w"
  by (rule wp_mono[OF Expand_wp[OF assms refl refl]]) (auto simp: told_first_def)

end

lemma Release_op:
  assumes "api_ok E w" and "returning_permutes E" and "deployed E n g"
  shows "op_moves E (OpRelease v') (release_handler E (release_process E n) key v) w"
proof (rule still_moves)
  let ?x = "books E (w_db w)"
  have ok: "expanding E ?x w" using assms(1,2) by (simp add: expanding_def)
  have expand: "wp (Expand (release_process E n) event) (\<lambda>_. expanding E ?x) (\<lambda>_. expanding E ?x) w" for event
    using assms(3) by (cases rule: deployedE) (auto intro: outbox_releases.Expand_ok[OF ok] grpc_releases.Expand_ok[OF ok])
  show "wp (release_handler E (release_process E n) key v)
      (\<lambda>_ w'. api_ok E w' \<and> still ?x (books E (w_db w'))) (\<lambda>_ w'. api_ok E w' \<and> still ?x (books E (w_db w'))) w"
    unfolding release_handler_def
    by (cases "decode_envelope E decode_release v")
      (auto simp: wp_raise still_def assms(1) expanding_def intro: wp_mono[OF expand])
qed (simp add: moved_repo_def fun_eq_iff)

lemma api_exec_moves:
  assumes "api_ok E w" and "returning_permutes E" and "deployed E n g"
  shows "op_moves E aop (api_exec E n g aop) w"
  using assms
  by (cases aop) (auto simp: api_exec_def intro: Subscribe_op Confirm_op Unsubscribe_op Release_op)

section \<open>Guarantees\<close>

lemma exec_moved:
  assumes "api_ok E w" and "returning_permutes E" and "deployed E n g" and "api_exec E n g aop w = (r, w')"
  shows "api_ok E w' \<and> watch_moves aop (r = Inr ()) (books E (w_db w)) (books E (w_db w'))"
  using wp_run[OF assms(4) api_exec_moves[OF assms(1-3), of aop, unfolded op_moves_def]] by (cases r) simp_all

text \<open>
  C3. Under any pattern of failures and with either notification transport, each operation of
  the subscription API keeps the keys of the table and moves the watching of at most one
  repository, by at most one step.  Subscribing and expanding a release move none.  A confirmation that
  succeeds on an unconfirmed row adds a subscriber, and asks for the start exactly when it is
  the first one; an unsubscription that succeeds on a confirmed row takes one away, and asks for
  the stop exactly when it was the last one.  An operation that returns an error does the same step, or
  none, or confirms the first subscriber without asking for the start.  No other request is made.
\<close>

theorem subscriptions_refine_watch:
  assumes "api_ok E w" and "returning_permutes E" and "deployed E n g" and "api_exec E n g aop w = (r, w')"
  shows "let x = books E (w_db w); y = books E (w_db w'); succeeded = (r = Inr ()) in
    api_ok E w' \<and>
    (\<forall>repo. if moved_repo aop (fst x) = Some repo
       then watch_step succeeded (watch_of repo x) (watch_of repo y) \<and>
           is_confirm aop = (fst (watch_of repo x) < fst (watch_of repo y)) \<or>
         \<not> succeeded \<and> watch_of repo y = watch_of repo x
       else watch_of repo y = watch_of repo x)"
  using exec_moved[OF assms] unfolding Let_def watch_moves_def .

text \<open>
  C16. Whatever fails, an operation keeps the watching exact (the last saga request of a repository is
  a start if and only if the repository has a confirmed subscriber) unless it is a confirmation
  that returned an error to its caller.
\<close>

theorem watching_follows_subscribers:
  assumes "api_ok E w" and "returning_permutes E" and "deployed E n g" and "api_exec E n g aop w = (r, w')"
    and "exact (books E (w_db w))" and "is_confirm aop \<longrightarrow> r = Inr ()"
  shows "exact (books E (w_db w'))"
  using watch_moves_exact[OF conjunct2[OF exec_moved[OF assms(1-4)]] assms(5)] assms(6) by blast

lemma api_history_inv:
  assumes "api_ok E w" and "returning_permutes E" and "deployed E n g" and "P (watch_of repo (books E (w_db w)))"
    and step: "\<And>b x y. P x \<Longrightarrow> watch_step b x y \<Longrightarrow> P y"
  shows "wp (api_history E n g ops) (\<lambda>_ w'. api_ok E w' \<and> P (watch_of repo (books E (w_db w'))))
    (\<lambda>_ w'. api_ok E w' \<and> P (watch_of repo (books E (w_db w')))) w"
  unfolding api_history_def
proof (rule wp_for_each_inv[where I = "\<lambda>w'. api_ok E w' \<and> P (watch_of repo (books E (w_db w')))"])
  show "api_ok E w \<and> P (watch_of repo (books E (w_db w)))" using assms by simp
next
  fix x :: "(int \<times> int) \<times> api_op" and w :: "('a api_db_scheme, wire) world"
  assume w: "api_ok E w \<and> P (watch_of repo (books E (w_db w)))"
  obtain t aop where x: "x = (t, aop)" by (cases x)
  let ?w = "w\<lparr>w_app_now := fst t, w_pg_now := snd t\<rparr>"
  have ok: "api_ok E ?w" using api_ok_same[of E w ?w] w by simp
  have go_on: "P (watch_of repo v)" if "watch_moves aop b (books E (w_db w)) v" for b v
    using watch_moves_cases[OF that, of repo] step w by metis
  have "wp (api_exec E n g aop) (\<lambda>_ w'. api_ok E w' \<and> P (watch_of repo (books E (w_db w'))))
      (\<lambda>_ w'. api_ok E w' \<and> P (watch_of repo (books E (w_db w')))) ?w"
    by (rule wp_mono[OF api_exec_moves[OF ok assms(2,3), of aop, unfolded op_moves_def]]) (auto intro: go_on)
  then show "wp (case x of (t, aop) \<Rightarrow> bnd (at_clocks t) (\<lambda>_. bnd (attempt (api_exec E n g aop)) (\<lambda>_. ret ())))
      (\<lambda>_ w'. api_ok E w' \<and> P (watch_of repo (books E (w_db w'))))
      (\<lambda>_ w'. api_ok E w' \<and> P (watch_of repo (books E (w_db w')))) w"
    by (simp add: x wp_bnd wp_at_clocks wp_attempt wp_ret)
qed

text \<open>
  No repository without confirmed subscribers is left watched: over any history of the API
  with any failures, a repository whose last saga request is a start has a confirmed subscriber.
\<close>

theorem watched_repos_have_subscribers:
  assumes "api_ok E w" and "returning_permutes E" and "deployed E n g"
    and "watched_for (watch_of repo (books E (w_db w)))" and "api_history E n g ops w = (r, w')"
  shows "last_request repo (requests E (w_db w')) = Some RepoWatchActionStart \<longrightarrow>
    (\<exists>row \<in> set (subscriptions (w_db w')). su_Repo row = repo \<and> su_Confirmed row)"
  using wp_bothD[OF assms(5) api_history_inv[where P = watched_for, OF assms(1-4) watched_for_step]]
  by (auto simp: watched_for_def watch_of_def last_request_asked affected_pos confirmed_of_def split: if_splits)

end
