(* ===== verification/Subscription_Results.thy ===== *)
theory Subscription_Results
  imports Subscription_Watch
begin

text \<open>
  The guarantees of subscribing and of expanding a release, and the two weaknesses of the
  subscription saga: a confirmation that can lose its request, and a link that can be dead.
\<close>

section \<open>Subscribing\<close>

text \<open>\<open>uuid.NewString\<close> writes no blanks; a text without blanks fits a column whole or not at all.\<close>

definition plain_uuids :: "env \<Rightarrow> bool" where
  "plain_uuids E = (\<forall>n. CHR '' '' \<notin> set (uuid_gen E n))"

lemma split_chars_append: "split_chars n s = (a, b) \<Longrightarrow> s = a @ b"
  by (induction n s arbitrary: a b rule: split_chars.induct) (auto split: if_splits prod.splits)

lemma varchar_no_blank:
  assumes "CHR '' '' \<notin> set s" and "varchar n s = Some t"
  shows "t = s"
proof -
  obtain a b where ab: "split_chars n s = (a, b)" by (cases "split_chars n s")
  then have s: "s = a @ b" by (rule split_chars_append)
  have t: "t = a" "list_all (\<lambda>c. c = CHR '' '') b" using assms(2) ab by (auto simp: varchar_def split: if_splits)
  have "b = []"
  proof (cases b)
    case (Cons c cs)
    then have "CHR '' '' \<in> set s" using s t(2) by simp
    then show ?thesis using assms(1) by simp
  qed simp
  then show ?thesis using s t by simp
qed

lemma fits_plain:
  assumes "fits sub = Inr sub'" and "CHR '' '' \<notin> set (su_Email sub)" and "CHR '' '' \<notin> set (su_Repo sub)"
    and "CHR '' '' \<notin> set (su_Token sub)"
  shows "su_Email sub' = su_Email sub \<and> su_Repo sub' = su_Repo sub \<and> su_Token sub' = su_Token sub \<and>
    su_Confirmed sub' = su_Confirmed sub"
  using assms by (auto simp: fits_def dest!: varchar_no_blank split: option.splits)

text \<open>The new row of a subscriber, unconfirmed and at the end of the table.\<close>

definition joins :: "string \<Rightarrow> string \<Rightarrow> subscription_row list \<Rightarrow> subscription_row \<Rightarrow> subscription_row list \<Rightarrow> bool" where
  "joins email repo old sub new = (su_Email sub = email \<and> su_Repo sub = repo \<and> \<not> su_Confirmed sub \<and>
     su_Token sub \<notin> su_Token ` set old \<and> new = old @ [sub])"

context subscription_desk
begin

lemma newcomer_joins:
  assumes "newcomer email repo w sub" and "plain_uuids E" and "CHR '' '' \<notin> set email" and "CHR '' '' \<notin> set repo"
  shows "saved sub w w' \<Longrightarrow> \<exists>sub'. su_Token sub' = su_Token sub \<and>
      joins email repo (fst (view (w_db w))) sub' (fst (view (w_db w')))"
    and "removed sub w w' \<Longrightarrow> fst (view (w_db w')) = fst (view (w_db w))"
proof -
  let ?old = "fst (view (w_db w))"
  obtain tag i where sub: "sub = new_subscription email repo tag (uuid_gen E i)" and new: "(email, repo) \<notin> sub_key ` set ?old"
    using assms(1) by (auto simp: newcomer_def)
  have row: "su_Email sub = email" "su_Repo sub = repo" "\<not> su_Confirmed sub" "CHR '' '' \<notin> set (su_Token sub)"
    using assms(2) by (auto simp: sub new_subscription_def plain_uuids_def)
  have joined: "su_Token sub' = su_Token sub \<and> joins email repo ?old sub' rows"
    if fit: "fits sub = Inr sub'" and save: "save_rows sub' ?old = Inr rows" for sub' rows
  proof -
    have "su_Email sub' = email" "su_Repo sub' = repo" "su_Token sub' = su_Token sub" "\<not> su_Confirmed sub'"
      using fits_plain[OF fit] row assms(3,4) by auto
    moreover from this have "sub_key sub' \<notin> sub_key ` set ?old" using new by (simp add: sub_key_def)
    ultimately show ?thesis using save by (auto simp: save_rows_def joins_def split: if_splits)
  qed
  show "saved sub w w' \<Longrightarrow> \<exists>sub'. su_Token sub' = su_Token sub \<and> joins email repo ?old sub' (fst (view (w_db w')))"
    using joined by (force simp: saved_def)
  assume "removed sub w w'"
  then obtain sub' rows where "fits sub = Inr sub'" "save_rows sub' ?old = Inr rows"
    and v: "fst (view (w_db w')) = delete_where (unconfirmed_of email repo (su_Token sub)) rows"
    by (auto simp: removed_def row)
  from joined[OF this(1,2)] have j: "joins email repo ?old sub' rows" "su_Token sub' = su_Token sub" by auto
  then have "delete_where (unconfirmed_of email repo (su_Token sub)) rows = delete_where (unconfirmed_of email repo (su_Token sub)) ?old"
    by (auto simp: joins_def delete_where_def unconfirmed_of_def)
  also have "\<dots> = ?old" using j by (intro delete_where_none) (force simp: joins_def unconfirmed_of_def image_iff)
  finally show "fst (view (w_db w')) = ?old" using v by simp
qed

text \<open>The outcomes of \<open>Subscribe\<close> in terms of the table.\<close>

definition subscribe_outcome :: "string option \<Rightarrow> string \<Rightarrow> string \<Rightarrow> goerr + unit \<Rightarrow> ('db, wire) world \<Rightarrow> ('db, wire) world \<Rightarrow> bool" where
  "subscribe_outcome rid email repo r w w' =
     (let old = fst (view (w_db w)); new = fst (view (w_db w')) in
      snd (view (w_db w')) = snd (view (w_db w)) \<and>
      (new = old \<or> (\<exists>sub. joins email repo old sub new)) \<and>
      ((email, repo) \<in> sub_key ` set old \<longrightarrow> new = old \<and> r \<noteq> Inr ()) \<and>
      (r = Inr () \<longrightarrow> (\<exists>sub tr. joins email repo old sub new \<and> w_trace w' = w_trace w @ tr \<and>
         told rid email repo (su_Token sub) tr)) \<and>
      (\<forall>e. r = Inl e \<and> compensated e \<longrightarrow> new = old))"

lemma Subscribe_outcome:
  assumes "ok w" and "plain_uuids E" and "CHR '' '' \<notin> set email" and "CHR '' '' \<notin> set repo"
    and "Subscribe E s rid email repo w = (r, w')"
  shows "subscribe_outcome rid email repo r w w'"
proof -
  note new = newcomer_joins[OF _ assms(2-4), where w = w and w' = w']
  have rq: "snd (view (w_db w')) = snd (view (w_db w))" if "saved sub w w' \<or> removed sub w w'" for sub
    using that by (auto simp: saved_def removed_def)
  show ?thesis
  proof (cases r)
    case (Inr u)
    then have "enrolled rid email repo w w'" using wp_run[OF assms(5) Subscribe_wp[OF assms(1)]] by simp
    then obtain sub tr where sub: "newcomer email repo w sub" "saved sub w w'" "w_trace w' = w_trace w @ tr"
      "told rid email repo (su_Token sub) tr" by (auto simp: enrolled_def)
    from new(1)[OF sub(1,2)] obtain sub' where "su_Token sub' = su_Token sub"
      "joins email repo (fst (view (w_db w))) sub' (fst (view (w_db w')))" by blast
    with sub rq[of sub] Inr show ?thesis by (auto simp: subscribe_outcome_def Let_def newcomer_def)
  next
    case (Inl e)
    then have "turned_away email repo e w w'" using wp_run[OF assms(5) Subscribe_wp[OF assms(1)]] by simp
    then show ?thesis
      using Inl new rq by (auto simp: subscribe_outcome_def turned_away_def Let_def) (metis fst_conv snd_conv)+
  qed
qed

end

text \<open>
  C17. Subscribing leaves the sagas alone and never touches an existing row.  When it succeeds the
  table has one new unconfirmed row at its end and the notification service was given the link
  with the token of that row; when the confirmation could not be sent and the caller sees the
  error of a finished compensation, the table is as before; a known pair of e-mail and repository
  is refused and changes nothing.
\<close>

theorem subscribe_is_compensated:
  assumes "api_ok E w" and "plain_uuids E" and "CHR '' '' \<notin> set email" and "CHR '' '' \<notin> set repo"
    and "Subscribe E (post_process E hs baseURL url gets heads gbase) rid email repo w = (r, w')"
  shows "let old = subscriptions (w_db w); new = subscriptions (w_db w') in
    requests E (w_db w') = requests E (w_db w) \<and>
    (new = old \<or> (\<exists>sub. joins email repo old sub new)) \<and>
    ((email, repo) \<in> sub_key ` set old \<longrightarrow> new = old \<and> r \<noteq> Inr ()) \<and>
    (r = Inr () \<longrightarrow> (\<exists>sub. joins email repo old sub new \<and> w_trace w' = w_trace w @
       [Posted (confirmation_link url) rid (Some (confirmation_body email repo (confirm_url baseURL (su_Token sub))))])) \<and>
    (\<forall>e. r = Inl e \<and> compensated e \<longrightarrow> new = old)"
  using post_desk.Subscribe_outcome[OF assms]
  by (auto simp: post_desk.subscribe_outcome_def told_by_post_def Let_def)

section \<open>The gap between confirming and asking for the watch\<close>

lemma confirm_rows_found:
  "find_row (\<lambda>r. su_Token r = token) rows = Some r \<Longrightarrow>
   find_row (\<lambda>r. su_Token r = token) (confirm_rows token rows) = Some (r\<lparr>su_Confirmed := True\<rparr>)"
  by (induction rows) (auto simp: find_row_def confirm_rows_def)

lemma confirm_rows_twice: "confirm_rows token (confirm_rows token rows) = confirm_rows token rows"
  by (induction rows) (auto simp: confirm_rows_def)

lemma confirmed_again:
  fixes w :: "('d api_db_scheme, wire) world"
  assumes "w_script w = []" and "find_row (\<lambda>r. su_Token r = token) (subscriptions (w_db w)) = Some r" and "su_Confirmed r"
    and "confirm_rows token (subscriptions (w_db w)) = subscriptions (w_db w)"
  shows "\<exists>w'. Service_ConfirmSubscriptionByToken (subscription_process E n g) rid token w = (Inr (), w') \<and> w_db w' = w_db w"
proof -
  have "(w_db w)\<lparr>subscriptions := update_where (\<lambda>r. su_Token r = token) (su_Confirmed_update (\<lambda>_. True)) (subscriptions (w_db w))\<rparr> = w_db w"
    using assms(4) by (simp add: confirm_rows_def)
  then have "wp (Service_ConfirmSubscriptionByToken (subscription_process E n g) rid token) (\<lambda>_ w'. w_db w' = w_db w) (\<lambda>_ _. False) w"
    using assms(1-3)
    by (simp add: Service_ConfirmSubscriptionByToken_def subscription_repository_def Repo_ConfirmSubscriptionByToken_def
        row_by_token_def wp_simps sql_by_token_def sql_count_confirmed_def sql_confirm_def)
  then show ?thesis using wp_returns by fastforce
qed

text \<open>
  C37. The confirmation is committed before the saga is requested, in a transaction of its own: when
  that second transaction cannot be opened the subscriber is confirmed and no watch was asked for.
  Confirming again succeeds and changes nothing, so the request is never made up for.
\<close>

theorem confirmed_without_watch:
  fixes w :: "('d api_db_scheme, wire) world"
  assumes "find_row (\<lambda>r. su_Token r = token) (subscriptions (w_db w)) = Some row" and "\<not> su_Confirmed row"
    and "affected (confirmed_of (su_Repo row)) (subscriptions (w_db w)) = 0"
    and "w_script w = [Succeed, Succeed, Succeed, Succeed, Succeed, Fail cause]"
  shows "\<exists>e w1 w2. Service_ConfirmSubscriptionByToken (subscription_process E n g) rid token w = (Inl e, w1) \<and>
    Service_ConfirmSubscriptionByToken (subscription_process E n g) rid token w1 = (Inr (), w2) \<and> w_db w2 = w_db w1 \<and>
    subscriptions (w_db w1) = confirm_rows token (subscriptions (w_db w)) \<and> outbox_events (w_db w1) = outbox_events (w_db w)"
proof -
  have "wp (Service_ConfirmSubscriptionByToken (subscription_process E n g) rid token) (\<lambda>_ _. False)
      (\<lambda>_ w'. w_script w' = [] \<and> subscriptions (w_db w') = confirm_rows token (subscriptions (w_db w)) \<and>
         outbox_events (w_db w') = outbox_events (w_db w)) w"
    using assms
    by (simp add: Service_ConfirmSubscriptionByToken_def subscription_repository_def Repo_ConfirmSubscriptionByToken_def
        RequestRepoWatchSaga_def row_by_token_def wp_simps sql_by_token_def sql_count_confirmed_def sql_confirm_def
        next_o_def confirm_rows_def)
  from wp_raises[OF this] obtain e w1 where first: "Service_ConfirmSubscriptionByToken (subscription_process E n g) rid token w = (Inl e, w1)"
    and w1: "w_script w1 = []" "subscriptions (w_db w1) = confirm_rows token (subscriptions (w_db w))"
      "outbox_events (w_db w1) = outbox_events (w_db w)" by blast
  have "find_row (\<lambda>r. su_Token r = token) (subscriptions (w_db w1)) = Some (row\<lparr>su_Confirmed := True\<rparr>)"
    using confirm_rows_found[OF assms(1)] w1 by simp
  from confirmed_again[OF w1(1) this] w1(2) first w1 show ?thesis by (simp add: confirm_rows_twice)
qed

section \<open>A racing subscriber\<close>

text \<open>
  When another request has saved the same e-mail and repository between the check and the save,
  the save keeps the first token, but the second confirmation is sent with the new one: the
  request succeeds, and no row has the token of the link that was sent.
\<close>

theorem racing_subscriber_gets_dead_link:
  fixes w :: "('d api_db_scheme, wire) world"
  assumes "sub_key sub \<in> sub_key ` set (subscriptions (w_db w))" and "su_Token sub \<notin> su_Token ` set (subscriptions (w_db w))"
    and "fits sub = Inr sub" and "w_script w = []" and "trim_slashes url \<noteq> ''''"
    and "hs (w_app_now w) (confirmation_link url) = HttpReply code body" and "200 \<le> code" and "code < 300"
  shows "\<exists>w'. save_and_notify (post_process E hs baseURL url gets heads gbase) rid sub w = (Inr (), w') \<and>
    w_trace w' = w_trace w @
      [Posted (confirmation_link url) rid (Some (confirmation_body (su_Email sub) (su_Repo sub) (confirm_url baseURL (su_Token sub))))] \<and>
    find_token (su_Token sub) (subscriptions (w_db w')) = None"
proof -
  let ?rows = "update_where (\<lambda>x. sub_key x = sub_key sub) (\<lambda>x. x\<lparr>su_LastSeenTag := su_LastSeenTag sub\<rparr>) (subscriptions (w_db w))"
  have "find_token (su_Token sub) ?rows = None"
    using assms(2) by (force simp: find_token_def find_row_None set_update_where image_iff)
  moreover have "sql_save sub d now = Inr ((), d\<lparr>subscriptions := ?rows\<rparr>)" if "subscriptions d = subscriptions (w_db w)"
    for d :: "'d api_db_scheme" and now
    using assms(1,3) that by (simp add: sql_save_def save_rows_def)
  ultimately have "wp (save_and_notify (post_process E hs baseURL url gets heads gbase) rid sub)
      (\<lambda>_ w'. w_trace w' = w_trace w @
         [Posted (confirmation_link url) rid (Some (confirmation_body (su_Email sub) (su_Repo sub) (confirm_url baseURL (su_Token sub))))] \<and>
         find_token (su_Token sub) (subscriptions (w_db w')) = None) (\<lambda>_ _. False) w"
    using assms(4-8)
    by (simp add: save_and_notify_def post_process_def subscription_repository_def SaveSubscription_def saveSubscription_def
        outbox_notifier_def Outbox_SendConfirmation_def NewOutboxNotificationPublisher_def http_post_def wp_simps
        confirmation_link_def)
  then show ?thesis using wp_returns by fastforce
qed

end
