(* ===== verification/Http_Results.thy ===== *)
theory Http_Results
  imports Http_Api Subscription_Results
begin

text \<open>
  What the HTTP interface of the subscription API promises: the status of an answer tells what
  became of the request.
\<close>

section \<open>Errors of a subscription that was not tried\<close>

definition early :: "sentinel set" where
  "early = {ErrAlreadySubscribed, ErrRepoNotFound, ErrGitHubRateLimit, ErrGitHubUnavailable}"

definition turned_down :: "goerr \<Rightarrow> bool" where
  "turned_down e = (\<exists>t \<in> early. errors_is e t)"

lemma avoids_save_and_notify:
  assumes "t \<in> early"
  shows "avoids t (save_and_notify (post_process E hs baseURL url gets heads gbase :: ('d api_db_scheme) subscription_service) rid sub)"
proof -
  let ?s = "post_process E hs baseURL url gets heads gbase :: ('d api_db_scheme) subscription_service"
  have t: "t \<noteq> ErrConfirmationUnavailable" using assms by (auto simp: early_def)
  have save: "\<not> errors_is e t" if "sql_save r d now = Inl e" for r now e and d :: "'d api_db_scheme"
    using that by (auto simp: sql_save_def fits_def save_rows_def too_long_def token_taken_def sum_bind_def sum_map_def
        split: sum.splits option.splits if_splits)
  have notify: "avoids t (nf_SendConfirmation (outbox_notifier E hs baseURL url :: ('d api_db_scheme) notifier) rid a b c)" for a b c
    unfolding outbox_notifier_def notifier.simps Outbox_SendConfirmation_def http_post_def
    by (auto intro!: avoids_rules split: http_reply.split)
  have undo: "avoids t (DeleteUnconfirmedSubscription a b c :: ('d api_db_scheme, wire, unit) go)" for a b c
    unfolding DeleteUnconfirmedSubscription_def by (auto intro!: avoids_rules simp: sql_delete_unconfirmed_def)
  have comp: "avoids t (compensate ?s sub err)"
    if "\<not> errors_is err t" for err
    unfolding compensate_def by (rule avoids_inspect) (use that t undo in \<open>auto intro!: avoids_rules simp: subscription_repository_def\<close>)
  show ?thesis
    unfolding save_and_notify_def
  proof (rule avoids_bnd)
    show "avoids t (ub_SaveSubscription (uv_repo ?s) sub)"
      unfolding service_repo subscription_repository_def subscription_store.simps SaveSubscription_def saveSubscription_def
      by (intro avoids_rules) (erule save)
    show "avoids t (bnd (attempt (uv_notifications ?s rid (su_Email sub)
        (su_Repo sub) (su_Token sub))) (\<lambda>r. case r of
          Inl err \<Rightarrow> compensate ?s sub err | Inr _ \<Rightarrow> ret ()))"
      by (rule avoids_inspect) (use comp in \<open>auto simp: post_process_def intro!: notify avoids_rules\<close>)
  qed
qed

lemma Subscribe_turned_down:
  fixes w :: "('d api_db_scheme, wire) world"
  shows "wp (Subscribe E (post_process E hs baseURL url gets heads gbase) rid email repo) (\<lambda>_ _. True)
    (\<lambda>e w'. turned_down e \<longrightarrow> outside w w' \<and> w_db w' = w_db w \<and>
       (errors_is e ErrAlreadySubscribed \<longrightarrow> (email, repo) \<in> sub_key ` set (subscriptions (w_db w)))) w"
    (is "wp _ _ ?R w")
proof -
  let ?s = "post_process E hs baseURL url gets heads gbase :: ('d api_db_scheme) subscription_service"
  have rest: "wp (bnd (attempt (gh_GetLatestTag (uv_github ?s) repo)) (\<lambda>r. let tag = (case r of Inr t \<Rightarrow> t | Inl _ \<Rightarrow> '''') in
      bnd (new_uuid (uuid_gen E)) (\<lambda>token. save_and_notify ?s rid (new_subscription email repo tag token)))) (\<lambda>_ _. True) ?R w1" for w1
  proof -
    have "avoids t (bnd (attempt (gh_GetLatestTag (uv_github ?s) repo)) (\<lambda>r. let tag = (case r of Inr t \<Rightarrow> t | Inl _ \<Rightarrow> '''') in
      bnd (new_uuid (uuid_gen E)) (\<lambda>token. save_and_notify ?s rid (new_subscription email repo tag token))))" if "t \<in> early" for t
      unfolding Let_def by (intro avoids_rules avoids_save_and_notify that)
    from avoids_all[OF this] show ?thesis by (rule wp_mono) (auto simp: turned_down_def)
  qed
  have check: "wp (bnd (validateRepo ?s repo) (\<lambda>_. k)) (\<lambda>_ _. True) ?R w1"
    if w1: "outside w w1" "w_db w1 = w_db w" and k: "\<And>w2. wp k (\<lambda>_ _. True) ?R w2" for w1 and k :: "('d api_db_scheme, wire, unit) go"
  proof -
    have "avoids ErrAlreadySubscribed (gh_CheckIfRepoExists (uv_github ?s) repo)"
      unfolding post_process_def service_sel NewHTTPGitHubClient_def GitHub_CheckIfRepoExists_def http_get_def Let_def
        github_client.simps case_prod_beta
      by (auto intro!: avoids_rules split: http_reply.splits)
    from avoidsD[OF this, of w1] reads_onlyD[OF github_laws(2), of gets heads gbase repo w1]
    have "wp (gh_CheckIfRepoExists (uv_github ?s) repo) (\<lambda>_ w'. True \<and> outside w1 w' \<and> w_db w' = w_db w1)
        (\<lambda>e w'. \<not> errors_is e ErrAlreadySubscribed \<and> outside w1 w' \<and> w_db w' = w_db w1) w1"
      unfolding wp_conj[of _ "\<lambda>_ _. True"] by (simp add: post_process_def)
    then show ?thesis
      unfolding validateRepo_def wp_bnd wp_attempt
      by (rule wp_mono) (use w1 k in \<open>auto simp: wp_simps intro: outside_trans\<close>)
  qed
  have exists: "wp (ub_SubscriptionExists (subscription_repository E) email repo)
      (\<lambda>b w1. outside w w1 \<and> w_db w1 = w_db w \<and> b = ((email, repo) \<in> sub_key ` set (subscriptions (w_db w))))
      (\<lambda>e w1. \<not> turned_down e) w"
    by (auto simp: subscription_repository_def SubscriptionExists_def wp_simps sql_exists_def outside_def turned_down_def list_ex_iff sub_key_def image_iff
        split: call_outcome.split)
  show ?thesis
    unfolding Subscribe_def service_repo wp_bnd[of "annot _ _"] wp_annot
  proof (rule wp_mono[OF exists])
    fix b w1
    assume b: "outside w w1 \<and> w_db w1 = w_db w \<and> b = ((email, repo) \<in> sub_key ` set (subscriptions (w_db w)))"
    show "wp (if b then raise (Sentinel ErrAlreadySubscribed) else bnd (validateRepo ?s repo) (\<lambda>_.
        bnd (attempt (gh_GetLatestTag (uv_github ?s) repo)) (\<lambda>r. let tag = (case r of Inr t \<Rightarrow> t | Inl _ \<Rightarrow> '''') in
        bnd (new_uuid (uuid_gen E)) (\<lambda>token. save_and_notify ?s rid (new_subscription email repo tag token))))) (\<lambda>_ _. True) ?R w1"
      using b check[OF _ _ rest] by (auto simp: wp_raise)
  qed (simp add: turned_down_def)
qed

section \<open>Requests\<close>

lemma serve_wp:
  assumes "map_of (api_routes E h) (rq_Method rq, rq_FullPath rq) = Some hdl"
    and "\<And>i w1. outside w w1 \<Longrightarrow> w_db w1 = w_db w \<Longrightarrow> wp (hdl (context_id i) rq) (\<lambda>rp. Q (i, rp)) R w1"
  shows "wp (serve E h other rq) Q R w"
  using assms(2)[of w] assms(2)[of "w\<lparr>w_uuids := Suc (w_uuids w)\<rparr>"]
  by (simp add: serve_def assms(1) requestIDMiddleware_def Normalize_def wp_simps outside_def)

lemma handle_subscribe_wp:
  assumes "\<And>input. bind_subscription (rq_Body rq) = Inr input \<Longrightarrow> matches emailPattern (su_Email input) \<Longrightarrow>
      matches repoPattern (su_Repo input) \<Longrightarrow> wp (rd_Subscribe h rid (su_Email input) (su_Repo input))
        (\<lambda>_. Q \<lparr>ht_Status = 200, ht_JSON = JObj [(''success'', JStr ''Subscription successful. Confirmation email sent.'')]\<rparr>)
        (\<lambda>e. Q \<lparr>ht_Status = fst (subscribe_problem e), ht_JSON = JObj [(''error'', JStr (snd (subscribe_problem e)))]\<rparr>) w"
    and "\<And>msg. Q \<lparr>ht_Status = 400, ht_JSON = JObj [(''error'', JStr msg)]\<rparr> w"
  shows "wp (handle_subscribe h rid rq) Q R w"
proof (cases "bind_subscription (rq_Body rq)")
  case (Inr input)
  show ?thesis
  proof (cases "matches emailPattern (su_Email input) \<and> matches repoPattern (su_Repo input)")
    case True
    with assms(1)[OF Inr] show ?thesis
      by (simp add: handle_subscribe_def Inr wp_simps problem_def respond_def case_prod_beta)
  qed (use assms(2) in \<open>auto simp: handle_subscribe_def Inr wp_simps problem_def respond_def\<close>)
qed (use assms(2) in \<open>simp add: handle_subscribe_def wp_simps problem_def respond_def\<close>)

text \<open>What the status of an answer to a subscription tells.\<close>

definition subscribe_status ::
    "string \<Rightarrow> string \<Rightarrow> string option \<Rightarrow> string \<Rightarrow> string \<Rightarrow> int \<Rightarrow>
     ('d api_db_scheme, wire) world \<Rightarrow> ('d api_db_scheme, wire) world \<Rightarrow> bool" where
  "subscribe_status baseURL url rid email repo code w w' =
     (let old = subscriptions (w_db w); new = subscriptions (w_db w') in
      code \<in> {200, 404, 409, 429, 500, 502, 503} \<and>
      (code = 200 \<longrightarrow> (\<exists>sub. joins email repo old sub new \<and> w_trace w' = w_trace w @
         [Posted (confirmation_link url) rid (Some (confirmation_body email repo (confirm_url baseURL (su_Token sub))))])) \<and>
      (code \<in> {404, 409, 429, 502} \<longrightarrow> w_db w' = w_db w \<and> w_trace w' = w_trace w) \<and>
      (code = 409 \<longrightarrow> (email, repo) \<in> sub_key ` set old) \<and>
      (code \<in> {500, 503} \<longrightarrow> new = old \<or> (\<exists>sub. joins email repo old sub new)))"

lemma subscribe_problem_status:
  "fst (subscribe_problem e) \<in> {404, 409, 429, 500, 502, 503}"
  "fst (subscribe_problem e) \<in> {404, 409, 429, 502} \<Longrightarrow> turned_down e"
  "fst (subscribe_problem e) = 409 \<Longrightarrow> errors_is e ErrAlreadySubscribed"
  by (auto simp: subscribe_problem_def turned_down_def early_def split: if_splits)

lemma plain_text_no_blank: "plain_text s \<Longrightarrow> CHR '' '' \<notin> set s"
  by (auto simp: plain_text_def)

lemma Subscribe_status_wp:
  fixes w :: "('d api_db_scheme, wire) world"
  assumes "api_ok E w" and "plain_uuids E" and "plain_text email" and "plain_text repo"
  shows "wp (Subscribe E (post_process E hs baseURL url gets heads gbase) rid email repo)
    (\<lambda>_ w'. requests E (w_db w') = requests E (w_db w) \<and> subscribe_status baseURL url rid email repo 200 w w')
    (\<lambda>e w'. requests E (w_db w') = requests E (w_db w) \<and>
       subscribe_status baseURL url rid email repo (fst (subscribe_problem e)) w w') w"
proof (rule wp_intro)
  note out = post_desk.Subscribe_outcome[OF assms(1,2) plain_text_no_blank[OF assms(3)] plain_text_no_blank[OF assms(4)]]
  fix a w' assume "Subscribe E (post_process E hs baseURL url gets heads gbase) rid email repo w = (Inr a, w')"
  from out[OF this] show "requests E (w_db w') = requests E (w_db w) \<and> subscribe_status baseURL url rid email repo 200 w w'"
    by (simp add: post_desk.subscribe_outcome_def subscribe_status_def told_by_post_def Let_def)
next
  note out = post_desk.Subscribe_outcome[OF assms(1,2) plain_text_no_blank[OF assms(3)] plain_text_no_blank[OF assms(4)]]
  fix e w' assume run: "Subscribe E (post_process E hs baseURL url gets heads gbase) rid email repo w = (Inl e, w')"
  from wp_errD[OF run Subscribe_turned_down] out[OF run] subscribe_problem_status[of e]
  show "requests E (w_db w') = requests E (w_db w) \<and> subscribe_status baseURL url rid email repo (fst (subscribe_problem e)) w w'"
    by (auto simp: post_desk.subscribe_outcome_def subscribe_status_def outside_def Let_def)
qed

lemma api_deps_sel [simp]:
  "rd_APIKey (api_deps E key n g) = key"
  "rd_Subscribe (api_deps E key (outbox_notifier E hs baseURL url) (NewHTTPGitHubClient gets heads gbase)) =
     Subscribe E (post_process E hs baseURL url gets heads gbase)"
  "rd_Confirm (api_deps E key n g) = Service_ConfirmSubscriptionByToken (subscription_process E n g)"
  "rd_Unsubscribe (api_deps E key n g) = Unsubscribe E"
  by (simp_all add: api_deps_def post_process_def Let_def)

lemma api_routes_sel:
  "map_of (api_routes E h) (''POST'', ''/api/subscribe'') = Some (apiKeyAuth (rd_APIKey h) (handle_subscribe h))"
  "map_of (api_routes E h) (''GET'', ''/api/confirm/:token'') = Some (handle_confirm E h)"
  "map_of (api_routes E h) (''GET'', ''/api/unsubscribe/:token'') = Some (handle_unsubscribe E h)"
  by (simp_all add: api_routes_def)

text \<open>The whole answer, the middleware's included.\<close>

definition subscribe_answered ::
    "env \<Rightarrow> string \<Rightarrow> string \<Rightarrow> string \<Rightarrow> request \<Rightarrow> ('d api_db_scheme, wire) world \<Rightarrow> string \<times> response \<Rightarrow>
     ('d api_db_scheme, wire) world \<Rightarrow> bool" where
  "subscribe_answered E key baseURL url rq w ans w' =
     (requests E (w_db w') = requests E (w_db w) \<and>
      (ht_Status (snd ans) = 401) = (key \<noteq> '''' \<and> rq_Header rq ''X-API-Key'' \<noteq> key) \<and>
      (if ht_Status (snd ans) \<in> {400, 401} then w_db w' = w_db w \<and> w_trace w' = w_trace w
       else \<exists>input. bind_subscription (rq_Body rq) = Inr input \<and> matches emailPattern (su_Email input) \<and>
         matches repoPattern (su_Repo input) \<and>
         subscribe_status baseURL url (context_id (fst ans)) (su_Email input) (su_Repo input) (ht_Status (snd ans)) w w'))"

lemma subscribe_status_code: "subscribe_status baseURL url rid email repo code w w' \<Longrightarrow> code \<noteq> 400 \<and> code \<noteq> 401"
  unfolding subscribe_status_def Let_def by (drule conjunct1) auto

lemma subscribe_status_from:
  "outside w w1 \<Longrightarrow> w_db w1 = w_db w \<Longrightarrow>
   subscribe_status baseURL url rid email repo code w1 w' = subscribe_status baseURL url rid email repo code w w'"
  by (simp add: subscribe_status_def outside_def)

lemma subscribe_answer:
  fixes w :: "('d api_db_scheme, wire) world"
  assumes "api_ok E w" and "plain_uuids E" and w1: "outside w w1" "w_db w1 = w_db w"
  shows "wp (apiKeyAuth key (handle_subscribe (api_deps E key (outbox_notifier E hs baseURL url)
      (NewHTTPGitHubClient gets heads gbase))) (context_id i) rq)
    (\<lambda>rp. subscribe_answered E key baseURL url rq w (i, rp)) (\<lambda>_ _. False) w1"
proof (cases "key = '''' \<or> rq_Header rq ''X-API-Key'' = key")
  case True
  have ok: "api_ok E w1" using api_ok_same[OF assms(1) w1(2)] w1(1) by (simp add: outside_def)
  let ?deps = "api_deps E key (outbox_notifier E hs baseURL url) (NewHTTPGitHubClient gets heads gbase) :: ('d api_db_scheme) router_deps"
  have "wp (handle_subscribe ?deps (context_id i) rq) (\<lambda>rp. subscribe_answered E key baseURL url rq w (i, rp)) (\<lambda>_ _. False) w1"
  proof (rule handle_subscribe_wp)
    fix input
    assume input: "bind_subscription (rq_Body rq) = Inr input" "matches emailPattern (su_Email input)" "matches repoPattern (su_Repo input)"
    have answered: "subscribe_answered E key baseURL url rq w (i, \<lparr>ht_Status = code, ht_JSON = j\<rparr>) w'"
      if "requests E (w_db w') = requests E (w_db w1)"
        "subscribe_status baseURL url (context_id i) (su_Email input) (su_Repo input) code w1 w'" for code j w'
    proof -
      have "subscribe_status baseURL url (context_id i) (su_Email input) (su_Repo input) code w w'"
        using that(2) unfolding subscribe_status_from[OF w1] .
      with subscribe_status_code[OF this] input show ?thesis
        unfolding subscribe_answered_def fst_conv snd_conv response.simps using that(1) True w1(2) by simp
    qed
    show "wp (rd_Subscribe ?deps (context_id i) (su_Email input) (su_Repo input))
      (\<lambda>_. subscribe_answered E key baseURL url rq w (i, \<lparr>ht_Status = 200,
         ht_JSON = JObj [(''success'', JStr ''Subscription successful. Confirmation email sent.'')]\<rparr>))
      (\<lambda>e. subscribe_answered E key baseURL url rq w (i, \<lparr>ht_Status = fst (subscribe_problem e),
         ht_JSON = JObj [(''error'', JStr (snd (subscribe_problem e)))]\<rparr>)) w1"
      unfolding api_deps_sel
      by (rule wp_mono[OF Subscribe_status_wp[OF ok assms(2) matched_plain_text(2)[OF input(2)] matched_plain_text(1)[OF input(3)]]])
        (auto intro: answered)
  qed (use True w1 in \<open>simp add: subscribe_answered_def outside_def\<close>)
  with True show ?thesis by (simp add: apiKeyAuth_def)
qed (use w1 in \<open>simp add: apiKeyAuth_def problem_def respond_def wp_simps subscribe_answered_def outside_def\<close>)

text \<open>
  C6. A request to subscribe is answered 401 exactly when an API key is configured and the request
  does not carry it, and 400 when its body, e-mail or repository is refused; neither has any
  effect.  Otherwise the status tells the outcome: 200 means one new unconfirmed row and the link
  with its token on its way under the identifier of the request; 404, 409, 429 and 502 mean that
  nothing has changed, 409 moreover that the pair is in the table; 500 and 503 may leave the new
  row behind.  No answer touches another row or requests a saga.
\<close>

theorem subscribe_over_http:
  fixes w :: "('d api_db_scheme, wire) world"
  assumes "api_ok E w" and "plain_uuids E" and "(rq_Method rq, rq_FullPath rq) = (''POST'', ''/api/subscribe'')"
    and "serve E (api_deps E key (outbox_notifier E hs baseURL url) (NewHTTPGitHubClient gets heads gbase)) other rq w = (r, w')"
  shows "\<exists>i rp. r = Inr (i, rp) \<and> requests E (w_db w') = requests E (w_db w) \<and>
    (ht_Status rp = 401) = (key \<noteq> '''' \<and> rq_Header rq ''X-API-Key'' \<noteq> key) \<and>
    (if ht_Status rp \<in> {400, 401} then w_db w' = w_db w \<and> w_trace w' = w_trace w
     else \<exists>input. bind_subscription (rq_Body rq) = Inr input \<and> matches emailPattern (su_Email input) \<and>
       matches repoPattern (su_Repo input) \<and>
       subscribe_status baseURL url (context_id i) (su_Email input) (su_Repo input) (ht_Status rp) w w')"
proof -
  have "wp (serve E (api_deps E key (outbox_notifier E hs baseURL url) (NewHTTPGitHubClient gets heads gbase)) other rq)
      (subscribe_answered E key baseURL url rq w) (\<lambda>_ _. False) w"
    by (rule serve_wp) (use assms(3) subscribe_answer[OF assms(1,2)] in \<open>simp_all add: api_routes_sel\<close>)
  from wp_returns[OF this] obtain i rp where "r = Inr (i, rp)" "subscribe_answered E key baseURL url rq w (i, rp) w'"
    unfolding assms(4) by auto
  then show ?thesis unfolding subscribe_answered_def fst_conv snd_conv by blast
qed

section \<open>Links\<close>

definition confirm_status ::
    "env \<Rightarrow> string \<Rightarrow> int \<Rightarrow> ('d api_db_scheme, wire) world \<Rightarrow> ('d api_db_scheme, wire) world \<Rightarrow> bool" where
  "confirm_status E token code w w' =
     (let x = books E (w_db w); y = books E (w_db w') in
      code \<in> {200, 404, 500} \<and> w_trace w' = w_trace w \<and>
      (code = 200 \<longrightarrow> (\<exists>row. find_token token (fst x) = Some row \<and>
         y = (confirm_rows token (fst x), snd x @ start_requests row (fst x)))) \<and>
      (code = 404 \<longrightarrow> w_db w' = w_db w) \<and>
      (code = 500 \<longrightarrow> y = x \<or> (\<exists>row. find_token token (fst x) = Some row \<and>
         (\<exists>rq \<in> {[], start_requests row (fst x)}. y = (confirm_rows token (fst x), snd x @ rq)))))"

definition unsubscribe_status ::
    "env \<Rightarrow> string \<Rightarrow> int \<Rightarrow> ('d api_db_scheme, wire) world \<Rightarrow> ('d api_db_scheme, wire) world \<Rightarrow> bool" where
  "unsubscribe_status E token code w w' =
     (let x = books E (w_db w); y = books E (w_db w'); rest = leave_rows token (fst x);
          gone = (\<exists>row. find_token token (fst x) = Some row \<and> y = (rest, snd x @ stop_requests row rest)) in
      code \<in> {200, 404} \<and> w_trace w' = w_trace w \<and>
      (code = 200 \<longrightarrow> gone) \<and> (code = 404 \<longrightarrow> y = x \<or> gone))"

lemma Confirm_unknown:
  fixes w :: "('d api_db_scheme, wire) world"
  shows "wp (Service_ConfirmSubscriptionByToken (subscription_process E n g) rid token) (\<lambda>_ _. True)
    (\<lambda>e w'. errors_is e ErrTokenNotFound \<longrightarrow> w_db w' = w_db w) w"
proof -
  have found: "wp (Repo_ConfirmSubscriptionByToken token) (\<lambda>_ _. True) (\<lambda>e w'. errors_is e ErrTokenNotFound \<longrightarrow> w_db w' = w_db w) w"
    by (auto simp: Repo_ConfirmSubscriptionByToken_def row_by_token_def wp_simps sql_by_token_def sql_count_confirmed_def
        sql_confirm_def commit_rollback_def split: call_outcome.split option.split)
  have "avoids ErrTokenNotFound (RequestRepoWatchSaga E rid action repo email :: ('d api_db_scheme, wire, unit) go)" for action repo email
  proof -
    have "\<not> errors_is e ErrTokenNotFound" if "buildRepoWatchSagaRequest E action repo email i c t = Inl e" for i c t e
      using that by (auto simp: buildRepoWatchSagaRequest_def Let_def sum_map_def dest: encode_envelope_plain split: sum.splits)
    then show ?thesis
      unfolding RequestRepoWatchSaga_def insertRepoWatchSagaRequest_def Let_def by (auto intro!: avoids_rules)
  qed
  note never = wp_mono[OF avoidsD[OF this]]
  show ?thesis
    unfolding Service_ConfirmSubscriptionByToken_def service_sel subscription_repository_def subscription_store.simps wp_bnd
    by (intro wp_mono[OF found]) (auto simp: wp_ret intro: never)
qed

lemma handle_confirm_wp:
  fixes w :: "('d api_db_scheme, wire) world"
  assumes "api_ok E w"
  shows "wp (handle_confirm E (api_deps E key n g) rid rq)
    (\<lambda>rp w'. if uuid_validates E (rq_Param rq ''token'') then confirm_status E (rq_Param rq ''token'') (ht_Status rp) w w'
       else ht_Status rp = 400 \<and> w' = w) (\<lambda>_ _. False) w"
proof (cases "uuid_validates E (rq_Param rq ''token'')")
  case True
  let ?token = "rq_Param rq ''token''" and ?m = "Service_ConfirmSubscriptionByToken (subscription_process E n g)"
  let ?x = "books E (w_db w)"
  have run: "wp (?m rid ?token) (\<lambda>_ w'. confirm_status E ?token 200 w w')
    (\<lambda>e w'. confirm_status E ?token (if errors_is e ErrTokenNotFound then 404 else 500) w w') w"
  proof (rule wp_intro)
    note laws = api_store.Confirm_wp[OF assms, of "subscription_process E n g", OF service_sel(1)]
    fix w'
    show "?m rid ?token w = (Inr a, w') \<Longrightarrow> confirm_status E ?token 200 w w'" for a
      using wp_okD[OF _ laws] by (fastforce simp: confirm_status_def outside_def Let_def)
    fix e assume run: "?m rid ?token w = (Inl e, w')"
    from wp_errD[OF run laws] have tr: "w_trace w' = w_trace w" and alt: "books E (w_db w') = ?x \<or>
        (\<exists>row. find_token ?token (fst ?x) = Some row \<and> (\<exists>rq \<in> {[], start_requests row (fst ?x)}.
           books E (w_db w') = (confirm_rows ?token (fst ?x), snd ?x @ rq)))"
      unfolding outside_def by blast+
    show "confirm_status E ?token (if errors_is e ErrTokenNotFound then 404 else 500) w w'"
    proof (cases "errors_is e ErrTokenNotFound")
      case True
      with wp_errD[OF run Confirm_unknown] tr show ?thesis by (simp add: confirm_status_def Let_def)
    next
      case False
      with tr show ?thesis unfolding confirm_status_def Let_def using alt by simp
    qed
  qed
  show ?thesis
    unfolding handle_confirm_def Let_def api_deps_sel wp_if wp_bnd wp_attempt
    using True by (simp add: problem_def respond_def wp_simps) (rule wp_mono[OF run], simp_all add: problem_def respond_def wp_simps split: if_splits)
qed (simp add: handle_confirm_def Let_def wp_simps problem_def respond_def)

lemma handle_unsubscribe_wp:
  fixes w :: "('d api_db_scheme, wire) world"
  assumes "api_ok E w"
  shows "wp (handle_unsubscribe E (api_deps E key n g) rid rq)
    (\<lambda>rp w'. if uuid_validates E (rq_Param rq ''token'') then unsubscribe_status E (rq_Param rq ''token'') (ht_Status rp) w w'
       else ht_Status rp = 400 \<and> w' = w) (\<lambda>_ _. False) w"
proof (cases "uuid_validates E (rq_Param rq ''token'')")
  case True
  let ?token = "rq_Param rq ''token''"
  let ?rest = "leave_rows ?token (subscriptions (w_db w))"
  have keys: "keyed sub_key ?rest \<and> keyed su_Token ?rest" using assms by (simp add: api_ok_def leave_rows_keyed)
  have gone: "unsubscribe_status E ?token code w w'"
    if "outside w w'" "find_row (\<lambda>r. su_Token r = ?token) (subscriptions (w_db w)) = Some row"
      "leaves E ?rest (requests E (w_db w) @ stop_requests row ?rest) (w_db w') (w_uuids w')" "code \<in> {200, 404}" for w' row code
    using leaves_ok[OF assms that(1,3) keys] that
    by (auto simp: unsubscribe_status_def books_def outside_def find_token_def Let_def)
  have same: "unsubscribe_status E ?token 404 w w'" if "outside w w'" "w_db w' = w_db w" for w'
    using that by (simp add: unsubscribe_status_def outside_def Let_def)
  have run: "wp (Unsubscribe E rid ?token) (\<lambda>_ w'. unsubscribe_status E ?token 200 w w') (\<lambda>_ w'. unsubscribe_status E ?token 404 w w') w"
    by (rule tx_wp_wp[OF Unsubscribe_tx[OF assms]]) (use gone same in blast)+
  show ?thesis
    unfolding handle_unsubscribe_def Let_def api_deps_sel wp_if wp_bnd wp_attempt
    using True by (simp add: problem_def respond_def wp_simps) (rule wp_mono[OF run], simp_all)
qed (simp add: handle_unsubscribe_def Let_def wp_simps problem_def respond_def)

text \<open>
  C7. A confirmation or unsubscribe link is answered 400 exactly when its token is no UUID, without
  any effect.  Confirming: 200 means that the row of the token is confirmed, and that a watch was
  requested if it is the first of its repository; 404 means that nothing has changed; 500 may leave
  the row confirmed, with or without the request.  Unsubscribing: 200 means that the row is gone and
  the watch given up with the last confirmed row; 404 covers every failure, and when the reply to
  the commit was lost the row is gone all the same.  Links send nothing to other services.
\<close>

theorem links_over_http:
  fixes w :: "('d api_db_scheme, wire) world"
  assumes "api_ok E w" and "rq_Method rq = ''GET''"
    and "rq_FullPath rq = (if confirming then ''/api/confirm/:token'' else ''/api/unsubscribe/:token'')"
    and "serve E (api_deps E key n g) other rq w = (r, w')"
  shows "\<exists>i rp. r = Inr (i, rp) \<and>
    (if \<not> uuid_validates E (rq_Param rq ''token'')
     then ht_Status rp = 400 \<and> w_db w' = w_db w \<and> w_trace w' = w_trace w
     else if confirming then confirm_status E (rq_Param rq ''token'') (ht_Status rp) w w'
     else unsubscribe_status E (rq_Param rq ''token'') (ht_Status rp) w w')"
proof -
  let ?token = "rq_Param rq ''token''"
  let ?Q = "\<lambda>rp w1 w'. if \<not> uuid_validates E ?token then ht_Status rp = 400 \<and> w_db w' = w_db w1 \<and> w_trace w' = w_trace w1
     else if confirming then confirm_status E ?token (ht_Status rp) w1 w'
     else unsubscribe_status E ?token (ht_Status rp) w1 w'"
  let ?h = "if confirming then handle_confirm E (api_deps E key n g) else handle_unsubscribe E (api_deps E key n g)"
  have at: "wp (?h (context_id i) rq) (\<lambda>rp. ?Q rp w) (\<lambda>_ _. False) w1" if w1: "outside w w1" "w_db w1 = w_db w" for i w1
  proof -
    have ok: "api_ok E w1" using api_ok_same[OF assms(1) w1(2)] w1(1) by (simp add: outside_def)
    have from_w: "?Q rp w1 w' = ?Q rp w w'" for rp w'
      using w1 by (simp add: confirm_status_def unsubscribe_status_def outside_def)
    have "wp (?h (context_id i) rq) (\<lambda>rp. ?Q rp w1) (\<lambda>_ _. False) w1"
      using wp_mono[OF handle_confirm_wp[OF ok]] wp_mono[OF handle_unsubscribe_wp[OF ok]] by (cases confirming) auto
    then show ?thesis unfolding from_w .
  qed
  have "wp (serve E (api_deps E key n g) other rq) (\<lambda>ip. ?Q (snd ip) w) (\<lambda>_ _. False) w"
  proof (rule serve_wp[where hdl = ?h])
    show "map_of (api_routes E (api_deps E key n g)) (rq_Method rq, rq_FullPath rq) = Some ?h"
      using assms(2,3) by (simp add: api_routes_sel)
  qed (simp only: snd_conv, rule at)
  from wp_returns[OF this] obtain ip where "r = Inr ip \<and> ?Q (snd ip) w w'" unfolding assms(4) by blast
  then show ?thesis by (intro exI[of _ "fst ip"] exI[of _ "snd ip"]) simp
qed

end
