(* ===== verification/Delivery_Doors.thy ===== *)
theory Delivery_Doors
  imports Delivery_Api Http_Results
begin

text \<open>
  The subscription API and the notification service meet: what the API puts into the body of a
  confirmation request, into a gRPC request and into the outbox is what the notification service
  reads from them.
\<close>

section \<open>Confirmations over HTTP\<close>

lemma decode_confirmation_body:
  "decode_struct decode_confirmation (Some (confirmation_body email repo link)) =
     Inr \<lparr>cq_Email = email, cq_Repo = repo, cq_ConfirmURL = link\<rparr>"
  by (simp add: decode_struct_def confirmation_body_def decode_confirmation_def field_defs)

lemma SMTP_Send_wp:
  "wp (SMTP_Send cfg to body)
     (\<lambda>_ w'. w_db w' = w_db w \<and> w_trace w' = w_trace w @ [Emailed to (mail_text (senderAddress cfg) to body)])
     (\<lambda>_ w'. w_db w' = w_db w \<and>
        w_trace w' \<in> {w_trace w, w_trace w @ [Emailed to (mail_text (senderAddress cfg) to body)]}) w"
  by (auto simp: SMTP_Send_def SendMail_def wp_simps split: call_outcome.split)

text \<open>
  C9. The confirmation request of the API is understood by the notification service: the answer is
  202 exactly when the mail with the link of the request was handed to the mail server for the
  subscriber, and 503 when the mail server refused or did not confirm it; the database of the
  notification service is not touched.  Any other method is answered 405, a body without one of
  the three fields 400, and neither sends a mail.
\<close>

theorem confirmation_is_mailed:
  "(email \<noteq> '''' \<and> repo \<noteq> '''' \<longrightarrow>
      (\<exists>code w'. NewHTTPHandler (notification_process E cfg n ds) ''/internal/notifications/confirmation'' ''POST''
           (Some (confirmation_body email repo (confirm_url baseURL token))) w = (Inr code, w') \<and>
         w_db w' = w_db w \<and> code \<in> {202, 503} \<and>
         (let mail = Emailed email (mail_text (senderAddress cfg) email (confirmation_text (confirm_url baseURL token))) in
          if code = 202 then w_trace w' = w_trace w @ [mail] else w_trace w' \<in> {w_trace w, w_trace w @ [mail]}))) \<and>
   (path \<noteq> ''/internal/notifications/confirmation'' \<or> meth \<noteq> ''POST'' \<or>
    (\<forall>q. decode_struct decode_confirmation body = Inr q \<longrightarrow> '''' \<in> {cq_Email q, cq_Repo q, cq_ConfirmURL q}) \<longrightarrow>
      (\<exists>code. NewHTTPHandler (notification_process E cfg n ds) path meth body w = (Inr code, w) \<and> code \<in> {400, 404, 405}))"
proof (intro conjI impI)
  let ?link = "confirm_url baseURL token"
  let ?mail = "Emailed email (mail_text (senderAddress cfg) email (confirmation_text ?link))"
  assume "email \<noteq> '''' \<and> repo \<noteq> ''''"
  moreover have "?link \<noteq> ''''" by (simp add: confirm_url_def)
  moreover have "wp (Delivery_SendConfirmation (notification_process E cfg n ds) email repo ?link)
      (\<lambda>_ w'. w_db w' = w_db w \<and> w_trace w' = w_trace w @ [?mail])
      (\<lambda>_ w'. w_db w' = w_db w \<and> w_trace w' \<in> {w_trace w, w_trace w @ [?mail]}) w"
    unfolding Delivery_SendConfirmation_def notification_process_def NewDeliveryService_def delivery_service.simps wp_annot
    by (rule SMTP_Send_wp)
  ultimately have "wp (NewHTTPHandler (notification_process E cfg n ds) ''/internal/notifications/confirmation'' ''POST''
       (Some (confirmation_body email repo ?link)))
      (\<lambda>code w'. w_db w' = w_db w \<and> code \<in> {202, 503} \<and>
         (if code = 202 then w_trace w' = w_trace w @ [?mail] else w_trace w' \<in> {w_trace w, w_trace w @ [?mail]}))
      (\<lambda>_ _. False) w"
    unfolding NewHTTPHandler_def decode_confirmation_body by (simp add: wp_bnd wp_attempt) (rule wp_mono, assumption, auto simp: wp_ret)
  from wp_returns[OF this] show "\<exists>code w'. NewHTTPHandler (notification_process E cfg n ds)
       ''/internal/notifications/confirmation'' ''POST'' (Some (confirmation_body email repo ?link)) w = (Inr code, w') \<and>
     w_db w' = w_db w \<and> code \<in> {202, 503} \<and>
     (let mail = ?mail in if code = 202 then w_trace w' = w_trace w @ [mail] else w_trace w' \<in> {w_trace w, w_trace w @ [mail]})"
    unfolding Let_def by blast
next
  assume "path \<noteq> ''/internal/notifications/confirmation'' \<or> meth \<noteq> ''POST'' \<or>
    (\<forall>q. decode_struct decode_confirmation body = Inr q \<longrightarrow> '''' \<in> {cq_Email q, cq_Repo q, cq_ConfirmURL q})"
  then show "\<exists>code. NewHTTPHandler (notification_process E cfg n ds) path meth body w = (Inr code, w) \<and> code \<in> {400, 404, 405}"
    by (cases "decode_struct decode_confirmation body") (auto simp: NewHTTPHandler_def ret_def)
qed

section \<open>Notifications over gRPC and over Kafka\<close>

lemma request_fields_of: "request_fields (send_request_of p c) = grpc_fields p c"
  by (simp add: request_fields_def send_request_of_def grpc_fields_def)

lemma build_of: "buildNotification (send_request_of p c) = p"
  by (simp add: buildNotification_def send_request_of_def)

lemma hash_not_empty: "EmailHash E email \<noteq> ''''"
  using length_hex_digest by (auto simp: EmailHash_def Let_def TextHash_def dest: arg_cong[where f = length])

lemma rules_hold:
  assumes "email \<noteq> ''''" and "repo \<noteq> ''''" and "i \<noteq> ''''"
  shows "min_len_rules (send_request_of (release_notification E email repo tag i) c)"
    and "msg \<noteq> '''' \<Longrightarrow> min_len_rules (send_request_of (confirmation_payload E email repo msg i) c)"
  using assms hash_not_empty
  by (simp_all add: min_len_rules_def send_request_of_def release_notification_def confirmation_payload_def Let_def)

text \<open>What the server answers to a request that passes the rules.\<close>

lemma SendNotification_accepts:
  assumes "V (send_request_of p c) = None"
  shows "SendNotification V processor (send_request_of p c) w =
    (case processor p w of
       (Inl err, w') \<Rightarrow> (Inr (Some (Internal, ''process notification: '' @ err_text err)), w')
     | (Inr _, w') \<Rightarrow> (Inr None, w'))"
  by (auto simp: SendNotification_def assms build_of bnd_def attempt_def ret_def split: prod.split sum.split)

text \<open>
  C8. The two transports agree.  For a release notification of the API the consumer of the
  notification service runs \<open>Process\<close> on exactly the payload that the API built, and so does the
  gRPC server on the request that the gRPC client fills in, which passes the validation rules; the
  server answers success if and only if \<open>Process\<close> returns without an error.
\<close>

theorem transports_agree:
  assumes "time_codec E" and "\<And>q. (V q = None) = min_len_rules q"
    and "email \<noteq> ''''" and "repo \<noteq> ''''" and "i \<noteq> ''''"
    and "buildReleaseNotification E email repo tag i c now = Inr (event, raw)"
  shows "notification_handler E s key (Some raw) = Process s (Payload event) \<and>
    request_fields (send_request_of (Payload event) (CorrelationID event)) = grpc_fields (Payload event) (CorrelationID event) \<and>
    Payload event = release_notification E email repo tag i \<and>
    SendNotification V (Process s) (send_request_of (Payload event) (CorrelationID event)) w =
      (case Process s (Payload event) w of
         (Inl err, w') \<Rightarrow> (Inr (Some (Internal, ''process notification: '' @ err_text err)), w')
       | (Inr _, w') \<Rightarrow> (Inr None, w'))"
proof -
  have event: "event = release_notification_event E email repo tag i c now"
    and raw: "encode_envelope E (\<lambda>p. Inr (encode_notification p)) event = Inr raw"
    using assms(6) by (auto simp: buildReleaseNotification_def Let_def sum_map_def split: sum.splits)
  have p: "Payload event = release_notification E email repo tag i" by (simp add: event release_notification_event_def)
  have "decode_envelope E decode_notification (Some raw) = Inr event"
    by (rule envelope_round_trip[OF assms(1) notification_codec raw])
  moreover have "EventType event = EventNotificationRequested" by (simp add: event release_notification_event_def)
  moreover have "V (send_request_of (Payload event) (CorrelationID event)) = None"
    unfolding p assms(2) by (rule rules_hold(1)[OF assms(3-5)])
  ultimately show ?thesis
    using p SendNotification_accepts by (auto simp: notification_handler_def request_fields_of)
qed

end
