(* ===== verification/Delivery_Worker.thy ===== *)
theory Delivery_Worker
  imports Delivery
begin

text \<open>
  The specification of a delivery as a state machine, and the contract between the service and
  its store, mail sender and dead-letter publisher: the locale \<open>delivery_worker\<close> proves once
  what \<open>Process\<close> makes of them.
\<close>

section \<open>The specification: one delivery as a state machine\<close>

text \<open>
  A command is accepted with no attempt made; a mail that goes out finishes the delivery; a
  mail that fails is tried again after a delay, or given up at the last attempt; a delivery
  whose delay is over goes back to the queue.  The last two states have no step.
\<close>

datatype delivery_abs = Unseen | Queued int | Scheduled int int | Delivered int | GivenUp int

fun live :: "delivery_abs \<Rightarrow> int option" where
  "live (Queued a) = Some a"
| "live (Scheduled a t) = Some a"
| "live _ = None"

inductive delivery_step :: "int \<Rightarrow> (int \<Rightarrow> int) \<Rightarrow> int \<Rightarrow> int \<Rightarrow> delivery_abs \<Rightarrow> delivery_abs \<Rightarrow> bool"
  for m :: int and delay :: "int \<Rightarrow> int" and now :: int and pg :: int where
  accepted: "delivery_step m delay now pg Unseen (Queued 0)"
| mailed: "live x = Some a \<Longrightarrow> delivery_step m delay now pg x (Delivered a)"
| postponed: "live x = Some a \<Longrightarrow> a + 1 < m \<Longrightarrow> delivery_step m delay now pg x (Scheduled (a + 1) (now + delay (a + 1)))"
| given_up: "live x = Some a \<Longrightarrow> m \<le> a + 1 \<Longrightarrow> delivery_step m delay now pg x (GivenUp (a + 1))"
| requeued: "t \<le> pg \<Longrightarrow> delivery_step m delay now pg (Scheduled a t) (Queued a)"

inductive_simps delivery_step_from [simp]:
  "delivery_step m delay now pg Unseen y" "delivery_step m delay now pg (Delivered a) y"
  "delivery_step m delay now pg (GivenUp a) y"

inductive_cases delivery_stepE: "delivery_step m delay now pg x y"

definition finished :: "delivery_abs \<Rightarrow> bool" where
  "finished x = (case x of Delivered _ \<Rightarrow> True | GivenUp _ \<Rightarrow> True | _ \<Rightarrow> False)"

definition settled_delivery :: "delivery_abs \<Rightarrow> bool" where
  "settled_delivery x = (finished x \<or> (case x of Scheduled _ _ \<Rightarrow> True | _ \<Rightarrow> False))"

lemma finished_simps [simp]:
  "finished (Delivered a)" "finished (GivenUp a)" "\<not> finished Unseen" "\<not> finished (Queued a)" "\<not> finished (Scheduled a t)"
  by (simp_all add: finished_def)

lemma settled_simps [simp]:
  "settled_delivery (Delivered a)" "settled_delivery (GivenUp a)" "settled_delivery (Scheduled a t)"
  "\<not> settled_delivery Unseen" "\<not> settled_delivery (Queued a)"
  by (simp_all add: settled_delivery_def)

lemma finished_no_step: "finished x \<Longrightarrow> \<not> delivery_step m delay now pg x y"
  by (cases x) auto

lemma finished_stays: "(delivery_step m delay now pg)\<^sup>*\<^sup>* x y \<Longrightarrow> finished x \<Longrightarrow> y = x"
  by (induction rule: rtranclp_induct) (auto dest: finished_no_step)

text \<open>The attempts of a delivery stay within their bound along every path.\<close>

definition attempts_ok :: "int \<Rightarrow> delivery_abs \<Rightarrow> bool" where
  "attempts_ok m x =
     (case x of
        Unseen \<Rightarrow> True
      | Queued a \<Rightarrow> 0 \<le> a \<and> a < m
      | Scheduled a _ \<Rightarrow> 0 < a \<and> a < m
      | Delivered a \<Rightarrow> 0 \<le> a \<and> a < m
      | GivenUp a \<Rightarrow> a = m)"

lemma attempts_ok_live: "attempts_ok m x \<Longrightarrow> live x = Some a \<Longrightarrow> 0 \<le> a \<and> a < m"
  by (cases x) (auto simp: attempts_ok_def)

lemma attempts_ok_step:
  assumes "delivery_step m delay now pg x y" and "attempts_ok m x" and "0 < m"
  shows "attempts_ok m y"
  using assms(1)
proof cases
  case (mailed a)
  then show ?thesis using attempts_ok_live[OF assms(2)] by (simp add: attempts_ok_def)
next
  case (postponed a)
  then show ?thesis using attempts_ok_live[OF assms(2)] by (simp add: attempts_ok_def)
next
  case (given_up a)
  then show ?thesis using attempts_ok_live[OF assms(2)] by (fastforce simp: attempts_ok_def)
qed (use assms in \<open>auto simp: attempts_ok_def\<close>)

section \<open>Rows\<close>

definition abs_delivery :: "delivery_row \<Rightarrow> delivery_abs" where
  "abs_delivery r =
     (if dr_Status r = StatusSent then Delivered (dr_AttemptCount r)
      else if dr_Status r = StatusDead then GivenUp (dr_AttemptCount r)
      else if dr_Status r = DeliveryFailed \<and> dr_NextAttemptAt r \<noteq> None
      then Scheduled (dr_AttemptCount r) (the (dr_NextAttemptAt r))
      else Queued (dr_AttemptCount r))"

lemma abs_delivery_status:
  "dr_Status r = StatusSent \<Longrightarrow> finished (abs_delivery r)"
  "dr_Status r = StatusDead \<Longrightarrow> finished (abs_delivery r)"
  "dr_Status r \<noteq> StatusSent \<Longrightarrow> dr_Status r \<noteq> StatusDead \<Longrightarrow> live (abs_delivery r) = Some (dr_AttemptCount r)"
  by (auto simp: abs_delivery_def split: option.split)

section \<open>The worker\<close>

definition dead_letter_of :: "env \<Rightarrow> notification_payload \<Rightarrow> wire sent_effect list \<Rightarrow> bool" where
  "dead_letter_of E p tr = (\<exists>i now j. encode_envelope E (\<lambda>p. Inr (encode_notification p))
     (notification_event p i i now None) = Inr j \<and> Published TopicNotificationDLQ (np_EmailHash p) (Some j) \<in> set tr)"

lemma dead_letter_of_append: "dead_letter_of E p tr \<Longrightarrow> dead_letter_of E p (tr' @ tr)"
  unfolding dead_letter_of_def by (metis Un_iff set_append)

locale delivery_worker =
  fixes E :: env and s :: "'db delivery_service" and letter :: "notification_payload \<Rightarrow> goerr \<Rightarrow> ('db, wire, unit) go"
    and ok :: "'db \<Rightarrow> bool" and abs :: "'db \<Rightarrow> string \<Rightarrow> delivery_abs" and mail :: "string \<Rightarrow> string \<Rightarrow> wire sent_effect"
  assumes upsert_law: "ok (w_db w) \<Longrightarrow> wp (ds_UpsertPending (dv_repo s) p)
      (\<lambda>row w'. outside w w' \<and> ok (w_db w') \<and> abs_delivery row = abs (w_db w') (np_IdempotencyKey p) \<and>
         (abs (w_db w') = abs (w_db w) \<or>
          abs (w_db w) (np_IdempotencyKey p) = Unseen \<and> abs (w_db w') = (abs (w_db w))(np_IdempotencyKey p := Queued 0)))
      (\<lambda>_ w'. outside w w' \<and> ok (w_db w') \<and>
         (abs (w_db w') = abs (w_db w) \<or>
          abs (w_db w) (np_IdempotencyKey p) = Unseen \<and> abs (w_db w') = (abs (w_db w))(np_IdempotencyKey p := Queued 0))) w"
    and sent_law: "ok (w_db w) \<Longrightarrow> live (abs (w_db w) k) = Some a \<Longrightarrow> wp (ds_MarkSent (dv_repo s) k)
      (\<lambda>_ w'. outside w w' \<and> ok (w_db w') \<and> abs (w_db w') = (abs (w_db w))(k := Delivered a))
      (\<lambda>_ w'. outside w w' \<and> ok (w_db w') \<and> abs (w_db w') \<in> {abs (w_db w), (abs (w_db w))(k := Delivered a)}) w"
    and failed_law: "ok (w_db w) \<Longrightarrow> live (abs (w_db w) k) = Some a \<Longrightarrow> a + 1 < dv_maxAttempts s \<Longrightarrow>
      wp (ds_MarkFailed (dv_repo s) k c t)
      (\<lambda>_ w'. outside w w' \<and> ok (w_db w') \<and> abs (w_db w') = (abs (w_db w))(k := Scheduled (a + 1) t))
      (\<lambda>_ w'. outside w w' \<and> ok (w_db w') \<and> abs (w_db w') \<in> {abs (w_db w), (abs (w_db w))(k := Scheduled (a + 1) t)}) w"
    and dead_law: "ok (w_db w) \<Longrightarrow> live (abs (w_db w) k) = Some a \<Longrightarrow> dv_maxAttempts s \<le> a + 1 \<Longrightarrow>
      wp (ds_MarkDead (dv_repo s) k c)
      (\<lambda>_ w'. outside w w' \<and> ok (w_db w') \<and> abs (w_db w') = (abs (w_db w))(k := GivenUp (a + 1)))
      (\<lambda>_ w'. outside w w' \<and> ok (w_db w') \<and> abs (w_db w') \<in> {abs (w_db w), (abs (w_db w))(k := GivenUp (a + 1))}) w"
    and sender_law: "wp (dv_sender s to msg)
      (\<lambda>_ w'. same_clocks w w' \<and> w_db w' = w_db w \<and> w_trace w' = w_trace w @ [mail to msg])
      (\<lambda>_ w'. same_clocks w w' \<and> w_db w' = w_db w \<and> w_trace w' \<in> {w_trace w, w_trace w @ [mail to msg]}) w"
    and letter_some: "dv_retries s = Some letter"
    and letter_law: "wp (letter p e)
      (\<lambda>_ w'. same_clocks w w' \<and> w_db w' = w_db w \<and>
         (\<exists>tr. w_trace w' = w_trace w @ tr \<and> commits tr = [] \<and> dead_letter_of E p tr))
      (\<lambda>_ w'. same_clocks w w' \<and> w_db w' = w_db w \<and> (\<exists>tr. w_trace w' = w_trace w @ tr \<and> commits tr = [])) w"
    and mail_law: "commits [mail to msg] = []"
begin

text \<open>What one command may do, to its own delivery and to the trace.\<close>

definition processed :: "notification_payload \<Rightarrow> ('db, wire) world \<Rightarrow> ('db, wire) world \<Rightarrow> bool" where
  "processed p w w' =
     (let k = np_IdempotencyKey p; x = abs (w_db w) k; y = abs (w_db w') k in
      ok (w_db w') \<and> same_clocks w w' \<and> abs (w_db w') = (abs (w_db w))(k := y) \<and>
      (delivery_step (dv_maxAttempts s) (delivery_retryDelay (dv_retryDelays s)) (w_app_now w) (w_pg_now w))\<^sup>*\<^sup>* x y \<and>
      (settled_delivery x \<longrightarrow> settled_delivery y) \<and>
      (\<exists>tr. w_trace w' = w_trace w @ tr \<and> commits tr = [] \<and> (finished x \<longrightarrow> tr = []) \<and>
         (\<forall>a. y = Delivered a \<longrightarrow> \<not> finished x \<longrightarrow> tr = [mail (np_RecipientEmail p) (np_Message p)])))"

definition delivered :: "notification_payload \<Rightarrow> ('db, wire) world \<Rightarrow> ('db, wire) world \<Rightarrow> bool" where
  "delivered p w w' =
     (let k = np_IdempotencyKey p; x = abs (w_db w) k; y = abs (w_db w') k in
      processed p w w' \<and> settled_delivery y \<and>
      (\<forall>a. y = GivenUp a \<longrightarrow> \<not> finished x \<longrightarrow> dead_letter_of E p (w_trace w')))"

definition started :: "notification_payload \<Rightarrow> ('db, wire) world \<Rightarrow> ('db, wire) world \<Rightarrow> bool" where
  "started p w w1 = (let k = np_IdempotencyKey p in outside w w1 \<and> ok (w_db w1) \<and>
     (abs (w_db w1) = abs (w_db w) \<or>
      abs (w_db w) k = Unseen \<and> abs (w_db w1) = (abs (w_db w))(k := Queued 0)))"

lemma processed_end:
  assumes "started p w w1" and "k = np_IdempotencyKey p" and "\<not> finished (abs (w_db w1) k)"
    and "ok (w_db w')" and "same_clocks w1 w'" and "abs (w_db w') = (abs (w_db w1))(k := y)"
    and "y = abs (w_db w1) k \<or>
      delivery_step (dv_maxAttempts s) (delivery_retryDelay (dv_retryDelays s)) (w_app_now w) (w_pg_now w) (abs (w_db w1) k) y \<and>
        settled_delivery y"
    and "w_trace w' = w_trace w1 @ tr" and "commits tr = []"
    and "\<And>a. y = Delivered a \<Longrightarrow> tr = [mail (np_RecipientEmail p) (np_Message p)]"
  shows "processed p w w'"
proof -
  let ?step = "delivery_step (dv_maxAttempts s) (delivery_retryDelay (dv_retryDelays s)) (w_app_now w) (w_pg_now w)"
  have w1: "outside w w1" and from0: "abs (w_db w1) = abs (w_db w) \<or>
      abs (w_db w) k = Unseen \<and> abs (w_db w1) = (abs (w_db w))(k := Queued 0)"
    using assms(1,2) by (simp_all add: started_def Let_def)
  have "?step\<^sup>*\<^sup>* (abs (w_db w) k) (abs (w_db w1) k)"
    using from0 by (auto intro: accepted r_into_rtranclp)
  then have "?step\<^sup>*\<^sup>* (abs (w_db w) k) y"
    using assms(7) by (auto intro: rtranclp.rtrancl_into_rtrancl)
  moreover have "abs (w_db w') = (abs (w_db w))(k := y)" "abs (w_db w') k = y"
    using from0 assms(6) by auto
  moreover have "\<not> finished (abs (w_db w) k)" "settled_delivery (abs (w_db w) k) \<longrightarrow> settled_delivery y"
    using from0 assms(3,7) by auto
  moreover have "same_clocks w w'" "w_trace w' = w_trace w @ tr"
    using w1 assms(5,8) by (auto simp: outside_def same_clocks_def)
  ultimately show ?thesis
    using assms(2,4,9,10) unfolding processed_def Let_def by auto
qed

lemma processed_stays:
  assumes "started p w w1"
  shows "processed p w w1"
proof -
  let ?k = "np_IdempotencyKey p"
  have from0: "abs (w_db w1) = abs (w_db w) \<or>
      abs (w_db w) ?k = Unseen \<and> abs (w_db w1) = (abs (w_db w))(?k := Queued 0)"
    and rest: "outside w w1" "ok (w_db w1)"
    using assms by (simp_all add: started_def Let_def)
  from rest have "same_clocks w w1" "w_trace w1 = w_trace w"
    by (simp_all add: outside_def same_clocks_def)
  with from0 rest show ?thesis
    by (cases "abs (w_db w1) = abs (w_db w)")
      (auto simp: processed_def Let_def finished_def intro: accepted r_into_rtranclp)
qed

lemma failure_end:
  assumes w1: "started p w w1" and live: "live (abs (w_db w1) (np_IdempotencyKey p)) = Some a"
    and w2: "same_clocks w1 w2" "w_db w2 = w_db w1" "w_trace w2 = w_trace w1 @ tr" "commits tr = []"
    and "same_clocks w2 w'" "ok (w_db w')" "abs (w_db w') = (abs (w_db w2))(np_IdempotencyKey p := y)"
    and "y = abs (w_db w1) (np_IdempotencyKey p) \<or>
      delivery_step (dv_maxAttempts s) (delivery_retryDelay (dv_retryDelays s)) (w_app_now w) (w_pg_now w)
        (abs (w_db w1) (np_IdempotencyKey p)) y \<and> settled_delivery y"
    and "\<exists>tr'. w_trace w' = w_trace w2 @ tr' \<and> commits tr' = []" and "\<not> (\<exists>b. y = Delivered b)"
  shows "processed p w w'"
proof -
  have unfinished: "\<not> finished (abs (w_db w1) (np_IdempotencyKey p))"
    using live by (cases "abs (w_db w1) (np_IdempotencyKey p)") auto
  from assms(11) obtain tr' where "w_trace w' = w_trace w2 @ tr'" "commits tr' = []" by blast
  with assms(7-10,12) w2 show ?thesis
    by (intro processed_end[OF w1 refl unfinished, of w' y "tr @ tr'"]) (auto simp: same_clocks_def)
qed

text \<open>The mark of a failure: applied, lost on the way back, or refused.\<close>

lemma failure_marked:
  assumes w1: "started p w w1" and live: "live (abs (w_db w1) (np_IdempotencyKey p)) = Some a"
    and w2: "same_clocks w1 w2" "w_db w2 = w_db w1" "w_trace w2 = w_trace w1 @ tr" "commits tr = []"
    and step: "delivery_step (dv_maxAttempts s) (delivery_retryDelay (dv_retryDelays s)) (w_app_now w) (w_pg_now w)
      (abs (w_db w1) (np_IdempotencyKey p)) y" "settled_delivery y" "\<not> (\<exists>b. y = Delivered b)"
    and w3: "outside w2 w3" "ok (w_db w3)" "abs (w_db w3) \<in> {abs (w_db w2), (abs (w_db w2))(np_IdempotencyKey p := y)}"
  shows "processed p w w3"
proof -
  have undelivered: "abs (w_db w1) (np_IdempotencyKey p) \<noteq> Delivered b" for b using live by auto
  note finish = failure_end[OF w1 live w2, of w3]
  show ?thesis
    using w3 finish[of y] finish[of "abs (w_db w1) (np_IdempotencyKey p)"] step w2
    by (auto simp: undelivered outside_def same_clocks_def)
qed

text \<open>The failure branch, after a mail that was refused or whose reply was lost.\<close>

lemma handleFailure_processed:
  assumes w1: "started p w w1" and live: "live (abs (w_db w1) (np_IdempotencyKey p)) = Some a"
    and w2: "same_clocks w1 w2" "w_db w2 = w_db w1" "w_trace w2 = w_trace w1 @ tr" "commits tr = []"
  shows "wp (handleFailure s p a cause) (\<lambda>_. delivered p w) (\<lambda>_. processed p w) w2"
proof -
  let ?k = "np_IdempotencyKey p"
  have ok: "ok (w_db w2)" and live2: "live (abs (w_db w2) ?k) = Some a"
    and now: "w_app_now w2 = w_app_now w"
    using w1 w2 live by (simp_all add: started_def Let_def outside_def same_clocks_def)
  note finish = failure_end[OF w1 live w2] and marked = failure_marked[OF w1 live w2]
  show ?thesis
  proof (cases "dv_maxAttempts s \<le> a + 1")
    case True
    have step: "delivery_step (dv_maxAttempts s) (delivery_retryDelay (dv_retryDelays s)) (w_app_now w) (w_pg_now w)
        (abs (w_db w1) ?k) (GivenUp (a + 1))" using live True by (rule given_up)
    have letters: "wp (annot g (letter p cause)) (\<lambda>_. delivered p w) (\<lambda>_. processed p w) w3"
      if w3: "outside w2 w3" "ok (w_db w3)" "abs (w_db w3) = (abs (w_db w2))(?k := GivenUp (a + 1))" for w3 g
    proof -
      have "processed p w w'" if "same_clocks w3 w'" "w_db w' = w_db w3" "w_trace w' = w_trace w3 @ tr'" "commits tr' = []" for w' tr'
        using that w3 step by (intro finish[of w' "GivenUp (a + 1)"]) (auto simp: outside_def same_clocks_def)
      moreover have "abs (w_db w3) ?k = GivenUp (a + 1)" using w3 by simp
      ultimately show ?thesis
        unfolding wp_annot by (intro wp_mono[OF letter_law]) (auto simp: delivered_def Let_def intro: dead_letter_of_append)
    qed
    have "outside w2 w3 \<and> ok (w_db w3) \<and> abs (w_db w3) \<in> {abs (w_db w2), (abs (w_db w2))(?k := GivenUp (a + 1))} \<Longrightarrow>
        processed p w w3" for w3
      using step by (intro marked[of "GivenUp (a + 1)"]) auto
    then show ?thesis
      using True unfolding handleFailure_def Let_def letter_some
      by (simp add: wp_bnd[of "ds_MarkDead _ _ _"]) (rule wp_mono[OF dead_law[OF ok live2 True]]; use letters in blast)
  next
    case False
    let ?y = "Scheduled (a + 1) (w_app_now w + delivery_retryDelay (dv_retryDelays s) (a + 1))"
    have step: "delivery_step (dv_maxAttempts s) (delivery_retryDelay (dv_retryDelays s)) (w_app_now w) (w_pg_now w)
        (abs (w_db w1) ?k) ?y" using live False by (intro postponed) auto
    have lost: "outside w2 w3 \<and> ok (w_db w3) \<and> abs (w_db w3) \<in> {abs (w_db w2), (abs (w_db w2))(?k := ?y)} \<Longrightarrow>
        processed p w w3" for w3
      using step by (intro marked[of ?y]) auto
    then have "outside w2 w3 \<and> ok (w_db w3) \<and> abs (w_db w3) = (abs (w_db w2))(?k := ?y) \<Longrightarrow> delivered p w w3" for w3
      by (simp add: delivered_def Let_def)
    moreover have more: "a + 1 < dv_maxAttempts s" using False by simp
    ultimately show ?thesis
      using False lost unfolding handleFailure_def Let_def
      by (simp add: wp_bnd[of app_clock] wp_app_clock now)
        (rule wp_mono[OF failed_law[OF ok live2 more]]; simp)
  qed
qed

lemma MarkSent_processed:
  assumes w1: "started p w w1" and live: "live (abs (w_db w1) (np_IdempotencyKey p)) = Some a"
    and w2: "same_clocks w1 w2" "w_db w2 = w_db w1"
      "w_trace w2 = w_trace w1 @ [mail (np_RecipientEmail p) (np_Message p)]"
  shows "wp (ds_MarkSent (dv_repo s) (np_IdempotencyKey p)) (\<lambda>_. delivered p w) (\<lambda>_. processed p w) w2"
proof -
  let ?k = "np_IdempotencyKey p"
  have unfinished: "\<not> finished (abs (w_db w1) ?k)" using live by (cases "abs (w_db w1) ?k") auto
  have ok: "ok (w_db w2)" and live2: "live (abs (w_db w2) ?k) = Some a"
    using w1 w2 live by (simp_all add: started_def Let_def)
  have finish: "processed p w w'"
    if "outside w2 w'" "ok (w_db w')" "abs (w_db w') = (abs (w_db w1))(?k := y)"
      "y = abs (w_db w1) ?k \<or> y = Delivered a" for w' y
    using that w2 live mail_law
    by (intro processed_end[OF w1 refl unfinished, of w' y "[mail (np_RecipientEmail p) (np_Message p)]"])
      (auto simp: same_clocks_def outside_def intro: mailed)
  have "delivered p w w'"
    if "outside w2 w' \<and> ok (w_db w') \<and> abs (w_db w') = (abs (w_db w2))(?k := Delivered a)" for w'
    using that finish[of w' "Delivered a"] w2 by (auto simp: delivered_def Let_def)
  moreover have "processed p w w'"
    if "outside w2 w' \<and> ok (w_db w') \<and> abs (w_db w') \<in> {abs (w_db w2), (abs (w_db w2))(?k := Delivered a)}" for w'
    using that finish[of w' "Delivered a"] finish[of w' "abs (w_db w1) ?k"] w2 by auto
  ultimately show ?thesis
    by (intro wp_mono[OF sent_law[OF ok live2]]) auto
qed

text \<open>
  \<open>Process\<close> moves its delivery along the machine, sends at most one mail, and none for a
  delivery that is finished; when it returns without an error the delivery is delivered, given
  up with its dead letter published, or waits for a retry.
\<close>

lemma Process_processed:
  assumes "ok (w_db w)"
  shows "wp (Process s p) (\<lambda>_. delivered p w) (\<lambda>_. processed p w) w"
proof -
  let ?k = "np_IdempotencyKey p"
  have upsert: "wp (ds_UpsertPending (dv_repo s) p)
      (\<lambda>row w1. started p w w1 \<and> abs_delivery row = abs (w_db w1) ?k) (\<lambda>_. processed p w) w"
    by (rule wp_mono[OF upsert_law[OF assms]]) (auto simp: started_def Let_def intro!: processed_stays)
  show ?thesis
    unfolding Process_def wp_bnd[of "ds_UpsertPending _ _"]
  proof (rule wp_mono[OF upsert])
    fix row w1
    assume "started p w w1 \<and> abs_delivery row = abs (w_db w1) ?k"
    then have w1: "started p w w1" and row: "abs_delivery row = abs (w_db w1) ?k" by auto
    show "wp (if dr_Status row = StatusSent then ret ()
        else if dr_Status row = StatusDead then ret ()
        else bnd (attempt (dv_sender s (np_RecipientEmail p) (np_Message p))) (\<lambda>r. case r of
            Inl err \<Rightarrow> handleFailure s p (dr_AttemptCount row) err
          | Inr _ \<Rightarrow> ds_MarkSent (dv_repo s) ?k)) (\<lambda>_. delivered p w) (\<lambda>_. processed p w) w1"
    proof (cases "dr_Status row = StatusSent \<or> dr_Status row = StatusDead")
      case True
      then have fin: "finished (abs (w_db w1) ?k)" using row abs_delivery_status by metis
      moreover have "abs (w_db w1) = abs (w_db w)" using w1 fin by (auto simp: started_def Let_def)
      ultimately have "delivered p w w1"
        using processed_stays[OF w1] by (auto simp: delivered_def Let_def settled_delivery_def)
      then show ?thesis using True by (auto simp: wp_ret)
    next
      case False
      then have live: "live (abs (w_db w1) ?k) = Some (dr_AttemptCount row)"
        using row abs_delivery_status by metis
      have refused: "wp (handleFailure s p (dr_AttemptCount row) err) (\<lambda>_. delivered p w) (\<lambda>_. processed p w) w2"
        if "same_clocks w1 w2 \<and> w_db w2 = w_db w1 \<and> w_trace w2 \<in> {w_trace w1, w_trace w1 @ [mail to msg]}" for err w2 to msg
        using that mail_law handleFailure_processed[OF w1 live, of w2 "[]"] handleFailure_processed[OF w1 live, of w2 "[mail to msg]"]
        by auto
      have accepted: "wp (ds_MarkSent (dv_repo s) ?k) (\<lambda>_. delivered p w) (\<lambda>_. processed p w) w2"
        if "same_clocks w1 w2 \<and> w_db w2 = w_db w1 \<and>
          w_trace w2 = w_trace w1 @ [mail (np_RecipientEmail p) (np_Message p)]" for w2
        by (rule MarkSent_processed[OF w1 live]) (use that in auto)
      show ?thesis
        using False by (simp add: wp_bnd wp_attempt) (rule wp_mono[OF sender_law]; use refused accepted in blast)
    qed
  qed blast
qed

end

end
