(* ===== verification/Delivery_Properties.thy ===== *)
theory Delivery_Properties
  imports Delivery_Worker
begin

text \<open>
  The repository, the mail sender and the dead-letter publisher of the notification service
  keep the contract of the worker, and the retry scheduler moves due deliveries back to the
  queue together with their events.
\<close>

section \<open>The table\<close>

definition delivery_row_ok :: "int \<Rightarrow> delivery_row \<Rightarrow> bool" where
  "delivery_row_ok m r =
     (dr_Status r \<in> {StatusPending, StatusSent, DeliveryFailed, StatusDead} \<and>
      (dr_Status r = DeliveryFailed \<longleftrightarrow> dr_NextAttemptAt r \<noteq> None) \<and>
      (dr_Status r = StatusSent \<longleftrightarrow> dr_SentAt r \<noteq> None) \<and> attempts_ok m (abs_delivery r))"

definition deliveries_ok :: "int \<Rightarrow> 'd delivery_db_scheme \<Rightarrow> bool" where
  "deliveries_ok m d = (keyed dr_IdempotencyKey (deliveries d) \<and> keyed dr_NotificationID (deliveries d) \<and>
     (\<forall>r \<in> set (deliveries d). delivery_row_ok m r))"

definition delivery_of :: "'d delivery_db_scheme \<Rightarrow> string \<Rightarrow> delivery_row option" where
  "delivery_of d k = lookup_row dr_IdempotencyKey (deliveries d) k"

definition abs_table :: "'d delivery_db_scheme \<Rightarrow> string \<Rightarrow> delivery_abs" where
  "abs_table d k = (case delivery_of d k of None \<Rightarrow> Unseen | Some r \<Rightarrow> abs_delivery r)"

text \<open>The service itself never writes the outbox.\<close>

definition notifying :: "int \<Rightarrow> outbox_event list \<Rightarrow> 'd delivery_db_scheme \<Rightarrow> bool" where
  "notifying m evs d = (deliveries_ok m d \<and> outbox_events d = evs)"

lemma delivery_of_SomeD: "delivery_of d k = Some r \<Longrightarrow> r \<in> set (deliveries d) \<and> dr_IdempotencyKey r = k"
  by (auto simp: delivery_of_def dest: lookup_row_SomeD)

lemma delivery_of_append:
  "delivery_of (d\<lparr>deliveries := deliveries d @ [r]\<rparr>) k =
     (case delivery_of d k of None \<Rightarrow> (if dr_IdempotencyKey r = k then Some r else None) | Some x \<Rightarrow> Some x)"
  by (simp add: delivery_of_def lookup_row_append)

lemma abs_table_append:
  assumes "delivery_of d (dr_IdempotencyKey r) = None"
  shows "abs_table (d\<lparr>deliveries := deliveries d @ [r]\<rparr>) = (abs_table d)(dr_IdempotencyKey r := abs_delivery r)"
proof
  fix k show "abs_table (d\<lparr>deliveries := deliveries d @ [r]\<rparr>) k = ((abs_table d)(dr_IdempotencyKey r := abs_delivery r)) k"
    using assms by (cases "k = dr_IdempotencyKey r"; cases "delivery_of d k")
      (simp_all add: abs_table_def delivery_of_append)
qed

definition keeps_delivery :: "(delivery_row \<Rightarrow> delivery_row) \<Rightarrow> bool" where
  "keeps_delivery f = (\<forall>r. dr_IdempotencyKey (f r) = dr_IdempotencyKey r \<and> dr_NotificationID (f r) = dr_NotificationID r)"

definition updated :: "string \<Rightarrow> (delivery_row \<Rightarrow> delivery_row) \<Rightarrow> 'd delivery_db_scheme \<Rightarrow> 'd delivery_db_scheme" where
  "updated k f d = d\<lparr>deliveries := update_where (\<lambda>r. dr_IdempotencyKey r = k) f (deliveries d)\<rparr>"

lemma abs_table_updated:
  assumes "keeps_delivery f" and "delivery_of d k = Some r"
  shows "abs_table (updated k f d) = (abs_table d)(k := abs_delivery (f r))"
  using assms by (auto simp: abs_table_def delivery_of_def updated_def keeps_delivery_def lookup_row_update fun_eq_iff)

lemma deliveries_ok_updated:
  assumes "keeps_delivery f" and "deliveries_ok m d" and "delivery_of d k = Some r" and "delivery_row_ok m (f r)"
  shows "deliveries_ok m (updated k f d)"
proof -
  have "delivery_row_ok m (f x)" if "x \<in> set (deliveries d)" "dr_IdempotencyKey x = k" for x
    using keyedD[of dr_IdempotencyKey "deliveries d" x r] that assms delivery_of_SomeD[OF assms(3)]
    by (auto simp: deliveries_ok_def)
  with assms show ?thesis
    by (auto simp: deliveries_ok_def updated_def keeps_delivery_def set_update_where keyed_update_where)
qed

text \<open>The rows that the three marks write.\<close>

lemma keeps_rows:
  "keeps_delivery (sent_row now)" "keeps_delivery (retry_row msg t now)" "keeps_delivery (dead_row msg now)"
  "keeps_delivery (requeued_row now)"
  by (simp_all add: keeps_delivery_def sent_row_def retry_row_def dead_row_def requeued_row_def)

lemma abs_rows:
  "abs_delivery (sent_row now r) = Delivered (dr_AttemptCount r)"
  "abs_delivery (retry_row msg t now r) = Scheduled (dr_AttemptCount r + 1) t"
  "abs_delivery (dead_row msg now r) = GivenUp (dr_AttemptCount r + 1)"
  "abs_delivery (requeued_row now r) = Queued (dr_AttemptCount r)"
  by (simp_all add: abs_delivery_def sent_row_def retry_row_def dead_row_def requeued_row_def)

lemma live_row:
  assumes "live (abs_table d k) = Some a"
  shows "\<exists>r. delivery_of d k = Some r \<and> live (abs_delivery r) = Some a"
  using assms by (auto simp: abs_table_def split: option.splits)

lemma live_count:
  assumes "live (abs_delivery r) = Some a" and "delivery_row_ok m r"
  shows "dr_AttemptCount r = a" and "0 \<le> a" and "a < m" and "dr_SentAt r = None"
  using assms attempts_ok_live[of m "abs_delivery r" a]
  by (auto simp: abs_delivery_def delivery_row_ok_def split: if_splits)

lemma mark_wp:
  assumes "notifying m evs (w_db w)" and "live (abs_table (w_db w) k) = Some a"
    and "keeps_delivery (f (w_pg_now w))" and "\<And>r. dr_AttemptCount r = a \<Longrightarrow> abs_delivery (f (w_pg_now w) r) = y"
    and "\<And>r. live (abs_delivery r) = Some a \<Longrightarrow> delivery_row_ok m r \<Longrightarrow> delivery_row_ok m (f (w_pg_now w) r)"
  shows "wp (annot g (pool_stmt (sql_update_delivery k f)))
      (\<lambda>_ w'. outside w w' \<and> notifying m evs (w_db w') \<and> abs_table (w_db w') = (abs_table (w_db w))(k := y))
      (\<lambda>_ w'. outside w w' \<and> notifying m evs (w_db w') \<and>
         abs_table (w_db w') \<in> {abs_table (w_db w), (abs_table (w_db w))(k := y)}) w"
proof -
  obtain r where r: "delivery_of (w_db w) k = Some r" "live (abs_delivery r) = Some a"
    using live_row[OF assms(2)] by blast
  have table: "deliveries_ok m (w_db w)" using assms(1) by (simp add: notifying_def)
  have ok: "delivery_row_ok m r" using assms(1) delivery_of_SomeD[OF r(1)] by (simp add: notifying_def deliveries_ok_def)
  then have "deliveries_ok m (updated k (f (w_pg_now w)) (w_db w))"
    "abs_table (updated k (f (w_pg_now w)) (w_db w)) = (abs_table (w_db w))(k := y)"
    using deliveries_ok_updated[OF assms(3) table r(1)] abs_table_updated[OF assms(3) r(1)] assms(4,5) r
      live_count(1)[OF r(2) ok] by auto
  then show ?thesis
    using assms(1) by (auto simp: notifying_def updated_def wp_simps sql_update_delivery_def updated_def outside_def split: call_outcome.splits)
qed

lemma marks_ok:
  assumes "live (abs_delivery r) = Some a" and "delivery_row_ok m r"
  shows "delivery_row_ok m (sent_row now r)" and "delivery_row_ok m (requeued_row now r)"
    and "a + 1 < m \<Longrightarrow> delivery_row_ok m (retry_row msg t now r)"
    and "m \<le> a + 1 \<Longrightarrow> delivery_row_ok m (dead_row msg now r)"
  using live_count[OF assms] abs_rows(1,4)[of now r] abs_rows(2)[of msg t now r] abs_rows(3)[of msg now r]
  by (simp_all add: delivery_row_ok_def attempts_ok_def)
    (simp_all add: sent_row_def requeued_row_def retry_row_def dead_row_def)

lemma UpsertPending_law:
  fixes w :: "('d delivery_db_scheme, wire) world"
  assumes "notifying m evs (w_db w)" and "0 < m"
  shows "wp (UpsertPending p)
      (\<lambda>row w'. outside w w' \<and> notifying m evs (w_db w') \<and> abs_delivery row = abs_table (w_db w') (np_IdempotencyKey p) \<and>
         (abs_table (w_db w') = abs_table (w_db w) \<or> abs_table (w_db w) (np_IdempotencyKey p) = Unseen \<and>
            abs_table (w_db w') = (abs_table (w_db w))(np_IdempotencyKey p := Queued 0)))
      (\<lambda>_ w'. outside w w' \<and> notifying m evs (w_db w') \<and>
         (abs_table (w_db w') = abs_table (w_db w) \<or> abs_table (w_db w) (np_IdempotencyKey p) = Unseen \<and>
            abs_table (w_db w') = (abs_table (w_db w))(np_IdempotencyKey p := Queued 0))) w"
proof (cases "delivery_of (w_db w) (np_IdempotencyKey p)")
  case (Some r)
  then have "sql_upsert_pending p (w_db w) (w_pg_now w) = Inr (r, w_db w)"
    by (simp add: sql_upsert_pending_def delivery_of_def)
  with Some assms(1) show ?thesis
    by (auto simp: notifying_def UpsertPending_def wp_simps outside_def abs_table_def split: call_outcome.splits)
next
  case None
  let ?r = "pending_row p (w_pg_now w)" and ?d = "w_db w"
  have none: "lookup_row dr_IdempotencyKey (deliveries ?d) (np_IdempotencyKey p) = None"
    using None by (simp add: delivery_of_def)
  have row: "dr_IdempotencyKey ?r = np_IdempotencyKey p" "dr_NotificationID ?r = np_NotificationID p"
    "abs_delivery ?r = Queued 0" "delivery_row_ok m ?r"
    using assms(2) by (simp_all add: pending_row_def abs_delivery_def delivery_row_ok_def attempts_ok_def)
  have unseen: "abs_table ?d (np_IdempotencyKey p) = Unseen" using None by (simp add: abs_table_def)
  have added: "abs_table (?d\<lparr>deliveries := deliveries ?d @ [?r]\<rparr>) = (abs_table ?d)(np_IdempotencyKey p := Queued 0)"
    using abs_table_append[of ?d ?r] None row by simp
  have ok: "deliveries_ok m (?d\<lparr>deliveries := deliveries ?d @ [?r]\<rparr>)"
    if "np_NotificationID p \<notin> dr_NotificationID ` set (deliveries ?d)"
    using that assms(1) row none
    by (auto simp: notifying_def deliveries_ok_def keyed_append_row lookup_row_None) (metis imageI)
  show ?thesis
    using assms(1) none unseen added ok row
    by (auto simp: notifying_def UpsertPending_def wp_simps outside_def sql_upsert_pending_def split: call_outcome.splits)
qed

section \<open>The worker of the notification service\<close>

definition attempts_bound :: "int \<Rightarrow> int" where
  "attempts_bound n = (if n \<le> 0 then 3 else n)"

lemma attempts_bound_pos: "0 < attempts_bound n"
  by (simp add: attempts_bound_def)

definition mail_of :: "smtp_config \<Rightarrow> string \<Rightarrow> string \<Rightarrow> wire sent_effect" where
  "mail_of cfg to msg = Emailed to (mail_text (senderAddress cfg) to msg)"

lemma SMTP_Send_law:
  "wp (SMTP_Send cfg to msg)
     (\<lambda>_ w'. same_clocks w w' \<and> w_db w' = w_db w \<and> w_trace w' = w_trace w @ [mail_of cfg to msg])
     (\<lambda>_ w'. same_clocks w w' \<and> w_db w' = w_db w \<and> w_trace w' \<in> {w_trace w, w_trace w @ [mail_of cfg to msg]}) w"
  by (simp add: SMTP_Send_def SendMail_def mail_of_def same_clocks_def wp_simps split: call_outcome.splits)

lemma DeadLetter_law:
  "wp (DeadLetter E Publish p e)
     (\<lambda>_ w'. same_clocks w w' \<and> w_db w' = w_db w \<and>
        (\<exists>tr. w_trace w' = w_trace w @ tr \<and> commits tr = [] \<and> dead_letter_of E p tr))
     (\<lambda>_ w'. same_clocks w w' \<and> w_db w' = w_db w \<and> (\<exists>tr. w_trace w' = w_trace w @ tr \<and> commits tr = [])) w"
proof (cases "encode_envelope E (\<lambda>p. Inr (encode_notification p))
    (notification_event p (uuid_gen E (w_uuids w)) (uuid_gen E (w_uuids w)) (w_app_now w) None)")
  case (Inl e)
  then show ?thesis
    by (simp add: DeadLetter_def publish_notification_def wp_simps same_clocks_def)
next
  case (Inr j)
  then have "dead_letter_of E p [Published TopicNotificationDLQ (np_EmailHash p) (Some j)]"
    by (auto simp: dead_letter_of_def)
  with Inr show ?thesis
    by (auto simp: DeadLetter_def publish_notification_def Publish_def wp_simps same_clocks_def
        split: call_outcome.splits)
qed

lemma process_sel:
  "dv_repo (notification_process E cfg n ds) = delivery_repository"
  "dv_sender (notification_process E cfg n ds) = SMTP_Send cfg"
  "dv_retries (notification_process E cfg n ds) = Some (DeadLetter E Publish)"
  "dv_maxAttempts (notification_process E cfg n ds) = attempts_bound n"
  "dv_retryDelays (notification_process E cfg n ds) = ds"
  by (simp_all add: notification_process_def NewDeliveryService_def attempts_bound_def)

lemma repository_sel:
  "ds_UpsertPending delivery_repository = UpsertPending" "ds_MarkSent delivery_repository = MarkSent"
  "ds_MarkFailed delivery_repository = MarkDeliveryFailed" "ds_MarkDead delivery_repository = MarkDead"
  by (simp_all add: delivery_repository_def)

interpretation mailer: delivery_worker E "notification_process E cfg n ds :: ('d delivery_db_scheme) delivery_service"
  "DeadLetter E Publish" "notifying (attempts_bound n) evs" abs_table "mail_of cfg" for E cfg n ds evs
proof (rule delivery_worker.intro, goal_cases)
  case (1 w p)
  then show ?case unfolding process_sel repository_sel by (rule UpsertPending_law[OF _ attempts_bound_pos])
next
  case (2 w k a)
  then show ?case unfolding process_sel repository_sel MarkSent_def
    by (intro mark_wp) (auto simp: keeps_rows abs_rows marks_ok)
next
  case (3 w k a c t)
  then show ?case unfolding process_sel repository_sel MarkDeliveryFailed_def
    by (intro mark_wp) (auto simp: keeps_rows abs_rows marks_ok)
next
  case (4 w k a c)
  then show ?case unfolding process_sel repository_sel MarkDead_def
    by (intro mark_wp) (auto simp: keeps_rows abs_rows marks_ok)
next
  case (5 to msg w)
  show ?case unfolding process_sel by (rule SMTP_Send_law)
next
  case 6
  show ?case by (rule process_sel)
next
  case (7 p e w)
  show ?case by (rule DeadLetter_law)
next
  case (8 to msg)
  show ?case by (simp add: mail_of_def commits_def)
qed

end
