(* ===== verification/Delivery_Retries.thy ===== *)
theory Delivery_Retries
  imports Delivery_Properties
begin

text \<open>
  The retry scheduler: in one transaction the due deliveries go back to the queue, and the
  outbox gets one command for each of them, with the payload of its row.
\<close>

lemma notification_in_event:
  assumes "time_codec E"
    and "encode_envelope E (\<lambda>p. Inr (encode_notification p)) (notification_event p i c t nb) = Inr v"
  shows "notification_in E (new_event i' ty t' src c' TopicNotificationCommands k (Some v)) = Some p"
  using envelope_round_trip[OF assms(1) notification_codec assms(2)]
  by (simp add: notification_in_def notification_event_def)

definition requeued_rows :: "delivery_row list \<Rightarrow> int \<Rightarrow> delivery_row list \<Rightarrow> delivery_row list" where
  "requeued_rows due now rows =
     update_where (\<lambda>r. dr_IdempotencyKey r \<in> dr_IdempotencyKey ` set due) (requeued_row now) rows"

lemma requeued_rows_snoc:
  "update_where (\<lambda>r. dr_IdempotencyKey r = dr_IdempotencyKey x) (requeued_row now) (requeued_rows ys now rows)
     = requeued_rows (ys @ [x]) now rows"
  by (induction rows) (auto simp: requeued_rows_def requeued_row_def)

text \<open>The database after the rows \<open>ys\<close> have been put back.\<close>

definition requeue_done ::
    "env \<Rightarrow> ('d delivery_db_scheme, wire) world \<Rightarrow> delivery_row list \<Rightarrow> 'd delivery_db_scheme \<Rightarrow> nat \<Rightarrow> bool" where
  "requeue_done E w ys d u =
     (deliveries d = requeued_rows ys (w_pg_now w) (deliveries (w_db w)) \<and> uuids_fresh E u (outbox_events d) \<and>
      (\<exists>es. outbox_events d = outbox_events (w_db w) @ es \<and>
         map (notification_in E) es = map (\<lambda>r. Some (payload_of r)) ys))"

lemma requeue_tx:
  fixes w :: "('d delivery_db_scheme, wire) world"
  assumes "time_codec E" and "staged w d u w1" and "requeue_done E w ys d u"
    and go_on: "\<And>d' u' w2. requeue_done E w (ys @ [x]) d' u' \<Longrightarrow> staged w d' u' w2 \<Longrightarrow> tx_wp g P w w2"
  shows "tx_wp (bnd (requeue E now x) (\<lambda>_. g)) P w w1"
proof -
  from assms(3) obtain es where es: "outbox_events d = outbox_events (w_db w) @ es"
      "map (notification_in E) es = map (\<lambda>r. Some (payload_of r)) ys"
    and rows: "deliveries d = requeued_rows ys (w_pg_now w) (deliveries (w_db w))"
    and fresh: "uuids_fresh E u (outbox_events d)"
    by (auto simp: requeue_done_def)
  have fresh1: "uuids_fresh E (Suc u) (outbox_events d)" using fresh by (rule uuids_fresh_mono) simp
  show ?thesis
    unfolding requeue_def
  proof (rule tx_wp_assoc, rule tx_wp_uuid[OF assms(2)], rule tx_wp_assoc, rule tx_wp_of_sum_annot, assumption,
      rule tx_wp_assoc, rule tx_wp_uuid, assumption, rule tx_wp_assoc, rule tx_wp_new_event, assumption,
      rule tx_wp_annot_bnd, rule tx_wp_stmt, assumption)
    fix w2 v w3 w4 a d' w5
    let ?e = "new_event (uuid_gen E (Suc u)) EventNotificationRequested (if now = zero_time then w_app_now w else now)
      ''notification-service'' (dr_NotificationID x) TopicNotificationCommands (dr_EmailHash x) (Some v)"
    assume v: "marshalRetryEvent E (payload_of x) now (uuid_gen E u) = Inr v"
      and q: "sql_update_delivery (dr_IdempotencyKey x) requeued_row
        (d\<lparr>outbox_events := add_event ?e (outbox_events d)\<rparr>) (w_pg_now w) = Inr (a, d')"
      and w5: "staged w d' (Suc (Suc u)) w5"
    have add: "add_event ?e (outbox_events d) = outbox_events d @ [?e]"
      by (rule fresh_event(1)[OF fresh1]) simp
    have d': "outbox_events d' = outbox_events d @ [?e]"
      "deliveries d' = requeued_rows (ys @ [x]) (w_pg_now w) (deliveries (w_db w))"
      using q unfolding add by (auto simp: sql_update_delivery_def rows requeued_rows_snoc)
    have "uuids_fresh E (Suc (Suc u)) (outbox_events d @ [?e])"
      by (rule fresh_event(2)[OF fresh1]) simp
    moreover have "notification_in E ?e = Some (payload_of x)"
      using notification_in_event[OF assms(1) v[unfolded marshalRetryEvent_def]] .
    ultimately have "requeue_done E w (ys @ [x]) d' (Suc (Suc u))"
      unfolding requeue_done_def d' using es by (intro conjI exI[of _ "es @ [?e]"]) simp_all
    then show "tx_wp g P w w5" using w5 by (rule go_on)
  qed
qed

lemma EnqueueDueRetries_tx:
  fixes w :: "('d delivery_db_scheme, wire) world" and n :: int
  assumes "time_codec E" and "uuids_fresh E (w_uuids w) (outbox_events (w_db w))"
  defines "due \<equiv> due_retries E (if n \<le> 0 then 100 else nat n) (w_pg_now w) (deliveries (w_db w))"
  shows "tx_wp (EnqueueDueRetries E n) (\<lambda>k d u. requeue_done E w due d u \<and> k = length due) w w"
proof -
  have start: "requeue_done E w [] (w_db w) (w_uuids w)"
    using assms(2) by (simp add: requeue_done_def requeued_rows_def update_where_none)
  have loop: "tx_wp (bnd (for_each (requeue E now) due) (\<lambda>_. bnd (annot g commit_tx) (\<lambda>_. ret (length due))))
      (\<lambda>k d u. requeue_done E w due d u \<and> k = length due) w w1" if w1: "staged w (w_db w) (w_uuids w) w1" for now g w1
  proof (rule tx_wp_for_each[OF w1, where J = "\<lambda>xs d u. \<exists>ys. due = ys @ xs \<and> requeue_done E w ys d u"])
    show "\<exists>ys. due = ys @ due \<and> requeue_done E w ys (w_db w) (w_uuids w)" using start by auto
    fix x xs d u w1 and k :: "('d delivery_db_scheme, wire, nat) go"
    assume "\<exists>ys. due = ys @ x # xs \<and> requeue_done E w ys d u" and w1: "staged w d u w1"
      and k: "\<And>d' u' w2. \<exists>ys. due = ys @ xs \<and> requeue_done E w ys d' u' \<Longrightarrow> staged w d' u' w2 \<Longrightarrow>
        tx_wp k (\<lambda>k d u. requeue_done E w due d u \<and> k = length due) w w2"
    then obtain ys where ys: "due = ys @ x # xs" "requeue_done E w ys d u" by blast
    show "tx_wp (bnd (requeue E now x) (\<lambda>_. k)) (\<lambda>k d u. requeue_done E w due d u \<and> k = length due) w w1"
      by (rule requeue_tx[OF assms(1) w1 ys(2)], rule k) (use ys(1) in auto)
  next
    fix d u w1 assume "\<exists>ys. due = ys @ [] \<and> requeue_done E w ys d u" "staged w d u w1"
    then show "tx_wp (bnd (annot g commit_tx) (\<lambda>_. ret (length due))) (\<lambda>k d u. requeue_done E w due d u \<and> k = length due) w w1"
      by (intro tx_wp_annot_bnd tx_wp_commit_ret) auto
  qed
  show ?thesis
    unfolding EnqueueDueRetries_def Let_def
    by (intro tx_wp_with_tx tx_wp_annot_bnd, rule tx_wp_stmt, assumption)
      (auto simp: sql_due_retries_def due_def[symmetric] intro!: tx_wp_clock loop)
qed

section \<open>What the batch means for the machine\<close>

lemma due_is_scheduled:
  assumes "r \<in> set (due_retries E k now rows)"
  shows "r \<in> set rows \<and> (\<exists>t. abs_delivery r = Scheduled (dr_AttemptCount r) t \<and> t \<le> now)"
proof -
  have "r \<in> set rows" and due: "retry_due E now r"
    using select_whereD[OF assms[unfolded due_retries_def]] by auto
  from due obtain t where "dr_NextAttemptAt r = Some t" "t \<le> now" "dr_Status r = DeliveryFailed"
    by (auto simp: retry_due_def split: option.splits)
  then have "abs_delivery r = Scheduled (dr_AttemptCount r) t" "t \<le> now"
    by (simp_all add: abs_delivery_def)
  with \<open>r \<in> set rows\<close> show ?thesis by blast
qed

lemma delivery_of_requeued:
  assumes "deliveries d' = requeued_rows due now (deliveries d)"
  shows "delivery_of d' k = map_option (\<lambda>r. if k \<in> dr_IdempotencyKey ` set due then requeued_row now r else r) (delivery_of d k)"
proof -
  have "dr_IdempotencyKey (requeued_row now r) = dr_IdempotencyKey r" for r by (simp add: requeued_row_def)
  from lookup_row_update_where[of dr_IdempotencyKey "requeued_row now", OF this]
  have "delivery_of d' k = map_option
      (\<lambda>r. if dr_IdempotencyKey r \<in> dr_IdempotencyKey ` set due then requeued_row now r else r) (delivery_of d k)"
    unfolding delivery_of_def assms requeued_rows_def .
  then show ?thesis
    using delivery_of_SomeD by (cases "delivery_of d k") auto
qed

lemma requeued_is_scheduled:
  assumes "deliveries_ok m (w_db w)" and "due = due_retries E n (w_pg_now w) (deliveries (w_db w))"
    and r: "r \<in> set (deliveries (w_db w))" "dr_IdempotencyKey r \<in> dr_IdempotencyKey ` set due"
  shows "\<exists>t. abs_delivery r = Scheduled (dr_AttemptCount r) t \<and> t \<le> w_pg_now w"
proof -
  from r(2) obtain x where x: "x \<in> set due" "dr_IdempotencyKey x = dr_IdempotencyKey r" by auto
  have sched: "x \<in> set (deliveries (w_db w))"
    "\<exists>t. abs_delivery x = Scheduled (dr_AttemptCount x) t \<and> t \<le> w_pg_now w"
    using due_is_scheduled[of x E n] x(1) assms(2) by auto
  then have "x = r"
    using keyedD[of dr_IdempotencyKey "deliveries (w_db w)" x r] x(2) r(1) assms(1)
    by (simp add: deliveries_ok_def)
  with sched(2) show ?thesis by simp
qed

lemma requeued_machine:
  assumes "deliveries_ok m (w_db w)" and "due = due_retries E n (w_pg_now w) (deliveries (w_db w))"
    and "deliveries d = requeued_rows due (w_pg_now w) (deliveries (w_db w))"
  shows "deliveries_ok m d"
    and "abs_table d k = abs_table (w_db w) k \<or>
      delivery_step m' delay now (w_pg_now w) (abs_table (w_db w) k) (abs_table d k)"
proof -
  note row = requeued_is_scheduled[OF assms(1,2)]
  have fine: "delivery_row_ok m (requeued_row (w_pg_now w) r)"
    if "r \<in> set (deliveries (w_db w))" "dr_IdempotencyKey r \<in> dr_IdempotencyKey ` set due" for r
    using row[OF that] that(1) assms(1) marks_ok(2)[of r] by (auto simp: deliveries_ok_def)
  have keep: "dr_IdempotencyKey (requeued_row t r) = dr_IdempotencyKey r"
    "dr_NotificationID (requeued_row t r) = dr_NotificationID r" for t r
    by (simp_all add: requeued_row_def)
  show "deliveries_ok m d"
    using assms(1,3) fine
    by (auto simp: deliveries_ok_def requeued_rows_def keyed_update_where keep set_update_where)
  show "abs_table d k = abs_table (w_db w) k \<or>
      delivery_step m' delay now (w_pg_now w) (abs_table (w_db w) k) (abs_table d k)"
  proof (cases "delivery_of (w_db w) k")
    case None
    then show ?thesis using delivery_of_requeued[OF assms(3), of k] by (simp add: abs_table_def)
  next
    case (Some r)
    then have r: "r \<in> set (deliveries (w_db w))" "dr_IdempotencyKey r = k" using delivery_of_SomeD[OF Some] by auto
    show ?thesis
      using row[of r] r Some delivery_of_requeued[OF assms(3), of k]
      by (cases "k \<in> dr_IdempotencyKey ` set due") (auto simp: abs_table_def abs_rows intro: requeued)
  qed
qed

end
