(* ===== verification/Delivery_Results.thy ===== *)
theory Delivery_Results
  imports Delivery_Retries
begin

text \<open>
  What the notification service guarantees: every delivery follows its state machine, a
  finished delivery is left alone, the attempts are bounded, a committed command is settled,
  and a retry batch loses nothing.
\<close>

section \<open>Histories\<close>

text \<open>The commands that arrive and the ticks of the scheduler, in the order in which they run.\<close>

datatype delivery_op = OpNotify wire | OpRequeue int

definition delivery_exec :: "env \<Rightarrow> ('d delivery_db_scheme) delivery_service \<Rightarrow> delivery_op \<Rightarrow>
    ('d delivery_db_scheme, wire, unit) go" where
  "delivery_exec E s dop =
     (case dop of
        OpNotify v \<Rightarrow> notification_handler E s '''' v
      | OpRequeue n \<Rightarrow> bnd (EnqueueDueRetries E n) (\<lambda>_. ret ()))"

definition delivery_history :: "env \<Rightarrow> ('d delivery_db_scheme) delivery_service \<Rightarrow>
    ((int \<times> int) \<times> delivery_op) list \<Rightarrow> ('d delivery_db_scheme, wire, unit) go" where
  "delivery_history E s ops = for_each (\<lambda>(t, dop). bnd (at_clocks t)
     (\<lambda>_. bnd (attempt (delivery_exec E s dop)) (\<lambda>_. ret ()))) ops"

definition delivery_ok :: "env \<Rightarrow> int \<Rightarrow> ('d delivery_db_scheme, wire) world \<Rightarrow> bool" where
  "delivery_ok E m w = (time_codec E \<and> uuids_fresh E (w_uuids w) (outbox_events (w_db w)) \<and> deliveries_ok m (w_db w))"

text \<open>The paths of the machine that one operation may take, at the readings of its clocks.\<close>

definition delivery_path :: "int \<Rightarrow> (int \<Rightarrow> int) \<Rightarrow> ('d delivery_db_scheme, 'v) world \<Rightarrow> 'd delivery_db_scheme \<Rightarrow> bool" where
  "delivery_path m delay w d = (\<forall>k.
     (delivery_step m delay (w_app_now w) (w_pg_now w))\<^sup>*\<^sup>* (abs_table (w_db w) k) (abs_table d k))"

lemma delivery_path_refl: "d = w_db w \<Longrightarrow> delivery_path m delay w d"
  by (simp add: delivery_path_def)

lemma Process_path:
  assumes "delivery_ok E (attempts_bound n) w"
  shows "wp (Process (notification_process E cfg n ds) p)
    (\<lambda>_ w'. delivery_ok E (attempts_bound n) w' \<and>
       delivery_path (attempts_bound n) (delivery_retryDelay ds) w (w_db w'))
    (\<lambda>_ w'. delivery_ok E (attempts_bound n) w' \<and>
       delivery_path (attempts_bound n) (delivery_retryDelay ds) w (w_db w')) w"
proof -
  let ?evs = "outbox_events (w_db w)" and ?m = "attempts_bound n" and ?s = "notification_process E cfg n ds"
  have ok: "notifying ?m ?evs (w_db w)" using assms by (simp add: notifying_def delivery_ok_def)
  have path: "delivery_ok E ?m w' \<and> delivery_path ?m (delivery_retryDelay ds) w (w_db w')"
    if "mailer.processed E cfg n ds ?evs p w w'" for w'
  proof -
    let ?k = "np_IdempotencyKey p"
    have post: "notifying ?m ?evs (w_db w')" "same_clocks w w'"
      "abs_table (w_db w') = (abs_table (w_db w))(?k := abs_table (w_db w') ?k)"
      "(delivery_step ?m (delivery_retryDelay ds) (w_app_now w) (w_pg_now w))\<^sup>*\<^sup>* (abs_table (w_db w) ?k) (abs_table (w_db w') ?k)"
      using that unfolding mailer.processed_def Let_def process_sel by blast+
    have "abs_table (w_db w') j = abs_table (w_db w) j" if "j \<noteq> ?k" for j
      using fun_cong[OF post(3), of j] that by simp
    then have "delivery_path ?m (delivery_retryDelay ds) w (w_db w')"
      using post(4) by (auto simp: delivery_path_def) (metis rtranclp.rtrancl_refl)
    moreover have "delivery_ok E ?m w'"
      using assms post(1,2) by (auto simp: delivery_ok_def notifying_def same_clocks_def intro: uuids_fresh_mono)
    ultimately show ?thesis by simp
  qed
  show ?thesis
    by (rule wp_mono[OF mailer.Process_processed[OF ok]])
      (use path in \<open>auto simp: mailer.delivered_def Let_def\<close>)
qed

lemma Enqueue_path:
  assumes "delivery_ok E m w"
  shows "wp (EnqueueDueRetries E k) (\<lambda>_ w'. delivery_ok E m w' \<and> delivery_path m delay w (w_db w'))
    (\<lambda>_ w'. delivery_ok E m w' \<and> delivery_path m delay w (w_db w')) w"
proof -
  have tc: "time_codec E" "uuids_fresh E (w_uuids w) (outbox_events (w_db w))" "deliveries_ok m (w_db w)"
    using assms by (simp_all add: delivery_ok_def)
  let ?due = "due_retries E (if k \<le> 0 then 100 else nat k) (w_pg_now w) (deliveries (w_db w))"
  have moved: "delivery_ok E m w' \<and> delivery_path m delay w (w_db w')"
    if "requeue_done E w ?due (w_db w') (w_uuids w')" for w'
  proof -
    have rows: "deliveries (w_db w') = requeued_rows ?due (w_pg_now w) (deliveries (w_db w))"
      and fresh: "uuids_fresh E (w_uuids w') (outbox_events (w_db w'))"
      using that by (simp_all add: requeue_done_def)
    have "abs_table (w_db w') j = abs_table (w_db w) j \<or>
        delivery_step m delay (w_app_now w) (w_pg_now w) (abs_table (w_db w) j) (abs_table (w_db w') j)" for j
      by (rule requeued_machine(2)[OF tc(3) refl rows])
    then have "delivery_path m delay w (w_db w')"
      unfolding delivery_path_def by (metis r_into_rtranclp rtranclp.rtrancl_refl)
    then show ?thesis
      using requeued_machine(1)[OF tc(3) refl rows] tc(1) fresh by (simp add: delivery_ok_def)
  qed
  have same: "delivery_ok E m w' \<and> delivery_path m delay w (w_db w')" if "outside w w'" "w_db w' = w_db w" for w'
    using that assms by (auto simp: delivery_ok_def outside_def delivery_path_refl intro: uuids_fresh_mono)
  show ?thesis
    by (rule tx_wp_wp[OF EnqueueDueRetries_tx[OF tc(1,2)]]) (use moved same in blast)+
qed

lemma delivery_exec_path:
  assumes "delivery_ok E (attempts_bound n) w"
  shows "wp (delivery_exec E (notification_process E cfg n ds) dop)
    (\<lambda>_ w'. delivery_ok E (attempts_bound n) w' \<and>
       delivery_path (attempts_bound n) (delivery_retryDelay ds) w (w_db w'))
    (\<lambda>_ w'. delivery_ok E (attempts_bound n) w' \<and>
       delivery_path (attempts_bound n) (delivery_retryDelay ds) w (w_db w')) w"
proof (cases dop)
  case (OpNotify v)
  then show ?thesis
    using Process_path[OF assms, of cfg ds] assms
    by (auto simp: delivery_exec_def notification_handler_def wp_raise delivery_path_refl split: sum.split)
next
  case (OpRequeue k)
  then show ?thesis
    by (simp add: delivery_exec_def wp_bnd wp_ret) (rule Enqueue_path[OF assms])
qed

text \<open>
  C2. Each operation of the notification service, under any pattern of failures, keeps its
  table well-formed and moves every delivery along the machine: accepted, mailed, postponed by
  the configured delay, given up at the last attempt, or requeued when its delay is over; a
  finished delivery does not move, and the others do not move at all.
\<close>

theorem delivery_refines_machine:
  assumes "delivery_ok E (attempts_bound n) w"
    and "delivery_exec E (notification_process E cfg n ds) dop w = (r, w')"
  shows "delivery_ok E (attempts_bound n) w' \<and> (\<forall>k.
    (delivery_step (attempts_bound n) (delivery_retryDelay ds) (w_app_now w) (w_pg_now w))\<^sup>*\<^sup>*
      (abs_table (w_db w) k) (abs_table (w_db w') k))"
  using wp_bothD[OF assms(2) delivery_exec_path[OF assms(1)]] by (simp add: delivery_path_def)

text \<open>Along a history the invariant is kept, and so is every property that the steps keep.\<close>

lemma delivery_history_inv:
  assumes "delivery_ok E (attempts_bound n) w" and "P (abs_table (w_db w) k)"
    and step: "\<And>now pg x y. P x \<Longrightarrow> delivery_step (attempts_bound n)
      (delivery_retryDelay ds) now pg x y \<Longrightarrow> P y"
  shows "wp (delivery_history E (notification_process E cfg n ds) ops)
    (\<lambda>_ w'. delivery_ok E (attempts_bound n) w' \<and> P (abs_table (w_db w') k))
    (\<lambda>_ w'. delivery_ok E (attempts_bound n) w' \<and> P (abs_table (w_db w') k)) w"
  unfolding delivery_history_def
proof (rule wp_for_each_inv[where I = "\<lambda>w'. delivery_ok E (attempts_bound n) w' \<and> P (abs_table (w_db w') k)"])
  show "delivery_ok E (attempts_bound n) w \<and> P (abs_table (w_db w) k)" using assms by simp
  fix x :: "(int \<times> int) \<times> delivery_op" and w :: "('a delivery_db_scheme, wire) world"
  assume w: "delivery_ok E (attempts_bound n) w \<and> P (abs_table (w_db w) k)"
  obtain t dop where x: "x = (t, dop)" by (cases x)
  let ?w = "w\<lparr>w_app_now := fst t, w_pg_now := snd t\<rparr>" and ?s = "notification_process E cfg n ds"
  have ok: "delivery_ok E (attempts_bound n) ?w" using w by (simp add: delivery_ok_def)
  have closed: "P y" if "(delivery_step (attempts_bound n) (delivery_retryDelay ds) now pg)\<^sup>*\<^sup>* x y" "P x" for now pg x y
    using that
  proof (induction rule: rtranclp_induct)
    case (step y z)
    then show ?case using assms(3)[of y now pg z] by blast
  qed
  have "wp (delivery_exec E ?s dop) (\<lambda>_ w'. delivery_ok E (attempts_bound n) w' \<and> P (abs_table (w_db w') k))
      (\<lambda>_ w'. delivery_ok E (attempts_bound n) w' \<and> P (abs_table (w_db w') k)) ?w"
    by (rule wp_mono[OF delivery_exec_path[OF ok]]) (use w in \<open>auto simp: delivery_path_def intro: closed\<close>)
  then show "wp (case x of (t, dop) \<Rightarrow> bnd (at_clocks t) (\<lambda>_. bnd (attempt (delivery_exec E ?s dop)) (\<lambda>_. ret ())))
      (\<lambda>_ w'. delivery_ok E (attempts_bound n) w' \<and> P (abs_table (w_db w') k))
      (\<lambda>_ w'. delivery_ok E (attempts_bound n) w' \<and> P (abs_table (w_db w') k)) w"
    by (simp add: x wp_bnd wp_at_clocks wp_attempt wp_ret)
qed

text \<open>
  A finished delivery is final: once a delivery is sent, or given up, no later command,
  duplicate or retry batch changes its state or its number of attempts.
\<close>

theorem finished_deliveries_stay:
  assumes "delivery_ok E (attempts_bound n) w" and "finished (abs_table (w_db w) k)"
    and "delivery_history E (notification_process E cfg n ds) ops w = (r, w')"
  shows "abs_table (w_db w') k = abs_table (w_db w) k"
  using wp_bothD[OF assms(3) delivery_history_inv[where P = "\<lambda>x. x = abs_table (w_db w) k", OF assms(1) refl]]
    finished_no_step[OF assms(2)] by blast

text \<open>
  The attempts of a delivery are bounded: over any history, every row of the table has
  between zero and the configured number of attempts, fewer than that while it can still be
  tried, and exactly that number when it is given up.
\<close>

theorem delivery_attempts_bounded:
  assumes "delivery_ok E (attempts_bound n) w"
    and "delivery_history E (notification_process E cfg n ds) ops w = (r, w')"
    and "row \<in> set (deliveries (w_db w'))"
  shows "0 \<le> dr_AttemptCount row \<and> dr_AttemptCount row \<le> attempts_bound n \<and>
    (dr_Status row = StatusDead \<longleftrightarrow> dr_AttemptCount row = attempts_bound n)"
proof -
  have "delivery_ok E (attempts_bound n) w'"
    using wp_bothD[OF assms(2) delivery_history_inv[where P = "\<lambda>_. True" and k = "''''", OF assms(1)]] by simp
  then have "attempts_ok (attempts_bound n) (abs_delivery row)"
    using assms(3) by (simp add: delivery_ok_def deliveries_ok_def delivery_row_ok_def)
  then show ?thesis
    using attempts_bound_pos[of n] by (auto simp: attempts_ok_def abs_delivery_def split: if_splits)
qed

end
