(* ===== verification/Delivery_Guarantees.thy ===== *)
theory Delivery_Guarantees
  imports Delivery_Results
begin

text \<open>
  The guarantees of one command and of one retry batch, the consumer of the commands, and the
  mails themselves.
\<close>

section \<open>One command\<close>

lemma delivery_ok_notifying: "delivery_ok E m w \<Longrightarrow> notifying m (outbox_events (w_db w)) (w_db w)"
  by (simp add: delivery_ok_def notifying_def)

lemma command_settles:
  assumes "delivery_ok E (attempts_bound n) w" and "decode_envelope E decode_notification v = Inr event"
    and "EventType event = EventNotificationRequested"
    and "notification_handler E (notification_process E cfg n ds) key v w = (r, w')"
  shows "let p = Payload event; x = abs_table (w_db w) (np_IdempotencyKey p); y = abs_table (w_db w') (np_IdempotencyKey p) in
    (\<exists>tr. w_trace w' = w_trace w @ tr \<and> (finished x \<longrightarrow> tr = [] \<and> y = x) \<and>
       (\<forall>a. y = Delivered a \<longrightarrow> \<not> finished x \<longrightarrow> tr = [mail_of cfg (np_RecipientEmail p) (np_Message p)])) \<and>
    (r = Inr () \<longrightarrow> settled_delivery y \<and>
       (\<forall>a. y = GivenUp a \<longrightarrow> \<not> finished x \<longrightarrow> dead_letter_of E p (w_trace w')))"
proof -
  let ?p = "Payload event" and ?s = "notification_process E cfg n ds" and ?evs = "outbox_events (w_db w)"
  let ?x = "abs_table (w_db w) (np_IdempotencyKey ?p)" and ?y = "abs_table (w_db w') (np_IdempotencyKey ?p)"
  have run: "Process ?s ?p w = (r, w')" using assms(2-4) by (simp add: notification_handler_def)
  from mailer.Process_processed[OF delivery_ok_notifying[OF assms(1)], of E cfg ds ?p] run
  have post: "mailer.processed E cfg n ds ?evs ?p w w'" "r = Inr () \<Longrightarrow> mailer.delivered E cfg n ds ?evs ?p w w'"
    by (auto simp: wp_def mailer.delivered_def Let_def split: sum.splits)
  have path: "(delivery_step (attempts_bound n) (delivery_retryDelay ds) (w_app_now w) (w_pg_now w))\<^sup>*\<^sup>* ?x ?y"
    and tr: "\<exists>tr. w_trace w' = w_trace w @ tr \<and> (finished ?x \<longrightarrow> tr = []) \<and>
      (\<forall>a. ?y = Delivered a \<longrightarrow> \<not> finished ?x \<longrightarrow> tr = [mail_of cfg (np_RecipientEmail ?p) (np_Message ?p)])"
    using post(1) unfolding mailer.processed_def Let_def process_sel by blast+
  have "?y = ?x" if "finished ?x" using finished_stays[OF path that] .
  moreover have "settled_delivery ?y \<and> (\<forall>a. ?y = GivenUp a \<longrightarrow> \<not> finished ?x \<longrightarrow> dead_letter_of E ?p (w_trace w'))"
    if "r = Inr ()"
    using post(2)[OF that] unfolding mailer.delivered_def Let_def by blast
  ultimately show ?thesis unfolding Let_def using tr by blast
qed

text \<open>
  C22. A command is settled or fails: when the handler returns without an error its delivery is
  sent, waits for a retry, or is given up.  When it is this command that gave the delivery up,
  the command was published to the dead-letter topic before; for a delivery that was sent or
  given up earlier nothing is sent or published and the delivery stays as it is, so a dead letter
  that failed to be published then is not made up for (\<open>dead_letter_can_be_lost\<close>).  A delivery
  becomes sent only when its mail, and nothing else, was handed to the mail server.
\<close>

theorem command_is_settled:
  assumes "delivery_ok E (attempts_bound n) w" and "decode_envelope E decode_notification v = Inr event"
    and "EventType event = EventNotificationRequested"
    and "notification_handler E (notification_process E cfg n ds) key v w = (r, w')"
  shows "let p = Payload event; x = abs_table (w_db w) (np_IdempotencyKey p); y = abs_table (w_db w') (np_IdempotencyKey p) in
    (\<exists>tr. w_trace w' = w_trace w @ tr \<and> (finished x \<longrightarrow> tr = [] \<and> y = x) \<and>
       (\<forall>a. y = Delivered a \<longrightarrow> \<not> finished x \<longrightarrow> tr = [mail_of cfg (np_RecipientEmail p) (np_Message p)])) \<and>
    (r = Inr () \<longrightarrow> settled_delivery y \<and>
       (\<forall>a. y = GivenUp a \<longrightarrow> \<not> finished x \<longrightarrow> dead_letter_of E p (w_trace w')))"
  by (rule command_settles[OF assms])

text \<open>
  A command whose calls all go through is delivered, unless the delivery was finished before or
  its identifier belongs to another delivery.
\<close>

lemma upsert_accepts:
  assumes "abs_table d (np_IdempotencyKey p) \<noteq> Unseen \<or> np_NotificationID p \<notin> dr_NotificationID ` set (deliveries d)"
  shows "\<exists>r d'. sql_upsert_pending p d now = Inr (r, d') \<and> delivery_of d' (np_IdempotencyKey p) = Some r \<and>
    (dr_Status r \<in> {StatusSent, StatusDead} \<longrightarrow> finished (abs_table d (np_IdempotencyKey p)))"
proof (cases "delivery_of d (np_IdempotencyKey p)")
  case (Some r)
  then show ?thesis
    by (auto simp: sql_upsert_pending_def delivery_of_def abs_table_def abs_delivery_status)
next
  case None
  then have "np_NotificationID p \<notin> dr_NotificationID ` set (deliveries d)" using assms by (simp add: abs_table_def)
  with None show ?thesis
    by (simp add: sql_upsert_pending_def delivery_of_def lookup_row_append) (simp add: pending_row_def)
qed

lemma calm_command_delivered:
  assumes "w_script w = []" and "one_line (senderAddress cfg)" and "one_line (np_RecipientEmail p)"
    and "abs_table (w_db w) (np_IdempotencyKey p) \<noteq> Unseen \<or>
      np_NotificationID p \<notin> dr_NotificationID ` set (deliveries (w_db w))"
  shows "\<exists>w'. Process (notification_process E cfg n ds) p w = (Inr (), w') \<and>
    (finished (abs_table (w_db w) (np_IdempotencyKey p)) \<or> (\<exists>a. abs_table (w_db w') (np_IdempotencyKey p) = Delivered a))"
proof -
  let ?k = "np_IdempotencyKey p"
  obtain r d where up: "sql_upsert_pending p (w_db w) (w_pg_now w) = Inr (r, d)" "delivery_of d ?k = Some r"
    "dr_Status r \<in> {StatusSent, StatusDead} \<longrightarrow> finished (abs_table (w_db w) ?k)"
    using upsert_accepts[OF assms(4)] by blast
  show ?thesis
  proof (cases "dr_Status r \<in> {StatusSent, StatusDead}")
    case True
    with up assms(1) show ?thesis
      by (auto simp: Process_def process_sel repository_sel UpsertPending_def exec_simps)
  next
    case False
    have "abs_table (updated ?k (sent_row (w_pg_now w)) d) ?k = Delivered (dr_AttemptCount r)"
      using abs_table_updated[OF keeps_rows(1) up(2)] by (simp add: abs_rows)
    with False up assms(1-3) show ?thesis
      by (auto simp: Process_def process_sel repository_sel UpsertPending_def MarkSent_def SMTP_Send_def SendMail_def
          sql_update_delivery_def updated_def exec_simps)
  qed
qed

section \<open>The consumer\<close>

definition notification_handled :: "env \<Rightarrow> wire \<Rightarrow> 'd delivery_db_scheme \<Rightarrow> bool" where
  "notification_handled E v d =
     (case decode_envelope E decode_notification v of
        Inl _ \<Rightarrow> False
      | Inr event \<Rightarrow> EventType event = EventNotificationRequested \<and>
          settled_delivery (abs_table d (np_IdempotencyKey (Payload event))))"

definition notification_rejects :: "env \<Rightarrow> wire \<Rightarrow> bool" where
  "notification_rejects E v =
     (case decode_envelope E decode_notification v of
        Inl _ \<Rightarrow> True | Inr event \<Rightarrow> EventType event \<noteq> EventNotificationRequested)"

lemma errors_plain: "unclassified (UpsertPending p)" "unclassified (MarkSent k)"
  "unclassified (MarkDeliveryFailed k c t)" "unclassified (MarkDead k c)"
  unfolding UpsertPending_def MarkSent_def MarkDeliveryFailed_def MarkDead_def
  by (auto intro!: avoids_rules simp: sql_upsert_pending_def unique_violation_def sql_update_delivery_def
      split: option.splits if_splits)

lemma avoids_DeadLetter: "unclassified (DeadLetter E Publish p e)"
  unfolding DeadLetter_def publish_notification_def Publish_def
  by (auto intro!: avoids_rules dest: encode_envelope_plain)

lemma avoids_Process: "unclassified (Process (notification_process E cfg n ds) p)"
  unfolding Process_def handleFailure_def Let_def process_sel repository_sel
  by (auto intro!: avoids_rules errors_plain avoids_DeadLetter split: sum.split)

lemma processed_handled:
  assumes "mailer.processed E cfg n ds evs p w w'" and "notification_handled E v (w_db w)"
  shows "notification_handled E v (w_db w')"
proof -
  let ?k = "np_IdempotencyKey p"
  have post: "abs_table (w_db w') = (abs_table (w_db w))(?k := abs_table (w_db w') ?k)"
    "settled_delivery (abs_table (w_db w) ?k) \<longrightarrow> settled_delivery (abs_table (w_db w') ?k)"
    using assms(1) unfolding mailer.processed_def Let_def process_sel by blast+
  have "settled_delivery (abs_table (w_db w') j)" if "settled_delivery (abs_table (w_db w) j)" for j
    using that post(2) fun_cong[OF post(1), of j] by (cases "j = ?k") auto
  with assms(2) show ?thesis by (auto simp: notification_handled_def split: sum.splits)
qed

interpretation notification_loop: consumer_loop E "notificationConsumer :: 'd delivery_db_scheme consumer"
  "notification_handler E (notification_process E cfg n ds)" "notification_handled E" "notification_rejects E"
  "\<lambda>w. notifying (attempts_bound n) evs (w_db w)" for E cfg n ds evs
proof (rule consumer_loop.intro)
  fix w w' :: "('d delivery_db_scheme, wire) world"
  assume "notifying (attempts_bound n) evs (w_db w)" "w_db w' = w_db w"
  then show "notifying (attempts_bound n) evs (w_db w')" by simp
next
  fix pub :: "'d delivery_db_scheme publisher"
  assume "co_deadLetterPublisher notificationConsumer = Some pub"
  then show "message_publisher pub"
    using producer.message_publisher_axioms by (simp add: notificationConsumer_def WithDeadLetter_def newConsumer_def)
next
  fix w :: "('d delivery_db_scheme, wire) world" and k v
  let ?ok = "\<lambda>w. notifying (attempts_bound n) evs (w_db w)" and ?s = "notification_process E cfg n ds"
  assume ok: "?ok w"
  have step: "handler_step ?ok (notification_handled E) w w'" if "mailer.processed E cfg n ds evs p w w'" for p w'
    using that processed_handled[OF that] by (auto simp: handler_step_def mailer.processed_def Let_def)
  have both: "wp (notification_handler E ?s k v)
      (\<lambda>_ w'. notification_handled E v (w_db w') \<and> handler_step ?ok (notification_handled E) w w')
      (\<lambda>e w'. (errors_is e ErrNonRetryable \<longrightarrow> notification_rejects E v) \<and> handler_step ?ok (notification_handled E) w w') w"
  proof (cases "notification_rejects E v")
    case True
    then show ?thesis
      using ok by (auto simp: notification_handler_def notification_rejects_def wp_raise handler_step_def split: sum.splits)
  next
    case False
    then obtain event where event: "decode_envelope E decode_notification v = Inr event"
      "EventType event = EventNotificationRequested"
      by (auto simp: notification_rejects_def split: sum.splits)
    have "wp (Process ?s (Payload event))
        (\<lambda>_ w'. True \<and> mailer.delivered E cfg n ds evs (Payload event) w w')
        (\<lambda>e w'. \<not> errors_is e ErrNonRetryable \<and> mailer.processed E cfg n ds evs (Payload event) w w') w"
      unfolding wp_conj by (intro conjI avoidsD avoids_Process mailer.Process_processed ok)
    then show ?thesis
      using event step
      by (simp add: notification_handler_def, elim wp_mono)
        (auto simp: mailer.delivered_def Let_def notification_handled_def)
  qed
  then show "wp (notification_handler E ?s k v) (\<lambda>_ w'. notification_handled E v (w_db w'))
      (\<lambda>e _. errors_is e ErrNonRetryable \<longrightarrow> notification_rejects E v) w"
    and "wp (notification_handler E ?s k v) (\<lambda>_. handler_step ?ok (notification_handled E) w)
      (\<lambda>_. handler_step ?ok (notification_handled E) w) w"
    unfolding wp_conj by blast+
qed

text \<open>
  C21. No notification command is lost: over any sessions of the notification consumer, with any
  failures, crashes and cancellations between them, the offsets it has committed are those of a
  prefix of the topic's log, in order; for each command of that prefix the delivery is sent, given
  up or scheduled for a retry, or the command does not decode or has another type and stands in
  the dead-letter topic.
\<close>

theorem committed_notifications_settled:
  fixes w w' :: "('d delivery_db_scheme, wire) world"
  assumes "delivery_ok E (attempts_bound n) w" and "commits (w_trace w) = []"
    and "sessions E notificationConsumer (notification_handler E (notification_process E cfg n ds)) log ss w = (r, w')"
  shows "let k = length (commits (w_trace w')) in
    commits (w_trace w') = map commit_of (take k log) \<and>
    (\<forall>m \<in> set (take k log). notification_handled E (km_Value m) (w_db w') \<or>
       notification_rejects E (km_Value m) \<and>
       dead_lettered E (notificationConsumer :: 'd delivery_db_scheme consumer) m (w_trace w'))"
proof -
  have "notification_loop.caught_up E n (outbox_events (w_db w)) log w"
    using assms(2) delivery_ok_notifying[OF assms(1)] by (simp add: notification_loop.caught_up_def)
  from wp_bothD[OF assms(3) notification_loop.sessions_caught_up[OF this]]
  have "notification_loop.caught_up E n (outbox_events (w_db w)) log w'" .
  moreover have "has_dead_letter (notificationConsumer :: 'd delivery_db_scheme consumer)"
    by (simp add: has_dead_letter_def notificationConsumer_def WithDeadLetter_def newConsumer_def topic_defs)
  ultimately show ?thesis
    unfolding notification_loop.caught_up_def notification_loop.settled_def Let_def by blast
qed

section \<open>A retry batch\<close>

text \<open>
  C23. A retry batch is all or nothing: it takes at most its limit of deliveries that are due, in
  their order, puts exactly those back to the queue, and adds for each of them, in that order,
  one command with the payload of its row to the outbox; whatever fails, it has done all of it
  or nothing, and all of it when it returns the number of commands.
\<close>

theorem retry_batch_requeues:
  assumes "delivery_ok E m w" and "EnqueueDueRetries E n w = (r, w')"
  shows "let due = due_retries E (if n \<le> 0 then 100 else nat n) (w_pg_now w) (deliveries (w_db w));
             batch = (\<lambda>d. deliveries d = requeued_rows due (w_pg_now w) (deliveries (w_db w)) \<and>
               (\<exists>es. outbox_events d = outbox_events (w_db w) @ es \<and>
                  map (notification_in E) es = map (\<lambda>row. Some (payload_of row)) due))
    in (w_db w' = w_db w \<or> batch (w_db w')) \<and> (\<forall>k. r = Inr k \<longrightarrow> batch (w_db w') \<and> k = length due) \<and>
       length due \<le> (if n \<le> 0 then 100 else nat n) \<and> sorted (map retry_order due)"
proof -
  let ?due = "due_retries E (if n \<le> 0 then 100 else nat n) (w_pg_now w) (deliveries (w_db w))"
  have "time_codec E" "uuids_fresh E (w_uuids w) (outbox_events (w_db w))"
    using assms(1) by (simp_all add: delivery_ok_def)
  note post = tx_wpD[OF assms(2) EnqueueDueRetries_tx[OF this]]
  have "length ?due \<le> (if n \<le> 0 then 100 else nat n)" "sorted (map retry_order ?due)"
    by (simp_all add: due_retries_def length_select_where sorted_select_where del: if_split)
  with post show ?thesis
    unfolding Let_def requeue_done_def by blast
qed

text \<open>
  The delay before attempt \<open>k + 1\<close> is the \<open>k\<close>-th configured delay, the last one from there
  on, and one minute when none is configured; it is never outside the configured list otherwise.
\<close>

theorem delivery_retryDelay_schedule:
  "delivery_retryDelay [] k = minute_ns \<and>
   (ds \<noteq> [] \<and> 1 \<le> k \<longrightarrow> delivery_retryDelay ds k = ds ! (min (nat k) (length ds) - 1) \<and>
      delivery_retryDelay ds k \<in> set ds) \<and>
   (k \<le> 0 \<longrightarrow> delivery_retryDelay ds k = minute_ns)"
proof -
  have "delivery_retryDelay ds k = ds ! (min (nat k) (length ds) - 1)" if "ds \<noteq> []" "1 \<le> k"
  proof (cases "int (length ds) \<le> k - 1")
    case True
    then have "nat (int (length ds) - 1) = min (nat k) (length ds) - 1" using that by (auto simp: min_def)
    then show ?thesis using that True by (simp add: delivery_retryDelay_def Let_def)
  next
    case False
    then have "nat (k - 1) = min (nat k) (length ds) - 1" using that by (auto simp: min_def)
    then show ?thesis using that False by (simp add: delivery_retryDelay_def Let_def)
  qed
  moreover have "ds ! (min (nat k) (length ds) - 1) \<in> set ds" if "ds \<noteq> []"
    using that by (intro nth_mem) (cases ds; auto simp: min_def)
  ultimately show ?thesis by (auto simp: delivery_retryDelay_def)
qed

end
