(* ===== verification/Delivery_Mail.thy ===== *)
theory Delivery_Mail
  imports Delivery_Guarantees
begin

text \<open>
  The mails: an address cannot smuggle a header into a mail, and the text arrives as the body it
  was.  And the one place where a command can be lost: a dead letter whose publication fails.
\<close>

section \<open>Header and body\<close>

text \<open>A mail ends its header at the first empty line; the receiver splits it there.\<close>

fun split_blank :: "string \<Rightarrow> (string \<times> string) option" where
  "split_blank [] = None"
| "split_blank (c # s) =
     (if take 4 (c # s) = crlf @ crlf then Some ([], drop 4 (c # s))
      else map_option (\<lambda>(h, b). (c # h, b)) (split_blank s))"

lemma split_line:
  assumes "one_line l"
  shows "split_blank (l @ s) = map_option (\<lambda>(h, b). (l @ h, b)) (split_blank s)"
  using assms
proof (induction l)
  case Nil
  then show ?case by (cases "split_blank s") auto
next
  case (Cons c l)
  then have "c \<noteq> CHR 0x0D" "one_line l" by (auto simp: one_line_def)
  with Cons.IH show ?case by (cases "split_blank s") (auto simp: crlf_def)
qed

lemma split_crlf:
  assumes "c \<noteq> CHR 0x0D"
  shows "split_blank (crlf @ c # s) = map_option (\<lambda>(h, b). (crlf @ h, b)) (split_blank (c # s))"
  using assms by (cases "split_blank (c # s)") (auto simp: crlf_def)

lemma split_end: "split_blank (crlf @ crlf @ b) = Some ([], b)"
  by (simp add: crlf_def)

lemma split_header:
  assumes "one_line (c # l)" and "split_blank s = Some (h, b)"
  shows "split_blank (crlf @ (c # l) @ s) = Some (crlf @ (c # l) @ h, b)"
  using split_crlf[of c "l @ s"] split_line[OF assms(1), of s] assms
  by (auto simp: one_line_def)

text \<open>
  C33. A mail has the header lines that the code writes and no others: its header ends where the
  code ends it, whatever the message, and the body is the message unchanged; an address with a
  line break is refused before anything is sent.
\<close>

theorem mail_header_is_fixed:
  "(one_line (senderAddress cfg) \<and> one_line to \<longrightarrow>
      split_blank (mail_text (senderAddress cfg) to body) =
        Some (''From: '' @ senderAddress cfg @ crlf @ ''To: '' @ to @ crlf @ ''Subject: Subber Notification'' @ crlf @
              ''MIME-Version: 1.0'' @ crlf @ ''Content-Type: text/plain; charset='' @ [CHR 0x22] @ ''utf-8'' @ [CHR 0x22],
              body)) \<and>
   (\<not> one_line to \<longrightarrow> (\<exists>e. SMTP_Send cfg to body w = (Inl e, w)))"
proof (intro conjI impI)
  assume lines: "one_line (senderAddress cfg) \<and> one_line to"
  let ?ct = "''Content-Type: text/plain; charset='' @ [CHR 0x22] @ ''utf-8'' @ [CHR 0x22]"
  have "split_blank (crlf @ crlf @ body) = Some ([], body)" by (rule split_end)
  then have "split_blank (crlf @ ?ct @ crlf @ crlf @ body) = Some (crlf @ ?ct, body)"
    using split_header[of "CHR ''C''" "tl ?ct" "crlf @ crlf @ body" "[]" body] by (simp add: one_line_def)
  then have "split_blank (crlf @ ''MIME-Version: 1.0'' @ crlf @ ?ct @ crlf @ crlf @ body)
      = Some (crlf @ ''MIME-Version: 1.0'' @ crlf @ ?ct, body)"
    using split_header[of "CHR ''M''" "''IME-Version: 1.0''"] by (simp add: one_line_def)
  then have "split_blank (crlf @ ''Subject: Subber Notification'' @ crlf @ ''MIME-Version: 1.0'' @ crlf @ ?ct @ crlf @ crlf @ body)
      = Some (crlf @ ''Subject: Subber Notification'' @ crlf @ ''MIME-Version: 1.0'' @ crlf @ ?ct, body)"
    using split_header[of "CHR ''S''" "''ubject: Subber Notification''"] by (simp add: one_line_def)
  moreover have "one_line (''To: '' @ to)" "one_line (''From: '' @ senderAddress cfg)"
    using lines by (auto simp: one_line_def)
  ultimately show "split_blank (mail_text (senderAddress cfg) to body) =
        Some (''From: '' @ senderAddress cfg @ crlf @ ''To: '' @ to @ crlf @ ''Subject: Subber Notification'' @ crlf @
              ''MIME-Version: 1.0'' @ crlf @ ?ct, body)"
    unfolding mail_text_def
    using split_header[of "CHR ''T''" "''o: '' @ to"] split_line[of "''From: '' @ senderAddress cfg"] by simp
next
  assume "\<not> one_line to"
  then show "\<exists>e. SMTP_Send cfg to body w = (Inl e, w)"
    by (simp add: SMTP_Send_def SendMail_def exec_simps)
qed

section \<open>A lost dead letter\<close>

lemma upsert_live:
  assumes "live (abs_table d (np_IdempotencyKey p)) = Some a \<or>
      abs_table d (np_IdempotencyKey p) = Unseen \<and> a = 0 \<and> np_NotificationID p \<notin> dr_NotificationID ` set (deliveries d)"
  shows "\<exists>r d'. sql_upsert_pending p d now = Inr (r, d') \<and> delivery_of d' (np_IdempotencyKey p) = Some r \<and>
    dr_Status r \<noteq> StatusSent \<and> dr_Status r \<noteq> StatusDead \<and> dr_AttemptCount r = a"
proof (cases "delivery_of d (np_IdempotencyKey p)")
  case (Some r)
  then have "live (abs_delivery r) = Some a"
    using assms by (auto simp: abs_table_def abs_delivery_def split: if_splits)
  with Some show ?thesis
    by (auto simp: sql_upsert_pending_def delivery_of_def abs_delivery_def split: if_splits)
next
  case None
  then have "a = 0" "np_NotificationID p \<notin> dr_NotificationID ` set (deliveries d)"
    using assms by (auto simp: abs_table_def)
  with None show ?thesis
    by (simp add: sql_upsert_pending_def delivery_of_def lookup_row_append)
      (simp add: pending_row_def)
qed

text \<open>A command for a delivery that was given up: nothing is sent and nothing changes.\<close>

lemma given_up_is_settled:
  assumes "abs_table (w_db w) (np_IdempotencyKey p) = GivenUp b"
  shows "\<exists>r w'. Process (notification_process E cfg n ds) p w = (r, w') \<and> w_db w' = w_db w \<and>
    w_trace w' = w_trace w \<and> (next_o w = Succeed \<longrightarrow> r = Inr ())"
proof -
  obtain r where "delivery_of (w_db w) (np_IdempotencyKey p) = Some r" "dr_Status r = StatusDead"
    using assms by (auto simp: abs_table_def abs_delivery_def split: option.splits if_splits)
  then show ?thesis
    by (cases "next_o w") (simp_all add: Process_def process_sel repository_sel UpsertPending_def sql_upsert_pending_def
        delivery_of_def exec_simps)
qed

text \<open>
  C32. The dead letter of a delivery can be lost.  Let the delivery of a command be at its last
  attempt, whatever their bound is, and let the mail fail.  When the row is marked dead and then
  the dead letter cannot be published, or only the reply of the marking statement is lost, the
  handler returns an error, so the command is delivered again; but whenever it runs again on the
  given-up delivery it sends nothing, and it returns without an error, which commits the command,
  as soon as its first statement goes through: nothing is ever sent to the dead-letter topic.
\<close>

theorem dead_letter_can_be_lost:
  fixes w :: "('d delivery_db_scheme, wire) world"
  assumes "attempts_bound n \<le> a + 1"
    and "live (abs_table (w_db w) (np_IdempotencyKey p)) = Some a \<or>
      abs_table (w_db w) (np_IdempotencyKey p) = Unseen \<and> a = 0 \<and>
      np_NotificationID p \<notin> dr_NotificationID ` set (deliveries (w_db w))"
    and "one_line (senderAddress cfg)" and "one_line (np_RecipientEmail p)"
    and "w_script w = Succeed # mail # rest" and "mail \<noteq> Succeed"
    and "\<exists>e rest'. rest = Succeed # Fail e # rest' \<or> rest = Lost e # rest'"
  shows "\<exists>e w1. Process (notification_process E cfg n ds) p w = (Inl e, w1) \<and> \<not> errors_is e ErrNonRetryable \<and>
    abs_table (w_db w1) (np_IdempotencyKey p) = GivenUp (a + 1) \<and>
    (\<exists>tr. w_trace w1 = w_trace w @ tr \<and> set tr \<subseteq> {mail_of cfg (np_RecipientEmail p) (np_Message p)}) \<and>
    (\<forall>w2 :: ('d delivery_db_scheme, wire) world. abs_table (w_db w2) (np_IdempotencyKey p) = abs_table (w_db w1) (np_IdempotencyKey p) \<longrightarrow>
       (\<exists>r w3. Process (notification_process E cfg n ds) p w2 = (r, w3) \<and> w_db w3 = w_db w2 \<and>
          w_trace w3 = w_trace w2 \<and> (next_o w2 = Succeed \<longrightarrow> r = Inr ())))"
proof -
  let ?s = "notification_process E cfg n ds" and ?k = "np_IdempotencyKey p"
  obtain r d where up: "sql_upsert_pending p (w_db w) (w_pg_now w) = Inr (r, d)" "delivery_of d ?k = Some r"
    "dr_Status r \<noteq> StatusSent" "dr_Status r \<noteq> StatusDead" "dr_AttemptCount r = a"
    using upsert_live[OF assms(2)] by blast
  have dead: "abs_table (updated ?k (dead_row m t) d) ?k = GivenUp (a + 1)" for m t
    using abs_table_updated[OF keeps_rows(3) up(2)] up(5) by (simp add: abs_rows)
  obtain o1 where o1: "mail = Fail o1 \<or> mail = Lost o1" using assms(6) by (cases mail) auto
  define es where "es = (if mail = Lost o1 then [mail_of cfg (np_RecipientEmail p) (np_Message p)] else [])"
  note defs = Process_def UpsertPending_def MarkDead_def handleFailure_def SMTP_Send_def SendMail_def DeadLetter_def
    publish_notification_def Publish_def sql_update_delivery_def mail_of_def
  have "\<exists>e w1. Process ?s p w = (Inl e, w1) \<and> w_db w1 = updated ?k (dead_row o1 (w_pg_now w)) d \<and>
      w_trace w1 = w_trace w @ es"
    using assms(1,3-5,7) o1 up
    by (auto simp: defs process_sel repository_sel exec_simps next_o_def next_w_def Let_def updated_def es_def
        cause_text_def split: sum.splits)
  then obtain e w1 where run: "Process ?s p w = (Inl e, w1)" "w_db w1 = updated ?k (dead_row o1 (w_pg_now w)) d"
    "w_trace w1 = w_trace w @ es" by blast
  have "\<not> errors_is e ErrNonRetryable" using avoidsD[OF avoids_Process, of E cfg n ds p w] run(1) by (simp add: wp_def)
  moreover have "set es \<subseteq> {mail_of cfg (np_RecipientEmail p) (np_Message p)}" by (auto simp: es_def)
  ultimately show ?thesis
    using run dead given_up_is_settled[of _ p "a + 1" E cfg n ds] by metis
qed

end
