(* ===== verification/Release_Results.thy ===== *)
theory Release_Results
  imports Release_Expansion
begin

text \<open>
  The guarantees of the release consumer of the subscription API: each confirmed subscriber of a
  committed release has its notification in the outbox.
\<close>

text \<open>
  C19. Expanding a release adds to the outbox, for every e-mail with a confirmed subscription of the
  repository, exactly one notification with that recipient and the idempotency key of repository,
  tag and e-mail hash; when a call fails, it has done so for the first few of them.  Nothing else
  changes.
\<close>

theorem release_notifies_each_once:
  assumes "api_ok E w" and "returning_permutes E"
    and "Expand (release_process E (outbox_notifier E hs baseURL url)) event w = (r, w')"
  shows "let repo = rp_Repo (Payload event); tag = rp_Tag (Payload event) in
    books E (w_db w') = books E (w_db w) \<and>
    (\<exists>es k. distinct es \<and> set es = {su_Email row |row. row \<in> set (subscriptions (w_db w)) \<and> confirmed_of repo row} \<and>
       outbox_notes E (w_db w') = outbox_notes E (w_db w) @ map (\<lambda>e. (e, repo, tag)) (take k es) \<and>
       (r = Inr () \<longrightarrow> k = length es))"
proof -
  let ?repo = "rp_Repo (Payload event)" and ?tag = "rp_Tag (Payload event)"
  have ok: "expanding E (books E (w_db w)) w" using assms(1,2) by (simp add: expanding_def)
  have emails: "distinct es \<and> set es = {su_Email row |row. row \<in> set (subscriptions (w_db w)) \<and> confirmed_of ?repo row}"
    if "mset es = mset (confirmed_emails (w_db w) ?repo)" for es
    using that set_confirmed_emails[of "w_db w" ?repo] mset_eq_setD[OF that] mset_eq_imp_distinct_iff[OF that]
    by (simp add: confirmed_emails_def)
  have "wp (Expand (release_process E (outbox_notifier E hs baseURL url)) event)
      (\<lambda>_ w'. \<exists>es k. mset es = mset (confirmed_emails (w_db w) ?repo) \<and> k = length es \<and>
         outbox_releases.told_first E (books E (w_db w)) ?repo ?tag w (take k es) w')
      (\<lambda>_ w'. \<exists>es k. mset es = mset (confirmed_emails (w_db w) ?repo) \<and>
         outbox_releases.told_first E (books E (w_db w)) ?repo ?tag w (take k es) w') w"
    by (rule wp_mono[OF outbox_releases.Expand_wp[OF ok refl refl]]) auto
  from wp_run[OF assms(3) this] obtain es k where es: "mset es = mset (confirmed_emails (w_db w) ?repo)"
    "outbox_releases.told_first E (books E (w_db w)) ?repo ?tag w (take k es) w'" "r = Inr () \<longrightarrow> k = length es"
    by (auto split: sum.splits)
  then show ?thesis
    using emails[OF es(1)] unfolding Let_def
    by (intro conjI exI[of _ es] exI[of _ k]) (simp_all add: outbox_releases.told_first_def expanding_def)
qed

section \<open>The consumer\<close>

definition release_handled :: "env \<Rightarrow> wire \<Rightarrow> 'd api_db_scheme \<Rightarrow> bool" where
  "release_handled E v d =
     (case decode_envelope E decode_release v of
        Inl _ \<Rightarrow> False
      | Inr ev \<Rightarrow> \<forall>email \<in> set (confirmed_emails d (rp_Repo (Payload ev))).
          (email, rp_Repo (Payload ev), rp_Tag (Payload ev)) \<in> set (outbox_notes E d))"

lemma avoids_Publish:
  "unclassified (Outbox_PublishReleaseNotification E email repo tag c)"
proof -
  have "\<not> errors_is e ErrNonRetryable" if "buildReleaseNotification E email repo tag i c now = Inl e" for i now e
    using that by (auto simp: buildReleaseNotification_def Let_def sum_map_def dest: encode_envelope_plain split: sum.splits)
  then show ?thesis
    unfolding Outbox_PublishReleaseNotification_def by (auto intro!: avoids_rules)
qed

lemma avoids_release_handler:
  "unclassified (release_handler E (release_process E (outbox_notifier E hs baseURL url)) k v)"
proof -
  have "\<not> errors_is e ErrNonRetryable" if "decode_envelope E decode_release v = Inl e" for e
    using decode_error[OF decode_release_error that] by (simp add: unmarshal_error_def)
  moreover have "unclassified (GetSubscribers E repo)" for repo
    unfolding GetSubscribers_def by (auto intro!: avoids_rules simp: sql_subscribers_def)
  ultimately show ?thesis
    unfolding release_handler_def Expand_def release_process_def outbox_notifier_def
    by (auto intro!: avoids_rules avoids_Publish split: sum.split)
qed

lemma told_first_handled:
  assumes "outbox_releases.told_first E v repo tag w es w'" and "expanding E v w"
  shows "handler_step (expanding E v) (release_handled E) w w'"
proof -
  have ok: "expanding E v w'" and app: "appended w w'" and subs: "confirmed_emails (w_db w') = confirmed_emails (w_db w)"
    and more: "outbox_notes E (w_db w') = outbox_notes E (w_db w) @ map (\<lambda>e. (e, repo, tag)) es"
    using assms(1) by (simp_all add: outbox_releases.told_first_def)
  from app obtain tr where "w_trace w' = w_trace w @ tr" "commits tr = []" by (auto simp: appended_def)
  then show ?thesis
    using ok subs more by (auto simp: handler_step_def release_handled_def split: sum.splits)
qed

interpretation release_loop: consumer_loop E "releaseConsumer :: 'd api_db_scheme consumer"
  "release_handler E (release_process E (outbox_notifier E hs baseURL url))" "release_handled E" "\<lambda>_. False" "expanding E v"
  for E hs baseURL url v
proof (rule consumer_loop.intro)
  fix w w' :: "('d api_db_scheme, wire) world"
  assume "expanding E v w" "w_db w' = w_db w" "w_uuids w \<le> w_uuids w'"
  then show "expanding E v w'" using api_ok_same[of E w w'] by (simp add: expanding_def)
next
  fix pub :: "'d api_db_scheme publisher"
  assume "co_deadLetterPublisher releaseConsumer = Some pub"
  then show "message_publisher pub" by (simp add: releaseConsumer_def newConsumer_def)
next
  fix w :: "('d api_db_scheme, wire) world" and k b
  let ?m = "release_handler E (release_process E (outbox_notifier E hs baseURL url)) k b"
  assume ok: "expanding E v w"
  have refl_step: "handler_step (expanding E v) (release_handled E) w w" using ok by (simp add: handler_step_def)
  have both: "wp ?m (\<lambda>_ w'. release_handled E b (w_db w') \<and> handler_step (expanding E v) (release_handled E) w w')
      (\<lambda>_. handler_step (expanding E v) (release_handled E) w) w"
  proof (cases "decode_envelope E decode_release b")
    case (Inl e)
    then show ?thesis using refl_step by (simp add: release_handler_def wp_raise)
  next
    case (Inr ev)
    let ?repo = "rp_Repo (Payload ev)" and ?tag = "rp_Tag (Payload ev)"
    have handled: "release_handled E b (w_db w')"
      if "mset es = mset (confirmed_emails (w_db w) ?repo)" "outbox_releases.told_first E v ?repo ?tag w es w'" for es w'
    proof -
      have "set es = set (confirmed_emails (w_db w) ?repo)" using that(1) by (rule mset_eq_setD)
      then show ?thesis using that(2) Inr by (auto simp: release_handled_def outbox_releases.told_first_def)
    qed
    show ?thesis
      using Inr by (simp add: release_handler_def, intro wp_mono[OF outbox_releases.Expand_wp[OF ok refl refl]])
        (use handled told_first_handled[OF _ ok] in blast)+
  qed
  show "wp ?m (\<lambda>_ w'. release_handled E b (w_db w')) (\<lambda>e _. errors_is e ErrNonRetryable \<longrightarrow> False) w"
    using wp_conj[THEN iffD2, OF conjI[OF both avoidsD[OF avoids_release_handler]]] by (rule wp_mono) auto
  show "wp ?m (\<lambda>_. handler_step (expanding E v) (release_handled E) w) (\<lambda>_. handler_step (expanding E v) (release_handled E) w) w"
    using both by (rule wp_mono) auto
qed

text \<open>
  C18. Over any sessions of the release consumer, with any failures and restarts, the committed
  offsets are those of a prefix of the log, and every release event of that prefix has a
  notification in the outbox for each subscriber of its repository that was confirmed.
\<close>

theorem committed_releases_notified:
  fixes w w' :: "('d api_db_scheme, wire) world"
  assumes "api_ok E w" and "returning_permutes E" and "commits (w_trace w) = []"
    and "sessions E releaseConsumer (release_handler E (release_process E (outbox_notifier E hs baseURL url))) log ss w = (r, w')"
  shows "let k = length (commits (w_trace w')) in
    commits (w_trace w') = map commit_of (take k log) \<and>
    (\<forall>m \<in> set (take k log). \<exists>ev. decode_envelope E decode_release (km_Value m) = Inr ev \<and>
       (\<forall>row \<in> set (subscriptions (w_db w)). confirmed_of (rp_Repo (Payload ev)) row \<longrightarrow>
          (su_Email row, rp_Repo (Payload ev), rp_Tag (Payload ev)) \<in> set (outbox_notes E (w_db w'))))"
proof -
  let ?v = "books E (w_db w)"
  have "release_loop.caught_up E ?v log w"
    using assms(1-3) by (simp add: release_loop.caught_up_def expanding_def)
  from wp_bothD[OF assms(4) release_loop.sessions_caught_up[OF this]]
  have post: "release_loop.caught_up E ?v log w'" .
  then have rows: "subscriptions (w_db w') = subscriptions (w_db w)"
    by (simp add: release_loop.caught_up_def expanding_def books_def)
  have handled: "\<exists>ev. decode_envelope E decode_release (km_Value m) = Inr ev \<and>
      (\<forall>row \<in> set (subscriptions (w_db w)). confirmed_of (rp_Repo (Payload ev)) row \<longrightarrow>
         (su_Email row, rp_Repo (Payload ev), rp_Tag (Payload ev)) \<in> set (outbox_notes E (w_db w')))"
    if "release_handled E (km_Value m) (w_db w')" for m
    using that by (cases "decode_envelope E decode_release (km_Value m)")
      (auto simp: release_handled_def set_confirmed_emails rows)
  from post show ?thesis
    unfolding Let_def release_loop.caught_up_def release_loop.settled_def using handled by blast
qed

end
