(* ===== verification/Scanner.thy ===== *)
theory Scanner
  imports Release_Provider Consumer
begin

text \<open>
  The scanner of \<open>scanner-service/internal/scanner\<close>: the tables \<open>scanner_watchlist\<close> and
  \<open>scanner_releases\<close> with the repository's operations on them, and the service, which scans the
  repositories that are due and applies the commands of the orchestrator.
\<close>

record watch_row =
  wr_Repo :: string
  wr_LastSeenTag :: string
  wr_NextScanAt :: int

record release_row =
  rr_Repo :: string
  rr_Tag :: string
  rr_DetectedAt :: int

record scanner_db = outbox_db +
  watchlist :: "watch_row list"
  releases :: "release_row list"

record watched_repo =
  wd_Repo :: string
  wd_LastSeenTag :: string

section \<open>The repository\<close>

text \<open>\<open>durationInterval\<close> writes seconds with six decimals: microseconds.\<close>

definition durationInterval :: "int \<Rightarrow> int" where
  "durationInterval d = 1000 * ((d + 500) div 1000)"

definition watch_due :: "env \<Rightarrow> int \<Rightarrow> watch_row \<Rightarrow> bool" where
  "watch_due E now r = (wr_NextScanAt r \<le> now \<and> \<not> row_locked E (wr_Repo r))"

definition watch_order :: "watch_row \<Rightarrow> order_by" where
  "watch_order r = OrderBy (wr_NextScanAt r) 0 (wr_Repo r)"

definition due_repos :: "env \<Rightarrow> nat \<Rightarrow> int \<Rightarrow> watch_row list \<Rightarrow> watched_repo list" where
  "due_repos E limit now rows =
     map (\<lambda>r. \<lparr>wd_Repo = wr_Repo r, wd_LastSeenTag = wr_LastSeenTag r\<rparr>)
       (select_where watch_order limit (watch_due E now) rows)"

definition sql_due_repos :: "env \<Rightarrow> nat \<Rightarrow> ('d scanner_db_scheme, watched_repo list) sql" where
  "sql_due_repos E limit = (\<lambda>d now. Inr (due_repos E limit now (watchlist d), d))"

definition reserve_row :: "int \<Rightarrow> int \<Rightarrow> watch_row \<Rightarrow> watch_row" where
  "reserve_row nextScanIn now r = r\<lparr>wr_NextScanAt := now + durationInterval nextScanIn\<rparr>"

definition sql_reserve :: "string \<Rightarrow> int \<Rightarrow> ('d scanner_db_scheme, unit) sql" where
  "sql_reserve repo nextScanIn = (\<lambda>d now. Inr ((), d\<lparr>watchlist :=
     update_where (\<lambda>r. wr_Repo r = repo) (reserve_row nextScanIn now) (watchlist d)\<rparr>))"

definition ClaimDue :: "env \<Rightarrow> nat \<Rightarrow> int \<Rightarrow> ('d scanner_db_scheme, wire, watched_repo list) go" where
  "ClaimDue E limit nextScanIn =
     with_tx (errorf ''begin claim due repos: '')
       (bnd (annot (errorf ''select due repos: '') (tx_stmt (sql_due_repos E limit))) (\<lambda>repos.
        bnd (for_each (\<lambda>repo. annot (errorf (''reserve next scan for '' @ wd_Repo repo @ '': ''))
                          (tx_stmt (sql_reserve (wd_Repo repo) nextScanIn))) repos) (\<lambda>_.
        bnd (annot (errorf ''commit due repo claim: '') commit_tx) (\<lambda>_. ret repos))))"

text \<open>\<open>INSERT ... ON CONFLICT (repo) DO UPDATE SET next_scan_at = LEAST(...)\<close>\<close>

definition start_row :: "int \<Rightarrow> watch_row \<Rightarrow> watch_row" where
  "start_row now r = r\<lparr>wr_NextScanAt := min (wr_NextScanAt r) now\<rparr>"

definition add_watch :: "string \<Rightarrow> int \<Rightarrow> watch_row list \<Rightarrow> watch_row list" where
  "add_watch repo now rows =
     (if repo \<in> wr_Repo ` set rows then update_where (\<lambda>r. wr_Repo r = repo) (start_row now) rows
      else rows @ [\<lparr>wr_Repo = repo, wr_LastSeenTag = '''', wr_NextScanAt = now\<rparr>])"

definition sql_start_watching :: "string \<Rightarrow> ('d scanner_db_scheme, unit) sql" where
  "sql_start_watching repo = (\<lambda>d now. Inr ((), d\<lparr>watchlist := add_watch repo now (watchlist d)\<rparr>))"

definition sql_stop_watching :: "string \<Rightarrow> ('d scanner_db_scheme, unit) sql" where
  "sql_stop_watching repo = (\<lambda>d now. Inr ((), d\<lparr>watchlist :=
     delete_where (\<lambda>r. wr_Repo r = repo) (watchlist d)\<rparr>))"

definition StartWatching :: "string \<Rightarrow> ('d scanner_db_scheme, wire, unit) go" where
  "StartWatching repo = annot (errorf ''start watching repo: '') (pool_stmt (sql_start_watching repo))"

definition StopWatching :: "string \<Rightarrow> ('d scanner_db_scheme, wire, unit) go" where
  "StopWatching repo = annot (errorf ''stop watching repo: '') (pool_stmt (sql_stop_watching repo))"

definition startWatchingTx :: "string \<Rightarrow> ('d scanner_db_scheme, wire, unit) go" where
  "startWatchingTx repo = annot (errorf ''start watching repo: '') (tx_stmt (sql_start_watching repo))"

definition stopWatchingTx :: "string \<Rightarrow> ('d scanner_db_scheme, wire, unit) go" where
  "stopWatchingTx repo = annot (errorf ''stop watching repo: '') (tx_stmt (sql_stop_watching repo))"

text \<open>The acknowledgement: its type and its error text, as \<open>buildRepoWatchAckEvent\<close> sets them.\<close>

definition unsupported_action :: "string \<Rightarrow> goerr" where
  "unsupported_action action = Plain (''unsupported repo watch action '' @ go_quote action)"

definition ack_type_and_error :: "string \<Rightarrow> goerr option \<Rightarrow> string \<times> string" where
  "ack_type_and_error action cause =
     (case cause of
        Some e \<Rightarrow> (EventRepoWatchFailed, err_text e)
      | None \<Rightarrow>
          if action = RepoWatchActionStart then (EventRepoWatchStarted, '''')
          else if action = RepoWatchActionStop then (EventRepoWatchStopped, '''')
          else (EventRepoWatchFailed, err_text (unsupported_action action)))"

definition buildRepoWatchAckEvent ::
    "command_payload \<Rightarrow> string \<Rightarrow> string \<Rightarrow> int \<Rightarrow> goerr option \<Rightarrow> ack_payload envelope" where
  "buildRepoWatchAckEvent p eventID correlationID occurredAt cause =
     (case ack_type_and_error (cp_Action p) cause of (eventType, errorMessage) \<Rightarrow>
        \<lparr>EventID = eventID, EventType = eventType, OccurredAt = occurredAt,
         Source = ''scanner-service'', CorrelationID = correlationID, NotBefore = None,
         Payload = \<lparr>ap_SagaID = cp_SagaID p, ap_Action = cp_Action p, ap_Repo = cp_Repo p,
                    ap_Error = errorMessage\<rparr>\<rparr>)"

definition insertWatchAckTx ::
    "env \<Rightarrow> command_payload \<Rightarrow> string \<Rightarrow> goerr option \<Rightarrow> ('d outbox_db_scheme, wire, unit) go" where
  "insertWatchAckTx E p correlationID cause =
     bnd (new_uuid (uuid_gen E)) (\<lambda>eventID.
     bnd app_clock (\<lambda>now.
     let event = buildRepoWatchAckEvent p eventID correlationID now cause in
     bnd (annot (errorf ''marshal watch ack: '')
            (of_sum (encode_envelope E (\<lambda>a. Inr (encode_ack a)) event))) (\<lambda>raw.
       InsertTx (new_event eventID (EventType event) (OccurredAt event) (Source event)
         correlationID TopicWatchlistSagaEvents (cp_Repo p) (Some raw)))))"

definition watch_operation :: "command_payload \<Rightarrow> ('d scanner_db_scheme, wire, unit) go" where
  "watch_operation p =
     (if cp_Action p = RepoWatchActionStart then startWatchingTx (cp_Repo p)
      else if cp_Action p = RepoWatchActionStop then stopWatchingTx (cp_Repo p)
      else raise (unsupported_action (cp_Action p)))"

definition ApplyWatchCommand ::
    "env \<Rightarrow> command_payload \<Rightarrow> string \<Rightarrow> ('d scanner_db_scheme, wire, unit) go" where
  "ApplyWatchCommand E p correlationID =
     with_tx (errorf ''begin watch command: '')
       (bnd (attempt (watch_operation p)) (\<lambda>r.
        case r of
          Inl operationErr \<Rightarrow>
            bnd (annot (\<lambda>ackErr. Wrapf ['''', ''; publish failure ack: '', ''''] [operationErr, ackErr])
                   (insertWatchAckTx E p correlationID (Some operationErr))) (\<lambda>_.
              annot (errorf ''commit watch failure ack: '') commit_tx)
        | Inr _ \<Rightarrow>
            bnd (insertWatchAckTx E p correlationID None) (\<lambda>_.
              annot (errorf ''commit watch command: '') commit_tx)))"

text \<open>\<open>INSERT INTO scanner_releases ... ON CONFLICT (repo, tag) DO NOTHING\<close>\<close>

definition release_key :: "release_row \<Rightarrow> string \<times> string" where
  "release_key r = (rr_Repo r, rr_Tag r)"

definition sql_insert_release :: "string \<Rightarrow> string \<Rightarrow> ('d scanner_db_scheme, nat) sql" where
  "sql_insert_release repo tag = (\<lambda>d now.
     if (repo, tag) \<in> release_key ` set (releases d) then Inr (0, d)
     else Inr (1, d\<lparr>releases := releases d @ [\<lparr>rr_Repo = repo, rr_Tag = tag, rr_DetectedAt = now\<rparr>]\<rparr>))"

definition insertRelease :: "string \<Rightarrow> string \<Rightarrow> ('d scanner_db_scheme, wire, bool) go" where
  "insertRelease repo tag =
     bnd (annot (errorf ''insert scanner release: '') (tx_stmt (sql_insert_release repo tag)))
       (\<lambda>n. ret (n = 1))"

definition sql_set_last_seen :: "string \<Rightarrow> string \<Rightarrow> ('d scanner_db_scheme, unit) sql" where
  "sql_set_last_seen repo tag = (\<lambda>d now. Inr ((), d\<lparr>watchlist :=
     update_where (\<lambda>r. wr_Repo r = repo) (\<lambda>r. r\<lparr>wr_LastSeenTag := tag\<rparr>) (watchlist d)\<rparr>))"

definition buildReleaseDetectedEvent ::
    "string \<Rightarrow> string \<Rightarrow> string \<Rightarrow> string \<Rightarrow> int \<Rightarrow> release_payload envelope" where
  "buildReleaseDetectedEvent repo tag eventID correlationID occurredAt =
     \<lparr>EventID = eventID, EventType = EventReleaseDetected, OccurredAt = occurredAt,
      Source = ''scanner-service'', CorrelationID = correlationID, NotBefore = None,
      Payload = \<lparr>rp_Repo = repo, rp_Tag = tag\<rparr>\<rparr>"

definition MarkReleaseDetected ::
    "env \<Rightarrow> string \<Rightarrow> string \<Rightarrow> string \<Rightarrow> ('d scanner_db_scheme, wire, bool) go" where
  "MarkReleaseDetected E repo tag correlationID =
     with_tx (errorf ''begin release detection: '')
       (bnd (insertRelease repo tag) (\<lambda>inserted.
        if \<not> inserted then bnd commit_tx (\<lambda>_. ret False)
        else bnd (annot (errorf ''update last seen tag: '') (tx_stmt (sql_set_last_seen repo tag))) (\<lambda>_.
          bnd (new_uuid (uuid_gen E)) (\<lambda>eventID.
          bnd app_clock (\<lambda>now.
          let event = buildReleaseDetectedEvent repo tag eventID correlationID now in
          bnd (annot (errorf ''marshal release event: '')
                 (of_sum (encode_envelope E (\<lambda>p. Inr (encode_release p)) event))) (\<lambda>raw.
          bnd (InsertTx (new_event eventID (EventType event) (OccurredAt event) (Source event)
                 correlationID TopicReleaseEvents repo (Some raw))) (\<lambda>_.
          bnd (annot (errorf ''commit release detection: '') commit_tx) (\<lambda>_. ret True))))))))"

section \<open>The service\<close>

record 'db scanner_store =
  ss_ClaimDue :: "nat \<Rightarrow> int \<Rightarrow> ('db, wire, watched_repo list) go"
  ss_ApplyWatchCommand :: "command_payload \<Rightarrow> string \<Rightarrow> ('db, wire, unit) go"
  ss_MarkReleaseDetected :: "string \<Rightarrow> string \<Rightarrow> string \<Rightarrow> ('db, wire, bool) go"

record 'db scanner_service =
  sc_repo :: "'db scanner_store"
  sc_releases :: "'db release_provider"
  sc_batchSize :: nat
  sc_scanBackoff :: int

definition NewService :: "'db scanner_store \<Rightarrow> 'db release_provider \<Rightarrow> int \<Rightarrow> int \<Rightarrow> 'db scanner_service" where
  "NewService repo rels batchSize scanBackoff =
     \<lparr>sc_repo = repo, sc_releases = rels,
      sc_batchSize = (if batchSize \<le> 0 then 100 else nat batchSize),
      sc_scanBackoff = (if scanBackoff \<le> 0 then 30 * second_ns else scanBackoff)\<rparr>"

definition scanner_repository :: "env \<Rightarrow> ('d scanner_db_scheme) scanner_store" where
  "scanner_repository E =
     \<lparr>ss_ClaimDue = ClaimDue E, ss_ApplyWatchCommand = ApplyWatchCommand E,
      ss_MarkReleaseDetected = MarkReleaseDetected E\<rparr>"

definition scanRepo :: "'db scanner_service \<Rightarrow> watched_repo \<Rightarrow> string \<Rightarrow> ('db, wire, unit) go" where
  "scanRepo s watched correlationID =
     bnd (annot (errorf ''get latest tag: '') (sc_releases s (wd_Repo watched))) (\<lambda>tag.
       if tag = '''' \<or> tag = wd_LastSeenTag watched then ret ()
       else bnd (ss_MarkReleaseDetected (sc_repo s) (wd_Repo watched) tag correlationID) (\<lambda>_. ret ()))"

definition ScanOnce :: "env \<Rightarrow> 'db scanner_service \<Rightarrow> ('db, wire, unit) go" where
  "ScanOnce E s =
     bnd (ss_ClaimDue (sc_repo s) (sc_batchSize s) (sc_scanBackoff s)) (\<lambda>repos.
       if repos = [] then ret ()
       else bnd (new_uuid (uuid_gen E)) (\<lambda>correlationID.
         for_each (\<lambda>watched. bnd (attempt (scanRepo s watched correlationID)) (\<lambda>_. ret ())) repos))"

text \<open>One batch per tick; an error of a batch is logged.\<close>

definition Scanner_Start :: "env \<Rightarrow> 'db scanner_service \<Rightarrow> (int \<times> int) list \<Rightarrow> ('db, wire, unit) go" where
  "Scanner_Start E s ticks =
     for_each (\<lambda>t. bnd (at_clocks t) (\<lambda>_. bnd (attempt (ScanOnce E s)) (\<lambda>_. ret ()))) ticks"

definition check_command :: "command_payload envelope \<Rightarrow> goerr option" where
  "check_command event =
     (let p = Payload event in
      if EventType event = EventStartWatchingRepo \<and> cp_Action p \<noteq> RepoWatchActionStart
      then NonRetryable (Some (Plain (''start command action = '' @ go_quote (cp_Action p))))
      else if EventType event = EventStopWatchingRepo \<and> cp_Action p \<noteq> RepoWatchActionStop
      then NonRetryable (Some (Plain (''stop command action = '' @ go_quote (cp_Action p))))
      else if EventType event \<notin> {EventStartWatchingRepo, EventStopWatchingRepo}
      then NonRetryable (Some (Plain (''unsupported watchlist command type '' @ go_quote (EventType event))))
      else if cp_SagaID p = '''' \<or> cp_Repo p = ''''
      then NonRetryable (Some (Plain ''watchlist command requires saga_id and repo''))
      else None)"

definition HandleWatchlistCommand ::
    "env \<Rightarrow> 'db scanner_service \<Rightarrow> wire \<Rightarrow> ('db, wire, unit) go" where
  "HandleWatchlistCommand E s v =
     (case decode_envelope E decode_command v of
        Inl e \<Rightarrow> raise (non_retryable (errorf ''decode watchlist command: '' e))
      | Inr event \<Rightarrow>
          (case check_command event of
             Some e \<Rightarrow> raise e
           | None \<Rightarrow> ss_ApplyWatchCommand (sc_repo s) (Payload event) (CorrelationID event)))"

text \<open>The consumer of \<open>scanner-service/main.go\<close>.\<close>

definition watchlistConsumer :: "'db consumer" where
  "watchlistConsumer =
     WithDeadLetter (newConsumer TopicWatchlistCommands ''scanner-service'') TopicWatchlistCommandsDLQ Publish"

definition command_handler :: "env \<Rightarrow> 'db scanner_service \<Rightarrow> 'db handler" where
  "command_handler E s key v = HandleWatchlistCommand E s v"

end
