(* ===== verification/Scanner_Properties.thy ===== *)
theory Scanner_Properties
  imports Scanner
begin

text \<open>
  The properties of the scanner.  The locale \<open>release_log\<close> states what the service relies on
  in its store and its provider, and proves once that every release is announced exactly once;
  the interpretation is on the repository and the provider of the scanner process.
\<close>

section \<open>Releases are announced once\<close>

datatype scanner_op = OpScan | OpCommand wire

definition scanner_exec :: "env \<Rightarrow> 'db scanner_service \<Rightarrow> scanner_op \<Rightarrow> ('db, wire, unit) go" where
  "scanner_exec E s sop =
     (case sop of OpScan \<Rightarrow> ScanOnce E s | OpCommand v \<Rightarrow> HandleWatchlistCommand E s v)"

text \<open>The ticks and the commands of the process in the order in which they run.\<close>

definition scanner_history ::
    "env \<Rightarrow> 'db scanner_service \<Rightarrow> ((int \<times> int) \<times> scanner_op) list \<Rightarrow> ('db, wire, unit) go" where
  "scanner_history E s ops = for_each (\<lambda>(t, sop). bnd (at_clocks t)
     (\<lambda>_. bnd (attempt (scanner_exec E s sop)) (\<lambda>_. ret ()))) ops"

locale release_log =
  fixes E :: env and st :: "'db scanner_store" and rel :: "'db release_provider"
    and ok :: "('db, wire) world \<Rightarrow> bool"
    and detected :: "'db \<Rightarrow> (string \<times> string) set" and announced :: "'db \<Rightarrow> (string \<times> string) list"
  assumes ok_clock: "ok w \<Longrightarrow> ok (w\<lparr>w_app_now := a, w_pg_now := b\<rparr>)"
    and ok_uuid: "ok w \<Longrightarrow> ok (w\<lparr>w_uuids := Suc (w_uuids w)\<rparr>)"
    and provider_law: "ok w \<Longrightarrow> wp (rel repo) (\<lambda>_ w'. ok w' \<and> w_db w' = w_db w) (\<lambda>_ w'. ok w' \<and> w_db w' = w_db w) w"
    and claim_law: "ok w \<Longrightarrow> wp (ss_ClaimDue st n t)
      (\<lambda>_ w'. ok w' \<and> detected (w_db w') = detected (w_db w) \<and> announced (w_db w') = announced (w_db w))
      (\<lambda>_ w'. ok w' \<and> detected (w_db w') = detected (w_db w) \<and> announced (w_db w') = announced (w_db w)) w"
    and apply_law: "ok w \<Longrightarrow> wp (ss_ApplyWatchCommand st p c)
      (\<lambda>_ w'. ok w' \<and> detected (w_db w') = detected (w_db w) \<and> announced (w_db w') = announced (w_db w))
      (\<lambda>_ w'. ok w' \<and> detected (w_db w') = detected (w_db w) \<and> announced (w_db w') = announced (w_db w)) w"
    and mark_law: "ok w \<Longrightarrow> wp (ss_MarkReleaseDetected st repo tag c)
      (\<lambda>_ w'. ok w' \<and> (repo, tag) \<in> detected (w_db w') \<and>
         (detected (w_db w') = detected (w_db w) \<and> announced (w_db w') = announced (w_db w) \<or>
          (repo, tag) \<notin> detected (w_db w) \<and> detected (w_db w') = insert (repo, tag) (detected (w_db w)) \<and>
          announced (w_db w') = announced (w_db w) @ [(repo, tag)]))
      (\<lambda>_ w'. ok w' \<and>
         (detected (w_db w') = detected (w_db w) \<and> announced (w_db w') = announced (w_db w) \<or>
          (repo, tag) \<notin> detected (w_db w) \<and> detected (w_db w') = insert (repo, tag) (detected (w_db w)) \<and>
          announced (w_db w') = announced (w_db w) @ [(repo, tag)])) w"
begin

text \<open>The releases detected are those announced, each once, and none is forgotten.\<close>

definition log_ok :: "(string \<times> string) set \<Rightarrow> ('db, wire) world \<Rightarrow> bool" where
  "log_ok R w = (ok w \<and> distinct (announced (w_db w)) \<and> set (announced (w_db w)) = detected (w_db w) \<and>
     R \<subseteq> detected (w_db w))"

lemma log_ok_same:
  "log_ok R w \<Longrightarrow> ok w' \<Longrightarrow> detected (w_db w') = detected (w_db w) \<Longrightarrow>
   announced (w_db w') = announced (w_db w) \<Longrightarrow> log_ok R w'"
  by (simp add: log_ok_def)

lemma log_ok_new:
  "log_ok R w \<Longrightarrow> ok w' \<Longrightarrow> x \<notin> detected (w_db w) \<Longrightarrow> detected (w_db w') = insert x (detected (w_db w)) \<Longrightarrow>
   announced (w_db w') = announced (w_db w) @ [x] \<Longrightarrow> log_ok R w'"
  by (auto simp: log_ok_def)

lemma scanRepo_log:
  assumes "log_ok R w" and "sc_repo s = st" and "sc_releases s = rel"
  shows "wp (scanRepo s watched c) (\<lambda>_. log_ok R) (\<lambda>_. log_ok R) w"
proof -
  have ok: "ok w" using assms(1) by (simp add: log_ok_def)
  have mark: "wp (bnd (ss_MarkReleaseDetected st (wd_Repo watched) tag c) (\<lambda>_. ret ())) (\<lambda>_. log_ok R) (\<lambda>_. log_ok R) w1"
    if w1: "ok w1" "w_db w1 = w_db w" for tag w1
  proof -
    have "log_ok R w1" using log_ok_same[OF assms(1)] w1 by simp
    then show ?thesis
      unfolding wp_bnd wp_ret
      by (intro wp_mono[OF mark_law[OF w1(1)]]) (auto intro: log_ok_same log_ok_new)
  qed
  show ?thesis
    unfolding scanRepo_def assms wp_bnd[of "annot _ _"] wp_annot
    by (rule wp_mono[OF provider_law[OF ok]]) (auto simp: wp_ret mark log_ok_same[OF assms(1)])
qed

lemma ScanOnce_log:
  assumes "log_ok R w" and "sc_repo s = st" and "sc_releases s = rel"
  shows "wp (ScanOnce E s) (\<lambda>_. log_ok R) (\<lambda>_. log_ok R) w"
proof -
  have ok: "ok w" using assms(1) by (simp add: log_ok_def)
  have loop: "wp (for_each (\<lambda>watched. bnd (attempt (scanRepo s watched c)) (\<lambda>_. ret ())) repos)
      (\<lambda>_. log_ok R) (\<lambda>_. log_ok R) w1" if "log_ok R w1" for c repos w1
    using that by (rule wp_for_each_inv[where I = "log_ok R"])
      (simp add: wp_bnd wp_attempt wp_ret scanRepo_log assms(2,3))
  have uuid: "log_ok R (w1\<lparr>w_uuids := Suc (w_uuids w1)\<rparr>)" if "log_ok R w1" for w1
    using that ok_uuid by (simp add: log_ok_def)
  show ?thesis
    unfolding ScanOnce_def assms(2) wp_bnd[of "ss_ClaimDue _ _ _"]
    by (rule wp_mono[OF claim_law[OF ok]])
      (auto simp: wp_ret wp_bnd wp_new_uuid intro!: loop uuid intro: log_ok_same[OF assms(1)])
qed

lemma HandleWatchlistCommand_log:
  assumes "log_ok R w" and "sc_repo s = st"
  shows "wp (HandleWatchlistCommand E s v) (\<lambda>_. log_ok R) (\<lambda>_. log_ok R) w"
proof -
  have ok: "ok w" using assms(1) by (simp add: log_ok_def)
  have "wp (ss_ApplyWatchCommand st p c) (\<lambda>_. log_ok R) (\<lambda>_. log_ok R) w" for p c
    by (rule wp_mono[OF apply_law[OF ok]]) (auto intro: log_ok_same[OF assms(1)])
  then show ?thesis
    using assms by (auto simp: HandleWatchlistCommand_def wp_raise split: sum.splits option.splits)
qed

lemma history_log:
  assumes "log_ok R w" and "sc_repo s = st" and "sc_releases s = rel"
  shows "wp (scanner_history E s ops) (\<lambda>_. log_ok R) (\<lambda>_. log_ok R) w"
  unfolding scanner_history_def
proof (rule wp_for_each_inv[where I = "log_ok R", OF assms(1)])
  fix x :: "(int \<times> int) \<times> scanner_op" and w :: "('db, wire) world"
  assume w: "log_ok R w"
  obtain t sop where x: "x = (t, sop)" by (cases x)
  let ?w = "w\<lparr>w_app_now := fst t, w_pg_now := snd t\<rparr>"
  have "log_ok R ?w" using w ok_clock by (simp add: log_ok_def)
  then have "wp (scanner_exec E s sop) (\<lambda>_. log_ok R) (\<lambda>_. log_ok R) ?w"
    by (cases sop) (simp_all add: scanner_exec_def ScanOnce_log HandleWatchlistCommand_log assms(2,3))
  then show "wp (case x of (t, sop) \<Rightarrow> bnd (at_clocks t) (\<lambda>_. bnd (attempt (scanner_exec E s sop)) (\<lambda>_. ret ())))
      (\<lambda>_. log_ok R) (\<lambda>_. log_ok R) w"
    by (simp add: x wp_bnd wp_at_clocks wp_attempt wp_ret)
qed

end


section \<open>The repository keeps the contract\<close>

definition release_of :: "env \<Rightarrow> outbox_event \<Rightarrow> (string \<times> string) option" where
  "release_of E e =
     (if ob_Topic e = TopicReleaseEvents
      then (case decode_envelope E decode_release (ob_Payload e) of
              Inl _ \<Rightarrow> None | Inr ev \<Rightarrow> Some (rp_Repo (Payload ev), rp_Tag (Payload ev)))
      else None)"

definition announced_releases :: "env \<Rightarrow> 'd scanner_db_scheme \<Rightarrow> (string \<times> string) list" where
  "announced_releases E d = List.map_filter (release_of E) (outbox_events d)"

definition detected_releases :: "'d scanner_db_scheme \<Rightarrow> (string \<times> string) set" where
  "detected_releases d = release_key ` set (releases d)"

definition scanner_ok :: "env \<Rightarrow> ('d scanner_db_scheme, wire) world \<Rightarrow> bool" where
  "scanner_ok E w = (time_codec E \<and> uuids_fresh E (w_uuids w) (outbox_events (w_db w)))"

lemma announced_append:
  "outbox_events d' = outbox_events d @ [e] \<Longrightarrow> announced_releases E d' = announced_releases E d @
     (case release_of E e of None \<Rightarrow> [] | Some x \<Rightarrow> [x])"
  by (simp add: announced_releases_def List.map_filter_def split: option.splits)

lemma announced_same: "outbox_events d' = outbox_events d \<Longrightarrow> announced_releases E d' = announced_releases E d"
  by (simp add: announced_releases_def)

lemma detected_same: "releases d' = releases d \<Longrightarrow> detected_releases d' = detected_releases d"
  by (simp add: detected_releases_def)

definition claimed_rows :: "watched_repo list \<Rightarrow> int \<Rightarrow> int \<Rightarrow> watch_row list \<Rightarrow> watch_row list" where
  "claimed_rows repos t now rows =
     update_where (\<lambda>r. wr_Repo r \<in> wd_Repo ` set repos) (reserve_row t now) rows"

lemma claimed_rows_snoc:
  "update_where (\<lambda>r. wr_Repo r = wd_Repo x) (reserve_row t now) (claimed_rows ys t now rows)
     = claimed_rows (ys @ [x]) t now rows"
  by (induction rows) (auto simp: claimed_rows_def reserve_row_def)

definition claim_done ::
    "env \<Rightarrow> nat \<Rightarrow> int \<Rightarrow> ('d scanner_db_scheme, wire) world \<Rightarrow> watched_repo list \<Rightarrow> 'd scanner_db_scheme \<Rightarrow> nat \<Rightarrow> bool" where
  "claim_done E n t w repos d u = (repos = due_repos E n (w_pg_now w) (watchlist (w_db w)) \<and>
     watchlist d = claimed_rows repos t (w_pg_now w) (watchlist (w_db w)) \<and>
     outbox_events d = outbox_events (w_db w) \<and> releases d = releases (w_db w) \<and> u = w_uuids w)"

lemma ClaimDue_tx:
  fixes w :: "('d scanner_db_scheme, wire) world"
  shows "tx_wp (ClaimDue E n t) (claim_done E n t w) w w"
proof -
  let ?repos = "due_repos E n (w_pg_now w) (watchlist (w_db w))"
  define J where "J xs d u = (\<exists>ys. ?repos = ys @ xs \<and>
    watchlist d = claimed_rows ys t (w_pg_now w) (watchlist (w_db w)) \<and>
    outbox_events d = outbox_events (w_db w) \<and>
    releases d = releases (w_db w) \<and> u = w_uuids w)" for xs :: "watched_repo list" and d :: "'d scanner_db_scheme" and u
  have loop: "tx_wp (bnd (for_each (\<lambda>repo. annot (errorf (g repo)) (tx_stmt (sql_reserve (wd_Repo repo) t))) ?repos)
      (\<lambda>_. bnd (annot h commit_tx) (\<lambda>_. ret ?repos))) (claim_done E n t w) w w1"
    if "staged w (w_db w) (w_uuids w) w1" for g h w1
  proof (rule tx_wp_for_each[OF that, where J = J])
    show "J ?repos (w_db w) (w_uuids w)"
      by (auto simp: J_def claimed_rows_def update_where_none intro!: exI[of _ "[]"])
    fix x xs d u w1 and k :: "('d scanner_db_scheme, wire, watched_repo list) go"
    assume J: "J (x # xs) d u" and w1: "staged w d u w1"
      and k: "\<And>d' u' w2. J xs d' u' \<Longrightarrow> staged w d' u' w2 \<Longrightarrow> tx_wp k (claim_done E n t w) w w2"
    show "tx_wp (bnd (annot (errorf (g x)) (tx_stmt (sql_reserve (wd_Repo x) t))) (\<lambda>_. k)) (claim_done E n t w) w w1"
    proof (rule tx_wp_annot_bnd, rule tx_wp_stmt[OF w1])
      fix a d' w2
      assume q: "sql_reserve (wd_Repo x) t d (w_pg_now w) = Inr (a, d')" and w2: "staged w d' u w2"
      from J obtain ys where ys: "?repos = ys @ x # xs"
        "watchlist d = claimed_rows ys t (w_pg_now w) (watchlist (w_db w))"
        "outbox_events d = outbox_events (w_db w)" "releases d = releases (w_db w)" "u = w_uuids w"
        by (auto simp: J_def)
      with q have "watchlist d' = claimed_rows (ys @ [x]) t (w_pg_now w) (watchlist (w_db w))"
        "outbox_events d' = outbox_events (w_db w)" "releases d' = releases (w_db w)"
        by (auto simp: sql_reserve_def claimed_rows_snoc)
      then have "J xs d' u"
        unfolding J_def using ys(1,5) by (intro exI[of _ "ys @ [x]"]) simp
      then show "tx_wp k (claim_done E n t w) w w2" using w2 by (rule k)
    qed
  next
    fix d u w1 assume "J [] d u" "staged w d u w1"
    then show "tx_wp (bnd (annot h commit_tx) (\<lambda>_. ret ?repos)) (claim_done E n t w) w w1"
      by (intro tx_wp_annot_bnd tx_wp_commit_ret) (auto simp: J_def claim_done_def)
  qed
  show ?thesis
    unfolding ClaimDue_def
    by (intro tx_wp_with_tx tx_wp_annot_bnd, rule tx_wp_stmt, assumption) (auto simp: sql_due_repos_def intro: loop)
qed

lemma decode_release_event:
  assumes "time_codec E"
    and "encode_envelope E (\<lambda>p. Inr (encode_release p)) (buildReleaseDetectedEvent repo tag i c now) = Inr v"
  shows "release_of E (new_event i' t x src c' TopicReleaseEvents k (Some v)) = Some (repo, tag)"
  using envelope_round_trip[OF assms(1) release_codec assms(2)]
  by (simp add: release_of_def buildReleaseDetectedEvent_def)

definition release_recorded ::
    "env \<Rightarrow> ('d scanner_db_scheme, wire) world \<Rightarrow> string \<Rightarrow> string \<Rightarrow> 'd scanner_db_scheme \<Rightarrow> bool" where
  "release_recorded E w repo tag d = ((repo, tag) \<in> detected_releases d \<and>
     (detected_releases d = detected_releases (w_db w) \<and> announced_releases E d = announced_releases E (w_db w) \<or>
      (repo, tag) \<notin> detected_releases (w_db w) \<and>
      detected_releases d = insert (repo, tag) (detected_releases (w_db w)) \<and>
      announced_releases E d = announced_releases E (w_db w) @ [(repo, tag)]))"

text \<open>The release event in the outbox announces the release that the row records.\<close>

lemma release_event_recorded:
  fixes c :: string
  assumes "scanner_ok E w" and new: "(repo, tag) \<notin> detected_releases (w_db w)"
  defines "ev \<equiv> buildReleaseDetectedEvent repo tag (uuid_gen E (w_uuids w)) c (w_app_now w)"
  assumes raw: "encode_envelope E (\<lambda>p. Inr (encode_release p)) ev = Inr raw"
    and d: "sql_set_last_seen repo tag ((w_db w)\<lparr>releases := releases (w_db w) @
      [\<lparr>rr_Repo = repo, rr_Tag = tag, rr_DetectedAt = w_pg_now w\<rparr>]\<rparr>) (w_pg_now w) = Inr (a, d)"
    and e: "e = new_event (uuid_gen E (w_uuids w)) (EventType ev)
      (if OccurredAt ev = zero_time then w_app_now w else OccurredAt ev) (Source ev) c TopicReleaseEvents repo (Some raw)"
  defines "d' \<equiv> d\<lparr>outbox_events := add_event e (outbox_events d)\<rparr>"
  shows "uuids_fresh E (Suc (w_uuids w)) (outbox_events d') \<and> release_recorded E w repo tag d'"
proof -
  have tc: "time_codec E" and fresh: "uuids_fresh E (w_uuids w) (outbox_events (w_db w))"
    using assms(1) by (simp_all add: scanner_ok_def)
  have same: "outbox_events d = outbox_events (w_db w)"
      "releases d = releases (w_db w) @ [\<lparr>rr_Repo = repo, rr_Tag = tag, rr_DetectedAt = w_pg_now w\<rparr>]"
    using d by (simp_all add: sql_set_last_seen_def split: prod.splits) auto
  then have out: "outbox_events d' = outbox_events (w_db w) @ [e]"
    using fresh_event(1)[OF fresh, of e] by (simp add: d'_def e)
  have "announced_releases E d' = announced_releases E (w_db w) @ [(repo, tag)]"
    using announced_append[OF out] decode_release_event[OF tc raw[unfolded ev_def]] by (simp add: e ev_def)
  moreover have "detected_releases d' = insert (repo, tag) (detected_releases (w_db w))"
    by (simp add: d'_def detected_releases_def same release_key_def)
  moreover have "uuids_fresh E (Suc (w_uuids w)) (outbox_events d')"
    unfolding out by (rule fresh_event(2)[OF fresh]) (simp add: e)
  ultimately show ?thesis using new by (simp add: release_recorded_def)
qed

lemma MarkReleaseDetected_tx:
  assumes "scanner_ok E w"
  shows "tx_wp (MarkReleaseDetected E repo tag c)
    (\<lambda>b d u. uuids_fresh E u (outbox_events d) \<and> release_recorded E w repo tag d \<and>
       (b \<longrightarrow> (repo, tag) \<notin> detected_releases (w_db w))) w w"
    (is "tx_wp _ ?P w w")
proof (cases "(repo, tag) \<in> detected_releases (w_db w)")
  case True
  then have q: "sql_insert_release repo tag (w_db w) (w_pg_now w) = Inr (0, w_db w)"
    by (simp add: sql_insert_release_def detected_releases_def)
  have post: "?P False (w_db w) (w_uuids w)"
    using True assms by (simp add: release_recorded_def scanner_ok_def)
  show ?thesis
    unfolding MarkReleaseDetected_def insertRelease_def
    by (intro tx_wp_with_tx tx_wp_assoc tx_wp_annot_bnd, rule tx_wp_stmt, assumption)
      (use post in \<open>auto simp: q intro!: tx_wp_ret_bnd tx_wp_commit_ret\<close>)
next
  case False
  let ?new = "(w_db w)\<lparr>releases := releases (w_db w) @
    [\<lparr>rr_Repo = repo, rr_Tag = tag, rr_DetectedAt = w_pg_now w\<rparr>]\<rparr>"
  have q: "sql_insert_release repo tag (w_db w) (w_pg_now w) = Inr (1, ?new)"
    using False by (simp add: sql_insert_release_def detected_releases_def)
  show ?thesis
    unfolding MarkReleaseDetected_def insertRelease_def Let_def
  proof (intro tx_wp_with_tx tx_wp_assoc tx_wp_annot_bnd, rule tx_wp_stmt, assumption, rule tx_wp_ret_bnd)
    fix n d w1
    let ?ev = "buildReleaseDetectedEvent repo tag"
    assume "sql_insert_release repo tag (w_db w) (w_pg_now w) = Inr (n, d)" and w1: "staged w d (w_uuids w) w1"
    with q have n: "n = 1" and d: "d = ?new" by simp_all
    show "tx_wp (if \<not> n = 1 then bnd commit_tx (\<lambda>_. ret False)
        else bnd (annot (errorf ''update last seen tag: '') (tx_stmt (sql_set_last_seen repo tag))) (\<lambda>_.
          bnd (new_uuid (uuid_gen E)) (\<lambda>eventID. bnd app_clock (\<lambda>now.
          bnd (annot (errorf ''marshal release event: '')
            (of_sum (encode_envelope E (\<lambda>p. Inr (encode_release p)) (?ev eventID c now)))) (\<lambda>raw.
          bnd (InsertTx (new_event eventID (EventType (?ev eventID c now)) (OccurredAt (?ev eventID c now))
               (Source (?ev eventID c now)) c TopicReleaseEvents repo (Some raw))) (\<lambda>_.
          bnd (annot (errorf ''commit release detection: '') commit_tx) (\<lambda>_. ret True))))))) ?P w w1"
      unfolding n simp_thms if_False
      by (rule tx_wp_annot_bnd, rule tx_wp_stmt[OF w1], rule tx_wp_uuid, assumption, rule tx_wp_clock, assumption,
          rule tx_wp_of_sum_annot, assumption, rule tx_wp_new_event, assumption, rule tx_wp_annot_bnd,
          rule tx_wp_commit_ret, assumption)
        (use release_event_recorded[OF assms False] False d in simp)
  qed
qed

section \<open>Commands\<close>

text \<open>The acknowledgement an outbox event carries: its type and its payload.\<close>

definition ack_of :: "env \<Rightarrow> outbox_event \<Rightarrow> (string \<times> ack_payload) option" where
  "ack_of E e =
     (if ob_Topic e = TopicWatchlistSagaEvents
      then (case decode_envelope E decode_ack (ob_Payload e) of
              Inl _ \<Rightarrow> None | Inr ev \<Rightarrow> Some (EventType ev, Payload ev))
      else None)"

definition ack_for :: "command_payload \<Rightarrow> goerr option \<Rightarrow> string \<times> ack_payload" where
  "ack_for p cause = (fst (ack_type_and_error (cp_Action p) cause),
     \<lparr>ap_SagaID = cp_SagaID p, ap_Action = cp_Action p, ap_Repo = cp_Repo p,
      ap_Error = snd (ack_type_and_error (cp_Action p) cause)\<rparr>)"

lemma decode_ack_event:
  assumes "time_codec E"
    and "encode_envelope E (\<lambda>a. Inr (encode_ack a)) (buildRepoWatchAckEvent p i c now cause) = Inr v"
  shows "ack_of E (new_event i' t x src c' TopicWatchlistSagaEvents k (Some v)) = Some (ack_for p cause)"
  using envelope_round_trip[OF assms(1) ack_codec assms(2)]
  by (simp add: ack_of_def buildRepoWatchAckEvent_def ack_for_def case_prod_beta)

lemma tx_wp_ack:
  fixes w :: "('d outbox_db_scheme, wire) world"
  assumes "time_codec E" and "staged w d u w1" and "uuids_fresh E u (outbox_events d)"
    and next_stmt: "\<And>e w2. ob_EventID e = uuid_gen E u \<Longrightarrow> ack_of E e = Some (ack_for p cause) \<Longrightarrow>
      ob_Topic e = TopicWatchlistSagaEvents \<Longrightarrow> ob_KafkaKey e = cp_Repo p \<Longrightarrow>
      staged w (d\<lparr>outbox_events := outbox_events d @ [e]\<rparr>) (Suc u) w2 \<Longrightarrow> tx_wp (f ()) P w w2"
  shows "tx_wp (bnd (insertWatchAckTx E p c cause) f) P w w1"
  unfolding insertWatchAckTx_def Let_def
proof (rule tx_wp_assoc, rule tx_wp_uuid[OF assms(2)], rule tx_wp_assoc, rule tx_wp_clock, assumption,
    rule tx_wp_assoc, rule tx_wp_of_sum_annot, assumption, rule tx_wp_new_event, assumption)
  fix w2 v w3
  let ?ev = "buildRepoWatchAckEvent p (uuid_gen E u) c (w_app_now w) cause"
  let ?e = "new_event (uuid_gen E u) (EventType ?ev)
    (if OccurredAt ?ev = zero_time then w_app_now w else OccurredAt ?ev) (Source ?ev) c
    TopicWatchlistSagaEvents (cp_Repo p) (Some v)"
  assume v: "encode_envelope E (\<lambda>a. Inr (encode_ack a)) ?ev = Inr v"
    and "staged w (d\<lparr>outbox_events := add_event ?e (outbox_events d)\<rparr>) (Suc u) w3"
  then have "staged w (d\<lparr>outbox_events := outbox_events d @ [?e]\<rparr>) (Suc u) w3"
    using fresh_event(1)[OF assms(3), of ?e] by simp
  then show "tx_wp (f ()) P w w3"
    by (intro next_stmt[of ?e]) (simp_all add: decode_ack_event[OF assms(1) v])
qed

lemma doomed_ack: "doomed w w1 \<Longrightarrow> tx_wp (bnd (insertWatchAckTx E p c cause) f) P w w1"
  unfolding insertWatchAckTx_def Let_def
  by (intro tx_wp_assoc doomed_uuid doomed_clock tx_wp_annot_bnd doomed_of_sum doomed_InsertTx)

definition supported :: "string \<Rightarrow> bool" where
  "supported action = (action = RepoWatchActionStart \<or> action = RepoWatchActionStop)"

definition watch_after :: "command_payload \<Rightarrow> int \<Rightarrow> watch_row list \<Rightarrow> watch_row list" where
  "watch_after p now rows =
     (if cp_Action p = RepoWatchActionStart then add_watch (cp_Repo p) now rows
      else if cp_Action p = RepoWatchActionStop then delete_where (\<lambda>r. wr_Repo r = cp_Repo p) rows
      else rows)"

text \<open>What a committed command has done: the watchlist, and one acknowledgement.\<close>

definition watch_applied ::
    "env \<Rightarrow> ('d scanner_db_scheme, wire) world \<Rightarrow> command_payload \<Rightarrow> 'd scanner_db_scheme \<Rightarrow> bool" where
  "watch_applied E w p d = (watchlist d = watch_after p (w_pg_now w) (watchlist (w_db w)) \<and>
     releases d = releases (w_db w) \<and>
     (\<exists>e. outbox_events d = outbox_events (w_db w) @ [e] \<and> ob_Topic e = TopicWatchlistSagaEvents \<and>
        ob_KafkaKey e = cp_Repo p \<and>
        ack_of E e = Some (ack_for p (if supported (cp_Action p) then None
                                      else Some (unsupported_action (cp_Action p))))))"

lemma watch_acked:
  fixes w :: "('d scanner_db_scheme, wire) world"
  assumes "scanner_ok E w" and w1: "staged w d (w_uuids w) w1"
    and d: "outbox_events d = outbox_events (w_db w)" "releases d = releases (w_db w)"
      "watchlist d = watch_after p (w_pg_now w) (watchlist (w_db w))"
    and cause: "cause = (if supported (cp_Action p) then None else Some (unsupported_action (cp_Action p)))"
  shows "tx_wp (bnd (annot k (insertWatchAckTx E p c cause)) (\<lambda>_. annot g commit_tx))
    (\<lambda>_ d u. watch_applied E w p d \<and> uuids_fresh E u (outbox_events d)) w w1" (is "tx_wp _ ?P w w1")
proof (rule tx_wp_annot_bnd, rule tx_wp_ack[OF _ w1])
  have fresh: "uuids_fresh E (w_uuids w) (outbox_events (w_db w))"
    using assms(1) by (simp add: scanner_ok_def)
  show "time_codec E" "uuids_fresh E (w_uuids w) (outbox_events d)" using assms(1) d by (simp_all add: scanner_ok_def)
  fix e w2
  assume e: "ob_EventID e = uuid_gen E (w_uuids w)" "ack_of E e = Some (ack_for p cause)"
    "ob_Topic e = TopicWatchlistSagaEvents" "ob_KafkaKey e = cp_Repo p"
    and w2: "staged w (d\<lparr>outbox_events := outbox_events d @ [e]\<rparr>) (Suc (w_uuids w)) w2"
  have "?P () (d\<lparr>outbox_events := outbox_events d @ [e]\<rparr>) (Suc (w_uuids w))"
    using e d cause fresh_event(2)[OF fresh e(1)] by (auto simp: watch_applied_def)
  then show "tx_wp (annot g commit_tx) ?P w w2"
    unfolding tx_wp_annot by (rule tx_wp_commit[OF w2])
qed

text \<open>The statement of a supported command, with the acknowledgement of either outcome after it.\<close>

lemma watch_statement_acked:
  fixes w :: "('d scanner_db_scheme, wire) world"
  assumes ok: "scanner_ok E w" and w1: "staged w (w_db w) (w_uuids w) w1" and sup: "supported (cp_Action p)"
    and q: "q (w_db w) (w_pg_now w) = Inr ((), (w_db w)\<lparr>watchlist := watch_after p (w_pg_now w) (watchlist (w_db w))\<rparr>)"
  shows "tx_wp (bnd (attempt (annot h (tx_stmt q))) (\<lambda>r. case r of
        Inl err \<Rightarrow> bnd (annot (k err) (insertWatchAckTx E p c (Some err))) (\<lambda>_. annot g commit_tx)
      | Inr _ \<Rightarrow> bnd (insertWatchAckTx E p c None) (\<lambda>_. annot g' commit_tx)))
    (\<lambda>_ d u. watch_applied E w p d \<and> uuids_fresh E u (outbox_events d)) w w1" (is "tx_wp _ ?P w w1")
proof (rule tx_wp_attempt_stmt[OF w1])
  fix a d' w2
  assume "q (w_db w) (w_pg_now w) = Inr (a, d')" and w2: "staged w d' (w_uuids w) w2"
  with q have "d' = (w_db w)\<lparr>watchlist := watch_after p (w_pg_now w) (watchlist (w_db w))\<rparr>" by simp
  then have "tx_wp (bnd (annot (\<lambda>e. e) (insertWatchAckTx E p c None)) (\<lambda>_. annot g' commit_tx)) ?P w w2"
    using sup by (intro watch_acked[OF ok w2]) simp_all
  then show "tx_wp (case Inr a of
      Inl err \<Rightarrow> bnd (annot (k err) (insertWatchAckTx E p c (Some err))) (\<lambda>_. annot g commit_tx)
    | Inr _ \<Rightarrow> bnd (insertWatchAckTx E p c None) (\<lambda>_. annot g' commit_tx)) ?P w w2"
    by (simp add: tx_wp_def wp_bnd wp_annot)
next
  fix e w2 assume "doomed w w2"
  then show "tx_wp (case Inl e of
      Inl err \<Rightarrow> bnd (annot (k err) (insertWatchAckTx E p c (Some err))) (\<lambda>_. annot g commit_tx)
    | Inr _ \<Rightarrow> bnd (insertWatchAckTx E p c None) (\<lambda>_. annot g' commit_tx)) ?P w w2"
    unfolding sum.case by (intro tx_wp_annot_bnd doomed_ack)
qed

lemma ApplyWatchCommand_tx:
  fixes w :: "('d scanner_db_scheme, wire) world"
  assumes "scanner_ok E w"
  shows "tx_wp (ApplyWatchCommand E p c)
    (\<lambda>_ d u. watch_applied E w p d \<and> uuids_fresh E u (outbox_events d)) w w"
proof -
  consider (start) "cp_Action p = RepoWatchActionStart" | (stop) "cp_Action p = RepoWatchActionStop"
    | (other) "\<not> supported (cp_Action p)" unfolding supported_def by blast
  then show ?thesis
  proof cases
    case start
    show ?thesis
      unfolding ApplyWatchCommand_def
      by (rule tx_wp_with_tx)
        (simp add: start watch_operation_def startWatchingTx_def, rule watch_statement_acked[OF assms];
          simp add: start sql_start_watching_def watch_after_def supported_def)
  next
    case stop
    show ?thesis
      unfolding ApplyWatchCommand_def
      by (rule tx_wp_with_tx)
        (simp add: stop watch_operation_def stopWatchingTx_def, rule watch_statement_acked[OF assms];
          simp add: stop sql_stop_watching_def watch_after_def supported_def)
  next
    case other
    have "bnd (attempt (raise e)) f = f (Inl e)" for e and f :: "goerr + unit \<Rightarrow> ('d scanner_db_scheme, wire, unit) go"
      by (rule ext) (simp add: bnd_def attempt_def raise_def)
    with other show ?thesis
      unfolding ApplyWatchCommand_def watch_operation_def
      by (intro tx_wp_with_tx) (auto simp: supported_def watch_after_def intro!: watch_acked[OF assms])
  qed
qed

text \<open>The scanner process: its repository, and the cached provider before GitHub.\<close>

definition scanner_process ::
    "env \<Rightarrow> redis \<Rightarrow> http_server \<Rightarrow> string \<Rightarrow> int \<Rightarrow> int \<Rightarrow> ('d scanner_db_scheme) scanner_service" where
  "scanner_process E entries server baseURL batchSize interval =
     NewService (scanner_repository E) (scanner_provider entries server baseURL) batchSize interval"

interpretation scan_log: release_log E "scanner_repository E" "scanner_provider entries server baseURL"
  "scanner_ok E" detected_releases "announced_releases E" for E entries server baseURL
proof (rule release_log.intro)
  fix w :: "('d scanner_db_scheme, wire) world" and a b :: int
  assume ok: "scanner_ok E w"
  show "scanner_ok E (w\<lparr>w_app_now := a, w_pg_now := b\<rparr>)"
    using ok by (simp add: scanner_ok_def)
  show "scanner_ok E (w\<lparr>w_uuids := Suc (w_uuids w)\<rparr>)"
    using ok by (auto simp: scanner_ok_def intro: uuids_fresh_mono)
  have quiet: "scanner_ok E w'" if "outside w w'" "outbox_events (w_db w') = outbox_events (w_db w)" for w'
    using ok that by (auto simp: scanner_ok_def outside_def intro: uuids_fresh_mono)
  have claimed: "scanner_ok E w' \<and> detected_releases (w_db w') = detected_releases (w_db w) \<and>
      announced_releases E (w_db w') = announced_releases E (w_db w)"
    if "outside w w'" "w_db w' = w_db w \<or> outbox_events (w_db w') = outbox_events (w_db w) \<and>
      releases (w_db w') = releases (w_db w) \<and> w_uuids w' = w_uuids w" for w'
    using that(2) quiet[OF that(1)] announced_same[of "w_db w'" "w_db w" E] detected_same[of "w_db w'" "w_db w"]
    by auto
  show "wp (scanner_provider entries server baseURL repo) (\<lambda>_ w'. scanner_ok E w' \<and> w_db w' = w_db w)
      (\<lambda>_ w'. scanner_ok E w' \<and> w_db w' = w_db w) w" for repo
    by (rule wp_mono[OF reads_onlyD[OF reads_only_provider]]) (auto intro: quiet)
  show "wp (ss_ClaimDue (scanner_repository E) n t)
      (\<lambda>_ w'. scanner_ok E w' \<and> detected_releases (w_db w') = detected_releases (w_db w) \<and>
         announced_releases E (w_db w') = announced_releases E (w_db w))
      (\<lambda>_ w'. scanner_ok E w' \<and> detected_releases (w_db w') = detected_releases (w_db w) \<and>
         announced_releases E (w_db w') = announced_releases E (w_db w)) w" for n t
    by (simp add: scanner_repository_def, rule tx_wp_wp[OF ClaimDue_tx]) (rule claimed; auto simp: claim_done_def)+
  have applied: "scanner_ok E w' \<and> detected_releases (w_db w') = detected_releases (w_db w) \<and>
      announced_releases E (w_db w') = announced_releases E (w_db w)"
    if "outside w w'" "w_db w' = w_db w \<or> watch_applied E w p (w_db w') \<and> uuids_fresh E (w_uuids w') (outbox_events (w_db w'))" for p w'
    using that(2)
  proof
    assume "w_db w' = w_db w"
    then show ?thesis using that(1) quiet by simp
  next
    assume post: "watch_applied E w p (w_db w') \<and> uuids_fresh E (w_uuids w') (outbox_events (w_db w'))"
    then obtain e where out: "outbox_events (w_db w') = outbox_events (w_db w) @ [e]" "ob_Topic e = TopicWatchlistSagaEvents"
      by (auto simp: watch_applied_def)
    then have "announced_releases E (w_db w') = announced_releases E (w_db w)"
      using announced_append[OF out(1)] by (simp add: release_of_def)
    moreover have "detected_releases (w_db w') = detected_releases (w_db w)"
      using post by (intro detected_same) (simp add: watch_applied_def)
    ultimately show ?thesis using post ok by (simp add: scanner_ok_def)
  qed
  show "wp (ss_ApplyWatchCommand (scanner_repository E) p c)
      (\<lambda>_ w'. scanner_ok E w' \<and> detected_releases (w_db w') = detected_releases (w_db w) \<and>
         announced_releases E (w_db w') = announced_releases E (w_db w))
      (\<lambda>_ w'. scanner_ok E w' \<and> detected_releases (w_db w') = detected_releases (w_db w) \<and>
         announced_releases E (w_db w') = announced_releases E (w_db w)) w" for p c
    by (simp add: scanner_repository_def, rule tx_wp_wp[OF ApplyWatchCommand_tx[OF ok]]) (rule applied; blast)+
  have marked: "scanner_ok E w'" if "outside w w'" "w_db w' = w_db w \<or> uuids_fresh E (w_uuids w') (outbox_events (w_db w'))" for w'
    using that ok quiet by (auto simp: scanner_ok_def)
  show "wp (ss_MarkReleaseDetected (scanner_repository E) repo tag c)
      (\<lambda>_ w'. scanner_ok E w' \<and> (repo, tag) \<in> detected_releases (w_db w') \<and>
         (detected_releases (w_db w') = detected_releases (w_db w) \<and>
            announced_releases E (w_db w') = announced_releases E (w_db w) \<or>
          (repo, tag) \<notin> detected_releases (w_db w) \<and>
          detected_releases (w_db w') = insert (repo, tag) (detected_releases (w_db w)) \<and>
          announced_releases E (w_db w') = announced_releases E (w_db w) @ [(repo, tag)]))
      (\<lambda>_ w'. scanner_ok E w' \<and>
         (detected_releases (w_db w') = detected_releases (w_db w) \<and>
            announced_releases E (w_db w') = announced_releases E (w_db w) \<or>
          (repo, tag) \<notin> detected_releases (w_db w) \<and>
          detected_releases (w_db w') = insert (repo, tag) (detected_releases (w_db w)) \<and>
          announced_releases E (w_db w') = announced_releases E (w_db w) @ [(repo, tag)])) w" for repo tag c
    by (simp add: scanner_repository_def, rule tx_wp_wp[OF MarkReleaseDetected_tx[OF ok]])
      (use marked in \<open>auto simp: release_recorded_def\<close>)
qed

end
