(* ===== verification/Saga_Properties.thy ===== *)
theory Saga_Properties
  imports Watch_Saga
begin

text \<open>
  The properties of the saga orchestrator: it refines the state machine of \<open>saga_step\<close> under
  every pattern of failures, keeps one command per attempt in the outbox over any history of
  requests, acknowledgements and sweeps, and does on each branch what the code promises.
\<close>

section \<open>Histories\<close>

datatype saga_op =
    OpRequest "saga_payload envelope"
  | OpAck "ack_payload envelope"
  | OpRetry int

definition saga_exec :: "env \<Rightarrow> saga_op \<Rightarrow> ('d saga_db_scheme, wire, unit) go" where
  "saga_exec E sop =
     (case sop of
        OpRequest event \<Rightarrow> HandleRequest E New event
      | OpAck event \<Rightarrow> HandleAck New event
      | OpRetry limit \<Rightarrow> RetryDue E New limit)"

text \<open>
  A history is the sequence of the handler runs of the service with the clock readings of each
  run; whether a run fails does not stop the others.  Two transactions on one saga are serial,
  by the row lock both take.
\<close>

definition saga_history :: "env \<Rightarrow> ((int \<times> int) \<times> saga_op) list \<Rightarrow> ('d saga_db_scheme, wire, unit) go" where
  "saga_history E ops = for_each (\<lambda>(t, sop). bnd (at_clocks t)
     (\<lambda>_. bnd (attempt (saga_exec E sop)) (\<lambda>_. ret ()))) ops"

lemma saga_exec_trans:
  assumes "time_codec E" and "saga_inv E (w_uuids w) (w_db w)"
  shows "tx_wp (saga_exec E sop) (\<lambda>_. saga_trans E w) w w"
  using HandleRequest_trans[OF assms] HandleAck_trans[OF assms(2)] tx_wp_mono[OF RetryDue_trans[OF assms]]
  by (cases sop) (simp_all add: saga_exec_def)

text \<open>
  C1. Refinement: whatever request, acknowledgement or sweep the orchestrator runs, and
  whichever of its calls fail or lose their reply, the tables stay well-formed and every saga
  takes either no step or one step of its state machine; nothing is sent outside the database.
\<close>

theorem orchestrator_refines_saga:
  assumes "time_codec E" and "saga_inv E (w_uuids w) (w_db w)" and "saga_exec E sop w = (r, w')"
  shows "saga_inv E (w_uuids w') (w_db w') \<and> w_trace w' = w_trace w \<and>
    (\<forall>i. abs_saga (w_db w') i = abs_saga (w_db w) i \<or>
         saga_step (w_app_now w) (abs_saga (w_db w) i) (abs_saga (w_db w') i))"
proof -
  have out: "outside w w'" and cases: "w_db w' = w_db w \<or> saga_trans E w (w_db w') (w_uuids w')"
    using tx_wpD[OF assms(3) saga_exec_trans[OF assms(1,2)]] by auto
  from out have "w_uuids w \<le> w_uuids w'" and trace: "w_trace w' = w_trace w"
    by (simp_all add: outside_def)
  then have "saga_inv E (w_uuids w') (w_db w)"
    using assms(2) by (auto simp: saga_inv_def intro: uuids_fresh_mono)
  then have "saga_trans E w (w_db w') (w_uuids w')"
    using cases saga_trans_same by auto
  with trace show ?thesis by (simp add: saga_trans_def)
qed

text \<open>Any invariant that the steps of the handlers keep holds after a history.\<close>

lemma saga_history_induct:
  assumes "time_codec E" and "saga_inv E (w_uuids w) (w_db w)" and "I (map fst ops) w"
    and step: "\<And>t ts w w'. I (t # ts) w \<Longrightarrow> saga_inv E (w_uuids w') (w_db w') \<Longrightarrow>
      (\<forall>i. abs_saga (w_db w') i = abs_saga (w_db w) i \<or>
         saga_step (fst t) (abs_saga (w_db w) i) (abs_saga (w_db w') i)) \<Longrightarrow> I ts w'"
  shows "wp (saga_history E ops) (\<lambda>_ w'. saga_inv E (w_uuids w') (w_db w') \<and> I [] w') (\<lambda>_ _. False) w"
  unfolding saga_history_def
proof (rule wp_for_each[where I = "\<lambda>ops w. saga_inv E (w_uuids w) (w_db w) \<and> I (map fst ops) w"])
  fix x :: "(int \<times> int) \<times> saga_op" and xs and w :: "('a saga_db_scheme, wire) world"
  obtain t sop where x: "x = (t, sop)" by (cases x)
  assume w: "saga_inv E (w_uuids w) (w_db w) \<and> I (map fst (x # xs)) w"
  let ?w = "w\<lparr>w_app_now := fst t, w_pg_now := snd t\<rparr>"
  have "saga_inv E (w_uuids w') (w_db w') \<and> I (map fst xs) w'" if run: "saga_exec E sop ?w = (r, w')" for r w'
  proof -
    have inv: "saga_inv E (w_uuids ?w) (w_db ?w)" using w by simp
    have "saga_inv E (w_uuids w') (w_db w') \<and> (\<forall>i. abs_saga (w_db w') i = abs_saga (w_db w) i \<or>
         saga_step (fst t) (abs_saga (w_db w) i) (abs_saga (w_db w') i))"
      using orchestrator_refines_saga[OF assms(1) inv run] by simp
    with w step[of t "map fst xs" w w'] show ?thesis by (simp add: x)
  qed
  then have "wp (attempt (saga_exec E sop)) (\<lambda>_ w'. saga_inv E (w_uuids w') (w_db w') \<and> I (map fst xs) w')
      (\<lambda>_ _. False) ?w"
    by (cases "saga_exec E sop ?w") (simp add: wp_def attempt_def)
  then show "wp (case x of (t, sop) \<Rightarrow> bnd (at_clocks t) (\<lambda>_. bnd (attempt (saga_exec E sop)) (\<lambda>_. ret ())))
      (\<lambda>_ w. saga_inv E (w_uuids w) (w_db w) \<and> I (map fst xs) w) (\<lambda>_ _. False) w"
    by (simp add: x wp_bnd wp_at_clocks wp_ret)
qed (use assms(2,3) in auto)

lemma saga_history_run:
  assumes "time_codec E" and "saga_inv E (w_uuids w) (w_db w)" and "I (map fst ops) w"
    and "\<And>t ts w w'. I (t # ts) w \<Longrightarrow> saga_inv E (w_uuids w') (w_db w') \<Longrightarrow>
      (\<forall>i. abs_saga (w_db w') i = abs_saga (w_db w) i \<or>
         saga_step (fst t) (abs_saga (w_db w) i) (abs_saga (w_db w') i)) \<Longrightarrow> I ts w'"
    and "saga_history E ops w = (r, w')"
  shows "saga_inv E (w_uuids w') (w_db w') \<and> I [] w'"
proof -
  have "wp (saga_history E ops) (\<lambda>_ w'. saga_inv E (w_uuids w') (w_db w') \<and> I [] w') (\<lambda>_ _. False) w"
    by (rule saga_history_induct[where I = I, OF assms(1-3)]) (rule assms(4))
  with assms(5) show ?thesis by (cases r) (simp_all add: wp_def)
qed

text \<open>
  C13. One command per attempt: after any history of requests, acknowledgements and sweeps, with
  any failures, the outbox holds for each saga exactly as many commands as the saga has made
  attempts, none for a saga that is not in the table, and each carries the repository and the
  action of its saga.
\<close>

theorem one_command_per_attempt:
  assumes "time_codec E" and "saga_inv E (w_uuids w) (w_db w)" and "saga_history E ops w = (r, w')"
  shows "(\<forall>i. int (length (commands_for E i (outbox_events (w_db w')))) = attempts_of (w_db w') i) \<and>
    (\<forall>e \<in> set (outbox_events (w_db w')). \<forall>c. command_of E e = Some c \<longrightarrow>
       (\<exists>row \<in> set (saga_instances (w_db w')). sg_SagaID row = cp_SagaID c \<and>
          sg_Repo row = cp_Repo c \<and> sg_Action row = cp_Action c))"
proof -
  have "saga_inv E (w_uuids w') (w_db w') \<and> True"
    by (rule saga_history_run[where I = "\<lambda>_ _. True", OF assms(1,2) _ _ assms(3)]) simp_all
  then show ?thesis
    by (force simp: saga_inv_def commands_ok_def carries_def)
qed

text \<open>
  A saga that is completed or failed stays so, with the same number of attempts, whatever
  is handled afterwards: late acknowledgements, repeated requests and sweeps do not move it.
\<close>

theorem terminal_sagas_stay:
  assumes "time_codec E" and "saga_inv E (w_uuids w) (w_db w)" and "saga_history E ops w = (r, w')"
    and "abs_saga (w_db w) i \<in> {Finished a, GaveUp a}"
  shows "abs_saga (w_db w') i = abs_saga (w_db w) i \<and>
    length (commands_for E i (outbox_events (w_db w'))) = length (commands_for E i (outbox_events (w_db w)))"
proof -
  let ?s = "abs_saga (w_db w) i"
  have same: "saga_inv E (w_uuids w') (w_db w') \<and> abs_saga (w_db w') i = ?s"
  proof (rule saga_history_run[where I = "\<lambda>_ v. abs_saga (w_db v) i = ?s", OF assms(1,2) refl _ assms(3)])
    fix t :: "int \<times> int" and v v' :: "('a saga_db_scheme, wire) world"
    assume "abs_saga (w_db v) i = ?s"
      "\<forall>i. abs_saga (w_db v') i = abs_saga (w_db v) i \<or>
        saga_step (fst t) (abs_saga (w_db v) i) (abs_saga (w_db v') i)"
    with assms(4) show "abs_saga (w_db v') i = ?s" by (metis empty_iff insert_iff saga_step_finished saga_step_gaveup)
  qed
  have "attempts_of d i = a" if "abs_saga d i \<in> {Finished a, GaveUp a}" for d :: "'a saga_db_scheme"
    using that by (auto simp: abs_saga_def attempts_of_def abs_row_def split: option.splits if_splits)
  then have "attempts_of (w_db w') i = a" "attempts_of (w_db w) i = a"
    using same assms(4) by auto
  moreover have "commands_ok E (w_db w)" "commands_ok E (w_db w')"
    using same assms(2) by (simp_all add: saga_inv_def)
  ultimately show ?thesis
    using same by (simp add: commands_ok_def) (metis of_nat_eq_iff)
qed

section \<open>The number of attempts\<close>

lemma retryDelay_cases: "retryDelay n = (if n \<le> 1 then minute_ns else if n = 2 then 5 * minute_ns
    else if n = 3 then 15 * minute_ns else hour_ns)"
proof -
  consider "n \<le> 1" | "n = 2" | "n = 3" | "n \<ge> 4" by linarith
  then show ?thesis by cases (simp_all add: retryDelay_def retryDelays_def)
qed

text \<open>
  The delay before a retry lies between one minute and one hour and does not shrink as the
  attempts grow; the table of delays is never read out of its range.
\<close>

theorem retryDelay_bounds:
  "minute_ns \<le> retryDelay n \<and> retryDelay n \<le> hour_ns \<and> retryDelay (min n m) \<le> retryDelay (max n m) \<and>
   retryDelay n \<in> set retryDelays"
  by (auto simp: retryDelay_cases durations retryDelays_def)

text \<open>When a saga in flight was last moved, and how many attempts that leaves room for.\<close>

definition clocked :: "int \<Rightarrow> saga_abs \<Rightarrow> bool" where
  "clocked now s =
     (case s of
        Absent \<Rightarrow> True
      | InFlight a t dl \<Rightarrow> a \<le> 1440 \<and> dl - 24 * hour_ns + (a - 1) * minute_ns \<le> now \<and>
          dl - 24 * hour_ns + a * minute_ns \<le> t
      | Finished a \<Rightarrow> a \<le> 1440
      | GaveUp a \<Rightarrow> a \<le> 1440)"

lemma clocked_later: "clocked now s \<Longrightarrow> now \<le> now' \<Longrightarrow> clocked now' s"
  by (auto simp: clocked_def split: saga_abs.splits)

lemma clocked_step:
  assumes "clocked now s" and "saga_step now s s'"
  shows "clocked now s'"
  using assms(2,1)
proof cases
  case (resent t dl a)
  with assms(1) have "(a - 1) * minute_ns \<le> 24 * hour_ns - minute_ns + (t - dl)"
    and "a \<le> 1440" by (simp_all add: clocked_def algebra_simps)
  with resent have "a \<le> 1439" by (simp add: durations)
  moreover have "minute_ns \<le> retryDelay (a + 1)"
    by (simp add: retryDelay_cases durations)
  ultimately show ?thesis
    using resent assms(1) by (simp add: clocked_def algebra_simps)
qed (auto simp: clocked_def durations algebra_simps)

text \<open>
  C14. A saga makes at most 1440 attempts, one per minute of its deadline, so its scanner gets
  at most that many commands: from an empty table, over any history whose clock readings do
  not go back, with any failures.
\<close>

theorem saga_attempts_bounded:
  assumes "time_codec E" and "saga_inv E (w_uuids w) (w_db w)" and "saga_instances (w_db w) = []"
    and "sorted (map (\<lambda>x. fst (fst x)) ops)" and "saga_history E ops w = (r, w')"
  shows "attempts_of (w_db w') i \<le> 1440 \<and>
    length (commands_for E i (outbox_events (w_db w'))) \<le> 1440"
proof -
  define I where "I ts v = (sorted (map fst ts) \<and>
      (\<forall>i. abs_saga (w_db v) i = Absent \<or> (\<exists>now. clocked now (abs_saga (w_db v) i) \<and>
         (\<forall>t \<in> set ts. now \<le> fst t))))" for ts :: "(int \<times> int) list" and v :: "('a saga_db_scheme, wire) world"
  have start: "I (map fst ops) w"
    using assms(3,4) by (simp add: I_def abs_saga_def saga_of_def case_prod_beta comp_def)
  have step: "I ts v'" if I: "I (t # ts) v" and "\<forall>i. abs_saga (w_db v') i = abs_saga (w_db v) i \<or>
      saga_step (fst t) (abs_saga (w_db v) i) (abs_saga (w_db v') i)" for t ts v v'
  proof -
    have "abs_saga (w_db v') i = Absent \<or> (\<exists>now. clocked now (abs_saga (w_db v') i) \<and>
        (\<forall>t \<in> set ts. now \<le> fst t))" for i
    proof -
      have "clocked (fst t) (abs_saga (w_db v) i)"
        using I clocked_later by (force simp: I_def clocked_def)
      then have "clocked (fst t) (abs_saga (w_db v') i)"
        using that(2) clocked_step by metis
      moreover have "\<forall>s \<in> set ts. fst t \<le> fst s" using I by (simp add: I_def)
      ultimately show ?thesis by blast
    qed
    with I show ?thesis by (simp add: I_def)
  qed
  have "saga_inv E (w_uuids w') (w_db w') \<and> I [] w'"
    by (rule saga_history_run[where I = I, OF assms(1,2) start _ assms(5)]) (rule step)
  then have inv: "saga_inv E (w_uuids w') (w_db w')" and final: "I [] w'" by simp_all
  have "\<exists>now. clocked now (abs_saga (w_db w') i)"
  proof (cases "abs_saga (w_db w') i = Absent")
    case True
    then show ?thesis by (simp add: clocked_def)
  next
    case False
    with final show ?thesis unfolding I_def by blast
  qed
  then obtain now where "clocked now (abs_saga (w_db w') i)" ..
  then have "attempts_of (w_db w') i \<le> 1440"
    by (auto simp: clocked_def attempts_of_def abs_saga_def abs_row_def split: option.splits if_splits)
  moreover have "int (length (commands_for E i (outbox_events (w_db w')))) = attempts_of (w_db w') i"
    using inv by (simp add: saga_inv_def commands_ok_def)
  ultimately show ?thesis by linarith
qed


section \<open>Requests\<close>

definition valid_request :: "env \<Rightarrow> saga_payload envelope \<Rightarrow> bool" where
  "valid_request E event = (EventType event = EventRepoWatchSagaRequested \<and>
     validateAction (sp_Action (Payload event)) = Inr () \<and> uuid_parses E (sp_SagaID (Payload event)) \<and>
     sp_Repo (Payload event) \<noteq> '''')"

text \<open>The row and the event of a new saga.\<close>

definition started_row :: "saga_payload envelope \<Rightarrow> int \<Rightarrow> int \<Rightarrow> saga_row" where
  "started_row event now pg_now =
     (new_saga (sp_SagaID (Payload event)) (sp_Repo (Payload event)) (sp_Action (Payload event))
        (CorrelationID event) (now + minute_ns) (now + 24 * hour_ns))
     \<lparr>sg_CreatedAt := pg_now, sg_UpdatedAt := pg_now\<rparr>"

lemma calm_prepare:
  fixes w :: "('d outbox_db_scheme, wire) world"
  assumes "time_codec E" and "w_script w = []" and "w_tx w = Some \<lparr>tx_db = d, tx_aborted = False\<rparr>"
    and "uuids_fresh E (w_uuids w) (outbox_events d)" and "validateAction action = Inr ()"
    and "time_text E now \<noteq> None"
  shows "\<exists>e. prepareWatchCommand E sid action repo corr now w = (Inr (), w\<lparr>w_uuids := Suc (w_uuids w),
      w_tx := Some \<lparr>tx_db = d\<lparr>outbox_events := outbox_events d @ [e]\<rparr>, tx_aborted = False\<rparr>\<rparr>) \<and>
    command_of E e = Some \<lparr>cp_SagaID = sid, cp_Action = action, cp_Repo = repo\<rparr> \<and>
    ob_EventID e = uuid_gen E (w_uuids w) \<and> ob_KafkaKey e = repo \<and> ob_PublishedAt e = None \<and>
    (\<exists>c. decode_envelope E decode_command (ob_Payload e) = Inr c \<and> commandEventType action = Inr (EventType c))"
proof -
  obtain t where t: "commandEventType action = Inr t"
    using assms(5) by (cases "commandEventType action") (auto simp: validateAction_def)
  let ?c = "watch_command (uuid_gen E (w_uuids w)) t sid action repo corr now"
  obtain v where v: "encode_envelope E (\<lambda>p. Inr (encode_command p)) ?c = Inr v"
    using assms(6) by (auto simp: encode_envelope_def encode_not_before_def watch_command_def)
  define e where "e = new_event (uuid_gen E (w_uuids w)) (EventType ?c)
    (if now = zero_time then w_app_now w else now) (Source ?c) corr TopicWatchlistCommands repo (Some v)"
  have occurred: "OccurredAt ?c = now" by (simp add: watch_command_def)
  have add: "add_event e (outbox_events d) = outbox_events d @ [e]"
    by (rule fresh_event(1)[OF assms(4)]) (simp add: e_def)
  have "prepareWatchCommand E sid action repo corr now w = (Inr (), w\<lparr>w_uuids := Suc (w_uuids w),
      w_tx := Some \<lparr>tx_db = d\<lparr>outbox_events := outbox_events d @ [e]\<rparr>, tx_aborted = False\<rparr>\<rparr>)"
    unfolding add[symmetric] unfolding e_def using assms(2,3)
    by (simp add: prepareWatchCommand_def exec_simps t Let_def v InsertTx_def occurred
        sql_insert_outbox_apply)
  moreover have "command_of E e = Some \<lparr>cp_SagaID = sid, cp_Action = action, cp_Repo = repo\<rparr>"
    unfolding e_def by (rule command_of_watch_command[OF assms(1) v])
  moreover have "decode_envelope E decode_command (Some v) = Inr ?c" "commandEventType action = Inr (EventType ?c)"
    using envelope_round_trip[OF assms(1) command_codec v] t by (simp_all add: watch_command_def)
  ultimately show ?thesis
    by (intro exI[of _ e]) (simp add: e_def)
qed

lemma request_creates_saga:
  assumes "time_codec E" and "w_script w = []" and "valid_request E event"
    and "saga_of (w_db w) (sp_SagaID (Payload event)) = None"
    and "uuids_fresh E (w_uuids w) (outbox_events (w_db w))" and "time_text E (w_app_now w) \<noteq> None"
  shows "\<exists>e w'. HandleRequest E New event w = (Inr (), w') \<and>
    w_db w' = (w_db w)\<lparr>outbox_events := outbox_events (w_db w) @ [e],
       saga_instances := saga_instances (w_db w) @ [started_row event (w_app_now w) (w_pg_now w)]\<rparr> \<and>
    command_of E e = Some \<lparr>cp_SagaID = sp_SagaID (Payload event), cp_Action = sp_Action (Payload event),
       cp_Repo = sp_Repo (Payload event)\<rparr> \<and>
    ob_KafkaKey e = sp_Repo (Payload event) \<and> ob_PublishedAt e = None \<and> w_trace w' = w_trace w \<and>
    (\<exists>c. decode_envelope E decode_command (ob_Payload e) = Inr c \<and> commandEventType (sp_Action (Payload event)) = Inr (EventType c))"
proof -
  let ?d = "(w_db w)\<lparr>saga_instances := saga_instances (w_db w) @ [started_row event (w_app_now w) (w_pg_now w)]\<rparr>"
  let ?w1 = "w\<lparr>w_tx := Some \<lparr>tx_db = ?d, tx_aborted = False\<rparr>\<rparr>"
  have valid: "validateAction (sp_Action (Payload event)) = Inr ()"
    using assms(3) by (simp add: valid_request_def)
  have script: "w_script ?w1 = []" and staged: "w_tx ?w1 = Some \<lparr>tx_db = ?d, tx_aborted = False\<rparr>"
    and fresh: "uuids_fresh E (w_uuids ?w1) (outbox_events ?d)"
    using assms(2,5) by simp_all
  obtain e where prep: "prepareWatchCommand E (sp_SagaID (Payload event)) (sp_Action (Payload event))
      (sp_Repo (Payload event)) (CorrelationID event) (w_app_now w) ?w1
      = (Inr (), ?w1\<lparr>w_uuids := Suc (w_uuids w),
         w_tx := Some \<lparr>tx_db = ?d\<lparr>outbox_events := outbox_events ?d @ [e]\<rparr>, tx_aborted = False\<rparr>\<rparr>)"
    and e: "command_of E e = Some \<lparr>cp_SagaID = sp_SagaID (Payload event),
       cp_Action = sp_Action (Payload event), cp_Repo = sp_Repo (Payload event)\<rparr>"
      "ob_KafkaKey e = sp_Repo (Payload event)" "ob_PublishedAt e = None"
      "\<exists>c. decode_envelope E decode_command (ob_Payload e) = Inr c \<and>
         commandEventType (sp_Action (Payload event)) = Inr (EventType c)"
    using calm_prepare[OF assms(1) script staged fresh valid assms(6),
        of "sp_SagaID (Payload event)" "sp_Repo (Payload event)" "CorrelationID event"] by auto
  have new: "sp_SagaID (Payload event) \<notin> sg_SagaID ` set (saga_instances (w_db w))"
    using assms(4) by (simp add: saga_of_in)
  have insert: "sql_insert_saga (new_saga (sp_SagaID (Payload event)) (sp_Repo (Payload event))
      (sp_Action (Payload event)) (CorrelationID event) (w_app_now w + retryDelay 1)
      (w_app_now w + or_deadline New)) (w_db w) (w_pg_now w) = Inr (1, ?d)"
    using new by (simp add: sql_insert_saga_def started_row_def New_def DefaultDeadline_def)
      (simp add: new_saga_def)
  have "HandleRequest E New event w = (Inr (), w\<lparr>w_uuids := Suc (w_uuids w),
      w_db := ?d\<lparr>outbox_events := outbox_events (w_db w) @ [e]\<rparr>, w_tx := None\<rparr>)"
    using assms(2,3) insert prep
    by (simp add: HandleRequest_def valid_request_def exec_simps Let_def)
  with e show ?thesis by (intro exI[of _ e] exI) (auto simp: saga_db_swap)
qed

text \<open>
  A valid request for a new saga, when no call fails, creates exactly one row, in flight
  with one attempt, its retry due in a minute and its deadline in a day, and exactly one
  command event, addressed by the repository, in the same transaction.
\<close>

theorem request_starts_saga:
  assumes "time_codec E" and "w_script w = []" and "valid_request E event"
    and "saga_of (w_db w) (sp_SagaID (Payload event)) = None"
    and "uuids_fresh E (w_uuids w) (outbox_events (w_db w))" and "time_text E (w_app_now w) \<noteq> None"
  shows "\<exists>e w'. HandleRequest E New event w = (Inr (), w') \<and>
    w_db w' = (w_db w)\<lparr>outbox_events := outbox_events (w_db w) @ [e],
       saga_instances := saga_instances (w_db w) @ [started_row event (w_app_now w) (w_pg_now w)]\<rparr> \<and>
    command_of E e = Some \<lparr>cp_SagaID = sp_SagaID (Payload event), cp_Action = sp_Action (Payload event),
       cp_Repo = sp_Repo (Payload event)\<rparr> \<and>
    ob_KafkaKey e = sp_Repo (Payload event) \<and> ob_PublishedAt e = None \<and> w_trace w' = w_trace w"
  using request_creates_saga[OF assms] by blast

text \<open>
  Idempotence: a request for a saga that exists already leaves the database as it is,
  whatever its contents and whatever fails, so it prepares no second command; when nothing
  fails, a valid one is accepted.
\<close>

theorem request_is_idempotent:
  assumes "saga_of (w_db w) (sp_SagaID (Payload event)) \<noteq> None"
    and "HandleRequest E New event w = (r, w')"
  shows "w_db w' = w_db w \<and> w_trace w' = w_trace w \<and>
    (valid_request E event \<and> w_script w = [] \<longrightarrow> r = Inr ())"
proof -
  have old: "sp_SagaID (Payload event) \<in> sg_SagaID ` set (saga_instances (w_db w))"
    using assms(1) by (simp add: saga_of_in)
  have "wp (HandleRequest E New event) (\<lambda>_ w'. w_db w' = w_db w \<and> w_trace w' = w_trace w)
      (\<lambda>_ w'. w_db w' = w_db w \<and> w_trace w' = w_trace w) w"
    using old by (simp add: HandleRequest_def Let_def wp_simps sql_insert_saga_def new_saga_def
        split: call_outcome.splits sum.splits)
  from wp_bothD[OF assms(2) this] have "w_db w' = w_db w \<and> w_trace w' = w_trace w" .
  moreover have "r = Inr ()" if "valid_request E event" "w_script w = []"
    using assms(2) that old
    by (simp add: HandleRequest_def valid_request_def Let_def exec_simps sql_insert_saga_def new_saga_def)
  ultimately show ?thesis by blast
qed

text \<open>
  An invalid request, of another event type, with an unknown action, an unparsable saga id
  or no repository, is an error that makes no call at all.  Such an error is not
  classified as non-retryable.
\<close>

theorem invalid_request_rejected:
  assumes "\<not> valid_request E event"
  shows "\<exists>e. HandleRequest E New event w = (Inl e, w) \<and> \<not> errors_is e ErrNonRetryable"
  using assms
  by (cases "commandEventType (sp_Action (Payload event))")
    (auto simp: HandleRequest_def valid_request_def Let_def exec_simps validateAction_def
      commandEventType_def split: if_splits)


section \<open>Acknowledgements\<close>

text \<open>The acknowledgement names a saga of the table, its repository and its action.\<close>

definition ack_matches :: "'d saga_db_scheme \<Rightarrow> ack_payload envelope \<Rightarrow> saga_row \<Rightarrow> bool" where
  "ack_matches d event inst = (ap_SagaID (Payload event) \<noteq> '''' \<and>
     validateAction (ap_Action (Payload event)) = Inr () \<and>
     saga_of d (ap_SagaID (Payload event)) = Some inst \<and>
     sg_Repo inst = ap_Repo (Payload event) \<and> sg_Action inst = ap_Action (Payload event))"

definition success_ack :: "ack_payload envelope \<Rightarrow> bool" where
  "success_ack event = (repoWatchAckEventType (ap_Action (Payload event)) = Inr (EventType event))"

text \<open>
  An acknowledgement that names no saga of the table, or one with another repository or
  action, or whose event type is neither the failure nor the success of the saga's action, is an
  error and leaves the database as it is, whatever fails.
\<close>

theorem unexpected_ack_rejected:
  assumes "\<nexists>inst. ack_matches (w_db w) event inst \<and>
      (success_ack event \<or> EventType event = EventRepoWatchFailed)"
    and "HandleAck New event w = (r, w')"
  shows "(\<exists>e. r = Inl e) \<and> w_db w' = w_db w \<and> w_trace w' = w_trace w"
proof -
  have "wp (HandleAck New event) (\<lambda>_ _. False) (\<lambda>_ w'. w_db w' = w_db w \<and> w_trace w' = w_trace w) w"
  proof (cases "saga_of (w_db w) (ap_SagaID (Payload event))")
    case None
    then show ?thesis
      by (simp add: HandleAck_def Let_def wp_simps loadSagaInstanceForUpdate_def saga_of_def
          split: call_outcome.splits sum.splits)
  next
    case (Some inst)
    then have "lookup_row sg_SagaID (saga_instances (w_db w)) (ap_SagaID (Payload event)) = Some inst"
      by (simp add: saga_of_def)
    then show ?thesis
      using assms(1) Some
      by (auto simp: HandleAck_def Let_def wp_simps loadSagaInstanceForUpdate_def ack_matches_def
          handleSuccessAck_def success_ack_def split: call_outcome.splits sum.splits)
  qed
  with assms(2) show ?thesis by (cases r) (simp_all add: wp_def)
qed

text \<open>What an acknowledgement writes to the row of its saga.\<close>

definition acked_row :: "ack_payload envelope \<Rightarrow> int \<Rightarrow> int \<Rightarrow> saga_row \<Rightarrow> saga_row" where
  "acked_row event now pg =
     (if success_ack event
      then (\<lambda>x. x\<lparr>sg_Status := StatusCompleted, sg_LastError := None, sg_UpdatedAt := pg\<rparr>)
      else failed_row now (now + retryDelay 1)
        (if ap_Error (Payload event) = '''' then ''watch command failed'' else ap_Error (Payload event)) pg)"

lemma acked_row_keeps: "keeps_saga (acked_row event now pg)"
  by (simp add: acked_row_def keeps_saga_def failed_row_def)

lemma success_ack_type:
  "success_ack event \<Longrightarrow> EventType event = EventRepoWatchStarted \<or> EventType event = EventRepoWatchStopped"
  by (auto simp: success_ack_def repoWatchAckEventType_def split: if_splits)

lemma abs_acked_row:
  assumes "row_ok inst" and "\<not> terminal (sg_Status inst)" and "success_ack event \<or> EventType event = EventRepoWatchFailed"
  shows "abs_row (acked_row event now pg inst) =
    (if EventType event \<noteq> EventRepoWatchFailed then Finished (sg_Attempts inst)
     else if sg_DeadlineAt inst \<le> now then GaveUp (sg_Attempts inst)
     else InFlight (sg_Attempts inst) (now + minute_ns) (sg_DeadlineAt inst))"
  using assms(3) success_ack_type[of event] by (auto simp: acked_row_def abs_row_def failed_row_def)

lemma ack_matchesD:
  assumes "ack_matches d event inst"
  shows "ap_SagaID (Payload event) \<noteq> ''''" "validateAction (ap_Action (Payload event)) = Inr ()"
    "lookup_row sg_SagaID (saga_instances d) (ap_SagaID (Payload event)) = Some inst"
    "sg_Repo inst = ap_Repo (Payload event)" "sg_Action inst = ap_Action (Payload event)"
  using assms by (simp_all add: ack_matches_def saga_of_def)

lemma HandleAck_terminal:
  assumes "w_script w = []" and "ack_matches (w_db w) event inst" and "terminal (sg_Status inst)"
    and "success_ack event \<or> EventType event = EventRepoWatchFailed"
  shows "HandleAck New event w = (Inr (), w\<lparr>w_tx := None\<rparr>)"
  using assms(1,3,4) ack_matchesD[OF assms(2)] success_ack_type[of event]
  by (auto simp: HandleAck_def Let_def exec_simps loadSagaInstanceForUpdate_def handleSuccessAck_def
      handleFailedAck_def success_ack_def)

lemma HandleAck_active:
  assumes "w_script w = []" and "ack_matches (w_db w) event inst" and "\<not> terminal (sg_Status inst)"
    and "success_ack event \<or> EventType event = EventRepoWatchFailed" and "saga_rows_ok (w_db w)"
  shows "HandleAck New event w = (Inr (), w\<lparr>w_db := step_db [] (ap_SagaID (Payload event))
    (acked_row event (w_app_now w) (w_pg_now w)) (w_db w), w_tx := None\<rparr>)"
proof -
  let ?i = "ap_SagaID (Payload event)" and ?f = "\<lambda>pg. acked_row event (w_app_now w) pg"
  let ?p = "\<lambda>x. sg_SagaID x = ?i \<and> sg_Repo x = sg_Repo inst \<and> sg_Action x = sg_Action inst \<and>
    sg_Status x \<noteq> StatusCompleted \<and> sg_Status x \<noteq> StatusFailed"
  define n where "n = affected ?p (saga_instances (w_db w))"
  note m = ack_matchesD[OF assms(2)]
  have saga: "saga_of (w_db w) ?i = Some inst" using m(3) by (simp add: saga_of_def)
  have eq: "sql_update_saga ?p ?f (w_db w) (w_pg_now w) = Inr (n, (w_db w)\<lparr>saga_instances :=
      update_where ?p (?f (w_pg_now w)) (saga_instances (w_db w))\<rparr>)"
    by (simp add: sql_update_saga_def n_def)
  have "?p inst" using assms(3) saga_of_SomeD[OF saga] by (simp add: terminal_def)
  from sql_update_one[OF assms(5) saga this _ eq] eq
  have upd: "sql_update_saga ?p ?f (w_db w) (w_pg_now w) = Inr (n, step_db [] ?i (?f (w_pg_now w)) (w_db w))" "n \<noteq> 0"
    by simp_all
  show ?thesis
  proof (cases "success_ack event")
    case True
    then show ?thesis
      using assms(1,3) m success_ack_type[OF True] upd
      by (simp add: HandleAck_def Let_def exec_simps loadSagaInstanceForUpdate_def handleSuccessAck_def
          success_ack_def acked_row_def[abs_def] conj_ac)
  next
    case False
    then show ?thesis
      using assms(1,3,4) m upd
      by (simp add: HandleAck_def Let_def exec_simps loadSagaInstanceForUpdate_def handleFailedAck_def
          acked_row_def[abs_def] conj_ac)
  qed
qed

lemma ack_applied:
  assumes "saga_inv E (w_uuids w) (w_db w)" and "w_script w = []"
    and "ack_matches (w_db w) event inst"
    and "abs_saga (w_db w) (ap_SagaID (Payload event)) = s"
    and "success_ack event \<or> EventType event = EventRepoWatchFailed"
  shows "\<exists>w'. HandleAck New event w = (Inr (), w') \<and>
    abs_saga (w_db w') (ap_SagaID (Payload event)) =
      (case s of
         InFlight a t dl \<Rightarrow>
           (if EventType event \<noteq> EventRepoWatchFailed then Finished a
            else if dl \<le> w_app_now w then GaveUp a
            else InFlight a (w_app_now w + minute_ns) dl)
       | _ \<Rightarrow> s) \<and>
    (\<forall>j. j \<noteq> ap_SagaID (Payload event) \<longrightarrow> saga_of (w_db w') j = saga_of (w_db w) j) \<and>
    outbox_events (w_db w') = outbox_events (w_db w)"
proof -
  let ?i = "ap_SagaID (Payload event)"
  have saga: "saga_of (w_db w) ?i = Some inst" using assms(3) by (simp add: ack_matches_def)
  have ok: "row_ok inst" and rows: "saga_rows_ok (w_db w)"
    using saga_row_ok[OF assms(1) saga] assms(1) by (simp_all add: saga_inv_def)
  have s: "s = abs_row inst" using assms(4) saga by (simp add: abs_saga_def)
  show ?thesis
  proof (cases "terminal (sg_Status inst)")
    case True
    then show ?thesis
      using HandleAck_terminal[OF assms(2,3) True assms(5)] assms(4) s by (auto simp: abs_row_def terminal_def)
  next
    case False
    let ?f = "acked_row event (w_app_now w) (w_pg_now w)"
    obtain t where "s = InFlight (sg_Attempts inst) t (sg_DeadlineAt inst)"
      using abs_row_active[OF ok False] s by blast
    moreover have "outbox_events (step_db [] ?i ?f (w_db w)) = outbox_events (w_db w)" by (simp add: step_db_def)
    ultimately show ?thesis
      using HandleAck_active[OF assms(2,3) False assms(5) rows] abs_acked_row[OF ok False assms(5)]
      by (simp add: abs_saga_step_db[OF acked_row_keeps saga] saga_of_step_db[OF acked_row_keeps])
  qed
qed

text \<open>
  An acknowledgement that matches its saga is applied, when no call fails: a success
  completes a saga in flight, a failure schedules its next retry a minute later or, past the
  deadline, gives the saga up; a saga that is already completed or failed is left as it is, and
  so is every other saga.
\<close>

theorem ack_moves_its_saga:
  assumes "saga_inv E (w_uuids w) (w_db w)" and "w_script w = []"
    and "ack_matches (w_db w) event inst"
    and "abs_saga (w_db w) (ap_SagaID (Payload event)) = s"
    and "success_ack event \<or> EventType event = EventRepoWatchFailed"
  shows "\<exists>w'. HandleAck New event w = (Inr (), w') \<and>
    abs_saga (w_db w') (ap_SagaID (Payload event)) =
      (case s of
         InFlight a t dl \<Rightarrow>
           (if EventType event \<noteq> EventRepoWatchFailed then Finished a
            else if dl \<le> w_app_now w then GaveUp a
            else InFlight a (w_app_now w + minute_ns) dl)
       | _ \<Rightarrow> s) \<and>
    (\<forall>j. j \<noteq> ap_SagaID (Payload event) \<longrightarrow> saga_of (w_db w') j = saga_of (w_db w) j) \<and>
    outbox_events (w_db w') = outbox_events (w_db w)"
  by (rule ack_applied[OF assms])


section \<open>The sweep\<close>

lemma calm_retry_instance:
  fixes w :: "('d saga_db_scheme, wire) world"
  assumes "time_codec E" and "time_text E now \<noteq> None" and "row_ok x"
    and "w_script w = []" and "w_tx w = Some \<lparr>tx_db = d, tx_aborted = False\<rparr>"
    and "uuids_fresh E (w_uuids w) (outbox_events d)"
  shows "\<exists>w' d'. retry_instance E now x w = (Inr (), w') \<and> w_script w' = [] \<and>
    w_tx w' = Some \<lparr>tx_db = d', tx_aborted = False\<rparr> \<and> uuids_fresh E (w_uuids w') (outbox_events d')"
proof (cases "now < sg_DeadlineAt x")
  case False
  then show ?thesis
    using assms(4-6) by (simp add: retry_instance_def exec_simps sql_update_saga_def)
next
  case True
  have "validateAction (sg_Action x) = Inr ()"
    using assms(3) by (simp add: row_ok_def)
  from calm_prepare[OF assms(1,4,5,6) this assms(2), of "sg_SagaID x" "sg_Repo x" "sg_CorrelationID x"]
  obtain e where prep: "prepareWatchCommand E (sg_SagaID x) (sg_Action x) (sg_Repo x) (sg_CorrelationID x) now w
      = (Inr (), w\<lparr>w_uuids := Suc (w_uuids w),
           w_tx := Some \<lparr>tx_db = d\<lparr>outbox_events := outbox_events d @ [e]\<rparr>, tx_aborted = False\<rparr>\<rparr>)"
    and e: "ob_EventID e = uuid_gen E (w_uuids w)"
    by blast
  show ?thesis
    using True assms(4) fresh_event(2)[OF assms(6) e]
    by (simp add: retry_instance_def Let_def exec_simps prep sql_update_saga_def)
qed

lemma calm_retry_loop:
  fixes w :: "('d saga_db_scheme, wire) world"
  assumes "time_codec E" and "time_text E now \<noteq> None" and "\<forall>x \<in> set xs. row_ok x"
    and "w_script w = []" and "w_tx w = Some \<lparr>tx_db = d, tx_aborted = False\<rparr>"
    and "uuids_fresh E (w_uuids w) (outbox_events d)"
  shows "\<exists>w' d'. for_each (retry_instance E now) xs w = (Inr (), w') \<and> w_script w' = [] \<and>
    w_tx w' = Some \<lparr>tx_db = d', tx_aborted = False\<rparr>"
  using assms(3-6)
proof (induction xs arbitrary: w d)
  case Nil
  then show ?case by (simp add: exec_simps)
next
  case (Cons x xs)
  have "row_ok x" using Cons.prems(1) by simp
  from calm_retry_instance[OF assms(1,2) this Cons.prems(2-4)]
  obtain w1 d1 where w1: "retry_instance E now x w = (Inr (), w1)" "w_script w1 = []"
    "w_tx w1 = Some \<lparr>tx_db = d1, tx_aborted = False\<rparr>" "uuids_fresh E (w_uuids w1) (outbox_events d1)"
    by blast
  with Cons.IH[OF _ w1(2-4)] Cons.prems(1) show ?case by (simp add: exec_simps)
qed

text \<open>
  What a sweep that is committed has done: to the rows, and to the outbox, which gains exactly
  one command for each saga that is sent again.
\<close>

definition swept_to :: "env \<Rightarrow> ('d saga_db_scheme, wire) world \<Rightarrow> int \<Rightarrow> 'd saga_db_scheme \<Rightarrow> bool" where
  "swept_to E w limit d = ((\<forall>y \<in> set (swept E w limit). abs_saga d (sg_SagaID y) = retry_target (w_app_now w) y) \<and>
     (\<forall>i. i \<notin> sg_SagaID ` set (swept E w limit) \<longrightarrow> saga_of d i = saga_of (w_db w) i) \<and>
     (\<exists>es. outbox_events d = outbox_events (w_db w) @ es \<and>
        map (command_of E) es = map (\<lambda>y. Some (watch_command_for y))
          (filter (\<lambda>y. w_app_now w < sg_DeadlineAt y) (swept E w limit))))"

text \<open>
  C25. A sweep takes the due sagas in the order of their retry times, at most its limit of
  them: each one past its deadline is given up; each other one makes one more attempt, is
  rescheduled by the backoff of that attempt, and has its command put on the outbox again, with
  its own identifier, action and repository; no other saga is touched, and the outbox gains no
  other event.  It does all of it or nothing, the rows and the commands together, and all of it
  when it returns without an error, as it does when no call fails.
\<close>

theorem sweep_retries_due_sagas:
  assumes "time_codec E" and "saga_inv E (w_uuids w) (w_db w)" and "RetryDue E New limit w = (r, w')"
  shows "(w_db w' = w_db w \<or> swept_to E w limit (w_db w')) \<and>
    (r = Inr () \<longrightarrow> swept_to E w limit (w_db w')) \<and>
    (w_script w = [] \<and> time_text E (w_app_now w) \<noteq> None \<longrightarrow> r = Inr ()) \<and>
    sorted (map saga_order (swept E w limit)) \<and>
    length (swept E w limit) \<le> (if limit \<le> 0 then 50 else nat limit) \<and>
    (\<forall>y \<in> set (swept E w limit). saga_due E (w_app_now w) y)"
proof -
  let ?now = "w_app_now w" and ?n = "if limit \<le> 0 then DefaultRetryLimit else nat limit"
  have post: "w_db w' = w_db w \<or> sweep_done E w (swept E w limit) [] (w_db w')"
      "r = Inr () \<longrightarrow> sweep_done E w (swept E w limit) [] (w_db w')"
    using tx_wpD[OF assms(3) RetryDue_trans[OF assms(1,2)]] by auto
  have finished: "sweep_done E w (swept E w limit) [] d \<Longrightarrow> swept_to E w limit d" for d
    by (simp add: sweep_done_def swept_to_def sweep_sent_def)
  have calm: "r = Inr ()" if script: "w_script w = []" and enc: "time_text E ?now \<noteq> None"
  proof -
    let ?w = "w\<lparr>w_tx := Some \<lparr>tx_db = w_db w, tx_aborted = False\<rparr>\<rparr>"
    have "set (swept E w limit) \<subseteq> set (saga_instances (w_db w))"
      unfolding swept_def due_sagas_def using select_where_subset by fastforce
    then have "\<forall>x \<in> set (swept E w limit). row_ok x"
      using assms(2) by (auto simp: saga_inv_def saga_rows_ok_def)
    moreover have "uuids_fresh E (w_uuids ?w) (outbox_events (w_db w))"
      using assms(2) by (simp add: saga_inv_def)
    ultimately obtain w1 d where "for_each (retry_instance E ?now) (swept E w limit) ?w = (Inr (), w1)"
      "w_script w1 = []" "w_tx w1 = Some \<lparr>tx_db = d, tx_aborted = False\<rparr>"
      using calm_retry_loop[OF assms(1) enc, of "swept E w limit" ?w "w_db w"] script by auto
    moreover define n where "n = ?n"
    moreover have "sql_due_sagas E ?now n (w_db w) (w_pg_now w) = Inr (swept E w limit, w_db w)"
      unfolding sql_due_sagas_def swept_def n_def ..
    ultimately have "fst (RetryDue E New limit w) = Inr ()"
      unfolding RetryDue_def Let_def n_def[symmetric] using script by (simp add: exec_simps)
    with assms(3) show ?thesis by simp
  qed
  have "length (swept E w limit) \<le> ?n"
    by (simp only: swept_def due_sagas_def length_select_where min.cobounded1)
  moreover have "sorted (map saga_order (swept E w limit))"
    unfolding swept_def due_sagas_def by (rule sorted_select_where)
  moreover have "\<forall>y \<in> set (swept E w limit). saga_due E ?now y"
    unfolding swept_def due_sagas_def using select_whereD by fast
  ultimately show ?thesis
    using post finished calm by (auto simp: DefaultRetryLimit_def split: if_splits)
qed

end
