(* ===== verification/Saga_Consumers.thy ===== *)
theory Saga_Consumers
  imports Saga_Properties
begin

text \<open>
  The two consumers of \<open>cmd/saga-orchestrator/main.go\<close>: the contract of the consumer loop
  holds for the handlers of requests and of acknowledgements, so the offsets they commit are
  those of messages that the orchestrator has taken into its tables.
\<close>

section \<open>Requests\<close>

definition request_handled :: "env \<Rightarrow> wire \<Rightarrow> 'd saga_db_scheme \<Rightarrow> bool" where
  "request_handled E v d =
     (case decode_envelope E decode_saga v of
        Inl _ \<Rightarrow> False | Inr event \<Rightarrow> saga_of d (sp_SagaID (Payload event)) \<noteq> None)"

definition request_rejects :: "env \<Rightarrow> wire \<Rightarrow> bool" where
  "request_rejects E v = (case decode_envelope E decode_saga v of Inl _ \<Rightarrow> True | Inr _ \<Rightarrow> False)"

lemma tx_wp_prepare_any:
  assumes "staged w d u w1"
    and "\<And>evs u' w2. staged w (d\<lparr>outbox_events := evs\<rparr>) u' w2 \<Longrightarrow> tx_wp (f ()) P w w2"
  shows "tx_wp (bnd (prepareWatchCommand E sid action repo corr now) f) P w w1"
  unfolding prepareWatchCommand_def Let_def
  by (rule tx_wp_assoc, rule tx_wp_uuid[OF assms(1)], rule tx_wp_assoc, rule tx_wp_of_sum, assumption,
      rule tx_wp_assoc, rule tx_wp_of_sum_annot, assumption, rule tx_wp_new_event, assumption,
      rule assms(2))

definition saga_kept :: "string \<Rightarrow> 'd saga_db_scheme \<Rightarrow> 'd saga_db_scheme \<Rightarrow> bool" where
  "saga_kept i d d' = (saga_of d' i \<noteq> None \<and> (\<forall>j. saga_of d j \<noteq> None \<longrightarrow> saga_of d' j \<noteq> None))"

lemma HandleRequest_creates:
  "tx_wp (HandleRequest E orc event) (\<lambda>_ d _. saga_kept (sp_SagaID (Payload event)) (w_db w) d) w w"
proof -
  let ?i = "sp_SagaID (Payload event)" and ?P = "\<lambda>_ d _. saga_kept (sp_SagaID (Payload event)) (w_db w) d"
  have body: "tx_wp (bnd (annot g (tx_stmt (sql_insert_saga r))) (\<lambda>tag. if tag = 0 then commit_tx
      else bnd (prepareWatchCommand E ?i a repo corr now) (\<lambda>_. commit_tx))) ?P w w1"
    if w1: "staged w (w_db w) (w_uuids w) w1" and r: "sg_SagaID r = ?i" for g r a repo corr now w1
  proof (intro tx_wp_annot_bnd tx_wp_stmt[OF w1])
    fix tag d' w2
    assume q: "sql_insert_saga r (w_db w) (w_pg_now w) = Inr (tag, d')" and w2: "staged w d' (w_uuids w) w2"
    from q r have kept: "saga_kept ?i (w_db w) d'"
      by (auto simp: sql_insert_saga_def saga_kept_def saga_of_in saga_of_def lookup_row_append
          split: if_splits option.splits)
    then have "tx_wp commit_tx ?P w w2"
      by (rule tx_wp_commit[OF w2])
    moreover have "tx_wp (bnd (prepareWatchCommand E ?i a repo corr now) (\<lambda>_. commit_tx)) ?P w w2"
      by (rule tx_wp_prepare_any[OF w2], rule tx_wp_commit, assumption)
        (use kept in \<open>simp add: saga_kept_def saga_of_def\<close>)
    ultimately show "tx_wp (if tag = 0 then commit_tx
      else bnd (prepareWatchCommand E ?i a repo corr now) (\<lambda>_. commit_tx)) ?P w w2"
      by simp
  qed
  have "tx_wp (with_tx f (bnd app_clock (\<lambda>now. bnd (annot g (tx_stmt (sql_insert_saga (r now)))) (\<lambda>tag.
      if tag = 0 then commit_tx else bnd (prepareWatchCommand E ?i a repo corr now) (\<lambda>_. commit_tx))))) ?P w w"
    if "\<And>now. sg_SagaID (r now) = ?i" for f g r a repo corr
  proof (rule tx_wp_with_tx)
    fix w1 assume w1: "staged w (w_db w) (w_uuids w) w1"
    show "tx_wp (bnd app_clock (\<lambda>now. bnd (annot g (tx_stmt (sql_insert_saga (r now)))) (\<lambda>tag.
      if tag = 0 then commit_tx else bnd (prepareWatchCommand E ?i a repo corr now) (\<lambda>_. commit_tx)))) ?P w w1"
      by (rule tx_wp_clock[OF w1], rule body[OF w1 that])
  qed
  then show ?thesis
    unfolding HandleRequest_def Let_def
    by (auto intro!: tx_wp_raise_early tx_wp_of_sum_early simp: new_saga_def)
qed

lemma commandEventType_plain: "commandEventType a = Inl e \<Longrightarrow> \<not> errors_is e ErrNonRetryable"
  by (auto simp: commandEventType_def split: if_splits)

lemma validateAction_plain: "validateAction a = Inl e \<Longrightarrow> \<not> errors_is e ErrNonRetryable"
  using commandEventType_plain by (cases "commandEventType a") (auto simp: validateAction_def)

lemma avoids_prepare [avoids_rules]:
  "unclassified (prepareWatchCommand E sid action repo corr now)"
  unfolding prepareWatchCommand_def Let_def
  by (intro avoids_rules) (auto dest: commandEventType_plain encode_envelope_plain)

lemma avoids_HandleRequest: "unclassified (HandleRequest E orc event)"
  unfolding HandleRequest_def Let_def
  by (auto intro!: avoids_rules dest: validateAction_plain simp: sql_insert_saga_def split: if_splits)

interpretation request_loop: consumer_loop E "requestConsumer :: 'd saga_db_scheme consumer"
  "request_handler E New" "request_handled E" "request_rejects E" "\<lambda>_. True" for E
proof (rule consumer_loop.intro)
  fix w w' :: "('d saga_db_scheme, wire) world"
  show True ..
next
  fix pub :: "'d saga_db_scheme publisher"
  assume "co_deadLetterPublisher requestConsumer = Some pub"
  then show "message_publisher pub" by (simp add: requestConsumer_def newConsumer_def)
next
  fix w :: "('d saga_db_scheme, wire) world" and k v
  show "wp (request_handler E New k v) (\<lambda>_ w'. request_handled E v (w_db w'))
      (\<lambda>e _. errors_is e ErrNonRetryable \<longrightarrow> request_rejects E v) w"
  proof (cases "decode_envelope E decode_saga v")
    case (Inl e)
    then show ?thesis by (simp add: request_handler_def request_rejects_def wp_raise)
  next
    case (Inr event)
    have "wp (HandleRequest E New event) (\<lambda>_ w'. request_handled E v (w_db w') \<and> True)
        (\<lambda>e _. True \<and> \<not> errors_is e ErrNonRetryable) w"
      unfolding wp_conj
      by (intro conjI avoidsD avoids_HandleRequest tx_wp_wp[OF HandleRequest_creates])
        (simp_all add: request_handled_def Inr saga_kept_def)
    then show ?thesis
      using Inr by (simp add: request_handler_def) (erule wp_mono; simp)
  qed
next
  fix w :: "('d saga_db_scheme, wire) world" and k v
  show "wp (request_handler E New k v) (\<lambda>_. handler_step (\<lambda>_. True) (request_handled E) w)
      (\<lambda>_. handler_step (\<lambda>_. True) (request_handled E) w) w"
  proof (cases "decode_envelope E decode_saga v")
    case (Inl e)
    then show ?thesis by (simp add: request_handler_def wp_raise handler_step_def)
  next
    case (Inr event)
    have "handler_step (\<lambda>_. True) (request_handled E) w w'"
      if "outside w w'" "w_db w' = w_db w \<or> saga_kept i (w_db w) (w_db w')" for i w'
      using that by (auto simp: handler_step_def outside_def request_handled_def saga_kept_def split: sum.splits)
    then show ?thesis
      using Inr by (simp add: request_handler_def) (rule tx_wp_wp[OF HandleRequest_creates]; blast)
  qed
qed


section \<open>Acknowledgements\<close>

text \<open>
  An acknowledgement is handled when its saga is in the table with its repository and action
  and, for a success, is completed or failed.
\<close>

definition ack_applied :: "ack_payload envelope \<Rightarrow> 'd saga_db_scheme \<Rightarrow> bool" where
  "ack_applied event d =
     (case saga_of d (ap_SagaID (Payload event)) of
        None \<Rightarrow> False
      | Some r \<Rightarrow> sg_Repo r = ap_Repo (Payload event) \<and> sg_Action r = ap_Action (Payload event) \<and>
          (EventType event = EventRepoWatchFailed \<or> terminal (sg_Status r)))"

definition ack_handled :: "env \<Rightarrow> wire \<Rightarrow> 'd saga_db_scheme \<Rightarrow> bool" where
  "ack_handled E v d = (case decode_envelope E decode_ack v of Inl _ \<Rightarrow> False | Inr event \<Rightarrow> ack_applied event d)"

definition ack_rejects :: "env \<Rightarrow> wire \<Rightarrow> bool" where
  "ack_rejects E v = (case decode_envelope E decode_ack v of Inl _ \<Rightarrow> True | Inr _ \<Rightarrow> False)"

definition sagas_kept :: "'d saga_db_scheme \<Rightarrow> 'd saga_db_scheme \<Rightarrow> bool" where
  "sagas_kept d d' = (\<forall>j r. saga_of d j = Some r \<longrightarrow>
     (\<exists>r'. saga_of d' j = Some r' \<and> sg_Repo r' = sg_Repo r \<and> sg_Action r' = sg_Action r \<and>
        (terminal (sg_Status r) \<longrightarrow> terminal (sg_Status r'))))"

lemma sagas_kept_applied: "sagas_kept d d' \<Longrightarrow> ack_applied event d \<Longrightarrow> ack_applied event d'"
  by (fastforce simp: sagas_kept_def ack_applied_def split: option.splits)

lemma sagas_kept_update:
  assumes "keeps_saga f" and "\<And>r. p r \<Longrightarrow> \<not> terminal (sg_Status r)"
  shows "sagas_kept d (d\<lparr>saga_instances := update_where p f (saga_instances d)\<rparr>)"
  using assms lookup_row_update_where[of sg_SagaID f p]
  by (auto simp: sagas_kept_def saga_of_def keeps_saga_def)

lemma ack_update:
  assumes "staged w (w_db w) (w_uuids w) w1" and "saga_of (w_db w) (ap_SagaID (Payload event)) = Some r"
    and "p r" and "\<And>x. p x \<Longrightarrow> \<not> terminal (sg_Status x)" and "\<And>now. keeps_saga (f now)"
    and "\<And>now. EventType event = EventRepoWatchFailed \<or> terminal (sg_Status (f now r))"
    and "sg_Repo r = ap_Repo (Payload event)" and "sg_Action r = ap_Action (Payload event)"
  shows "tx_wp (bnd (annot g (tx_stmt (sql_update_saga p f))) (\<lambda>tag. if tag = 0 then raise e else commit_tx))
    (\<lambda>_ d _. ack_applied event d \<and> sagas_kept (w_db w) d) w w1"
proof (intro tx_wp_annot_bnd tx_wp_stmt[OF assms(1)])
  fix n d' w2
  assume q: "sql_update_saga p f (w_db w) (w_pg_now w) = Inr (n, d')" and w2: "staged w d' (w_uuids w) w2"
  from q have d': "d' = (w_db w)\<lparr>saga_instances := update_where p (f (w_pg_now w)) (saga_instances (w_db w))\<rparr>"
    by (simp add: sql_update_saga_def)
  have "saga_of d' (ap_SagaID (Payload event)) = Some (f (w_pg_now w) r)"
    using assms(2,3) lookup_row_update_where[of sg_SagaID "f (w_pg_now w)" p] assms(5)[of "w_pg_now w"]
    by (simp add: saga_of_def d' keeps_saga_def)
  moreover have "sg_Repo (f (w_pg_now w) r) = sg_Repo r" "sg_Action (f (w_pg_now w) r) = sg_Action r"
    using assms(5)[of "w_pg_now w"] by (simp_all add: keeps_saga_def)
  ultimately have "ack_applied event d'"
    using assms(6-8) by (simp add: ack_applied_def)
  moreover have "sagas_kept (w_db w) d'"
    unfolding d' by (rule sagas_kept_update[OF assms(5,4)])
  ultimately show "tx_wp (if n = 0 then raise e else commit_tx)
      (\<lambda>_ d _. ack_applied event d \<and> sagas_kept (w_db w) d) w w2"
    using w2 by (simp add: tx_wp_commit tx_wp_raise)
qed

lemma sagas_kept_refl: "sagas_kept d d"
  by (simp add: sagas_kept_def)

lemma handleSuccessAck_applies:
  assumes w1: "staged w (w_db w) (w_uuids w) w1" and r: "saga_of (w_db w) (ap_SagaID (Payload event)) = Some r"
    "sg_Repo r = ap_Repo (Payload event)" "sg_Action r = ap_Action (Payload event)"
  shows "tx_wp (handleSuccessAck event r) (\<lambda>_ d _. ack_applied event d \<and> sagas_kept (w_db w) d) w w1"
proof (cases "terminal (sg_Status r)")
  case True
  then have "tx_wp commit_tx (\<lambda>_ d _. ack_applied event d \<and> sagas_kept (w_db w) d) w w1"
    using r by (intro tx_wp_commit[OF w1]) (simp add: ack_applied_def sagas_kept_refl)
  then show ?thesis
    unfolding handleSuccessAck_def using True
    by (intro tx_wp_of_sum[OF w1]) (simp add: tx_wp_raise[OF w1])
next
  case False
  then show ?thesis
    unfolding handleSuccessAck_def using saga_of_SomeD[OF r(1)]
    by (intro tx_wp_of_sum[OF w1], simp only: if_False split: if_split)
      (intro conjI impI tx_wp_raise[OF w1] ack_update[OF w1 r(1)];
        simp add: r keeps_saga_def terminal_def)
qed

lemma handleFailedAck_applies:
  assumes w1: "staged w (w_db w) (w_uuids w) w1" and r: "saga_of (w_db w) (ap_SagaID (Payload event)) = Some r"
    "sg_Repo r = ap_Repo (Payload event)" "sg_Action r = ap_Action (Payload event)"
    and failed: "EventType event = EventRepoWatchFailed"
  shows "tx_wp (handleFailedAck event r) (\<lambda>_ d _. ack_applied event d \<and> sagas_kept (w_db w) d) w w1"
proof (cases "terminal (sg_Status r)")
  case True
  then have "tx_wp commit_tx (\<lambda>_ d _. ack_applied event d \<and> sagas_kept (w_db w) d) w w1"
    using r by (intro tx_wp_commit[OF w1]) (simp add: ack_applied_def sagas_kept_refl)
  then show ?thesis
    unfolding handleFailedAck_def Let_def using True by (intro tx_wp_clock[OF w1]) simp
next
  case False
  then show ?thesis
    unfolding handleFailedAck_def Let_def using saga_of_SomeD[OF r(1)] failed
    by (intro tx_wp_clock[OF w1], simp only: if_False)
      (intro ack_update[OF w1 r(1)]; simp add: r keeps_saga_def terminal_def failed_row_def)
qed

lemma HandleAck_applies:
  "tx_wp (HandleAck orc event) (\<lambda>_ d _. ack_applied event d \<and> sagas_kept (w_db w) d) w w"
proof -
  let ?i = "ap_SagaID (Payload event)" and ?P = "\<lambda>_ d _. ack_applied event d \<and> sagas_kept (w_db w) d"
  have row: "tx_wp (case row of None \<Rightarrow> raise e1 | Some r \<Rightarrow> if sg_Repo r \<noteq> ap_Repo (Payload event) \<or>
        sg_Action r \<noteq> ap_Action (Payload event) then raise e2
        else if b then handleSuccessAck event r
        else if EventType event = EventRepoWatchFailed then handleFailedAck event r else raise e3) ?P w w1"
    if "saga_of (w_db w) ?i = row" "staged w (w_db w) (w_uuids w) w1" for row w1 e1 e2 e3 b
    using that by (cases row) (simp_all add: tx_wp_raise handleSuccessAck_applies handleFailedAck_applies)
  have body: "tx_wp (bnd (of_sum (validateAction (ap_Action (Payload event)))) (\<lambda>_.
      with_tx g (bnd (annot h (loadSagaInstanceForUpdate ?i)) (\<lambda>row.
        case row of None \<Rightarrow> raise e1 | Some r \<Rightarrow> if sg_Repo r \<noteq> ap_Repo (Payload event) \<or>
          sg_Action r \<noteq> ap_Action (Payload event) then raise e2
        else if b then handleSuccessAck event r
        else if EventType event = EventRepoWatchFailed then handleFailedAck event r else raise e3)))) ?P w w"
    for g h e1 e2 e3 b
    unfolding loadSagaInstanceForUpdate_def
    by (intro tx_wp_of_sum_early tx_wp_with_tx tx_wp_annot_bnd tx_wp_stmt, assumption, rule row)
      (simp_all add: saga_of_def)
  show ?thesis
  proof (cases "?i = ''''")
    case True
    then show ?thesis by (simp add: HandleAck_def tx_wp_raise_early)
  next
    case False
    then show ?thesis unfolding HandleAck_def Let_def by (simp only: if_False body)
  qed
qed

lemma avoids_HandleAck: "unclassified (HandleAck orc event)"
proof -
  have ack_type: "repoWatchAckEventType a = Inl e \<Longrightarrow> \<not> errors_is e ErrNonRetryable" for a e
    by (auto simp: repoWatchAckEventType_def split: if_splits)
  have "unclassified (handleSuccessAck event r)" "unclassified (handleFailedAck event r)" for r
    unfolding handleSuccessAck_def handleFailedAck_def Let_def
    by (auto intro!: avoids_rules dest: ack_type simp: sql_update_saga_def)
  then show ?thesis
    unfolding HandleAck_def Let_def loadSagaInstanceForUpdate_def
    by (auto intro!: avoids_rules dest: validateAction_plain split: option.split)
qed

interpretation ack_loop: consumer_loop E "ackConsumer :: 'd saga_db_scheme consumer"
  "ack_handler E New" "ack_handled E" "ack_rejects E" "\<lambda>_. True" for E
proof (rule consumer_loop.intro)
  fix w w' :: "('d saga_db_scheme, wire) world"
  show True ..
next
  fix pub :: "'d saga_db_scheme publisher"
  assume "co_deadLetterPublisher ackConsumer = Some pub"
  then show "message_publisher pub" by (simp add: ackConsumer_def newConsumer_def)
next
  fix w :: "('d saga_db_scheme, wire) world" and k v
  show "wp (ack_handler E New k v) (\<lambda>_ w'. ack_handled E v (w_db w'))
      (\<lambda>e _. errors_is e ErrNonRetryable \<longrightarrow> ack_rejects E v) w"
  proof (cases "decode_envelope E decode_ack v")
    case (Inl e)
    then show ?thesis by (simp add: ack_handler_def ack_rejects_def wp_raise)
  next
    case (Inr event)
    have "wp (HandleAck New event) (\<lambda>_ w'. ack_handled E v (w_db w') \<and> True)
        (\<lambda>e _. True \<and> \<not> errors_is e ErrNonRetryable) w"
      unfolding wp_conj
      by (intro conjI avoidsD avoids_HandleAck tx_wp_wp[OF HandleAck_applies])
        (simp_all add: ack_handled_def Inr)
    then show ?thesis
      using Inr by (simp add: ack_handler_def) (erule wp_mono; simp)
  qed
next
  fix w :: "('d saga_db_scheme, wire) world" and k v
  show "wp (ack_handler E New k v) (\<lambda>_. handler_step (\<lambda>_. True) (ack_handled E) w)
      (\<lambda>_. handler_step (\<lambda>_. True) (ack_handled E) w) w"
  proof (cases "decode_envelope E decode_ack v")
    case (Inl e)
    then show ?thesis by (simp add: ack_handler_def wp_raise handler_step_def)
  next
    case (Inr event)
    have "handler_step (\<lambda>_. True) (ack_handled E) w w'"
      if "outside w w'" "w_db w' = w_db w \<or> sagas_kept (w_db w) (w_db w')" for w'
      using that sagas_kept_applied
      by (auto simp: handler_step_def outside_def ack_handled_def split: sum.splits)
    then show ?thesis
      using Inr by (simp add: ack_handler_def) (rule tx_wp_wp[OF HandleAck_applies]; blast)
  qed
qed


section \<open>What a committed offset means\<close>

lemma start_caught_up:
  "commits (w_trace w) = [] \<Longrightarrow> request_loop.caught_up E log w"
  "commits (w_trace w) = [] \<Longrightarrow> ack_loop.caught_up E log w"
  by (simp_all add: request_loop.caught_up_def ack_loop.caught_up_def)

text \<open>
  C15. No request is lost: over any sessions of the request consumer, with any failures,
  crashes and cancellations between them, the offsets it has committed are those of a prefix of
  the topic's log, in order, and each request of that prefix that decodes has its saga in the
  table.
\<close>

theorem committed_requests_have_sagas:
  assumes "commits (w_trace w) = []"
    and "sessions E requestConsumer (request_handler E New) log ss w = (r, w')"
  shows "let n = length (commits (w_trace w')) in
    commits (w_trace w') = map commit_of (take n log) \<and>
    (\<forall>m \<in> set (take n log). \<forall>event. decode_envelope E decode_saga (km_Value m) = Inr event \<longrightarrow>
       saga_of (w_db w') (sp_SagaID (Payload event)) \<noteq> None)"
proof -
  have "request_loop.caught_up E log w'"
    by (rule wp_bothD[OF assms(2) request_loop.sessions_caught_up[OF start_caught_up(1)[OF assms(1)]]])
  then show ?thesis
    unfolding request_loop.caught_up_def request_loop.settled_def Let_def
    by (fastforce simp: request_handled_def request_rejects_def)
qed

text \<open>
  No acknowledgement is lost: the offsets the acknowledgement consumer has committed are
  those of a prefix of the log, in order; each success of that prefix that decodes has its saga
  completed or failed, and each failure names a saga of the table.
\<close>

theorem committed_acks_are_applied:
  assumes "commits (w_trace w) = []"
    and "sessions E ackConsumer (ack_handler E New) log ss w = (r, w')"
  shows "let n = length (commits (w_trace w')) in
    commits (w_trace w') = map commit_of (take n log) \<and>
    (\<forall>m \<in> set (take n log). \<forall>event. decode_envelope E decode_ack (km_Value m) = Inr event \<longrightarrow>
       (\<exists>row. saga_of (w_db w') (ap_SagaID (Payload event)) = Some row \<and>
          sg_Repo row = ap_Repo (Payload event) \<and> sg_Action row = ap_Action (Payload event) \<and>
          (EventType event = EventRepoWatchFailed \<or> sg_Status row \<in> {StatusCompleted, StatusFailed})))"
proof -
  have "ack_loop.caught_up E log w'"
    by (rule wp_bothD[OF assms(2) ack_loop.sessions_caught_up[OF start_caught_up(2)[OF assms(1)]]])
  moreover have "\<exists>row. saga_of d (ap_SagaID (Payload event)) = Some row \<and>
      sg_Repo row = ap_Repo (Payload event) \<and> sg_Action row = ap_Action (Payload event) \<and>
      (EventType event = EventRepoWatchFailed \<or> sg_Status row \<in> {StatusCompleted, StatusFailed})"
    if "ack_applied event d" for event and d :: "'a saga_db_scheme"
    using that by (auto simp: ack_applied_def terminal_def split: option.splits)
  ultimately show ?thesis
    unfolding ack_loop.caught_up_def ack_loop.settled_def Let_def
    by (fastforce simp: ack_handled_def ack_rejects_def)
qed

end
