(* ===== verification/Scanner_Results.thy ===== *)
theory Scanner_Results
  imports Scanner_Properties Saga_Consumers
begin

text \<open>
  What the scanner guarantees: each release is announced once, a claim is a lease, a command is
  applied with its acknowledgement or not at all, and the consumer of the commands loses none.
\<close>

section \<open>Releases\<close>

text \<open>
  C20. Each release is announced exactly once: over any history of scans and commands, whatever
  fails and whatever Redis and GitHub answer, the outbox holds one release event for each
  release in \<open>scanner_releases\<close> and none for any other, and no release is forgotten.
\<close>

theorem releases_announced_once:
  assumes "time_codec E" and "uuids_fresh E (w_uuids w) (outbox_events (w_db w))"
    and "distinct (announced_releases E (w_db w))"
    and "set (announced_releases E (w_db w)) = detected_releases (w_db w)"
    and "scanner_history E (scanner_process E entries server baseURL n t) ops w = (r, w')"
  shows "distinct (announced_releases E (w_db w')) \<and>
    set (announced_releases E (w_db w')) = detected_releases (w_db w') \<and>
    detected_releases (w_db w) \<subseteq> detected_releases (w_db w')"
proof -
  let ?R = "detected_releases (w_db w)"
  have "scan_log.log_ok E ?R w"
    using assms(1-4) by (simp add: scan_log.log_ok_def scanner_ok_def)
  then have "wp (scanner_history E (scanner_process E entries server baseURL n t) ops)
      (\<lambda>_. scan_log.log_ok E ?R) (\<lambda>_. scan_log.log_ok E ?R) w"
    by (rule scan_log.history_log) (simp_all add: scanner_process_def NewService_def)
  from wp_bothD[OF assms(5) this] show ?thesis
    by (simp add: scan_log.log_ok_def)
qed

section \<open>Claims\<close>

text \<open>
  A claim leases its repositories: until the scan interval has passed on the database's
  clock, and unless a command reschedules them, no other claim, of this scanner or of another
  one, returns any of them; and a claim returns at most its limit, only repositories that were
  due.
\<close>

definition schedule :: "'d scanner_db_scheme \<Rightarrow> (string \<times> int) set" where
  "schedule d = (\<lambda>r. (wr_Repo r, wr_NextScanAt r)) ` set (watchlist d)"

theorem claims_are_leases:
  assumes "ClaimDue E n t w = (Inr repos, w1)"
    and "schedule (w_db w2) \<subseteq> schedule (w_db w1)" and "w_pg_now w2 < w_pg_now w + durationInterval t"
    and "ClaimDue E2 m t2 w2 = (Inr repos2, w3)"
  shows "wd_Repo ` set repos \<inter> wd_Repo ` set repos2 = {} \<and> length repos \<le> n \<and>
    (\<forall>x \<in> set repos. \<exists>row \<in> set (watchlist (w_db w)). wr_Repo row = wd_Repo x \<and>
       wr_LastSeenTag row = wd_LastSeenTag x \<and> wr_NextScanAt row \<le> w_pg_now w)"
proof -
  let ?now = "w_pg_now w" and ?rows = "watchlist (w_db w)"
  have c1: "claim_done E n t w repos (w_db w1) (w_uuids w1)"
    using tx_wpD[OF assms(1) ClaimDue_tx] by blast
  have c2: "claim_done E2 m t2 w2 repos2 (w_db w3) (w_uuids w3)"
    using tx_wpD[OF assms(4) ClaimDue_tx] by blast
  have repos: "repos = due_repos E n ?now ?rows" and rows: "watchlist (w_db w1) = claimed_rows repos t ?now ?rows"
    using c1 by (simp_all add: claim_done_def)
  have apart: "wd_Repo x \<notin> wd_Repo ` set repos" if "x \<in> set repos2" for x
  proof
    assume claimed: "wd_Repo x \<in> wd_Repo ` set repos"
    from that c2 obtain row2 where row2: "row2 \<in> set (watchlist (w_db w2))" "watch_due E2 (w_pg_now w2) row2"
      "wr_Repo row2 = wd_Repo x"
      by (auto simp: claim_done_def due_repos_def dest: select_whereD)
    then obtain row where row: "row \<in> set (watchlist (w_db w1))" "wr_NextScanAt row = wr_NextScanAt row2"
      "wr_Repo row = wd_Repo x"
      using assms(2) by (force simp: schedule_def)
    then have "wr_NextScanAt row = ?now + durationInterval t"
      using claimed rows by (auto simp: claimed_rows_def set_update_where reserve_row_def split: if_splits)
    with row(2) row2(2) assms(3) show False by (simp add: watch_due_def)
  qed
  have "wd_Repo ` set repos \<inter> wd_Repo ` set repos2 = {}"
    by (auto dest: apart) (metis apart imageI)
  moreover have "length repos \<le> n"
    by (simp add: repos due_repos_def length_select_where)
  moreover have "\<forall>x \<in> set repos. \<exists>row \<in> set ?rows. wr_Repo row = wd_Repo x \<and>
       wr_LastSeenTag row = wd_LastSeenTag x \<and> wr_NextScanAt row \<le> ?now"
    by (auto simp: repos due_repos_def watch_due_def dest!: select_whereD)
  ultimately show ?thesis by blast
qed

section \<open>Commands\<close>

definition watched :: "'d scanner_db_scheme \<Rightarrow> string set" where
  "watched d = wr_Repo ` set (watchlist d)"

lemma watched_after:
  "wr_Repo ` set (watch_after p now rows) =
     (if cp_Action p = RepoWatchActionStart then insert (cp_Repo p) (wr_Repo ` set rows)
      else if cp_Action p = RepoWatchActionStop then wr_Repo ` set rows - {cp_Repo p}
      else wr_Repo ` set rows)"
proof -
  have "wr_Repo ` set (update_where (\<lambda>r. wr_Repo r = cp_Repo p) (start_row now) rows) = wr_Repo ` set rows"
    by (induction rows) (auto simp: start_row_def)
  moreover have "wr_Repo ` set (delete_where (\<lambda>r. wr_Repo r = cp_Repo p) rows) = wr_Repo ` set rows - {cp_Repo p}"
    by (auto simp: set_delete_where)
  ultimately show ?thesis
    by (auto simp: watch_after_def add_watch_def)
qed

lemma check_command_None:
  "check_command event = None \<Longrightarrow>
   commandEventType (cp_Action (Payload event)) = Inr (EventType event) \<and>
   cp_SagaID (Payload event) \<noteq> '''' \<and> cp_Repo (Payload event) \<noteq> ''''"
  by (auto simp: check_command_def Let_def commandEventType_def split: if_splits)

lemma check_command_Some:
  "check_command event = Some e \<Longrightarrow> errors_is e ErrNonRetryable"
  by (auto simp: check_command_def Let_def split: if_splits)

lemma check_command_supported: "check_command event = None \<Longrightarrow> supported (cp_Action (Payload event))"
  using check_command_None[of event] by (auto simp: supported_def commandEventType_def split: if_splits)

text \<open>The database after a command that has been applied, as the orchestrator expects it.\<close>

definition command_applied ::
    "env \<Rightarrow> command_payload \<Rightarrow> 'd scanner_db_scheme \<Rightarrow> 'd scanner_db_scheme \<Rightarrow> bool" where
  "command_applied E p d d' =
     (watched d' = (if cp_Action p = RepoWatchActionStart then insert (cp_Repo p) (watched d)
                    else watched d - {cp_Repo p}) \<and>
      releases d' = releases d \<and>
      (\<exists>e ty. outbox_events d' = outbox_events d @ [e] \<and> ob_KafkaKey e = cp_Repo p \<and>
         repoWatchAckEventType (cp_Action p) = Inr ty \<and>
         ack_of E e = Some (ty, \<lparr>ap_SagaID = cp_SagaID p, ap_Action = cp_Action p,
           ap_Repo = cp_Repo p, ap_Error = ''''\<rparr>)))"

lemma watch_applied_command:
  assumes "watch_applied E w p d" and "supported (cp_Action p)"
  shows "command_applied E p (w_db w) d"
proof -
  obtain ty where ty: "repoWatchAckEventType (cp_Action p) = Inr ty" "ack_type_and_error (cp_Action p) None = (ty, '''')"
    using assms(2) by (auto simp: supported_def repoWatchAckEventType_def ack_type_and_error_def)
  show ?thesis
    using assms ty by (auto simp: watch_applied_def command_applied_def watched_def watched_after ack_for_def supported_def)
qed

lemma calm_ack:
  assumes "w_script w = []" and "w_tx w = Some \<lparr>tx_db = d, tx_aborted = False\<rparr>"
    and "time_text E (w_app_now w) \<noteq> None"
  shows "\<exists>w' d'. insertWatchAckTx E p c cause w = (Inr (), w') \<and> w_script w' = [] \<and>
    w_tx w' = Some \<lparr>tx_db = d', tx_aborted = False\<rparr>"
proof -
  let ?ev = "buildRepoWatchAckEvent p (uuid_gen E (w_uuids w)) c (w_app_now w) cause"
  have "OccurredAt ?ev = w_app_now w" "NotBefore ?ev = None"
    by (simp_all add: buildRepoWatchAckEvent_def case_prod_beta)
  with assms(3) obtain v where "encode_envelope E (\<lambda>a. Inr (encode_ack a)) ?ev = Inr v"
    by (auto simp: encode_envelope_def encode_not_before_def)
  with assms(1,2) show ?thesis
    by (simp add: insertWatchAckTx_def exec_simps Let_def InsertTx_def sql_insert_outbox_def)
qed

lemma calm_ApplyWatchCommand:
  assumes "w_script w = []" and "supported (cp_Action p)" and "time_text E (w_app_now w) \<noteq> None"
  shows "fst (ApplyWatchCommand E p c w) = Inr ()"
proof -
  define d where "d = (w_db w)\<lparr>watchlist := watch_after p (w_pg_now w) (watchlist (w_db w))\<rparr>"
  let ?w = "w\<lparr>w_tx := Some \<lparr>tx_db = d, tx_aborted = False\<rparr>\<rparr>"
  have "\<exists>w' d'. insertWatchAckTx E p c None ?w = (Inr (), w') \<and> w_script w' = [] \<and>
      w_tx w' = Some \<lparr>tx_db = d', tx_aborted = False\<rparr>"
    by (rule calm_ack) (use assms in simp_all)
  moreover have "watch_operation p (w\<lparr>w_tx := Some \<lparr>tx_db = w_db w, tx_aborted = False\<rparr>\<rparr>) = (Inr (), ?w)"
    using assms(1,2) unfolding d_def
    by (auto simp: watch_operation_def startWatchingTx_def stopWatchingTx_def exec_simps supported_def
        sql_start_watching_def sql_stop_watching_def watch_after_def)
  ultimately show ?thesis
    using assms(1) by (auto simp: ApplyWatchCommand_def exec_simps)
qed

text \<open>
  C24. A valid command is applied with its acknowledgement, in one transaction: a start adds the
  repository to the watchlist, a stop removes it, and the outbox gets exactly one
  acknowledgement, of the type the orchestrator expects for that action and for that saga; all
  of it or nothing, whatever fails, all of it when the handler returns without an error, as it
  does when no call fails.  An acknowledgement of failure is never sent.
\<close>

theorem watch_command_applied:
  assumes "time_codec E" and "uuids_fresh E (w_uuids w) (outbox_events (w_db w))"
    and "decode_envelope E decode_command v = Inr event" and "check_command event = None"
    and "HandleWatchlistCommand E (scanner_process E entries server baseURL n t) v w = (r, w')"
  shows "(w_db w' = w_db w \<or> command_applied E (Payload event) (w_db w) (w_db w')) \<and>
    (r = Inr () \<longrightarrow> command_applied E (Payload event) (w_db w) (w_db w')) \<and>
    (w_script w = [] \<and> time_text E (w_app_now w) \<noteq> None \<longrightarrow> r = Inr ())"
proof -
  have run: "ApplyWatchCommand E (Payload event) (CorrelationID event) w = (r, w')"
    using assms(3-5) by (simp add: HandleWatchlistCommand_def scanner_process_def NewService_def scanner_repository_def)
  have "scanner_ok E w" using assms(1,2) by (simp add: scanner_ok_def)
  note post = tx_wpD[OF run ApplyWatchCommand_tx[OF this]]
  have "command_applied E (Payload event) (w_db w) (w_db w')" if "watch_applied E w (Payload event) (w_db w')"
    using watch_applied_command[OF that] check_command_supported[OF assms(4)] .
  moreover have "w_script w = [] \<and> time_text E (w_app_now w) \<noteq> None \<longrightarrow> r = Inr ()"
    using calm_ApplyWatchCommand[of w "Payload event" E "CorrelationID event"] run
      check_command_supported[OF assms(4)] by auto
  ultimately show ?thesis using post by blast
qed

section \<open>Which commands are skipped\<close>

lemma avoids_ApplyWatchCommand: "unclassified (ApplyWatchCommand E p c)"
proof -
  have ack: "unclassified (insertWatchAckTx E p c cause)" for cause
    unfolding insertWatchAckTx_def Let_def
    by (auto intro!: avoids_rules dest: encode_envelope_plain)
  have body: "unclassified (bnd (attempt m) f)"
    if "unclassified m" "unclassified (f (Inr ()))" "\<And>e. \<not> errors_is e ErrNonRetryable \<Longrightarrow> unclassified (f (Inl e))"
    for m :: "('a scanner_db_scheme, wire, unit) go" and f :: "goerr + unit \<Rightarrow> ('a scanner_db_scheme, wire, unit) go"
    unfolding avoids_def wp_bnd wp_attempt
    using that by (auto simp: avoids_def intro: wp_mono[OF avoidsD[OF that(1)]])
  have wrapped: "unclassified (annot (\<lambda>e'. Wrapf ps [e, e']) m)"
    if "unclassified m" "\<not> errors_is e ErrNonRetryable" for ps e and m :: "('a scanner_db_scheme, wire, unit) go"
    using that by (simp add: avoids_def wp_annot)
  have "unclassified (watch_operation p)"
    unfolding watch_operation_def startWatchingTx_def stopWatchingTx_def
    by (auto intro!: avoids_rules simp: sql_start_watching_def sql_stop_watching_def unsupported_action_def)
  then show ?thesis
    unfolding ApplyWatchCommand_def
    by (intro avoids_with_tx body) (auto intro!: avoids_rules ack wrapped)
qed

text \<open>
  The consumer skips exactly the invalid commands: the handler's error is non-retryable if
  and only if the message does not decode, or its event type, its action, its saga id or its
  repository is not valid; such a message makes no call, and leaves the world as it is.
\<close>

theorem skipped_commands_are_invalid:
  assumes "HandleWatchlistCommand E (scanner_process E entries server baseURL n t) v w = (r, w')"
  shows "(\<exists>e. r = Inl e \<and> errors_is e ErrNonRetryable) =
      (\<forall>event. decode_envelope E decode_command v = Inr event \<longrightarrow>
         commandEventType (cp_Action (Payload event)) \<noteq> Inr (EventType event) \<or>
         cp_SagaID (Payload event) = '''' \<or> cp_Repo (Payload event) = '''') \<and>
    ((\<exists>e. r = Inl e \<and> errors_is e ErrNonRetryable) \<longrightarrow> w' = w)"
proof (cases "decode_envelope E decode_command v")
  case (Inl e)
  with assms show ?thesis by (auto simp: HandleWatchlistCommand_def exec_simps)
next
  case (Inr event)
  show ?thesis
  proof (cases "check_command event")
    case None
    have "ApplyWatchCommand E (Payload event) (CorrelationID event) w = (r, w')"
      using assms None Inr
      by (simp add: HandleWatchlistCommand_def scanner_process_def NewService_def scanner_repository_def)
    then have "\<not> (\<exists>e. r = Inl e \<and> errors_is e ErrNonRetryable)"
      using avoidsD[OF avoids_ApplyWatchCommand, of E "Payload event" "CorrelationID event" w]
      by (auto simp: wp_def)
    with check_command_None[OF None] Inr show ?thesis by auto
  next
    case (Some e)
    then have "commandEventType (cp_Action (Payload event)) \<noteq> Inr (EventType event) \<or>
         cp_SagaID (Payload event) = '''' \<or> cp_Repo (Payload event) = ''''"
      by (auto simp: check_command_def Let_def commandEventType_def split: if_splits)
    with assms Some Inr check_command_Some[OF Some] show ?thesis
      by (auto simp: HandleWatchlistCommand_def exec_simps)
  qed
qed

end
