(* ===== verification/Scanner_Consumer.thy ===== *)
theory Scanner_Consumer
  imports Scanner_Results
begin

text \<open>
  The consumer of the watchlist commands in \<open>scanner-service/main.go\<close>: the contract of the
  consumer loop holds for the service's handler and the dead-letter topic, so a committed
  command is acknowledged in the outbox or stands in the dead-letter topic.
\<close>

text \<open>The acknowledgement of success of a command stands in the outbox.\<close>

definition acked :: "env \<Rightarrow> command_payload \<Rightarrow> 'd scanner_db_scheme \<Rightarrow> bool" where
  "acked E p d = (\<exists>e \<in> set (outbox_events d). \<exists>ty. repoWatchAckEventType (cp_Action p) = Inr ty \<and>
     ack_of E e = Some (ty, \<lparr>ap_SagaID = cp_SagaID p, ap_Action = cp_Action p,
       ap_Repo = cp_Repo p, ap_Error = ''''\<rparr>))"

definition valid_command :: "command_payload envelope \<Rightarrow> bool" where
  "valid_command event = (commandEventType (cp_Action (Payload event)) = Inr (EventType event) \<and>
     cp_SagaID (Payload event) \<noteq> '''' \<and> cp_Repo (Payload event) \<noteq> '''')"

definition command_handled :: "env \<Rightarrow> wire \<Rightarrow> 'd scanner_db_scheme \<Rightarrow> bool" where
  "command_handled E v d =
     (case decode_envelope E decode_command v of
        Inl _ \<Rightarrow> False | Inr event \<Rightarrow> valid_command event \<and> acked E (Payload event) d)"

definition command_rejects :: "env \<Rightarrow> wire \<Rightarrow> bool" where
  "command_rejects E v =
     (case decode_envelope E decode_command v of Inl _ \<Rightarrow> True | Inr event \<Rightarrow> \<not> valid_command event)"

lemma check_command_iff: "check_command event = None \<longleftrightarrow> valid_command event"
  by (auto simp: valid_command_def check_command_def Let_def commandEventType_def split: if_splits)

lemma acked_append: "acked E p d \<Longrightarrow> outbox_events d' = outbox_events d @ es \<Longrightarrow> acked E p d'"
  by (auto simp: acked_def)

lemma command_handled_append:
  "command_handled E v d \<Longrightarrow> outbox_events d' = outbox_events d @ es \<Longrightarrow> command_handled E v d'"
  using acked_append by (auto simp: command_handled_def split: sum.splits)

lemma command_applied_acked:
  assumes "command_applied E p d d'" shows "acked E p d' \<and> (\<exists>es. outbox_events d' = outbox_events d @ es)"
  using assms unfolding command_applied_def acked_def by (metis in_set_conv_decomp)

lemma handle_valid_command:
  assumes "decode_envelope E decode_command v = Inr event" and "valid_command event"
  shows "HandleWatchlistCommand E (scanner_process E entries server baseURL n t) v
    = ApplyWatchCommand E (Payload event) (CorrelationID event)"
  using assms by (simp add: HandleWatchlistCommand_def scanner_process_def NewService_def
      scanner_repository_def check_command_iff[symmetric])

lemma handle_invalid_command:
  assumes "command_rejects E v"
  shows "\<exists>e. HandleWatchlistCommand E s v = raise e \<and> errors_is e ErrNonRetryable"
proof (cases "decode_envelope E decode_command v")
  case (Inl e)
  then show ?thesis by (auto simp: HandleWatchlistCommand_def)
next
  case (Inr event)
  with assms obtain e where "check_command event = Some e"
    by (auto simp: command_rejects_def check_command_iff[symmetric])
  with Inr check_command_Some show ?thesis by (auto simp: HandleWatchlistCommand_def)
qed

interpretation command_loop: consumer_loop E "watchlistConsumer :: 'd scanner_db_scheme consumer"
  "command_handler E (scanner_process E entries server baseURL n t)" "command_handled E" "command_rejects E"
  "scanner_ok E" for E entries server baseURL n t
proof (rule consumer_loop.intro)
  fix w w' :: "('d scanner_db_scheme, wire) world"
  assume "scanner_ok E w" "w_db w' = w_db w" "w_uuids w \<le> w_uuids w'"
  then show "scanner_ok E w'" by (auto simp: scanner_ok_def intro: uuids_fresh_mono)
next
  fix pub :: "'d scanner_db_scheme publisher"
  assume "co_deadLetterPublisher watchlistConsumer = Some pub"
  then show "message_publisher pub"
    using producer.message_publisher_axioms by (simp add: watchlistConsumer_def WithDeadLetter_def newConsumer_def)
next
  fix w :: "('d scanner_db_scheme, wire) world" and k v
  assume ok: "scanner_ok E w"
  let ?handler = "command_handler E (scanner_process E entries server baseURL n t) k v"
  have quiet: "handler_step (scanner_ok E) (command_handled E) w w" using ok by (simp add: handler_step_def)
  have applied: "acked E p (w_db w') \<and> handler_step (scanner_ok E) (command_handled E) w w'"
    if "outside w w'" "watch_applied E w p (w_db w') \<and> uuids_fresh E (w_uuids w') (outbox_events (w_db w'))"
      "supported (cp_Action p)" for p w'
    using ok that command_applied_acked[OF watch_applied_command] command_handled_append
    by (fastforce simp: handler_step_def outside_def scanner_ok_def)
  have same: "handler_step (scanner_ok E) (command_handled E) w w'" if "outside w w'" "w_db w' = w_db w" for w'
    using ok that by (auto simp: handler_step_def outside_def scanner_ok_def intro: uuids_fresh_mono)
  have both: "wp ?handler (\<lambda>_ w'. command_handled E v (w_db w') \<and> handler_step (scanner_ok E) (command_handled E) w w')
      (\<lambda>e w'. (errors_is e ErrNonRetryable \<longrightarrow> command_rejects E v) \<and> handler_step (scanner_ok E) (command_handled E) w w') w"
  proof (cases "command_rejects E v")
    case True
    then obtain e where "HandleWatchlistCommand E (scanner_process E entries server baseURL n t) v
        = (raise e :: ('d scanner_db_scheme, wire, unit) go)"
      using handle_invalid_command[OF True] by blast
    then show ?thesis
      using True quiet by (simp add: command_handler_def wp_raise)
  next
    case False
    then obtain event where event: "decode_envelope E decode_command v = Inr event" "valid_command event"
      by (auto simp: command_rejects_def split: sum.splits)
    then have sup: "supported (cp_Action (Payload event))"
      using check_command_supported check_command_iff by blast
    have "wp (ApplyWatchCommand E (Payload event) (CorrelationID event))
       (\<lambda>_ w'. True \<and> (command_handled E v (w_db w') \<and> handler_step (scanner_ok E) (command_handled E) w w'))
       (\<lambda>e w'. \<not> errors_is e ErrNonRetryable \<and> handler_step (scanner_ok E) (command_handled E) w w') w"
      unfolding wp_conj
      by (intro conjI avoidsD avoids_ApplyWatchCommand tx_wp_wp[OF ApplyWatchCommand_tx[OF ok]])
        (use applied same sup event in \<open>auto simp: command_handled_def\<close>)
    then show ?thesis
      unfolding command_handler_def handle_valid_command[OF event] by (rule wp_mono) auto
  qed
  then show "wp ?handler (\<lambda>_ w'. command_handled E v (w_db w')) (\<lambda>e _. errors_is e ErrNonRetryable \<longrightarrow> command_rejects E v) w"
    and "wp ?handler (\<lambda>_. handler_step (scanner_ok E) (command_handled E) w)
      (\<lambda>_. handler_step (scanner_ok E) (command_handled E) w) w"
    unfolding wp_conj by blast+
qed

text \<open>
  No watchlist command is lost: over any sessions of the scanner's consumer, with any
  failures, crashes and cancellations between them, the offsets it has committed are those of a
  prefix of the topic's log, in order; each command of that prefix either is valid and has its
  acknowledgement of success in the outbox, or is invalid and stands in the dead-letter topic
  with its key, value and coordinates.
\<close>

theorem committed_commands_are_acked:
  fixes w w' :: "('d scanner_db_scheme, wire) world"
  assumes "time_codec E" and "uuids_fresh E (w_uuids w) (outbox_events (w_db w))"
    and "commits (w_trace w) = []"
    and "sessions E watchlistConsumer (command_handler E (scanner_process E entries server baseURL n t)) log ss w = (r, w')"
  shows "let k = length (commits (w_trace w')) in
    commits (w_trace w') = map commit_of (take k log) \<and>
    (\<forall>m \<in> set (take k log).
       case decode_envelope E decode_command (km_Value m) of
         Inr event \<Rightarrow> if valid_command event then acked E (Payload event) (w_db w')
                      else dead_lettered E (watchlistConsumer :: 'd scanner_db_scheme consumer) m (w_trace w')
       | Inl _ \<Rightarrow> dead_lettered E (watchlistConsumer :: 'd scanner_db_scheme consumer) m (w_trace w'))"
proof -
  have "scanner_ok E w" using assms(1,2) by (simp add: scanner_ok_def)
  then have "command_loop.caught_up E log w"
    using assms(3) by (simp add: command_loop.caught_up_def)
  from wp_bothD[OF assms(4) command_loop.sessions_caught_up[OF this]]
  have done_up: "command_loop.caught_up E log w'" .
  have "has_dead_letter (watchlistConsumer :: 'd scanner_db_scheme consumer)"
    by (simp add: has_dead_letter_def watchlistConsumer_def WithDeadLetter_def newConsumer_def topic_defs)
  with done_up show ?thesis
    unfolding command_loop.caught_up_def command_loop.settled_def Let_def
    by (auto simp: command_handled_def command_rejects_def split: sum.splits)
qed

end
