(* ===== verification/System.thy ===== *)
theory System
  imports Delivery_Doors Delivery_Mail Release_Results Scanner_Consumer
begin

text \<open>
  The services together.  A message is what one of them has put into its outbox: the other one
  gets exactly that value, since the relay publishes the payload as it stands.  The theorems say
  that the services understand each other, so that the chains of the design close.
\<close>

section \<open>The watch saga\<close>

lemma request_event_valid:
  assumes "action = RepoWatchActionStart \<or> action = RepoWatchActionStop" and "repo \<noteq> ''''" and "uuid_parses E i"
  shows "valid_request E (saga_request action repo email i c now)"
  using assms by (auto simp: valid_request_def saga_request_def validateAction_ok)

lemma request_decodes:
  assumes "time_codec E" and "buildRepoWatchSagaRequest E action repo email i c now = Inr (event, raw)"
  shows "event = saga_request action repo email i c now \<and> decode_envelope E decode_saga (Some raw) = Inr event"
proof -
  have "event = saga_request action repo email i c now" and "encode_envelope E (\<lambda>p. Inr (encode_saga p)) event = Inr raw"
    using assms(2) by (auto simp: buildRepoWatchSagaRequest_def Let_def sum_map_def split: sum.splits)
  with envelope_round_trip[OF assms(1) saga_codec] show ?thesis by blast
qed

text \<open>The orchestrator takes the request and emits a command that the scanner accepts.\<close>

lemma request_is_taken:
  fixes w :: "('d saga_db_scheme, wire) world"
  assumes "time_codec E" and "decode_envelope E decode_saga v = Inr event" and "valid_request E event"
    and "saga_inv E (w_uuids w) (w_db w)" and "w_script w = []" and "time_text E (w_app_now w) \<noteq> None"
    and "saga_of (w_db w) (sp_SagaID (Payload event)) = None" and "sp_SagaID (Payload event) \<noteq> ''''"
  shows "\<exists>w' c command inst. request_handler E New key v w = (Inr (), w') \<and>
    outbox_events (w_db w') = outbox_events (w_db w) @ [c] \<and>
    decode_envelope E decode_command (ob_Payload c) = Inr command \<and> valid_command command \<and>
    Payload command = \<lparr>cp_SagaID = sp_SagaID (Payload event), cp_Action = sp_Action (Payload event), cp_Repo = sp_Repo (Payload event)\<rparr> \<and>
    saga_of (w_db w') (sp_SagaID (Payload event)) = Some inst \<and> sg_Repo inst = sp_Repo (Payload event) \<and>
    sg_Action inst = sp_Action (Payload event) \<and>
    abs_row inst = InFlight 1 (w_app_now w + minute_ns) (w_app_now w + 24 * hour_ns)"
proof -
  let ?row = "started_row event (w_app_now w) (w_pg_now w)"
  have fresh: "uuids_fresh E (w_uuids w) (outbox_events (w_db w))" using assms(4) by (simp add: saga_inv_def)
  from request_creates_saga[OF assms(1,5,3,7) fresh assms(6)] obtain c w' command
    where run: "HandleRequest E New event w = (Inr (), w')"
      and db: "w_db w' = (w_db w)\<lparr>outbox_events := outbox_events (w_db w) @ [c], saga_instances := saga_instances (w_db w) @ [?row]\<rparr>"
      and c: "command_of E c = Some \<lparr>cp_SagaID = sp_SagaID (Payload event), cp_Action = sp_Action (Payload event),
          cp_Repo = sp_Repo (Payload event)\<rparr>"
        "decode_envelope E decode_command (ob_Payload c) = Inr command"
        "commandEventType (sp_Action (Payload event)) = Inr (EventType command)"
    by blast
  from c have p: "Payload command = \<lparr>cp_SagaID = sp_SagaID (Payload event), cp_Action = sp_Action (Payload event),
      cp_Repo = sp_Repo (Payload event)\<rparr>"
    by (auto simp: command_of_def split: if_splits)
  have "valid_command command" using p c(3) assms(3,8) by (simp add: valid_command_def valid_request_def)
  moreover have "saga_of (w_db w') (sp_SagaID (Payload event)) = Some ?row"
    using assms(7) by (simp add: db saga_of_def lookup_row_append started_row_def new_saga_def)
  moreover have "abs_row ?row = InFlight 1 (w_app_now w + minute_ns) (w_app_now w + 24 * hour_ns)"
    by (simp add: started_row_def new_saga_def abs_row_def)
  moreover have "request_handler E New key v w = (Inr (), w')" using run by (simp add: request_handler_def assms(2))
  ultimately show ?thesis
    using p c(2) by (intro exI[of _ w'] exI[of _ c] exI[of _ command] exI[of _ ?row])
      (simp add: db started_row_def new_saga_def)
qed

text \<open>The scanner takes the command and emits an acknowledgement that completes the saga.\<close>

lemma command_is_acknowledged:
  fixes w :: "('d scanner_db_scheme, wire) world"
  assumes "decode_envelope E decode_command v = Inr command" and "valid_command command"
    and "scanner_ok E w" and "w_script w = []" and "time_text E (w_app_now w) \<noteq> None"
  shows "\<exists>w' a ack. command_handler E (scanner_process E entries server baseURL n t) key v w = (Inr (), w') \<and>
    outbox_events (w_db w') = outbox_events (w_db w) @ [a] \<and>
    watched (w_db w') = (if cp_Action (Payload command) = RepoWatchActionStart then insert (cp_Repo (Payload command)) (watched (w_db w))
      else watched (w_db w) - {cp_Repo (Payload command)}) \<and>
    decode_envelope E decode_ack (ob_Payload a) = Inr ack \<and>
    repoWatchAckEventType (cp_Action (Payload command)) = Inr (EventType ack) \<and>
    Payload ack = \<lparr>ap_SagaID = cp_SagaID (Payload command), ap_Action = cp_Action (Payload command),
      ap_Repo = cp_Repo (Payload command), ap_Error = ''''\<rparr>"
proof -
  let ?m = "ApplyWatchCommand E (Payload command) (CorrelationID command)"
  have sup: "supported (cp_Action (Payload command))"
    using assms(2) by (auto simp: valid_command_def commandEventType_ok supported_def)
  obtain w' where run: "?m w = (Inr (), w')"
    using calm_ApplyWatchCommand[OF assms(4) sup assms(5), of "CorrelationID command"] by (cases "?m w") auto
  have "watch_applied E w (Payload command) (w_db w')" using tx_wpD[OF run ApplyWatchCommand_tx[OF assms(3)]] by auto
  from watch_applied_command[OF this sup] obtain a where a: "outbox_events (w_db w') = outbox_events (w_db w) @ [a]"
    "watched (w_db w') = (if cp_Action (Payload command) = RepoWatchActionStart then insert (cp_Repo (Payload command)) (watched (w_db w))
      else watched (w_db w) - {cp_Repo (Payload command)})"
    and ack: "\<exists>ty. repoWatchAckEventType (cp_Action (Payload command)) = Inr ty \<and> ack_of E a = Some (ty, \<lparr>ap_SagaID =
      cp_SagaID (Payload command), ap_Action = cp_Action (Payload command), ap_Repo = cp_Repo (Payload command), ap_Error = ''''\<rparr>)"
    unfolding command_applied_def by blast
  have "command_handler E (scanner_process E entries server baseURL n t) key v w = (Inr (), w')"
    using run by (simp add: command_handler_def handle_valid_command[OF assms(1,2)])
  with a ack show ?thesis by (auto simp: ack_of_def split: if_splits sum.splits)
qed

text \<open>
  C4. The watch saga closes.  When the calls go through, the request that the subscription API puts
  into its outbox is taken by the orchestrator, which stores the saga and emits one command; the
  scanner applies that very command to its watchlist and emits one acknowledgement; and that
  acknowledgement completes the saga in any later state of the orchestrator in which it is still
  in flight, whatever number of attempts it has made.
\<close>

theorem watch_saga_closes:
  fixes w1 w3 :: "('o saga_db_scheme, wire) world" and w2 :: "('s scanner_db_scheme, wire) world"
  assumes "time_codec E" and "buildRepoWatchSagaRequest E action repo email i c now = Inr (event, raw)"
    and "action = RepoWatchActionStart \<or> action = RepoWatchActionStop" and "repo \<noteq> ''''" and "uuid_parses E i" and "i \<noteq> ''''"
    and "saga_inv E (w_uuids w1) (w_db w1)" and "saga_of (w_db w1) i = None"
    and "w_script w1 = []" and "time_text E (w_app_now w1) \<noteq> None"
    and "scanner_ok E w2" and "w_script w2 = []" and "time_text E (w_app_now w2) \<noteq> None"
    and "saga_inv E (w_uuids w3) (w_db w3)" and "w_script w3 = []" and "saga_of (w_db w3) i = Some inst"
    and "sg_Repo inst = repo" and "sg_Action inst = action" and "abs_row inst = InFlight n t dl"
  shows "\<exists>w1' command w2' ack w3'.
    request_handler E New key1 (Some raw) w1 = (Inr (), w1') \<and>
    outbox_events (w_db w1') = outbox_events (w_db w1) @ [command] \<and>
    abs_saga (w_db w1') i = InFlight 1 (w_app_now w1 + minute_ns) (w_app_now w1 + 24 * hour_ns) \<and>
    command_handler E (scanner_process E entries server baseURL batch backoff) key2 (ob_Payload command) w2 = (Inr (), w2') \<and>
    outbox_events (w_db w2') = outbox_events (w_db w2) @ [ack] \<and>
    watched (w_db w2') = (if action = RepoWatchActionStart then insert repo (watched (w_db w2)) else watched (w_db w2) - {repo}) \<and>
    ack_handler E New key3 (ob_Payload ack) w3 = (Inr (), w3') \<and> abs_saga (w_db w3') i = Finished n"
proof -
  have event: "event = saga_request action repo email i c now" and dec: "decode_envelope E decode_saga (Some raw) = Inr event"
    using request_decodes[OF assms(1,2)] by blast+
  have sel: "sp_SagaID (Payload event) = i" "sp_Action (Payload event) = action" "sp_Repo (Payload event) = repo"
    by (simp_all add: event saga_request_def)
  have valid: "valid_request E event" unfolding event by (rule request_event_valid[OF assms(3-5)])
  from request_is_taken[OF assms(1) dec valid assms(7,9,10), of key1, unfolded sel, OF assms(8,6)]
  obtain w1' command cmd inst1 where s1: "request_handler E New key1 (Some raw) w1 = (Inr (), w1')"
      "outbox_events (w_db w1') = outbox_events (w_db w1) @ [command]" "saga_of (w_db w1') i = Some inst1"
      "abs_row inst1 = InFlight 1 (w_app_now w1 + minute_ns) (w_app_now w1 + 24 * hour_ns)"
    and cmd: "decode_envelope E decode_command (ob_Payload command) = Inr cmd" "valid_command cmd"
      "Payload cmd = \<lparr>cp_SagaID = i, cp_Action = action, cp_Repo = repo\<rparr>"
    by blast
  from command_is_acknowledged[OF cmd(1,2) assms(11-13), of entries server baseURL batch backoff key2]
  obtain w2' ack a where s2: "command_handler E (scanner_process E entries server baseURL batch backoff) key2 (ob_Payload command) w2 = (Inr (), w2')"
      "outbox_events (w_db w2') = outbox_events (w_db w2) @ [ack]"
      "watched (w_db w2') = (if action = RepoWatchActionStart then insert repo (watched (w_db w2)) else watched (w_db w2) - {repo})"
    and a: "decode_envelope E decode_ack (ob_Payload ack) = Inr a" "repoWatchAckEventType action = Inr (EventType a)"
      "Payload a = \<lparr>ap_SagaID = i, ap_Action = action, ap_Repo = repo, ap_Error = ''''\<rparr>"
    unfolding cmd(3) command_payload.simps by (elim exE conjE) (rule that)
  have ok: "success_ack a" by (simp add: success_ack_def a(2,3))
  have "validateAction action = Inr ()" using assms(3) unfolding validateAction_ok .
  then have match: "ack_matches (w_db w3) a inst" by (simp add: ack_matches_def a(3) assms(6,16-18))
  have fail: "EventType a \<noteq> EventRepoWatchFailed" using success_ack_type[OF ok] by auto
  have inst: "abs_saga (w_db w3) (ap_SagaID (Payload a)) = InFlight n t dl" using assms(16,19) by (simp add: a(3) abs_saga_def)
  from ack_applied[OF assms(14,15) match inst disjI1[OF ok]] fail
  obtain w3' where "HandleAck New a w3 = (Inr (), w3')" "abs_saga (w_db w3') (ap_SagaID (Payload a)) = Finished n"
    by (simp, elim exE conjE) (rule that)
  then have "ack_handler E New key3 (ob_Payload ack) w3 = (Inr (), w3')" "abs_saga (w_db w3') i = Finished n"
    by (simp_all add: ack_handler_def a)
  moreover have "abs_saga (w_db w1') i = InFlight 1 (w_app_now w1 + minute_ns) (w_app_now w1 + 24 * hour_ns)"
    using s1(3,4) by (simp add: abs_saga_def)
  ultimately show ?thesis using s1(1,2) s2 by (intro exI conjI)
qed

section \<open>Releases\<close>

lemma note_inD:
  assumes "note_in E e = Some (email, repo, tag)"
  shows "\<exists>event i. ob_Topic e = TopicNotificationCommands \<and> decode_envelope E decode_notification (ob_Payload e) = Inr event \<and>
    EventType event = EventNotificationRequested \<and> Payload event = release_notification E email repo tag i"
  using assms by (auto simp: note_in_def notification_in_def split: option.splits if_splits sum.splits)

lemma release_mail_sel:
  "np_RecipientEmail (release_notification E email repo tag i) = email"
  "np_IdempotencyKey (release_notification E email repo tag i) = repo @ '':'' @ tag @ '':'' @ EmailHash E email"
  "np_Message (release_notification E email repo tag i) = ''New release '' @ tag @ '' for '' @ repo @ ''!''"
  by (simp_all add: release_notification_def Let_def)

text \<open>
  The notifications in the outbox of the API for a release, once it is expanded.
\<close>

lemma expanded_notes:
  assumes "api_ok E w" and "returning_permutes E"
    and "Expand (release_process E (outbox_notifier E hs baseURL url)) event w = (Inr (), w')"
    and "row \<in> set (subscriptions (w_db w))" and "confirmed_of (rp_Repo (Payload event)) row"
  shows "\<exists>e \<in> set (outbox_events (w_db w')). note_in E e = Some (su_Email row, rp_Repo (Payload event), rp_Tag (Payload event))"
proof -
  let ?repo = "rp_Repo (Payload event)" and ?tag = "rp_Tag (Payload event)"
  have ok: "expanding E (books E (w_db w)) w" using assms(1,2) by (simp add: expanding_def)
  from wp_okD[OF assms(3) outbox_releases.Expand_wp[OF ok refl refl]] obtain es
    where es: "mset es = mset (confirmed_emails (w_db w) ?repo)" "outbox_releases.told_first E (books E (w_db w)) ?repo ?tag w es w'"
    by blast
  have "su_Email row \<in> set (confirmed_emails (w_db w) ?repo)" using assms(4,5) by (auto simp: set_confirmed_emails)
  then have "su_Email row \<in> set es" using mset_eq_setD[OF es(1)] by simp
  then have "(su_Email row, ?repo, ?tag) \<in> set (outbox_notes E (w_db w'))"
    using es(2) by (auto simp: outbox_releases.told_first_def)
  then show ?thesis by (auto simp: outbox_notes_def List.map_filter_def)
qed

text \<open>
  C5. A release reaches the mailboxes.  When the subscription API has expanded a release without an
  error, its outbox has for every confirmed subscriber of the repository a notification which the
  notification service accepts: its handler never rejects it as malformed, so it never ends in the
  dead-letter topic unread; when no call fails, the addresses have no line break and the
  notification's identifier is not that of another delivery, the handler returns without an error
  and the delivery under the key of repository, tag and e-mail hash is sent, unless it was
  finished before; and under any failures a return without an error leaves the delivery settled.
  A delivery that becomes sent has handed exactly one mail, to that subscriber and with the
  release in it, to the mail server; and once it is finished, further copies of the notification
  or of another one for the same release and subscriber send nothing.
\<close>

theorem release_reaches_mailboxes:
  fixes w :: "('d api_db_scheme, wire) world"
  assumes "api_ok E w" and "returning_permutes E"
    and "Expand (release_process E (outbox_notifier E hs baseURL url)) event w = (Inr (), w')"
    and "row \<in> set (subscriptions (w_db w))" and "confirmed_of (rp_Repo (Payload event)) row"
  shows "let repo = rp_Repo (Payload event); tag = rp_Tag (Payload event); email = su_Email row;
      key = repo @ '':'' @ tag @ '':'' @ EmailHash E email; message = ''New release '' @ tag @ '' for '' @ repo @ ''!'' in
    \<exists>e \<in> set (outbox_events (w_db w')). ob_Topic e = TopicNotificationCommands \<and>
      (\<exists>p. notification_in E e = Some p \<and>
      (\<forall>cfg n ds k r (v :: ('n delivery_db_scheme, wire) world) v'. delivery_ok E (attempts_bound n) v \<longrightarrow>
         notification_handler E (notification_process E cfg n ds) k (ob_Payload e) v = (r, v') \<longrightarrow>
         (let x = abs_table (w_db v) key; y = abs_table (w_db v') key in
          (\<forall>err. r = Inl err \<longrightarrow> \<not> errors_is err ErrNonRetryable) \<and>
          (w_script v = [] \<and> one_line (senderAddress cfg) \<and> one_line email \<and>
             (x \<noteq> Unseen \<or> np_NotificationID p \<notin> dr_NotificationID ` set (deliveries (w_db v))) \<longrightarrow>
             r = Inr () \<and> (finished x \<or> (\<exists>a. y = Delivered a))) \<and>
          (r = Inr () \<longrightarrow> settled_delivery y) \<and>
          (\<exists>tr. w_trace v' = w_trace v @ tr \<and> (finished x \<longrightarrow> tr = [] \<and> y = x) \<and>
             (\<forall>a. y = Delivered a \<longrightarrow> \<not> finished x \<longrightarrow> tr = [mail_of cfg email message])))))"
proof -
  from expanded_notes[OF assms] obtain e where e: "e \<in> set (outbox_events (w_db w'))"
    and told: "note_in E e = Some (su_Email row, rp_Repo (Payload event), rp_Tag (Payload event))" by blast
  from note_inD[OF told] obtain ev i where ev: "ob_Topic e = TopicNotificationCommands"
    "decode_envelope E decode_notification (ob_Payload e) = Inr ev" "EventType ev = EventNotificationRequested"
    "Payload ev = release_notification E (su_Email row) (rp_Repo (Payload event)) (rp_Tag (Payload event)) i" by blast
  have known: "notification_in E e = Some (Payload ev)" using ev(1-3) by (simp add: notification_in_def)
  note settles = command_settles[OF _ ev(2,3), unfolded ev(4) release_mail_sel Let_def]
  have accepted: "\<not> errors_is err ErrNonRetryable"
    if "notification_handler E (notification_process E cfg n ds) k (ob_Payload e) v = (Inl err, v')"
    for cfg n ds k err and v v' :: "('n delivery_db_scheme, wire) world"
    using avoidsD[OF avoids_Process, of E cfg n ds "Payload ev" v] that ev(2,3)
    by (simp add: notification_handler_def wp_def)
  have calm: "r = Inr () \<and> (finished (abs_table (w_db v) (np_IdempotencyKey (Payload ev))) \<or>
      (\<exists>a. abs_table (w_db v') (np_IdempotencyKey (Payload ev)) = Delivered a))"
    if "notification_handler E (notification_process E cfg n ds) k (ob_Payload e) v = (r, v')" "w_script v = []"
      "one_line (senderAddress cfg)" "one_line (np_RecipientEmail (Payload ev))"
      "abs_table (w_db v) (np_IdempotencyKey (Payload ev)) \<noteq> Unseen \<or>
        np_NotificationID (Payload ev) \<notin> dr_NotificationID ` set (deliveries (w_db v))"
    for cfg n ds k r and v v' :: "('n delivery_db_scheme, wire) world"
    using calm_command_delivered[OF that(2-5), of E n ds] that(1) ev(2,3) by (auto simp: notification_handler_def)
  note delivered = calm[unfolded ev(4) release_mail_sel]
  show ?thesis
    unfolding Let_def
  proof (intro bexI[OF _ e] conjI exI[of _ "Payload ev"] ev(1) known allI impI, goal_cases)
    case (1 cfg n ds k r v v' err)
    then show ?case using accepted by blast
  next
    case (2 cfg n ds k r v v')
    then show ?case using delivered[of cfg n ds k v r v'] by (simp only: ev(4) simp_thms)
  next
    case (3 cfg n ds k r v v')
    then show ?case using delivered[of cfg n ds k v r v'] by (simp only: ev(4) simp_thms)
  next
    case (4 cfg n ds k r v v')
    then show ?case using settles[of n v cfg ds k r v'] by blast
  next
    case (5 cfg n ds k r v v')
    then show ?case using settles[of n v cfg ds k r v'] by blast
  qed
qed

end
