(* ===== verification/Subscription_Witnesses.thy ===== *)
theory Subscription_Witnesses
  imports Subscription_Results Release_Results
begin

text \<open>Concrete runs of the subscription API, at which the hypotheses of its properties hold.\<close>

definition demo_subscriber :: "bool \<Rightarrow> subscription_row" where
  "demo_subscriber c = \<lparr>su_Email = ''a@b.co'', su_Repo = ''golang/go'', su_Confirmed = c, su_LastSeenTag = ''v1'', su_Token = ''t1''\<rparr>"

lemma demo_subscriber_sel [simp]:
  "su_Email (demo_subscriber c) = ''a@b.co''" "su_Repo (demo_subscriber c) = ''golang/go''"
  "su_Confirmed (demo_subscriber c) = c" "su_Token (demo_subscriber c) = ''t1''"
  by (simp_all add: demo_subscriber_def)

definition api_tables :: "subscription_row list \<Rightarrow> api_db" where
  "api_tables rows = \<lparr>outbox_events = [], saga_instances = [], subscriptions = rows\<rparr>"

abbreviation api_world :: "subscription_row list \<Rightarrow> (api_db, wire) world" where
  "api_world rows \<equiv> calm_world (api_tables rows) 5"

text \<open>A notification service that accepts everything, and GitHub with one release everywhere.\<close>

definition demo_accepts :: http_server where
  "demo_accepts now link = HttpReply 202 None"

definition demo_github :: http_server where
  "demo_github now link = HttpReply 200 (Some (JObj [(''tag_name'', JStr ''v1'')]))"

abbreviation demo_desk :: "api_db subscription_service" where
  "demo_desk \<equiv> post_process demo_env demo_accepts ''http://api'' ''http://mail/'' demo_github demo_github ''''"

abbreviation demo_notifier :: "api_db notifier" where
  "demo_notifier \<equiv> outbox_notifier demo_env demo_accepts ''http://api'' ''http://mail/''"

abbreviation demo_client :: "api_db github_client" where
  "demo_client \<equiv> NewHTTPGitHubClient demo_github demo_github ''''"

lemma api_tables_sel [simp]:
  "outbox_events (api_tables rows) = []" "subscriptions (api_tables rows) = rows"
  "requests E (api_tables rows) = []" "outbox_notes E (api_tables rows) = []"
  by (simp_all add: api_tables_def requests_def outbox_notes_def List.map_filter_def)

lemma demo_api_ok: "length rows \<le> 1 \<Longrightarrow> api_ok demo_env (api_world rows)"
  using demo_time_codec inj_dec_text by (cases rows) (auto simp: api_ok_def uuids_fresh_def inj_def keyed_def)

lemma demo_permutes: "returning_permutes demo_env"
  by (simp add: returning_permutes_def)

lemma demo_deployed: "deployed demo_env demo_notifier demo_client"
  unfolding deployed_def
proof (intro exI conjI)
  have "ascii ''kafka''" by (simp add: ascii_def)
  then show "choose_notifier demo_env ''kafka'' demo_accepts undefined ''http://api'' ''http://mail/'' = Inr demo_notifier"
    by (simp add: choose_notifier_def ToLower_def)
  show "demo_client = NewHTTPGitHubClient demo_github demo_github ''''" ..
qed

lemma dec_text_plain: "CHR '' '' \<notin> set (dec_text n)"
proof (induction n rule: dec_text.induct)
  case (1 n)
  have "CHR '' '' \<noteq> digit m" for m
  proof
    assume "CHR '' '' = digit m"
    then have "(of_char (digit m) :: nat) = of_char CHR '' ''" by simp
    then show False by simp
  qed
  with 1 show ?case by (subst dec_text.simps) auto
qed

lemma demo_plain: "plain_uuids demo_env"
  using dec_text_plain by (auto simp: plain_uuids_def)

lemma demo_unsubscribes:
  "fst (api_exec demo_env demo_notifier demo_client (OpUnsubscribe None ''t1'') (api_world [demo_subscriber True])) = Inr ()"
  by (simp add: api_exec_def Unsubscribe_def with_tx_def row_by_token_def sql_by_token_def sql_delete_token_def
      sql_count_confirmed_def insertRepoWatchSagaRequest_def buildRepoWatchSagaRequest_def InsertTx_def sql_insert_outbox_def
      encode_envelope_def encode_not_before_def exec_simps find_row_def leave_rows_def delete_where_def confirmed_of_def
      begin_tx_def tx_stmt_def commit_tx_def Let_def correlationIDFromContext_def saga_request_def zero_time_def)

theorem subscriptions_refine_watch_witness:
  "let w = api_world [demo_subscriber True]; w' = snd (api_exec demo_env demo_notifier demo_client (OpUnsubscribe None ''t1'') w)
   in watch_step True (Suc 0, []) (watch_of ''golang/go'' (books demo_env (w_db w')))"
proof -
  let ?w = "api_world [demo_subscriber True]"
  obtain r w' where run: "api_exec demo_env demo_notifier demo_client (OpUnsubscribe None ''t1'') ?w = (r, w')" by (metis surj_pair)
  have ok: "api_ok demo_env ?w" by (rule demo_api_ok) simp
  have r: "r = Inr ()" using demo_unsubscribes by (simp add: run)
  have moved: "moved_repo (OpUnsubscribe None ''t1'') (fst (books demo_env (w_db ?w))) = Some ''golang/go''"
    "watch_of ''golang/go'' (books demo_env (w_db ?w)) = (Suc 0, [])"
    by (simp_all add: moved_repo_def books_def find_token_def find_row_def watch_of_def confirmed_of_def)
  have "watch_step True (Suc 0, []) (watch_of ''golang/go'' (books demo_env (w_db w')))"
    using conjunct2[OF subscriptions_refine_watch[OF ok demo_permutes demo_deployed run, unfolded Let_def], rule_format, of "''golang/go''"]
    unfolding moved r by (simp del: watch_step.simps)
  then show ?thesis by (simp add: run Let_def)
qed

theorem watching_follows_subscribers_witness:
  "exact (books demo_env (w_db (snd (api_exec demo_env demo_notifier demo_client (OpUnsubscribe None ''t1'')
     (api_world [demo_subscriber False])))))"
proof -
  let ?w = "api_world [demo_subscriber False]"
  obtain r w' where run: "api_exec demo_env demo_notifier demo_client (OpUnsubscribe None ''t1'') ?w = (r, w')" by (metis surj_pair)
  have "api_ok demo_env ?w" by (rule demo_api_ok) simp
  moreover have "exact (books demo_env (w_db ?w))"
    by (simp add: exact_def last_request_def confirmed_of_def)
  ultimately show ?thesis
    using watching_follows_subscribers[OF _ demo_permutes demo_deployed run] by (simp add: run is_confirm_def)
qed

definition demo_visits :: "((int \<times> int) \<times> api_op) list" where
  "demo_visits = [((6, 6), OpSubscribe None ''a@b.co'' ''golang/go''), ((7, 7), OpConfirm None ''uuid-0''),
     ((8, 8), OpUnsubscribe None ''uuid-0'')]"

theorem watched_repos_have_subscribers_witness:
  "let d = w_db (snd (api_history demo_env demo_notifier demo_client demo_visits (api_world [])))
   in {p. last_request p (requests demo_env d) = Some RepoWatchActionStart} \<subseteq> su_Repo ` set (subscriptions d)"
proof -
  let ?w = "api_world []"
  obtain r w' where run: "api_history demo_env demo_notifier demo_client demo_visits ?w = (r, w')" by (metis surj_pair)
  have "api_ok demo_env ?w" by (rule demo_api_ok) simp
  moreover have "watched_for (watch_of p (books demo_env (w_db ?w)))" for p
    by (simp add: watched_for_def watch_of_def last_request_def)
  ultimately have "last_request p (requests demo_env (w_db w')) = Some RepoWatchActionStart \<longrightarrow>
      (\<exists>row \<in> set (subscriptions (w_db w')). su_Repo row = p \<and> su_Confirmed row)" for p
    using watched_repos_have_subscribers[OF _ demo_permutes demo_deployed _ run] by simp
  then show ?thesis by (auto simp: run Let_def)
qed

theorem subscribe_is_compensated_witness:
  "let w' = snd (Subscribe demo_env demo_desk None ''a@b.co'' ''golang/go'' (api_world []))
   in length (subscriptions (w_db w')) \<le> 1 \<and> requests demo_env (w_db w') = []"
proof -
  let ?w = "api_world []"
  obtain r w' where run: "Subscribe demo_env demo_desk None ''a@b.co'' ''golang/go'' ?w = (r, w')" by (metis surj_pair)
  have "api_ok demo_env ?w" by (rule demo_api_ok) simp
  from subscribe_is_compensated[OF this demo_plain _ _ run] show ?thesis
    by (auto simp: run Let_def joins_def)
qed

theorem confirmed_without_watch_witness:
  "\<exists>e w1. Service_ConfirmSubscriptionByToken (subscription_process demo_env demo_notifier demo_client) None ''t1''
     ((api_world [demo_subscriber False])\<lparr>w_script := [Succeed, Succeed, Succeed, Succeed, Succeed, Fail ''gone'']\<rparr>) = (Inl e, w1) \<and>
     subscriptions (w_db w1) = confirm_rows ''t1'' [demo_subscriber False] \<and> outbox_events (w_db w1) = []"
proof -
  let ?w = "(api_world [demo_subscriber False])\<lparr>w_script := [Succeed, Succeed, Succeed, Succeed, Succeed, Fail ''gone'']\<rparr>"
  have "find_row (\<lambda>r. su_Token r = ''t1'') (subscriptions (w_db ?w)) = Some (demo_subscriber False)"
    by (simp add: find_row_def)
  moreover have "affected (confirmed_of (su_Repo (demo_subscriber False))) (subscriptions (w_db ?w)) = 0"
    by (simp add: confirmed_of_def)
  ultimately show ?thesis using confirmed_without_watch[of "''t1''" ?w "demo_subscriber False"] by fastforce
qed

theorem racing_subscriber_gets_dead_link_witness:
  "\<exists>w'. save_and_notify demo_desk None (new_subscription ''a@b.co'' ''golang/go'' ''v2'' ''t2'') (api_world [demo_subscriber False])
      = (Inr (), w') \<and> find_token ''t2'' (subscriptions (w_db w')) = None"
proof -
  let ?sub = "new_subscription ''a@b.co'' ''golang/go'' ''v2'' ''t2''" and ?w = "api_world [demo_subscriber False]"
  have "fits ?sub = Inr ?sub"
    by (simp add: fits_def new_subscription_def varchar_def continues_utf8_def)
  moreover have "sub_key ?sub \<in> sub_key ` set (subscriptions (w_db ?w))" "su_Token ?sub \<notin> su_Token ` set (subscriptions (w_db ?w))"
    by (simp_all add: new_subscription_def sub_key_def)
  moreover have "trim_slashes ''http://mail/'' \<noteq> ''''" by (simp add: trim_slashes_def)
  ultimately show ?thesis
    using racing_subscriber_gets_dead_link[of ?sub ?w "''http://mail/''" demo_accepts 202 None demo_env "''http://api''"
        demo_github demo_github "''''" None]
    by (auto simp: demo_accepts_def new_subscription_def)
qed

definition demo_detected :: wire where
  "demo_detected = (case encode_envelope demo_env (\<lambda>p. Inr (encode_release p)) demo_release of Inl _ \<Rightarrow> None | Inr v \<Rightarrow> Some v)"

theorem release_notifies_each_once_witness:
  "let w' = snd (Expand (release_process demo_env demo_notifier) demo_release (api_world [demo_subscriber True]))
   in set (outbox_notes demo_env (w_db w')) \<subseteq> {(''a@b.co'', ''golang/go'', ''v1'')}"
proof -
  let ?w = "api_world [demo_subscriber True]"
  obtain r w' where run: "Expand (release_process demo_env demo_notifier) demo_release ?w = (r, w')" by (metis surj_pair)
  have "api_ok demo_env ?w" by (rule demo_api_ok) simp
  from release_notifies_each_once[OF this demo_permutes run, unfolded Let_def] obtain es k
    where es: "set es = {su_Email row |row. row \<in> {demo_subscriber True} \<and> confirmed_of (rp_Repo (Payload demo_release)) row}"
      and out: "outbox_notes demo_env (w_db w') = map (\<lambda>e. (e, rp_Repo (Payload demo_release), rp_Tag (Payload demo_release))) (take k es)"
    by auto
  have "set (take k es) \<subseteq> {''a@b.co''}" using es set_take_subset[of k es] by auto
  then show ?thesis unfolding run Let_def snd_conv out by (auto simp: demo_release_def)
qed

theorem committed_releases_notified_witness:
  "let log = [\<lparr>km_Topic = TopicReleaseEvents, km_Partition = 0, km_Offset = 0, km_Key = ''golang/go'', km_Value = demo_detected\<rparr>];
       w' = snd (sessions demo_env releaseConsumer (release_handler demo_env (release_process demo_env demo_notifier)) log
         [[((5, 5), False)]] (api_world [demo_subscriber True]))
   in commits (w_trace w') = map commit_of (take (length (commits (w_trace w'))) log)"
proof -
  let ?w = "api_world [demo_subscriber True]"
  let ?log = "[\<lparr>km_Topic = TopicReleaseEvents, km_Partition = 0, km_Offset = 0, km_Key = ''golang/go'', km_Value = demo_detected\<rparr>]"
  obtain r w' where run: "sessions demo_env releaseConsumer (release_handler demo_env (release_process demo_env demo_notifier)) ?log
         [[((5, 5), False)]] ?w = (r, w')" by (metis surj_pair)
  have "api_ok demo_env ?w" by (rule demo_api_ok) simp
  from committed_releases_notified[OF this demo_permutes _ run, unfolded Let_def] show ?thesis
    unfolding Let_def run snd_conv by simp
qed

theorem email_hash_normalises_witness:
  "EmailHash demo_env ('' '' @ map lower_char ''A@B.co'' @ '' '') = EmailHash demo_env ''A@B.co''"
proof -
  have "ascii ''A@B.co'' \<and> list_all is_space '' '' \<and> list_all is_space '' ''"
    by (simp add: is_space_def ascii_def)
  from mp[OF conjunct2[OF conjunct2[OF email_hash_normalises[of demo_env "''A@B.co''" "'' ''" "'' ''"]]] this]
  show ?thesis .
qed

end
