(* ===== verification/Saga_Witnesses.thy ===== *)
theory Saga_Witnesses
  imports Saga_Consumers
begin

text \<open>Concrete runs of the orchestrator, at which the hypotheses of its properties hold.\<close>

definition demo_request :: "saga_payload envelope" where
  "demo_request = \<lparr>EventID = ''q1'', EventType = EventRepoWatchSagaRequested, OccurredAt = 5,
     Source = ''subscription-api'', CorrelationID = ''c1'', NotBefore = None,
     Payload = \<lparr>sp_SagaID = ''s1'', sp_Action = RepoWatchActionStart, sp_Repo = ''golang/go'',
       sp_Email = ''a@b.c''\<rparr>\<rparr>"

definition demo_ack :: "string \<Rightarrow> ack_payload envelope" where
  "demo_ack ty = \<lparr>EventID = ''k1'', EventType = ty, OccurredAt = 9,
     Source = ''scanner-service'', CorrelationID = ''c1'', NotBefore = None,
     Payload = \<lparr>ap_SagaID = ''s1'', ap_Action = RepoWatchActionStart, ap_Repo = ''golang/go'',
       ap_Error = ''''\<rparr>\<rparr>"

definition empty_sagas :: saga_db where
  "empty_sagas = \<lparr>outbox_events = [], saga_instances = []\<rparr>"

text \<open>A saga with one attempt and its command in the outbox.\<close>

definition demo_saga :: "string \<Rightarrow> saga_row" where
  "demo_saga status = (started_row demo_request 5 5)\<lparr>sg_Status := status\<rparr>"

definition demo_watch :: "command_payload envelope" where
  "demo_watch = watch_command (uuid_gen demo_env 0) EventStartWatchingRepo ''s1'' RepoWatchActionStart ''golang/go'' ''c1'' 5"

definition demo_command :: outbox_event where
  "demo_command = new_event (uuid_gen demo_env 0) EventStartWatchingRepo 5 ''orchestrator'' ''c1''
     TopicWatchlistCommands ''golang/go''
     (case encode_envelope demo_env (\<lambda>p. Inr (encode_command p)) demo_watch of Inl _ \<Rightarrow> None | Inr v \<Rightarrow> Some v)"

definition saga_tables :: "string \<Rightarrow> saga_db" where
  "saga_tables status = \<lparr>outbox_events = [demo_command], saga_instances = [demo_saga status]\<rparr>"

definition saga_world :: "string \<Rightarrow> int \<Rightarrow> (saga_db, wire) world" where
  "saga_world status t = (calm_world (saga_tables status) t)\<lparr>w_uuids := 1\<rparr>"

lemma saga_world_sel [simp]:
  "w_db (saga_world status t) = saga_tables status" "w_uuids (saga_world status t) = 1"
  "w_script (saga_world status t) = []" "w_app_now (saga_world status t) = t"
  "w_trace (saga_world status t) = []"
  by (simp_all add: saga_world_def)

lemma demo_command_of: "command_of demo_env demo_command =
    Some \<lparr>cp_SagaID = ''s1'', cp_Action = RepoWatchActionStart, cp_Repo = ''golang/go''\<rparr>"
proof -
  obtain v where v: "encode_envelope demo_env (\<lambda>p. Inr (encode_command p)) demo_watch = Inr v"
    by (simp add: encode_envelope_def encode_not_before_def demo_watch_def watch_command_def)
  show ?thesis
    unfolding demo_command_def v sum.case
    by (rule command_of_watch_command[OF demo_time_codec v[unfolded demo_watch_def]])
qed

lemma demo_fresh: "uuids_fresh demo_env u []"
  using inj_dec_text by (auto simp: uuids_fresh_def inj_def)

lemma empty_sagas_inv: "saga_inv demo_env 0 empty_sagas"
  using demo_fresh by (simp add: saga_inv_def empty_sagas_def saga_rows_ok_def commands_ok_def commands_for_def
      attempts_of_def saga_of_def)

lemma demo_saga_sel [simp]:
  "sg_SagaID (demo_saga status) = ''s1''" "sg_Repo (demo_saga status) = ''golang/go''"
  "sg_Action (demo_saga status) = RepoWatchActionStart" "sg_Status (demo_saga status) = status"
  "sg_Attempts (demo_saga status) = 1" "sg_Type (demo_saga status) = TypeRepoWatch"
  "sg_NextRetryAt (demo_saga status) = Some (5 + minute_ns)"
  "sg_DeadlineAt (demo_saga status) = 5 + 24 * hour_ns"
  by (simp_all add: demo_saga_def started_row_def new_saga_def demo_request_def)

lemma saga_tables_of [simp]: "saga_of (saga_tables status) ''s1'' = Some (demo_saga status)"
  by (simp add: saga_of_def saga_tables_def)

lemma saga_tables_inv:
  assumes "status \<in> {StatusCommandSent, StatusRetrying, StatusCompleted, StatusFailed}"
  shows "saga_inv demo_env 1 (saga_tables status)"
proof -
  have "saga_inv demo_env (Suc 0) (empty_sagas\<lparr>outbox_events := outbox_events empty_sagas @ [demo_command],
      saga_instances := saga_instances empty_sagas @ [demo_saga status]\<rparr>)"
  proof (rule saga_inv_start[OF empty_sagas_inv])
    show "saga_of empty_sagas (sg_SagaID (demo_saga status)) = None"
      by (simp add: saga_of_def empty_sagas_def)
    show "row_ok (demo_saga status)"
      using assms by (auto simp: row_ok_def validateAction_ok)
    show "ob_EventID demo_command = uuid_gen demo_env 0"
      by (simp add: demo_command_def)
  qed (simp_all add: carries_def demo_command_of)
  then show ?thesis by (simp add: empty_sagas_def saga_tables_def)
qed

lemma active_inv: "saga_inv demo_env (w_uuids (saga_world StatusCommandSent t)) (w_db (saga_world StatusCommandSent t))"
  using saga_tables_inv by simp

definition demo_history :: "((int \<times> int) \<times> saga_op) list" where
  "demo_history = [((10, 10), OpRequest demo_request), ((20, 20), OpRetry 0),
     ((30, 30), OpAck (demo_ack EventRepoWatchStarted))]"

theorem orchestrator_refines_saga_witness:
  "\<forall>i. let w = saga_world StatusCommandSent 10; s = abs_saga (w_db w) i;
         s' = abs_saga (w_db (snd (saga_exec demo_env (OpRetry 0) w))) i in s' = s \<or> saga_step 10 s s'"
proof -
  let ?w = "saga_world StatusCommandSent 10"
  obtain r w' where run: "saga_exec demo_env (OpRetry 0) ?w = (r, w')" by (metis surj_pair)
  show ?thesis
    using orchestrator_refines_saga[OF demo_time_codec active_inv run] by (simp add: run Let_def)
qed

theorem one_command_per_attempt_witness:
  "\<forall>i. let d = w_db (snd (saga_history demo_env demo_history (saga_world StatusCommandSent 10)))
       in int (length (commands_for demo_env i (outbox_events d))) = attempts_of d i"
proof -
  let ?w = "saga_world StatusCommandSent 10"
  obtain r w' where run: "saga_history demo_env demo_history ?w = (r, w')" by (metis surj_pair)
  show ?thesis
    using one_command_per_attempt[OF demo_time_codec active_inv run] by (simp add: run Let_def)
qed

theorem terminal_sagas_stay_witness:
  "abs_saga (w_db (snd (saga_history demo_env demo_history (saga_world StatusFailed 10)))) ''s1'' = GaveUp 1"
proof -
  let ?w = "saga_world StatusFailed 10"
  obtain r w' where run: "saga_history demo_env demo_history ?w = (r, w')" by (metis surj_pair)
  have inv: "saga_inv demo_env (w_uuids ?w) (w_db ?w)" using saga_tables_inv by simp
  have "abs_saga (w_db ?w) ''s1'' = GaveUp 1" by (simp add: abs_saga_def abs_row_def)
  then show ?thesis
    using terminal_sagas_stay[OF demo_time_codec inv run, of "''s1''" 1] by (simp add: run)
qed

theorem saga_attempts_bounded_witness:
  "attempts_of (w_db (snd (saga_history demo_env demo_history (calm_world empty_sagas 5)))) ''s1'' \<le> 1440"
proof -
  let ?w = "calm_world empty_sagas 5 :: (saga_db, wire) world"
  obtain r w' where run: "saga_history demo_env demo_history ?w = (r, w')" by (metis surj_pair)
  have "saga_inv demo_env (w_uuids ?w) (w_db ?w)" "saga_instances (w_db ?w) = []"
    using empty_sagas_inv by (simp_all add: empty_sagas_def)
  moreover have "sorted (map (\<lambda>x. fst (fst x)) demo_history)" by (simp add: demo_history_def)
  ultimately show ?thesis
    using saga_attempts_bounded[OF demo_time_codec _ _ _ run] by (simp add: run)
qed

lemma demo_request_valid: "valid_request demo_env demo_request"
  by (simp add: valid_request_def demo_request_def validateAction_ok)

theorem request_starts_saga_witness:
  "\<exists>w'. HandleRequest demo_env New demo_request (calm_world empty_sagas 5) = (Inr (), w') \<and>
     saga_instances (w_db w') = [started_row demo_request 5 5] \<and> length (outbox_events (w_db w')) = 1"
  using request_starts_saga[OF demo_time_codec _ demo_request_valid, of "calm_world empty_sagas 5"] demo_fresh
  by (auto simp: empty_sagas_def saga_of_def)

theorem request_is_idempotent_witness:
  "let res = HandleRequest demo_env New demo_request (saga_world StatusCompleted 10)
   in fst res = Inr () \<and> w_db (snd res) = saga_tables StatusCompleted"
proof -
  obtain r w' where run: "HandleRequest demo_env New demo_request (saga_world StatusCompleted 10) = (r, w')"
    by (metis surj_pair)
  have "saga_of (w_db (saga_world StatusCompleted 10)) (sp_SagaID (Payload demo_request)) \<noteq> None"
    by (simp add: demo_request_def)
  from request_is_idempotent[OF this run] demo_request_valid show ?thesis
    by (simp add: run Let_def)
qed

theorem invalid_request_rejected_witness:
  "\<exists>e. HandleRequest demo_env New (demo_request\<lparr>EventType := ''x''\<rparr>) (calm_world empty_sagas 5)
     = (Inl e, calm_world empty_sagas 5)"
  using invalid_request_rejected[of demo_env "demo_request\<lparr>EventType := ''x''\<rparr>" "calm_world empty_sagas 5"]
  by (auto simp: valid_request_def event_defs)

theorem unexpected_ack_rejected_witness:
  "let res = HandleAck New (demo_ack EventRepoWatchStopped) (saga_world StatusRetrying 10)
   in (\<exists>e. fst res = Inl e) \<and> w_db (snd res) = saga_tables StatusRetrying"
proof -
  let ?w = "saga_world StatusRetrying 10" and ?ev = "demo_ack EventRepoWatchStopped"
  obtain r w' where run: "HandleAck New ?ev ?w = (r, w')" by (metis surj_pair)
  have "\<nexists>inst. ack_matches (w_db ?w) ?ev inst \<and> (success_ack ?ev \<or> EventType ?ev = EventRepoWatchFailed)"
    by (simp add: success_ack_def demo_ack_def repoWatchAckEventType_def)
  from unexpected_ack_rejected[OF this run] show ?thesis by (simp add: run)
qed

theorem ack_moves_its_saga_witness:
  "\<exists>w'. HandleAck New (demo_ack EventRepoWatchStarted) (saga_world StatusCommandSent 10) = (Inr (), w') \<and>
     abs_saga (w_db w') ''s1'' = Finished 1"
proof -
  let ?w = "saga_world StatusCommandSent 10" and ?ev = "demo_ack EventRepoWatchStarted"
  have match: "ack_matches (w_db ?w) ?ev (demo_saga StatusCommandSent)" and ok: "success_ack ?ev"
    by (simp_all add: ack_matches_def demo_ack_def validateAction_ok success_ack_def repoWatchAckEventType_def)
  have s: "abs_saga (w_db ?w) (ap_SagaID (Payload ?ev)) = InFlight 1 (5 + minute_ns) (5 + 24 * hour_ns)"
    by (simp add: demo_ack_def abs_saga_def abs_row_def)
  have "EventType ?ev \<noteq> EventRepoWatchFailed" "ap_SagaID (Payload ?ev) = ''s1''"
    by (simp_all add: demo_ack_def)
  then show ?thesis
    using ack_moves_its_saga[OF active_inv _ match s] ok by auto
qed

theorem sweep_retries_due_sagas_witness:
  "let w = saga_world StatusCommandSent (5 + minute_ns)
   in fst (RetryDue demo_env New 0 w) = Inr () \<and>
      abs_saga (w_db (snd (RetryDue demo_env New 0 w))) ''s1''
        = InFlight 2 (5 + minute_ns + 5 * minute_ns) (5 + 24 * hour_ns) \<and>
      (\<exists>e. outbox_events (w_db (snd (RetryDue demo_env New 0 w))) = outbox_events (w_db w) @ [e] \<and>
         command_of demo_env e = Some \<lparr>cp_SagaID = ''s1'', cp_Action = RepoWatchActionStart, cp_Repo = ''golang/go''\<rparr>)"
proof -
  let ?w = "saga_world StatusCommandSent (5 + minute_ns)"
  obtain r w' where run: "RetryDue demo_env New 0 ?w = (r, w')" by (metis surj_pair)
  have due: "swept demo_env ?w 0 = [demo_saga StatusCommandSent]"
    by (simp add: swept_def due_sagas_def select_where_def saga_tables_def saga_due_def DefaultRetryLimit_def)
  have "time_text demo_env (w_app_now ?w) \<noteq> None" by (simp add: durations)
  then have post: "r = Inr ()" "swept_to demo_env ?w 0 (w_db w')"
    using sweep_retries_due_sagas[OF demo_time_codec active_inv run] by simp_all
  have "retry_target (5 + minute_ns) (demo_saga StatusCommandSent)
      = InFlight 2 (5 + minute_ns + 5 * minute_ns) (5 + 24 * hour_ns)"
    by (simp add: retry_target_def retryDelay_cases durations)
  moreover have "5 + minute_ns < sg_DeadlineAt (demo_saga StatusCommandSent)" by (simp add: durations)
  ultimately show ?thesis
    using post unfolding Let_def run snd_conv fst_conv swept_to_def due by (auto simp: watch_command_for_def)
qed

definition demo_log :: "kafka_message list" where
  "demo_log = [\<lparr>km_Topic = TopicWatchlistSagaRequests, km_Partition = 0, km_Offset = 0, km_Key = ''golang/go'',
     km_Value = (case encode_envelope demo_env (\<lambda>p. Inr (encode_saga p)) demo_request of
       Inl _ \<Rightarrow> None | Inr v \<Rightarrow> Some v)\<rparr>]"

theorem committed_requests_have_sagas_witness:
  "let w' = snd (sessions demo_env requestConsumer (request_handler demo_env New) demo_log
       [[((5, 5), False)], [((6, 6), False)]] (calm_world empty_sagas 5))
   in commits (w_trace w') = map commit_of (take (length (commits (w_trace w'))) demo_log)"
proof -
  obtain r w' where run: "sessions demo_env requestConsumer (request_handler demo_env New) demo_log
       [[((5, 5), False)], [((6, 6), False)]] (calm_world empty_sagas 5) = (r, w')" by (metis surj_pair)
  show ?thesis
    using committed_requests_have_sagas[OF _ run, unfolded Let_def] unfolding Let_def run snd_conv by simp
qed

theorem committed_acks_are_applied_witness:
  "let w' = snd (sessions demo_env ackConsumer (ack_handler demo_env New) demo_log
       [[((5, 5), False)], [((6, 6), False)]] (calm_world empty_sagas 5))
   in commits (w_trace w') = map commit_of (take (length (commits (w_trace w'))) demo_log)"
proof -
  obtain r w' where run: "sessions demo_env ackConsumer (ack_handler demo_env New) demo_log
       [[((5, 5), False)], [((6, 6), False)]] (calm_world empty_sagas 5) = (r, w')" by (metis surj_pair)
  show ?thesis
    using committed_acks_are_applied[OF _ run, unfolded Let_def] unfolding Let_def run snd_conv by simp
qed

end
