(* ===== verification/Scanner_Scan.thy ===== *)
theory Scanner_Scan
  imports Scanner_Results
begin

text \<open>
  What one scan achieves when the calls of the scanner go through, whatever Redis and GitHub
  answer: the repositories are isolated from each other, and every new tag is recorded.
\<close>

text \<open>The answer of the provider at a moment, as a function of what the two systems reply.\<close>

definition http_answer :: "http_server \<Rightarrow> string \<Rightarrow> int \<Rightarrow> string \<Rightarrow> goerr + string" where
  "http_answer server baseURL now repo =
     (case server now (latest_link (NewHTTPReleaseProvider baseURL) repo) of
        HttpFailed e \<Rightarrow> Inl (Plain e)
      | HttpReply code body \<Rightarrow>
          if code = 404 then Inr ''''
          else if code = 429 then Inl (Plain ''github rate limit exceeded'')
          else if code \<noteq> 200 then Inl (Plain (''github error: '' @ int_text code))
          else decode_tag_name body)"

definition provider_answer :: "redis \<Rightarrow> http_server \<Rightarrow> string \<Rightarrow> int \<Rightarrow> string \<Rightarrow> goerr + string" where
  "provider_answer entries server baseURL now repo =
     (case entries now (cacheKeyPrefix @ repo) of
        Some tag \<Rightarrow> if tag \<noteq> '''' then Inr tag else http_answer server baseURL now repo
      | None \<Rightarrow> http_answer server baseURL now repo)"

lemma run_http:
  "w_script w = [] \<Longrightarrow> HTTP_GetLatestTag server (NewHTTPReleaseProvider baseURL) repo w
     = (http_answer server baseURL (w_app_now w) repo, w)"
  by (simp add: HTTP_GetLatestTag_def http_get_def http_answer_def exec_simps StatusOK_def StatusNotFound_def
      StatusTooManyRequests_def split: http_reply.split)

lemma run_provider:
  "w_script w = [] \<Longrightarrow> scanner_provider entries server baseURL repo w
     = (provider_answer entries server baseURL (w_app_now w) repo, w)"
  by (simp add: scanner_provider_def Cached_GetLatestTag_def RedisCache_def provider_answer_def exec_simps Let_def
      run_http split: option.split sum.split)

lemma scanner_process_sel:
  "ss_ClaimDue (sc_repo (scanner_process E entries server baseURL n t)) = ClaimDue E"
  "sc_batchSize (scanner_process E entries server baseURL n t) = (if n \<le> 0 then 100 else nat n)"
  "sc_scanBackoff (scanner_process E entries server baseURL n t) = (if t \<le> 0 then 30 * second_ns else t)"
  by (simp_all add: scanner_process_def NewService_def scanner_repository_def)

lemma calm_ClaimDue:
  assumes "w_script w = []"
  shows "wp (ClaimDue E n t) (\<lambda>_ w'. w_script w' = []) (\<lambda>_ _. False) w"
proof -
  let ?open = "\<lambda>w :: ('d scanner_db_scheme, wire) world. w_script w = [] \<and> (\<exists>d. w_tx w = Some \<lparr>tx_db = d, tx_aborted = False\<rparr>)"
  have loop: "wp (for_each (\<lambda>repo. annot (errorf (g repo)) (tx_stmt (sql_reserve (wd_Repo repo) t))) repos)
      (\<lambda>_ w2. wp (annot h commit_tx) (\<lambda>_ w'. w_script w' = []) (\<lambda>_ _. False) w2) (\<lambda>_ _. False) w1"
    if "?open w1" for g h repos w1
    using that by (rule wp_for_each[where I = "\<lambda>_. ?open"])
      (auto simp: wp_simps sql_reserve_def)
  show ?thesis
    unfolding ClaimDue_def using assms
    by (simp add: wp_with_tx wp_bnd wp_annot[of _ "tx_stmt _"] wp_tx_stmt wp_ret sql_due_repos_def del: append.simps)
      (rule loop; simp)
qed

lemma calm_MarkReleaseDetected:
  assumes "w_script w = []" and "time_text E (w_app_now w) \<noteq> None"
  shows "wp (MarkReleaseDetected E repo tag c) (\<lambda>_ w'. w_script w' = []) (\<lambda>_ _. False) w"
proof -
  let ?ev = "buildReleaseDetectedEvent repo tag (uuid_gen E (w_uuids w)) c (w_app_now w)"
  obtain v where "encode_envelope E (\<lambda>p. Inr (encode_release p)) ?ev = Inr v"
    using assms(2) by (auto simp: encode_envelope_def encode_not_before_def buildReleaseDetectedEvent_def)
  then show ?thesis
    unfolding MarkReleaseDetected_def insertRelease_def Let_def using assms(1)
    by (simp add: wp_simps sql_insert_release_def sql_set_last_seen_def sql_insert_outbox_def InsertTx_def)
qed

text \<open>A release of a claimed repository that the scan has to record.\<close>

definition new_tag :: "redis \<Rightarrow> http_server \<Rightarrow> string \<Rightarrow> int \<Rightarrow> watched_repo \<Rightarrow> string \<Rightarrow> bool" where
  "new_tag entries server baseURL now x tag =
     (provider_answer entries server baseURL now (wd_Repo x) = Inr tag \<and> tag \<noteq> '''' \<and> tag \<noteq> wd_LastSeenTag x)"

definition scanning ::
    "env \<Rightarrow> int \<Rightarrow> (string \<times> string) set \<Rightarrow> ('d scanner_db_scheme, wire) world \<Rightarrow> bool" where
  "scanning E now R w = (scanner_ok E w \<and> w_script w = [] \<and> w_app_now w = now \<and> R \<subseteq> detected_releases (w_db w))"

lemma scanRepo_records:
  fixes w :: "('d scanner_db_scheme, wire) world"
  assumes "scanning E now R w" and "time_text E now \<noteq> None"
  shows "wp (attempt (scanRepo (scanner_process E entries server baseURL n t) x c))
    (\<lambda>_. scanning E now (R \<union> {(wd_Repo x, tag) | tag. new_tag entries server baseURL now x tag})) (\<lambda>_ _. False) w"
proof -
  have w: "scanner_ok E w" "w_script w = []" "w_app_now w = now"
    using assms(1) by (simp_all add: scanning_def)
  let ?s = "scanner_process E entries server baseURL n t"
  show ?thesis
  proof (cases "\<exists>tag. new_tag entries server baseURL now x tag")
    case False
    then have "scanRepo ?s x c w = (Inr (), w) \<or> (\<exists>e. scanRepo ?s x c w = (Inl e, w))"
      using run_provider[OF w(2), of entries server baseURL "wd_Repo x"] w(3)
      by (cases "provider_answer entries server baseURL now (wd_Repo x)")
        (auto simp: scanRepo_def scanner_process_def NewService_def exec_simps new_tag_def)
    then show ?thesis
      using assms(1) False by (auto simp: wp_def attempt_def)
  next
    case True
    then obtain tag where tag: "new_tag entries server baseURL now x tag" by blast
    then have only: "{(wd_Repo x, tag) | tag. new_tag entries server baseURL now x tag} = {(wd_Repo x, tag)}"
      by (auto simp: new_tag_def)
    have run: "scanRepo ?s x c w = bnd (MarkReleaseDetected E (wd_Repo x) tag c) (\<lambda>_. ret ()) w"
      using tag run_provider[OF w(2), of entries server baseURL "wd_Repo x"] w(3)
      by (simp add: scanRepo_def scanner_process_def NewService_def scanner_repository_def exec_simps new_tag_def)
    have "wp (MarkReleaseDetected E (wd_Repo x) tag c) (\<lambda>_ w'. scanner_ok E w' \<and> w_app_now w' = now \<and>
        insert (wd_Repo x, tag) R \<subseteq> detected_releases (w_db w')) (\<lambda>_ _. True) w"
      by (rule tx_wp_wp[OF MarkReleaseDetected_tx[OF w(1)]])
        (use w assms(1) in \<open>auto simp: scanner_ok_def outside_def scanning_def release_recorded_def\<close>)
    moreover have "wp (MarkReleaseDetected E (wd_Repo x) tag c) (\<lambda>_ w'. w_script w' = []) (\<lambda>_ _. False) w"
      by (rule calm_MarkReleaseDetected) (use w assms(2) in simp_all)
    ultimately show ?thesis
      unfolding only wp_attempt by (auto simp: wp_def run bnd_def ret_def scanning_def split: sum.splits prod.splits)
  qed
qed

definition new_tags :: "redis \<Rightarrow> http_server \<Rightarrow> string \<Rightarrow> int \<Rightarrow> watched_repo list \<Rightarrow> (string \<times> string) set" where
  "new_tags entries server baseURL now xs =
     (\<Union>x \<in> set xs. {(wd_Repo x, tag) | tag. new_tag entries server baseURL now x tag})"

lemma scan_loop_records:
  fixes w :: "('d scanner_db_scheme, wire) world"
  assumes "scanning E now {} w" and "time_text E now \<noteq> None"
  shows "wp (for_each (\<lambda>x. bnd (attempt (scanRepo (scanner_process E entries server baseURL n t) x c)) (\<lambda>_. ret ())) xs)
    (\<lambda>_ w'. new_tags entries server baseURL now xs \<subseteq> detected_releases (w_db w')) (\<lambda>_ _. False) w"
proof -
  let ?s = "scanner_process E entries server baseURL n t" and ?new = "new_tags entries server baseURL now"
  show ?thesis
  proof (rule wp_for_each[where I = "\<lambda>zs w1. \<exists>ys. xs = ys @ zs \<and> scanning E now (?new ys) w1"])
    show "\<exists>ys. xs = ys @ xs \<and> scanning E now (?new ys) w" using assms(1) by (auto simp: new_tags_def)
    fix x zs w2
    assume "\<exists>ys. xs = ys @ x # zs \<and> scanning E now (?new ys) w2"
    then obtain ys where ys: "xs = ys @ x # zs" "scanning E now (?new ys) w2" by blast
    have "wp (attempt (scanRepo ?s x c)) (\<lambda>_. scanning E now (?new (ys @ [x]))) (\<lambda>_ _. False) w2"
      using scanRepo_records[OF ys(2) assms(2), of entries server baseURL n t x c] by (simp add: new_tags_def Un_commute)
    then show "wp (bnd (attempt (scanRepo ?s x c)) (\<lambda>_. ret ()))
        (\<lambda>_ w1. \<exists>ys. xs = ys @ zs \<and> scanning E now (?new ys) w1) (\<lambda>_ _. False) w2"
      unfolding wp_bnd wp_ret by (rule wp_mono) (use ys(1) in \<open>auto intro!: exI[of _ "ys @ [x]"]\<close>)
  qed (auto simp: scanning_def)
qed

lemma claimed_for_scanning:
  assumes "scanner_ok E w" and "w_script w = []"
  shows "wp (ClaimDue E k t)
    (\<lambda>repos w1. repos = due_repos E k (w_pg_now w) (watchlist (w_db w)) \<and> scanning E (w_app_now w) {} w1) (\<lambda>_ _. False) w"
proof -
  have "wp (ClaimDue E k t) (\<lambda>repos w1. repos = due_repos E k (w_pg_now w) (watchlist (w_db w)) \<and> scanner_ok E w1 \<and>
      w_app_now w1 = w_app_now w) (\<lambda>_ _. True) w"
    by (rule tx_wp_wp[OF ClaimDue_tx]) (use assms(1) in \<open>auto simp: claim_done_def scanner_ok_def outside_def\<close>)
  with calm_ClaimDue[OF assms(2), of E k t] show ?thesis
    by (auto simp: wp_def scanning_def split: sum.splits prod.splits)
qed

lemma due_repos_all:
  assumes "affected (watch_due E now) rows \<le> n" and "r \<in> set rows" and "watch_due E now r"
  shows "\<lparr>wd_Repo = wr_Repo r, wd_LastSeenTag = wr_LastSeenTag r\<rparr> \<in> set (due_repos E n now rows)"
  using assms by (auto simp: due_repos_def select_where_def affected_def intro!: image_eqI[of _ _ r])

text \<open>
  C30. One scan isolates its repositories: when the database and Kafka calls go through, a scan
  returns without an error whatever Redis and GitHub answer for each repository, and for every
  repository of its batch for which they answer with a tag that is new this release is recorded,
  the others' errors notwithstanding.  The batch has as many of the due repositories as the
  configured limit allows (100 when none is configured), so when no more than that are due, this
  holds for every due repository of the watch list; the others are left to a later scan.
\<close>

theorem scan_isolates_repos:
  assumes "time_codec E" and "uuids_fresh E (w_uuids w) (outbox_events (w_db w))"
    and "w_script w = []" and "time_text E (w_app_now w) \<noteq> None"
  shows "let limit = (if n \<le> 0 then 100 else nat n); rows = watchlist (w_db w); due = watch_due E (w_pg_now w);
             batch = due_repos E limit (w_pg_now w) rows
    in length batch = min limit (affected due rows) \<and>
       (\<exists>w'. ScanOnce E (scanner_process E entries server baseURL n t) w = (Inr (), w') \<and>
          (\<forall>x \<in> set batch. \<forall>tag. new_tag entries server baseURL (w_app_now w) x tag \<longrightarrow>
             (wd_Repo x, tag) \<in> detected_releases (w_db w')) \<and>
          (affected due rows \<le> limit \<longrightarrow> (\<forall>r \<in> set rows. \<forall>tag. due r \<and>
             new_tag entries server baseURL (w_app_now w) \<lparr>wd_Repo = wr_Repo r, wd_LastSeenTag = wr_LastSeenTag r\<rparr> tag \<longrightarrow>
             (wr_Repo r, tag) \<in> detected_releases (w_db w'))))"
proof -
  let ?s = "scanner_process E entries server baseURL n t" and ?now = "w_app_now w"
  define k where "k = (if n \<le> 0 then 100 else nat n)"
  let ?due = "due_repos E k (w_pg_now w) (watchlist (w_db w))"
  let ?found = "\<lambda>w'. new_tags entries server baseURL ?now ?due \<subseteq> detected_releases (w_db w')"
  have ok: "scanner_ok E w" using assms(1,2) by (simp add: scanner_ok_def)
  have uuid: "scanning E ?now {} (w1\<lparr>w_uuids := Suc (w_uuids w1)\<rparr>)" if "scanning E ?now {} w1" for w1
    using that by (auto simp: scanning_def scanner_ok_def intro: uuids_fresh_mono)
  have "wp (ScanOnce E ?s) (\<lambda>_. ?found) (\<lambda>_ _. False) w"
    unfolding ScanOnce_def scanner_process_sel k_def[symmetric] wp_bnd[of "ClaimDue _ _ _"]
  proof (rule wp_mono[OF claimed_for_scanning[OF ok assms(3)]])
    fix repos w1
    assume w1: "repos = ?due \<and> scanning E ?now {} w1"
    show "wp (if repos = [] then ret () else bnd (new_uuid (uuid_gen E)) (\<lambda>c.
        for_each (\<lambda>x. bnd (attempt (scanRepo ?s x c)) (\<lambda>_. ret ())) repos)) (\<lambda>_. ?found) (\<lambda>_ _. False) w1"
      using w1 scan_loop_records[OF uuid[of w1] assms(4)]
      by (cases "repos = []") (simp_all add: wp_bnd[of "new_uuid _"] wp_new_uuid wp_ret new_tags_def)
  qed simp
  then obtain w' where run: "ScanOnce E ?s w = (Inr (), w')" and found: "?found w'"
    using wp_returns by fastforce
  have "(wr_Repo r, tag) \<in> detected_releases (w_db w')"
    if "affected (watch_due E (w_pg_now w)) (watchlist (w_db w)) \<le> k" "r \<in> set (watchlist (w_db w))"
      "watch_due E (w_pg_now w) r"
      "new_tag entries server baseURL ?now \<lparr>wd_Repo = wr_Repo r, wd_LastSeenTag = wr_LastSeenTag r\<rparr> tag" for r tag
    using found due_repos_all[OF that(1-3)] that(4) by (force simp: new_tags_def)
  moreover have "(wd_Repo x, tag) \<in> detected_releases (w_db w')"
    if "x \<in> set ?due" "new_tag entries server baseURL ?now x tag" for x tag
    using found that by (force simp: new_tags_def)
  moreover have "length ?due = min k (affected (watch_due E (w_pg_now w)) (watchlist (w_db w)))"
    by (simp add: due_repos_def length_select_where)
  ultimately show ?thesis
    unfolding Let_def k_def[symmetric] using run by blast
qed

end
