(* ===== verification/Scanner_Witnesses.thy ===== *)
theory Scanner_Witnesses
  imports Scanner_Consumer Scanner_Scan Demo_Env
begin

text \<open>Concrete runs of the scanner, at which the hypotheses of its properties hold.\<close>

definition demo_row :: "string \<Rightarrow> watch_row" where
  "demo_row repo = \<lparr>wr_Repo = repo, wr_LastSeenTag = '''', wr_NextScanAt = 3\<rparr>"

definition demo_watchlist :: scanner_db where
  "demo_watchlist = \<lparr>outbox_events = [], watchlist = [demo_row ''golang/go'', demo_row ''a/b''], releases = []\<rparr>"

definition demo_start :: "command_payload envelope" where
  "demo_start = \<lparr>EventID = ''m1'', EventType = EventStartWatchingRepo, OccurredAt = 5,
     Source = ''orchestrator'', CorrelationID = ''c1'', NotBefore = None,
     Payload = \<lparr>cp_SagaID = ''s1'', cp_Action = RepoWatchActionStart, cp_Repo = ''x/y''\<rparr>\<rparr>"

definition wire_of :: "goerr + json \<Rightarrow> wire" where
  "wire_of r = (case r of Inl _ \<Rightarrow> None | Inr v \<Rightarrow> Some v)"

definition demo_start_value :: wire where
  "demo_start_value = wire_of (encode_envelope demo_env (\<lambda>p. Inr (encode_command p)) demo_start)"

lemma decode_demo_start: "decode_envelope demo_env decode_command demo_start_value = Inr demo_start"
proof -
  obtain v where v: "encode_envelope demo_env (\<lambda>p. Inr (encode_command p)) demo_start = Inr v"
    by (simp add: encode_envelope_def encode_not_before_def demo_start_def)
  show ?thesis
    unfolding demo_start_value_def v wire_of_def sum.case
    by (rule envelope_round_trip[OF demo_time_codec command_codec v])
qed

lemma demo_start_valid: "check_command demo_start = None" "valid_command demo_start"
  by (simp_all add: check_command_iff valid_command_def demo_start_def commandEventType_def)

text \<open>GitHub knows one of the two repositories, and has a fault for the other.\<close>

definition demo_github :: http_server where
  "demo_github now link =
     (if link = latest_link defaultBaseURL ''golang/go'' then HttpReply 200 (Some (JObj [(''tag_name'', JStr ''v1'')]))
      else HttpFailed ''no route'')"

abbreviation demo_scanner :: "scanner_db scanner_service" where
  "demo_scanner \<equiv> scanner_process demo_env (\<lambda>_ _. None) demo_github '''' 10 1000000"

lemma demo_scanner_fresh:
  "uuids_fresh demo_env (w_uuids (calm_world demo_watchlist t)) (outbox_events (w_db (calm_world demo_watchlist t)))"
  using inj_dec_text by (auto simp: uuids_fresh_def inj_def demo_watchlist_def)

definition scanner_run :: "((int \<times> int) \<times> scanner_op) list" where
  "scanner_run = [((10, 10), OpScan), ((20, 20), OpCommand demo_start_value), ((30, 30), OpScan)]"

theorem releases_announced_once_witness:
  "let d = w_db (snd (scanner_history demo_env demo_scanner scanner_run (calm_world demo_watchlist 5)))
   in distinct (announced_releases demo_env d) \<and> set (announced_releases demo_env d) = detected_releases d"
proof -
  let ?w = "calm_world demo_watchlist 5 :: (scanner_db, wire) world"
  obtain r w' where run: "scanner_history demo_env demo_scanner scanner_run ?w = (r, w')" by (metis surj_pair)
  have "announced_releases demo_env demo_watchlist = []" "detected_releases demo_watchlist = {}"
    by (simp_all add: announced_releases_def detected_releases_def demo_watchlist_def List.map_filter_def)
  then show ?thesis
    using releases_announced_once[OF demo_time_codec demo_scanner_fresh _ _ run] by (simp add: run)
qed

theorem claims_are_leases_witness:
  "\<exists>repos repos2 w1 w3. ClaimDue demo_env 5 1000000 (calm_world demo_watchlist 5) = (Inr repos, w1) \<and>
     ClaimDue demo_env 9 1000000 w1 = (Inr repos2, w3) \<and> wd_Repo ` set repos \<inter> wd_Repo ` set repos2 = {}"
proof -
  let ?w = "calm_world demo_watchlist 5 :: (scanner_db, wire) world"
  obtain repos w1 where c1: "ClaimDue demo_env 5 1000000 ?w = (Inr repos, w1)" "w_script w1 = []"
    using wp_returns[OF calm_ClaimDue, of ?w demo_env 5 1000000] by auto
  obtain repos2 w3 where c2: "ClaimDue demo_env 9 1000000 w1 = (Inr repos2, w3)"
    using wp_returns[OF calm_ClaimDue[OF c1(2)]] by blast
  have "w_pg_now w1 < w_pg_now ?w + durationInterval 1000000"
    using tx_wpD[OF c1(1) ClaimDue_tx] by (simp add: outside_def durationInterval_def)
  from claims_are_leases[OF c1(1) _ this c2] c1(1) c2 show ?thesis by blast
qed

theorem watch_command_applied_witness:
  "\<exists>w'. HandleWatchlistCommand demo_env demo_scanner demo_start_value (calm_world demo_watchlist 5) = (Inr (), w') \<and>
     watched (w_db w') = {''golang/go'', ''a/b'', ''x/y''} \<and> length (outbox_events (w_db w')) = 1"
proof -
  let ?w = "calm_world demo_watchlist 5 :: (scanner_db, wire) world"
  obtain r w' where run: "HandleWatchlistCommand demo_env demo_scanner demo_start_value ?w = (r, w')" by (metis surj_pair)
  from watch_command_applied[OF demo_time_codec demo_scanner_fresh decode_demo_start demo_start_valid(1) run]
  have "r = Inr ()" "command_applied demo_env (Payload demo_start) demo_watchlist (w_db w')" by simp_all
  moreover from this have "watched (w_db w') = insert ''x/y'' (watched demo_watchlist)"
      "length (outbox_events (w_db w')) = length (outbox_events demo_watchlist) + 1"
    by (auto simp: command_applied_def demo_start_def)
  moreover have "watched demo_watchlist = {''golang/go'', ''a/b''}" "outbox_events demo_watchlist = []"
    by (simp_all add: demo_watchlist_def watched_def demo_row_def)
  ultimately show ?thesis
    unfolding run prod.inject by (intro exI[of _ w']) (simp add: insert_commute)
qed

theorem skipped_commands_are_invalid_witness:
  "\<exists>e. HandleWatchlistCommand demo_env demo_scanner None (calm_world demo_watchlist 5)
     = (Inl e, calm_world demo_watchlist 5) \<and> errors_is e ErrNonRetryable"
proof -
  let ?w = "calm_world demo_watchlist 5 :: (scanner_db, wire) world"
  obtain r w' where run: "HandleWatchlistCommand demo_env demo_scanner None ?w = (r, w')" by (metis surj_pair)
  from skipped_commands_are_invalid[OF run] run show ?thesis by (auto simp: decode_envelope_def)
qed

definition demo_commands :: "kafka_message list" where
  "demo_commands =
     [\<lparr>km_Topic = TopicWatchlistCommands, km_Partition = 0, km_Offset = 0, km_Key = ''x/y'', km_Value = demo_start_value\<rparr>,
      \<lparr>km_Topic = TopicWatchlistCommands, km_Partition = 0, km_Offset = 1, km_Key = ''x/y'', km_Value = None\<rparr>]"

theorem committed_commands_are_acked_witness:
  "let w' = snd (sessions demo_env watchlistConsumer (command_handler demo_env demo_scanner) demo_commands
       [[((5, 5), False)], [((6, 6), False)]] (calm_world demo_watchlist 5))
   in commits (w_trace w') = map commit_of (take (length (commits (w_trace w'))) demo_commands)"
proof -
  obtain r w' where run: "sessions demo_env watchlistConsumer (command_handler demo_env demo_scanner) demo_commands
       [[((5, 5), False)], [((6, 6), False)]] (calm_world demo_watchlist 5) = (r, w')" by (metis surj_pair)
  show ?thesis
    using committed_commands_are_acked[OF demo_time_codec demo_scanner_fresh _ run, unfolded Let_def]
    unfolding Let_def run snd_conv by simp
qed

text \<open>Both repositories are due; GitHub has an answer for one of them only.\<close>

theorem scan_isolates_repos_witness:
  "\<exists>w'. ScanOnce demo_env demo_scanner (calm_world demo_watchlist 5) = (Inr (), w') \<and>
     (''golang/go'', ''v1'') \<in> detected_releases (w_db w')"
proof -
  let ?w = "calm_world demo_watchlist 5 :: (scanner_db, wire) world"
  let ?go = "\<lparr>wd_Repo = wr_Repo (demo_row ''golang/go''), wd_LastSeenTag = wr_LastSeenTag (demo_row ''golang/go'')\<rparr>"
  have due: "demo_row ''golang/go'' \<in> set (watchlist demo_watchlist)" "watch_due demo_env 5 (demo_row ''golang/go'')"
    "affected (watch_due demo_env 5) (watchlist demo_watchlist) = 2"
    by (simp_all add: demo_watchlist_def demo_row_def watch_due_def affected_def)
  have tag: "new_tag (\<lambda>_ _. None) demo_github '''' 5 ?go ''v1''"
    by (simp add: new_tag_def provider_answer_def http_answer_def demo_github_def demo_row_def NewHTTPReleaseProvider_def
        decode_tag_name_def decode_struct_def string_field_def set_members_def members_def typed_members_def last_or_def sum_map_def lower_char_def)
  have "w_script ?w = []" "time_text demo_env (w_app_now ?w) \<noteq> None" by simp_all
  from scan_isolates_repos[OF demo_time_codec demo_scanner_fresh this, of 10 "\<lambda>_ _. None" demo_github "''''" 1000000,
      unfolded Let_def calm_world_sel due(3)]
  obtain w' where "ScanOnce demo_env demo_scanner ?w = (Inr (), w')"
    and found: "\<And>r tag. r \<in> set (watchlist demo_watchlist) \<Longrightarrow> watch_due demo_env 5 r \<Longrightarrow>
       new_tag (\<lambda>_ _. None) demo_github '''' 5 \<lparr>wd_Repo = wr_Repo r, wd_LastSeenTag = wr_LastSeenTag r\<rparr> tag \<Longrightarrow>
       (wr_Repo r, tag) \<in> detected_releases (w_db w')" by auto
  moreover have "wr_Repo (demo_row ''golang/go'') = ''golang/go''" by (simp add: demo_row_def)
  ultimately show ?thesis using found[OF due(1,2) tag] by simp
qed

end
