(* ===== verification/Delivery_Witnesses.thy ===== *)
theory Delivery_Witnesses
  imports Delivery_Mail
begin

text \<open>Concrete runs of the notification service, at which the hypotheses of its properties hold.\<close>

definition demo_payload :: notification_payload where
  "demo_payload = \<lparr>np_NotificationID = ''n1'', np_IdempotencyKey = ''golang/go:v1:h'', np_RecipientEmail = ''a@b.co'',
     np_EmailHash = ''h'', np_Repo = ''golang/go'', np_Tag = ''v1'', np_Message = ''New release''\<rparr>"

definition demo_notification :: "notification_payload envelope" where
  "demo_notification = notification_event demo_payload ''e1'' ''e1'' 5 None"

definition demo_value :: wire where
  "demo_value = (case encode_envelope demo_env (\<lambda>p. Inr (encode_notification p)) demo_notification of
     Inl _ \<Rightarrow> None | Inr v \<Rightarrow> Some v)"

lemma decode_demo_value: "decode_envelope demo_env decode_notification demo_value = Inr demo_notification"
proof -
  obtain v where v: "encode_envelope demo_env (\<lambda>p. Inr (encode_notification p)) demo_notification = Inr v"
    by (simp add: encode_envelope_def encode_not_before_def demo_notification_def notification_event_def)
  show ?thesis
    unfolding demo_value_def v sum.case by (rule envelope_round_trip[OF demo_time_codec notification_codec v])
qed

lemma demo_notification_sel [simp]:
  "EventType demo_notification = EventNotificationRequested" "Payload demo_notification = demo_payload"
  by (simp_all add: demo_notification_def notification_event_def)

definition demo_smtp :: smtp_config where
  "demo_smtp = \<lparr>SMTPHost = ''mail'', SMTPPort = ''25'', SMTPEmail = '''', SMTPPassword = ''''\<rparr>"

definition failed_delivery :: delivery_row where
  "failed_delivery = retry_row ''refused'' 4 3 (pending_row demo_payload 2)"

definition sent_delivery :: delivery_row where
  "sent_delivery = sent_row 3 (pending_row demo_payload 2)"

definition delivery_tables :: "delivery_row list \<Rightarrow> delivery_db" where
  "delivery_tables rows = \<lparr>outbox_events = [], deliveries = rows\<rparr>"

abbreviation demo_mailer :: "delivery_db delivery_service" where
  "demo_mailer \<equiv> notification_process demo_env demo_smtp 3 [minute_ns, 10 * minute_ns]"

lemma demo_rows_ok: "delivery_row_ok 3 failed_delivery" "delivery_row_ok 3 sent_delivery"
  "abs_delivery failed_delivery = Scheduled 1 4" "abs_delivery sent_delivery = Delivered 0"
  "dr_IdempotencyKey failed_delivery = ''golang/go:v1:h''" "dr_IdempotencyKey sent_delivery = ''golang/go:v1:h''"
  by (simp_all add: failed_delivery_def sent_delivery_def delivery_row_ok_def abs_delivery_def attempts_ok_def
      retry_row_def sent_row_def pending_row_def demo_payload_def)

lemma demo_bound: "attempts_bound 3 = 3"
  by (simp add: attempts_bound_def)

lemma demo_tables_ok:
  assumes "\<forall>r \<in> set rows. delivery_row_ok 3 r" and "length rows \<le> 1"
  shows "delivery_ok demo_env (attempts_bound 3) (calm_world (delivery_tables rows) t)"
proof -
  from assms(2) have "rows = [] \<or> (\<exists>r. rows = [r])" by (cases rows) auto
  then show ?thesis
    using assms(1) demo_time_codec inj_dec_text
    by (auto simp: delivery_ok_def deliveries_ok_def delivery_tables_def demo_bound uuids_fresh_def inj_def keyed_def)
qed

theorem delivery_refines_machine_witness:
  "let w = calm_world (delivery_tables [failed_delivery]) 10; w' = snd (delivery_exec demo_env demo_mailer (OpRequeue 5) w)
   in \<forall>k. (delivery_step 3 (delivery_retryDelay [minute_ns, 10 * minute_ns]) 10 10)\<^sup>*\<^sup>* (abs_table (w_db w) k) (abs_table (w_db w') k)"
proof -
  let ?w = "calm_world (delivery_tables [failed_delivery]) 10 :: (delivery_db, wire) world"
  obtain r w' where run: "delivery_exec demo_env demo_mailer (OpRequeue 5) ?w = (r, w')" by (metis surj_pair)
  have "delivery_ok demo_env (attempts_bound 3) ?w" by (rule demo_tables_ok) (simp_all add: demo_rows_ok)
  from delivery_refines_machine[OF this run] show ?thesis by (simp add: run Let_def demo_bound)
qed

definition demo_deliveries :: "((int \<times> int) \<times> delivery_op) list" where
  "demo_deliveries = [((10, 10), OpNotify demo_value), ((20, 20), OpRequeue 0), ((30, 30), OpNotify demo_value)]"

theorem finished_deliveries_stay_witness:
  "abs_table (w_db (snd (delivery_history demo_env demo_mailer demo_deliveries
     (calm_world (delivery_tables [sent_delivery]) 5)))) ''golang/go:v1:h'' = Delivered 0"
proof -
  let ?w = "calm_world (delivery_tables [sent_delivery]) 5 :: (delivery_db, wire) world"
  obtain r w' where run: "delivery_history demo_env demo_mailer demo_deliveries ?w = (r, w')" by (metis surj_pair)
  have "delivery_ok demo_env (attempts_bound 3) ?w" by (rule demo_tables_ok) (simp_all add: demo_rows_ok)
  moreover have "abs_table (w_db ?w) ''golang/go:v1:h'' = Delivered 0"
    by (simp add: abs_table_def delivery_of_def delivery_tables_def demo_rows_ok)
  ultimately show ?thesis
    using finished_deliveries_stay[OF _ _ run, of "''golang/go:v1:h''"] by (simp add: run)
qed

theorem delivery_attempts_bounded_witness:
  "dr_AttemptCount ` set (deliveries (w_db (snd (delivery_history demo_env demo_mailer demo_deliveries
     (calm_world (delivery_tables [failed_delivery]) 5))))) \<subseteq> {0..3}"
proof -
  let ?w = "calm_world (delivery_tables [failed_delivery]) 5 :: (delivery_db, wire) world"
  obtain r w' where run: "delivery_history demo_env demo_mailer demo_deliveries ?w = (r, w')" by (metis surj_pair)
  have "delivery_ok demo_env (attempts_bound 3) ?w" by (rule demo_tables_ok) (simp_all add: demo_rows_ok)
  from delivery_attempts_bounded[OF this run] show ?thesis by (auto simp: run demo_bound)
qed

theorem command_is_settled_witness:
  "let res = notification_handler demo_env demo_mailer ''h'' demo_value (calm_world (delivery_tables [sent_delivery]) 5)
   in w_trace (snd res) = [] \<and> abs_table (w_db (snd res)) ''golang/go:v1:h'' = Delivered 0"
proof -
  let ?w = "calm_world (delivery_tables [sent_delivery]) 5 :: (delivery_db, wire) world"
  obtain r w' where run: "notification_handler demo_env demo_mailer ''h'' demo_value ?w = (r, w')" by (metis surj_pair)
  have ok: "delivery_ok demo_env (attempts_bound 3) ?w" by (rule demo_tables_ok) (simp_all add: demo_rows_ok)
  have x: "abs_table (w_db ?w) (np_IdempotencyKey demo_payload) = Delivered 0" "np_IdempotencyKey demo_payload = ''golang/go:v1:h''"
    by (simp_all add: abs_table_def delivery_of_def delivery_tables_def demo_rows_ok demo_payload_def)
  show ?thesis
    using command_is_settled[OF ok decode_demo_value _ run, unfolded Let_def demo_notification_sel x(1)] x
    by (simp add: run)
qed

definition demo_notifications :: "kafka_message list" where
  "demo_notifications = [\<lparr>km_Topic = TopicNotificationCommands, km_Partition = 0, km_Offset = 0, km_Key = ''h'', km_Value = demo_value\<rparr>]"

theorem committed_notifications_settled_witness:
  "let w' = snd (sessions demo_env notificationConsumer (notification_handler demo_env demo_mailer) demo_notifications
       [[((5, 5), False)], [((6, 6), False)]] (calm_world (delivery_tables []) 5))
   in commits (w_trace w') = map commit_of (take (length (commits (w_trace w'))) demo_notifications)"
proof -
  let ?w = "calm_world (delivery_tables []) 5 :: (delivery_db, wire) world"
  obtain r w' where run: "sessions demo_env notificationConsumer (notification_handler demo_env demo_mailer) demo_notifications
       [[((5, 5), False)], [((6, 6), False)]] ?w = (r, w')" by (metis surj_pair)
  have "delivery_ok demo_env (attempts_bound 3) ?w" by (rule demo_tables_ok) simp_all
  from committed_notifications_settled[OF this _ run, unfolded Let_def] show ?thesis
    unfolding Let_def run snd_conv by simp
qed

theorem retry_batch_requeues_witness:
  "let w' = snd (EnqueueDueRetries demo_env 5 (calm_world (delivery_tables [failed_delivery]) 10))
   in w_db w' = delivery_tables [failed_delivery] \<or> length (outbox_events (w_db w')) = 1"
proof -
  let ?w = "calm_world (delivery_tables [failed_delivery]) 10 :: (delivery_db, wire) world"
  obtain r w' where run: "EnqueueDueRetries demo_env 5 ?w = (r, w')" by (metis surj_pair)
  have ok: "delivery_ok demo_env (attempts_bound 3) ?w" by (rule demo_tables_ok) (simp_all add: demo_rows_ok)
  have "due_retries demo_env 5 10 [failed_delivery] = [failed_delivery]"
    by (simp add: due_retries_def select_where_def retry_due_def failed_delivery_def retry_row_def)
  then have "length (due_retries demo_env (if (5::int) \<le> 0 then 100 else nat 5) (w_pg_now ?w) (deliveries (w_db ?w))) = 1"
    by (simp add: delivery_tables_def)
  moreover have "outbox_events (w_db ?w) = []" by (simp add: delivery_tables_def)
  ultimately show ?thesis
    using retry_batch_requeues[OF ok run, unfolded Let_def] unfolding Let_def run snd_conv
    by (metis append_Nil calm_world_sel(1) length_map)
qed

theorem delivery_retryDelay_schedule_witness:
  "delivery_retryDelay [minute_ns, 10 * minute_ns] 7 = 10 * minute_ns"
  using delivery_retryDelay_schedule[of 7 "[minute_ns, 10 * minute_ns]"] by simp

theorem mail_header_is_fixed_witness:
  "\<exists>h. split_blank (mail_text (senderAddress demo_smtp) ''a@b.co'' ''hello'') = Some (h, ''hello'')"
  using mail_header_is_fixed[of demo_smtp "''a@b.co''" "''hello''"]
  by (auto simp: one_line_def senderAddress_def demo_smtp_def)

text \<open>A second and last attempt, whose dead letter cannot be published, and the command delivered again.\<close>

theorem dead_letter_can_be_lost_witness:
  "\<exists>e w1 w2. Process (notification_process demo_env demo_smtp 2 []) demo_payload
     ((calm_world (delivery_tables [failed_delivery]) 5)\<lparr>w_script := [Succeed, Fail ''smtp'', Succeed, Fail ''kafka'']\<rparr>) = (Inl e, w1) \<and>
     Process (notification_process demo_env demo_smtp 2 []) demo_payload (w1\<lparr>w_script := []\<rparr>) = (Inr (), w2) \<and>
     abs_table (w_db w2) (np_IdempotencyKey demo_payload) = GivenUp 2 \<and>
     (\<forall>key v. Published TopicNotificationDLQ key v \<notin> set (w_trace w2))"
proof -
  let ?w = "(calm_world (delivery_tables [failed_delivery]) 5 :: (delivery_db, wire) world)
    \<lparr>w_script := [Succeed, Fail ''smtp'', Succeed, Fail ''kafka'']\<rparr>"
  let ?s = "notification_process demo_env demo_smtp 2 []" and ?k = "np_IdempotencyKey demo_payload"
  have "abs_table (w_db ?w) ?k = Scheduled 1 4"
    by (simp add: abs_table_def delivery_of_def delivery_tables_def lookup_row_def demo_rows_ok demo_payload_def)
  then have live: "live (abs_table (w_db ?w) ?k) = Some 1 \<or> abs_table (w_db ?w) ?k = Unseen \<and> (1 :: int) = 0 \<and>
      np_NotificationID demo_payload \<notin> dr_NotificationID ` set (deliveries (w_db ?w))" by simp
  have "attempts_bound 2 \<le> 1 + 1" "one_line (senderAddress demo_smtp)" "one_line (np_RecipientEmail demo_payload)"
    by (simp_all add: attempts_bound_def one_line_def senderAddress_def demo_smtp_def demo_payload_def)
  note at = dead_letter_can_be_lost[OF this(1) live this(2,3), of "Fail ''smtp''" "[Succeed, Fail ''kafka'']" demo_env "[]"]
  obtain e w1 tr where one: "Process ?s demo_payload ?w = (Inl e, w1)" "abs_table (w_db w1) ?k = GivenUp 2"
    "w_trace w1 = w_trace ?w @ tr" "set tr \<subseteq> {mail_of demo_smtp (np_RecipientEmail demo_payload) (np_Message demo_payload)}"
    and again: "\<forall>w2 :: (delivery_db, wire) world. abs_table (w_db w2) ?k = abs_table (w_db w1) ?k \<longrightarrow>
      (\<exists>r w3. Process ?s demo_payload w2 = (r, w3) \<and> w_db w3 = w_db w2 \<and> w_trace w3 = w_trace w2 \<and> (next_o w2 = Succeed \<longrightarrow> r = Inr ()))"
    using at by force
  obtain w2 where two: "Process ?s demo_payload (w1\<lparr>w_script := []\<rparr>) = (Inr (), w2)" "w_db w2 = w_db w1" "w_trace w2 = w_trace w1"
    using again[rule_format, of "w1\<lparr>w_script := []\<rparr>"] by (auto simp: next_o_def)
  then show ?thesis using one by (auto simp: mail_of_def)
qed

end
