(* ===== verification/System_Witnesses.thy ===== *)
theory System_Witnesses
  imports System Subscription_Witnesses Saga_Witnesses Scanner_Witnesses Delivery_Witnesses
begin

text \<open>Concrete runs of the interfaces and of the services together.\<close>

definition demo_headers :: "string \<Rightarrow> string" where
  "demo_headers k = (if k = ''X-API-Key'' then ''key'' else if k = Request_Header then ''req-1'' else '''')"

definition demo_subscribe :: request where
  "demo_subscribe = \<lparr>rq_Method = ''POST'', rq_FullPath = ''/api/subscribe'', rq_Header = demo_headers,
     rq_Query = (\<lambda>_. ''''), rq_Param = (\<lambda>_. ''''),
     rq_Body = Some (JObj [(''email'', JStr ''a@b.co''), (''repo'', JStr ''golang/go'')])\<rparr>"

definition demo_link :: "string \<Rightarrow> request" where
  "demo_link path = \<lparr>rq_Method = ''GET'', rq_FullPath = path, rq_Header = demo_headers,
     rq_Query = (\<lambda>_. ''''), rq_Param = (\<lambda>_. ''t1''), rq_Body = None\<rparr>"

definition demo_other :: "request \<Rightarrow> response" where
  "demo_other rq = \<lparr>ht_Status = 404, ht_JSON = JNull\<rparr>"

theorem subscribe_over_http_witness:
  "let (r, w') = serve demo_env (api_deps demo_env ''key'' demo_notifier demo_client) demo_other demo_subscribe (api_world [])
   in \<exists>i rp. r = Inr (i, rp) \<and> ht_Status rp \<noteq> 401 \<and> length (subscriptions (w_db w')) \<le> 1"
proof -
  obtain r w' where run: "serve demo_env (api_deps demo_env ''key'' demo_notifier demo_client) demo_other demo_subscribe (api_world [])
    = (r, w')" by (metis surj_pair)
  have ok: "api_ok demo_env (api_world [])" by (rule demo_api_ok) simp
  have "(rq_Method demo_subscribe, rq_FullPath demo_subscribe) = (''POST'', ''/api/subscribe'')"
    by (simp add: demo_subscribe_def)
  from subscribe_over_http[OF ok demo_plain this run] obtain i rp where r: "r = Inr (i, rp)"
    and key: "(ht_Status rp = 401) = (''key'' \<noteq> '''' \<and> rq_Header demo_subscribe ''X-API-Key'' \<noteq> ''key'')"
    and rest: "if ht_Status rp \<in> {400, 401} then w_db w' = w_db (api_world []) \<and> w_trace w' = w_trace (api_world [])
      else \<exists>input. bind_subscription (rq_Body demo_subscribe) = Inr input \<and> matches emailPattern (su_Email input) \<and>
        matches repoPattern (su_Repo input) \<and> subscribe_status ''http://api'' ''http://mail/'' (context_id i) (su_Email input)
          (su_Repo input) (ht_Status rp) (api_world []) w'"
    by (elim exE conjE) (rule that)
  have few: "length (subscriptions (w_db w')) \<le> 1"
    if "subscribe_status b u rid e p code (api_world []) w'" for b u rid e p code
    using that unfolding subscribe_status_def joins_def Let_def
    by (elim conjE insertE emptyE) (simp_all, (elim exE disjE conjE; simp)+)
  have "length (subscriptions (w_db w')) \<le> 1"
    using rest by (cases "ht_Status rp \<in> {400, 401}") (simp, simp only: if_False, blast intro: few)
  moreover have "ht_Status rp \<noteq> 401" using key by (simp add: demo_subscribe_def demo_headers_def)
  ultimately show ?thesis unfolding run using r by simp
qed

theorem links_over_http_witness:
  "let (r, w') = serve demo_env (api_deps demo_env ''key'' demo_notifier demo_client) demo_other
       (demo_link ''/api/confirm/:token'') (api_world [demo_subscriber False])
   in \<exists>i rp. r = Inr (i, rp) \<and> confirm_status demo_env ''t1'' (ht_Status rp) (api_world [demo_subscriber False]) w'"
proof -
  let ?w = "api_world [demo_subscriber False]"
  obtain r w' where run: "serve demo_env (api_deps demo_env ''key'' demo_notifier demo_client) demo_other
    (demo_link ''/api/confirm/:token'') ?w = (r, w')" by (metis surj_pair)
  have ok: "api_ok demo_env ?w" by (rule demo_api_ok) simp
  from links_over_http[OF ok _ _ run, of True] show ?thesis unfolding run by (simp add: demo_link_def)
qed

theorem confirmation_is_mailed_witness:
  "\<exists>code w'. NewHTTPHandler demo_mailer ''/internal/notifications/confirmation'' ''POST''
      (Some (confirmation_body ''a@b.co'' ''golang/go'' (confirm_url ''http://api'' ''t1''))) (calm_world (delivery_tables []) 5)
      = (Inr code, w') \<and> code \<in> {202, 503}"
proof -
  have "''a@b.co'' \<noteq> '''' \<and> ''golang/go'' \<noteq> ''''" by simp
  from mp[OF conjunct1[OF confirmation_is_mailed] this, of demo_env demo_smtp 3 "[minute_ns, 10 * minute_ns]"
      "''http://api''" "''t1''" "calm_world (delivery_tables []) 5"]
  show ?thesis unfolding Let_def by blast
qed

definition demo_validator :: validator where
  "demo_validator q = (if min_len_rules q then None else Some ''value is required'')"

theorem transports_agree_witness:
  "\<exists>event raw. buildReleaseNotification demo_env ''a@b.co'' ''golang/go'' ''v1'' ''n1'' ''c1'' 5 = Inr (event, raw) \<and>
     notification_handler demo_env demo_mailer ''k'' (Some raw) = Process demo_mailer (Payload event)"
proof -
  let ?event = "release_notification_event demo_env ''a@b.co'' ''golang/go'' ''v1'' ''n1'' ''c1'' 5"
  obtain raw where "encode_envelope demo_env (\<lambda>p. Inr (encode_notification p)) ?event = Inr raw"
    by (simp add: encode_envelope_def encode_not_before_def release_notification_event_def)
  then have built: "buildReleaseNotification demo_env ''a@b.co'' ''golang/go'' ''v1'' ''n1'' ''c1'' 5 = Inr (?event, raw)"
    by (simp add: buildReleaseNotification_def Let_def)
  have "(demo_validator q = None) = min_len_rules q" for q by (simp add: demo_validator_def)
  from transports_agree[OF demo_time_codec this _ _ _ built, of demo_mailer "''k''"] built show ?thesis by blast
qed

theorem watch_saga_closes_witness:
  "\<exists>event raw w1' command w2'. buildRepoWatchSagaRequest demo_env RepoWatchActionStart ''golang/go'' ''a@b.co'' ''s1'' ''c1'' 5 = Inr (event, raw) \<and>
     request_handler demo_env New ''k'' (Some raw) (calm_world empty_sagas 5) = (Inr (), w1') \<and>
     outbox_events (w_db w1') = [command] \<and>
     command_handler demo_env demo_scanner ''k'' (ob_Payload command) (calm_world demo_watchlist 5) = (Inr (), w2') \<and>
     ''golang/go'' \<in> watched (w_db w2')"
proof -
  let ?event = "saga_request RepoWatchActionStart ''golang/go'' ''a@b.co'' ''s1'' ''c1'' 5"
  obtain raw where "encode_envelope demo_env (\<lambda>p. Inr (encode_saga p)) ?event = Inr raw"
    by (simp add: encode_envelope_def encode_not_before_def saga_request_def)
  then have built: "buildRepoWatchSagaRequest demo_env RepoWatchActionStart ''golang/go'' ''a@b.co'' ''s1'' ''c1'' 5 = Inr (?event, raw)"
    by (simp add: buildRepoWatchSagaRequest_def Let_def)
  let ?w1 = "calm_world empty_sagas 5 :: (saga_db, wire) world" and ?w2 = "calm_world demo_watchlist 5 :: (scanner_db, wire) world"
    and ?w3 = "saga_world StatusCommandSent 10"
  have "saga_inv demo_env (w_uuids ?w1) (w_db ?w1)" "saga_of (w_db ?w1) ''s1'' = None"
    using empty_sagas_inv by (simp_all add: saga_of_def empty_sagas_def)
  moreover have "scanner_ok demo_env ?w2" using demo_time_codec demo_scanner_fresh by (simp add: scanner_ok_def)
  moreover have "abs_row (demo_saga StatusCommandSent) = InFlight 1 (5 + minute_ns) (5 + 24 * hour_ns)"
    by (simp add: abs_row_def)
  ultimately show ?thesis
    using watch_saga_closes[OF demo_time_codec built, of ?w1 ?w2 ?w3 "demo_saga StatusCommandSent" 1 "5 + minute_ns"
        "5 + 24 * hour_ns" "''k''" "\<lambda>_ _. None" Scanner_Witnesses.demo_github "''''" 10 1000000 "''k''" "''k''"] active_inv built
    by (simp add: empty_sagas_def) blast
qed

lemma demo_expand:
  "\<exists>w'. Expand (release_process demo_env demo_notifier) demo_release (api_world [demo_subscriber True]) = (Inr (), w')"
proof -
  have "\<exists>raw. buildReleaseNotification demo_env ''a@b.co'' ''golang/go'' ''v1'' i ''c1'' 5 =
      Inr (release_notification_event demo_env ''a@b.co'' ''golang/go'' ''v1'' i ''c1'' 5, raw)" for i
    by (simp add: buildReleaseNotification_def Let_def encode_envelope_def encode_not_before_def release_notification_event_def)
  then obtain raw where built: "buildReleaseNotification demo_env ''a@b.co'' ''golang/go'' ''v1'' (''uuid-'' @ dec_text 0) ''c1'' 5 =
      Inr (release_notification_event demo_env ''a@b.co'' ''golang/go'' ''v1'' (''uuid-'' @ dec_text 0) ''c1'' 5, raw)" by blast
  have "wp (Expand (release_process demo_env demo_notifier) demo_release) (\<lambda>_ _. True) (\<lambda>_ _. False) (api_world [demo_subscriber True])"
    using built by (simp add: Expand_def release_process_def GetSubscribers_def sql_subscribers_def outbox_notifier_def
        Outbox_PublishReleaseNotification_def InsertTx_def wp_simps confirmed_of_def demo_release_def sql_insert_outbox_def)
  from wp_returns[OF this] show ?thesis by auto
qed

theorem release_reaches_mailboxes_witness:
  "\<exists>w' e v'. Expand (release_process demo_env demo_notifier) demo_release (api_world [demo_subscriber True]) = (Inr (), w') \<and>
     e \<in> set (outbox_events (w_db w')) \<and> ob_Topic e = TopicNotificationCommands \<and>
     notification_handler demo_env demo_mailer ''k'' (ob_Payload e) (calm_world (delivery_tables []) 9) = (Inr (), v') \<and>
     (\<exists>a. abs_table (w_db v') (''golang/go:v1:'' @ EmailHash demo_env ''a@b.co'') = Delivered a) \<and>
     w_trace v' = [mail_of demo_smtp ''a@b.co'' ''New release v1 for golang/go!'']"
proof -
  let ?w = "api_world [demo_subscriber True]" and ?v = "calm_world (delivery_tables []) 9 :: (delivery_db, wire) world"
  have ok: "api_ok demo_env ?w" by (rule demo_api_ok) simp
  obtain w' where run: "Expand (release_process demo_env demo_notifier) demo_release ?w = (Inr (), w')"
    using demo_expand by blast
  have row: "demo_subscriber True \<in> set (subscriptions (w_db ?w))" "confirmed_of (rp_Repo (Payload demo_release)) (demo_subscriber True)"
    by (simp_all add: confirmed_of_def demo_release_def)
  have v: "delivery_ok demo_env (attempts_bound 3) ?v" by (rule demo_tables_ok) simp_all
  have new: "\<not> finished (abs_table (w_db ?v) k)" for k
    by (simp add: abs_table_def delivery_of_def delivery_tables_def finished_def)
  have calm: "w_script ?v = []" "one_line (senderAddress demo_smtp)" "one_line ''a@b.co''" "deliveries (w_db ?v) = []"
    by (simp_all add: one_line_def senderAddress_def demo_smtp_def delivery_tables_def)
  let ?key = "''golang/go'' @ '':'' @ ''v1'' @ '':'' @ EmailHash demo_env ''a@b.co''"
  let ?mail = "mail_of demo_smtp ''a@b.co'' (''New release '' @ ''v1'' @ '' for '' @ ''golang/go'' @ ''!'')"
  have sel: "rp_Repo (Payload demo_release) = ''golang/go''" "rp_Tag (Payload demo_release) = ''v1''"
    by (simp_all add: demo_release_def)
  note reaches = release_reaches_mailboxes[where 'n = unit, OF ok demo_permutes run row, unfolded Let_def sel demo_subscriber_sel]
  obtain e and p :: notification_payload where e: "e \<in> set (outbox_events (w_db w'))" "ob_Topic e = TopicNotificationCommands"
    and all: "\<And>k r v'. notification_handler demo_env demo_mailer k (ob_Payload e) ?v = (r, v') \<Longrightarrow>
        (\<forall>err. r = Inl err \<longrightarrow> \<not> errors_is err ErrNonRetryable) \<and>
        (w_script ?v = [] \<and> one_line (senderAddress demo_smtp) \<and> one_line ''a@b.co'' \<and>
             (abs_table (w_db ?v) ?key \<noteq> Unseen \<or> np_NotificationID p \<notin> dr_NotificationID ` set (deliveries (w_db ?v))) \<longrightarrow>
             r = Inr () \<and> (finished (abs_table (w_db ?v) ?key) \<or> (\<exists>a. abs_table (w_db v') ?key = Delivered a))) \<and>
        (r = Inr () \<longrightarrow> settled_delivery (abs_table (w_db v') ?key)) \<and>
        (\<exists>tr. w_trace v' = w_trace ?v @ tr \<and>
           (finished (abs_table (w_db ?v) ?key) \<longrightarrow> tr = [] \<and> abs_table (w_db v') ?key = abs_table (w_db ?v) ?key) \<and>
           (\<forall>a. abs_table (w_db v') ?key = Delivered a \<longrightarrow> \<not> finished (abs_table (w_db ?v) ?key) \<longrightarrow> tr = [?mail]))"
    using reaches
  proof (elim bexE conjE exE, goal_cases)
    case (1 e p)
    show ?case by (rule 1(1)[OF 1(2,3), of p]) (rule 1(5)[rule_format, OF v])
  qed
  obtain r v' where h: "notification_handler demo_env demo_mailer ''k'' (ob_Payload e) ?v = (r, v')" by (metis surj_pair)
  note both = all[OF h]
  obtain a where "r = Inr ()" "abs_table (w_db v') ?key = Delivered a"
    using both[THEN conjunct2, THEN conjunct1] calm new[of ?key] by auto
  moreover from this(2) have "w_trace v' = [?mail]"
    using both[THEN conjunct2, THEN conjunct2, THEN conjunct2] new[of ?key] by (elim exE conjE) (simp only: calm_world_sel append_Nil simp_thms)
  ultimately show ?thesis using run e h by (intro exI[of _ w'] exI[of _ e] exI[of _ v'] exI[of _ a] conjI) simp_all
qed

end
