(* ===== verification/Strconv.thy ===== *)
theory Strconv
  imports Patterns Release_Provider
begin

text \<open>
  The functions of Go's packages \<open>strings\<close>, \<open>path\<close> and \<open>strconv\<close> that the migrations and the
  configuration use.  Integers are of 64 bits; the parsers keep the bounds that the library
  checks, and their errors with their texts.
\<close>

section \<open>Splitting and joining\<close>

fun split_on :: "char \<Rightarrow> string \<Rightarrow> string list" where
  "split_on c [] = [[]]"
| "split_on c (x # xs) =
     (if x = c then [] # split_on c xs
      else (case split_on c xs of [] \<Rightarrow> [[x]] | y # ys \<Rightarrow> (x # y) # ys))"

fun join_with :: "string \<Rightarrow> string list \<Rightarrow> string" where
  "join_with sep [] = []"
| "join_with sep [x] = x"
| "join_with sep (x # y # ys) = x @ sep @ join_with sep (y # ys)"

lemma split_on_nonempty [simp]: "split_on c s \<noteq> []"
  by (cases s) (auto split: list.splits)

lemma join_Cons_char: "join_with sep ((x # y) # ys) = x # join_with sep (y # ys)"
  by (cases ys) simp_all

lemma join_split [simp]: "join_with [c] (split_on c s) = s"
proof (induction s)
  case (Cons x xs)
  then show ?case
    by (cases "split_on c xs") (auto simp: join_Cons_char)
qed simp

lemma split_on_free: "\<forall>p \<in> set (split_on c s). c \<notin> set p"
  by (induction s) (auto split: list.splits)

definition trim_suffix :: "string \<Rightarrow> string \<Rightarrow> string" where
  "trim_suffix s suf =
     (let n = length s - length suf in if length suf \<le> length s \<and> drop n s = suf then take n s else s)"

lemma trim_suffix_append [simp]: "trim_suffix (s @ suf) suf = s"
  by (simp add: trim_suffix_def)

lemma trim_suffix_absent:
  assumes "c \<in> set suf" and "c \<notin> set s"
  shows "trim_suffix s suf = s"
proof -
  have "drop (length s - length suf) s \<noteq> suf" using assms in_set_dropD by metis
  then show ?thesis by (simp add: trim_suffix_def Let_def)
qed

section \<open>Paths\<close>

definition clean_step :: "bool \<Rightarrow> string list \<Rightarrow> string \<Rightarrow> string list" where
  "clean_step rooted acc c =
     (if c = '''' \<or> c = ''.'' then acc
      else if c = ''..'' then
        (if acc \<noteq> [] \<and> last acc \<noteq> ''..'' then butlast acc
         else if rooted then acc else acc @ [c])
      else acc @ [c])"

definition path_Clean :: "string \<Rightarrow> string" where
  "path_Clean s =
     (let rooted = (s \<noteq> [] \<and> List.hd s = CHR ''/'');
          p = (if rooted then ''/'' else '''') @ join_with ''/'' (foldl (clean_step rooted) [] (split_on CHR ''/'' s))
      in if p = '''' then ''.'' else p)"

definition path_Join :: "string \<Rightarrow> string \<Rightarrow> string" where
  "path_Join a b =
     (if a = '''' then (if b = '''' then '''' else path_Clean b)
      else path_Clean (if b = '''' then a else a @ ''/'' @ b))"

section \<open>Integers\<close>

datatype num_error = ErrSyntax | ErrRange

fun num_error_text :: "num_error \<Rightarrow> string" where
  "num_error_text ErrSyntax = ''invalid syntax''"
| "num_error_text ErrRange = ''value out of range''"

definition digit_value :: "char \<Rightarrow> int" where
  "digit_value c = int (of_char c) - 48"

text \<open>The loop of \<open>strconv.ParseUint\<close> in base ten and 64 bits.\<close>

fun parse_digits :: "int \<Rightarrow> string \<Rightarrow> num_error + int" where
  "parse_digits n [] = Inr n"
| "parse_digits n (c # cs) =
     (if \<not> decimal c then Inl ErrSyntax
      else if 2 ^ 64 - 1 < n * 10 + digit_value c then Inl ErrRange
      else parse_digits (n * 10 + digit_value c) cs)"

definition num_fail :: "string \<Rightarrow> string \<Rightarrow> num_error \<Rightarrow> goerr" where
  "num_fail fn s e = Plain (''strconv.'' @ fn @ '': parsing '' @ go_quote s @ '': '' @ num_error_text e)"

text \<open>\<open>ParseInt(s, 10, 64)\<close>; \<open>Atoi\<close> differs in the name it puts in its errors only.\<close>

definition parse_int64 :: "string \<Rightarrow> string \<Rightarrow> goerr + int" where
  "parse_int64 fn s =
     (let neg = (s \<noteq> [] \<and> List.hd s = CHR ''-'');
          body = (if s \<noteq> [] \<and> List.hd s \<in> {CHR ''-'', CHR ''+''} then tl s else s)
      in if body = [] then Inl (num_fail fn s ErrSyntax)
         else (case parse_digits 0 body of
             Inl e \<Rightarrow> Inl (num_fail fn s e)
           | Inr un \<Rightarrow>
               if (\<not> neg \<and> 2 ^ 63 \<le> un) \<or> (neg \<and> 2 ^ 63 < un) then Inl (num_fail fn s ErrRange)
               else Inr (if neg then - un else un)))"

definition ParseInt :: "string \<Rightarrow> goerr + int" where
  "ParseInt = parse_int64 ''ParseInt''"

definition Atoi :: "string \<Rightarrow> goerr + int" where
  "Atoi = parse_int64 ''Atoi''"

lemma decimal_value: "decimal c \<Longrightarrow> 0 \<le> digit_value c \<and> digit_value c \<le> 9"
proof -
  assume "decimal c"
  then have "(48::nat) \<le> of_char c" "(of_char c :: nat) \<le> 57" by (simp_all add: decimal_def between_def)
  then show ?thesis by (simp add: digit_value_def)
qed

lemma parse_digits_bounds:
  "parse_digits n s = Inr v \<Longrightarrow> 0 \<le> n \<Longrightarrow> n \<le> 2 ^ 64 - 1 \<Longrightarrow> 0 \<le> v \<and> v \<le> 2 ^ 64 - 1"
proof (induction n s rule: parse_digits.induct)
  case (2 n c cs)
  then have "decimal c" and step: "n * 10 + digit_value c \<le> 2 ^ 64 - 1" "parse_digits (n * 10 + digit_value c) cs = Inr v"
    by (auto split: if_splits)
  then show ?case using 2 decimal_value[OF \<open>decimal c\<close>] by auto
qed auto

theorem parsed_int64: "parse_int64 fn s = Inr v \<Longrightarrow> - (2 ^ 63) \<le> v \<and> v < 2 ^ 63"
  using parse_digits_bounds[of 0] by (fastforce simp: parse_int64_def Let_def split: if_splits sum.splits)

text \<open>Reading the digits of a number gives the number back.\<close>

definition decimal_of :: "int \<Rightarrow> string \<Rightarrow> int" where
  "decimal_of n s = foldl (\<lambda>a c. a * 10 + digit_value c) n s"

lemma decimal_of_mono: "list_all decimal s \<Longrightarrow> 0 \<le> n \<Longrightarrow> n \<le> decimal_of n s"
proof (induction s arbitrary: n)
  case (Cons c cs)
  then have "n \<le> n * 10 + digit_value c" "0 \<le> n * 10 + digit_value c" using decimal_value[of c] by auto
  moreover have "n * 10 + digit_value c \<le> decimal_of (n * 10 + digit_value c) cs"
    using Cons by (intro Cons.IH) (use calculation in auto)
  ultimately show ?case by (simp add: decimal_of_def)
qed (simp add: decimal_of_def)

lemma parse_digits_eq:
  "list_all decimal s \<Longrightarrow> 0 \<le> n \<Longrightarrow> n \<le> 2 ^ 64 - 1 \<Longrightarrow>
   parse_digits n s = (if 2 ^ 64 - 1 < decimal_of n s then Inl ErrRange else Inr (decimal_of n s))"
proof (induction s arbitrary: n)
  case (Cons c cs)
  let ?m = "n * 10 + digit_value c"
  have c: "decimal c" and cs: "list_all decimal cs" using Cons.prems by simp_all
  have m: "0 \<le> ?m" using decimal_value[OF c] Cons.prems by simp
  have eq: "decimal_of n (c # cs) = decimal_of ?m cs" by (simp add: decimal_of_def)
  show ?case
  proof (cases "2 ^ 64 - 1 < ?m")
    case True
    with decimal_of_mono[OF cs m] have "2 ^ 64 - 1 < decimal_of ?m cs" by linarith
    with True c show ?thesis by (simp add: eq)
  next
    case False
    then show ?thesis using Cons.IH[OF cs m] c by (simp add: eq)
  qed
qed (simp add: decimal_of_def)

lemma decimal_text: "list_all decimal (dec_text n) \<and> dec_text n \<noteq> []"
proof (induction n rule: dec_text.induct)
  case (1 n)
  have "decimal (digit n)" by (simp add: decimal_def between_def)
  with 1 show ?case by (subst (1 2) dec_text.simps) auto
qed

lemma decimal_of_text: "decimal_of 0 (dec_text n) = int n"
proof (induction n rule: dec_text.induct)
  case (1 n)
  have digit: "digit_value (digit n) = int (n mod 10)" by (simp add: digit_value_def of_nat_mod)
  show ?case
  proof (cases "n < 10")
    case True
    then show ?thesis by (subst dec_text.simps) (simp add: decimal_of_def digit)
  next
    case False
    then have "decimal_of 0 (dec_text n) = decimal_of 0 (dec_text (n div 10)) * 10 + digit_value (digit n)"
      by (subst dec_text.simps) (simp add: decimal_of_def)
    also have "\<dots> = int (n div 10) * 10 + int (n mod 10)" using 1 False by (simp add: digit)
    also have "\<dots> = int n" by (simp add: zdiv_int zmod_int)
    finally show ?thesis .
  qed
qed

lemma parse_dec_text: "int n \<le> 2 ^ 64 - 1 \<Longrightarrow> parse_digits 0 (dec_text n) = Inr (int n)"
  using decimal_text[of n] by (simp add: parse_digits_eq decimal_of_text)

theorem parse_int_text:
  assumes "- (2 ^ 63) \<le> v" and "v < 2 ^ 63"
  shows "parse_int64 fn (int_text v) = Inr v"
proof (cases "v < 0")
  case True
  then have "parse_digits 0 (dec_text (nat (- v))) = Inr (- v)"
    using assms by (subst parse_dec_text) auto
  moreover have "dec_text (nat (- v)) \<noteq> []" using decimal_text by blast
  ultimately show ?thesis using True assms by (simp add: parse_int64_def int_text_def)
next
  case False
  let ?t = "dec_text (nat v)"
  have "parse_digits 0 ?t = Inr v"
    using assms False by (subst parse_dec_text) auto
  moreover obtain c cs where t: "?t = c # cs" using decimal_text[of "nat v"] by (cases ?t) auto
  moreover have "decimal c" using decimal_text[of "nat v"] t by simp
  then have "c \<noteq> CHR ''-''" "c \<noteq> CHR ''+''" by (auto simp: decimal_def between_def)
  ultimately show ?thesis using False assms by (simp add: parse_int64_def int_text_def)
qed

end
