(* ===== verification/Configuration.thy ===== *)
theory Configuration
  imports Strconv
begin

text \<open>
  The configuration of the processes: \<open>pkg/env\<close>, \<open>pkg/config\<close>, the \<open>internal/config\<close> packages of the three
  services and the connection string of \<open>pkg/postgres\<close>.  The process environment is a map; the
  parsers of Booleans, integers and durations are those of Go's standard library.
\<close>

type_synonym environ = "string \<Rightarrow> string option"

section \<open>Booleans and durations\<close>

definition ParseBool :: "string \<Rightarrow> bool option" where
  "ParseBool s =
     (if s \<in> {''1'', ''t'', ''T'', ''true'', ''TRUE'', ''True''} then Some True
      else if s \<in> {''0'', ''f'', ''F'', ''false'', ''FALSE'', ''False''} then Some False
      else None)"

text \<open>
  \<open>time.ParseDuration\<close>: a sequence of decimal numbers with units, in nanoseconds.  The part of a
  fraction is a product of doubles in the library, which is the parameter \<open>frac f unit k\<close> for
  \<open>f / 10 ^ k\<close> of a unit.  The sum is kept in 64 bits.
\<close>

type_synonym frac = "int \<Rightarrow> int \<Rightarrow> nat \<Rightarrow> int"

fun leading_int :: "int \<Rightarrow> string \<Rightarrow> (int \<times> string) option" where
  "leading_int x [] = Some (x, [])"
| "leading_int x (c # cs) =
     (if \<not> decimal c then Some (x, c # cs)
      else if 2 ^ 63 div 10 < x then None
      else if 2 ^ 63 < x * 10 + digit_value c then None
      else leading_int (x * 10 + digit_value c) cs)"

fun leading_fraction :: "int \<Rightarrow> nat \<Rightarrow> bool \<Rightarrow> string \<Rightarrow> int \<times> nat \<times> string" where
  "leading_fraction f k full [] = (f, k, [])"
| "leading_fraction f k full (c # cs) =
     (if \<not> decimal c then (f, k, c # cs)
      else if full \<or> (2 ^ 63 - 1) div 10 < f \<or> 2 ^ 63 < f * 10 + digit_value c then leading_fraction f k True cs
      else leading_fraction (f * 10 + digit_value c) (Suc k) False cs)"

fun unitMap :: "string \<Rightarrow> int option" where
  "unitMap u =
     (if u = ''ns'' then Some 1
      else if u \<in> {''us'', [CHR 0xC2, CHR 0xB5, CHR ''s''], [CHR 0xCE, CHR 0xBC, CHR ''s'']} then Some 1000
      else if u = ''ms'' then Some 1000000
      else if u = ''s'' then Some second_ns
      else if u = ''m'' then Some minute_ns
      else if u = ''h'' then Some hour_ns
      else None)"

definition unit_char :: "char \<Rightarrow> bool" where
  "unit_char c = (c \<noteq> CHR ''.'' \<and> \<not> decimal c)"

text \<open>One number with its unit: its value and the rest of the text.\<close>

definition duration_term :: "frac \<Rightarrow> string \<Rightarrow> (int \<times> string) option" where
  "duration_term frac s =
     (if s = [] \<or> unit_char (List.hd s) then None
      else (case leading_int 0 s of
          None \<Rightarrow> None
        | Some (v, s1) \<Rightarrow>
            (let point = (s1 \<noteq> [] \<and> List.hd s1 = CHR ''.'');
                 (f, k, s2) = (if point then leading_fraction 0 0 False (tl s1) else (0, 0, s1));
                 u = takeWhile unit_char s2
             in if length s1 = length s \<and> (\<not> point \<or> length s2 = length (tl s1)) then None
                else if u = [] then None
                else (case unitMap u of
                    None \<Rightarrow> None
                  | Some scale \<Rightarrow>
                      if 2 ^ 63 div scale < v then None
                      else (let total = v * scale + (if 0 < f then frac f scale k else 0)
                            in if 0 < f \<and> 2 ^ 63 < total then None
                               else Some (total, drop (length u) s2))))))"

lemma leading_int_length: "leading_int x s = Some (v, r) \<Longrightarrow> length r \<le> length s"
  by (induction x s arbitrary: v r rule: leading_int.induct) (auto split: if_splits)

lemma leading_fraction_length: "leading_fraction f k full s = (f', k', r) \<Longrightarrow> length r \<le> length s"
  by (induction f k full s arbitrary: f' k' r rule: leading_fraction.induct) (auto split: if_splits)

lemma duration_term_shorter:
  assumes "duration_term frac s = Some (v, r)"
  shows "length r < length s"
proof -
  obtain w s1 where s1: "leading_int 0 s = Some (w, s1)"
    using assms by (auto simp: duration_term_def split: if_splits option.splits)
  obtain f k s2 where s2: "(if s1 \<noteq> [] \<and> List.hd s1 = CHR ''.'' then leading_fraction 0 0 False (tl s1) else (0, 0, s1)) = (f, k, s2)"
    by (metis prod_cases3)
  have "r = drop (length (takeWhile unit_char s2)) s2 \<and> takeWhile unit_char s2 \<noteq> []"
    using assms unfolding duration_term_def s1 option.case prod.case Let_def s2
    by (auto split: if_splits option.splits)
  moreover have "length s2 \<le> length s1"
    using s2 leading_fraction_length[of 0 0 False "tl s1" f k s2] by (auto split: if_splits)
  moreover have "length s1 \<le> length s" using leading_int_length[OF s1] .
  ultimately show ?thesis
    by (cases s2) auto
qed

function duration_terms :: "frac \<Rightarrow> int \<Rightarrow> string \<Rightarrow> int option" where
  "duration_terms frac d s =
     (if s = [] then Some d
      else (case duration_term frac s of
          None \<Rightarrow> None
        | Some (v, rest) \<Rightarrow>
            if 2 ^ 63 < (d + v) mod 2 ^ 64 then None else duration_terms frac ((d + v) mod 2 ^ 64) rest))"
  by pat_completeness auto
termination
  by (relation "measure (\<lambda>(frac, d, s). length s)") (auto dest: duration_term_shorter)

declare duration_terms.simps [simp del]

definition ParseDuration :: "frac \<Rightarrow> string \<Rightarrow> int option" where
  "ParseDuration frac s0 =
     (let neg = (s0 \<noteq> [] \<and> List.hd s0 = CHR ''-'');
          s = (if s0 \<noteq> [] \<and> List.hd s0 \<in> {CHR ''-'', CHR ''+''} then tl s0 else s0)
      in if s = ''0'' then Some 0
         else if s = [] then None
         else (case duration_terms frac 0 s of
             None \<Rightarrow> None
           | Some d \<Rightarrow> if neg then Some (- d) else if 2 ^ 63 - 1 < d then None else Some d))"

section \<open>pkg/env\<close>

definition env_String :: "environ \<Rightarrow> string \<Rightarrow> string \<Rightarrow> string" where
  "env_String V key fallback = (case V key of Some v \<Rightarrow> v | None \<Rightarrow> fallback)"

definition env_Bool :: "environ \<Rightarrow> string \<Rightarrow> bool \<Rightarrow> bool" where
  "env_Bool V key fallback =
     (case V key of None \<Rightarrow> fallback | Some raw \<Rightarrow> (case ParseBool raw of None \<Rightarrow> fallback | Some v \<Rightarrow> v))"

definition env_Int :: "environ \<Rightarrow> string \<Rightarrow> int \<Rightarrow> int" where
  "env_Int V key fallback =
     (case V key of None \<Rightarrow> fallback | Some raw \<Rightarrow> (case Atoi raw of Inl _ \<Rightarrow> fallback | Inr v \<Rightarrow> v))"

definition env_CSV :: "env \<Rightarrow> environ \<Rightarrow> string \<Rightarrow> string \<Rightarrow> string list" where
  "env_CSV E V key fallback =
     filter (\<lambda>v. v \<noteq> '''') (map (TrimSpace E) (split_on CHR '','' (env_String V key fallback)))"

definition env_Duration :: "frac \<Rightarrow> environ \<Rightarrow> string \<Rightarrow> int \<Rightarrow> int" where
  "env_Duration frac V key fallback =
     (case V key of None \<Rightarrow> fallback | Some raw \<Rightarrow> (case ParseDuration frac raw of None \<Rightarrow> fallback | Some v \<Rightarrow> v))"

definition env_DurationList :: "env \<Rightarrow> frac \<Rightarrow> environ \<Rightarrow> string \<Rightarrow> int list \<Rightarrow> int list" where
  "env_DurationList E frac V key fallback =
     (case V key of
        None \<Rightarrow> fallback
      | Some raw \<Rightarrow>
          (let values = List.map_filter (\<lambda>part. ParseDuration frac (TrimSpace E part)) (split_on CHR '','' raw)
           in if values = [] then fallback else values))"

section \<open>pkg/config and pkg/postgres\<close>

record postgres_config =
  pc_Host :: string
  pc_Port :: string
  pc_User :: string
  pc_Password :: string
  pc_Name :: string

definition DSN :: "postgres_config \<Rightarrow> string" where
  "DSN cfg = ''host='' @ pc_Host cfg @ '' port='' @ pc_Port cfg @ '' user='' @ pc_User cfg @ '' password='' @
     pc_Password cfg @ '' dbname='' @ pc_Name cfg @ '' sslmode=disable''"

record database_config =
  DBHost :: string
  DBPort :: string
  DBUser :: string
  DBPassword :: string
  DBName :: string

definition LoadDatabase :: "environ \<Rightarrow> database_config" where
  "LoadDatabase V = \<lparr>DBHost = env_String V ''DB_HOST'' '''', DBPort = env_String V ''DB_PORT'' '''',
     DBUser = env_String V ''DB_USER'' '''', DBPassword = env_String V ''DB_PASSWORD'' '''',
     DBName = env_String V ''DB_NAME'' ''''\<rparr>"

definition Database_Postgres :: "database_config \<Rightarrow> postgres_config" where
  "Database_Postgres c = \<lparr>pc_Host = DBHost c, pc_Port = DBPort c, pc_User = DBUser c, pc_Password = DBPassword c,
     pc_Name = DBName c\<rparr>"

definition LoadKafka :: "env \<Rightarrow> environ \<Rightarrow> string list" where
  "LoadKafka E V = env_CSV E V ''KAFKA_BROKERS'' ''''"

record github_config =
  GitHubToken :: string
  GitHubBaseURL :: string

definition LoadGitHub :: "environ \<Rightarrow> github_config" where
  "LoadGitHub V = \<lparr>GitHubToken = env_String V ''GITHUB_TOKEN'' '''', GitHubBaseURL = env_String V ''GITHUB_BASE_URL'' ''''\<rparr>"

record logging_config =
  LogLevel :: string
  LogFile :: string
  LogSidecarEnabled :: bool
  LogSidecarURL :: string

definition LoadLogging :: "environ \<Rightarrow> logging_config" where
  "LoadLogging V = \<lparr>LogLevel = env_String V ''LOG_LEVEL'' '''', LogFile = env_String V ''LOG_FILE'' '''',
     LogSidecarEnabled = env_Bool V ''LOG_SIDECAR_ENABLED'' False, LogSidecarURL = env_String V ''LOG_SIDECAR_URL'' ''''\<rparr>"

definition LoadMetrics :: "environ \<Rightarrow> string" where
  "LoadMetrics V = env_String V ''METRICS_PORT'' ''''"

section \<open>The services\<close>

record notification_config =
  nc_Database :: database_config
  nc_MetricsPort :: string
  nc_KafkaBrokers :: "string list"
  nc_ServerPort :: string
  nc_SMTPHost :: string
  nc_SMTPPort :: string
  nc_SMTPEmail :: string
  nc_SMTPPassword :: string
  nc_RetryAttempts :: int
  nc_RetryDelays :: "int list"
  nc_Transport :: string
  nc_GRPCPort :: string
  nc_Logging :: logging_config

definition Notification_Load :: "env \<Rightarrow> frac \<Rightarrow> environ \<Rightarrow> notification_config" where
  "Notification_Load E frac V =
     \<lparr>nc_Database = LoadDatabase V, nc_MetricsPort = LoadMetrics V, nc_KafkaBrokers = LoadKafka E V,
      nc_ServerPort = env_String V ''PORT'' '''', nc_SMTPHost = env_String V ''SMTP_HOST'' '''',
      nc_SMTPPort = env_String V ''SMTP_PORT'' '''', nc_SMTPEmail = env_String V ''SMTP_EMAIL'' '''',
      nc_SMTPPassword = env_String V ''SMTP_PASSWORD'' '''',
      nc_RetryAttempts = env_Int V ''NOTIFICATION_RETRY_ATTEMPTS'' 0,
      nc_RetryDelays = env_DurationList E frac V ''NOTIFICATION_RETRY_DELAYS'' [],
      nc_Transport = env_String V ''NOTIFICATION_TRANSPORT'' ''kafka'', nc_GRPCPort = env_String V ''GRPC_PORT'' ''9093'',
      nc_Logging = LoadLogging V\<rparr>"

record scanner_config =
  sc_Database :: database_config
  sc_MetricsPort :: string
  sc_KafkaBrokers :: "string list"
  sc_RedisAddr :: string
  sc_GitHub :: github_config
  sc_BatchSize :: int
  sc_Interval :: int
  sc_Logging :: logging_config

definition Scanner_Load :: "env \<Rightarrow> frac \<Rightarrow> environ \<Rightarrow> scanner_config" where
  "Scanner_Load E frac V =
     \<lparr>sc_Database = LoadDatabase V, sc_MetricsPort = LoadMetrics V, sc_KafkaBrokers = LoadKafka E V,
      sc_RedisAddr = env_String V ''REDIS_ADDR'' '''', sc_GitHub = LoadGitHub V,
      sc_BatchSize = env_Int V ''SCANNER_BATCH_SIZE'' 0, sc_Interval = env_Duration frac V ''SCANNER_INTERVAL'' 0,
      sc_Logging = LoadLogging V\<rparr>"

record subscription_config =
  ac_Database :: database_config
  ac_ServerPort :: string
  ac_APIKey :: string
  ac_BaseURL :: string
  ac_NotificationServiceURL :: string
  ac_Transport :: string
  ac_GRPCAddress :: string
  ac_KafkaBrokers :: "string list"
  ac_GitHub :: github_config
  ac_Logging :: logging_config

definition Subscription_Load :: "env \<Rightarrow> environ \<Rightarrow> subscription_config" where
  "Subscription_Load E V =
     \<lparr>ac_Database = LoadDatabase V, ac_ServerPort = env_String V ''PORT'' '''', ac_APIKey = env_String V ''API_KEY'' '''',
      ac_BaseURL = env_String V ''BASE_URL'' '''', ac_NotificationServiceURL = env_String V ''NOTIFICATION_SERVICE_URL'' '''',
      ac_Transport = env_String V ''NOTIFICATION_TRANSPORT'' ''kafka'',
      ac_GRPCAddress = env_String V ''NOTIFICATION_GRPC_ADDR'' ''notification-service:9093'', ac_KafkaBrokers = LoadKafka E V,
      ac_GitHub = LoadGitHub V, ac_Logging = LoadLogging V\<rparr>"

definition Notification_Postgres :: "notification_config \<Rightarrow> postgres_config" where
  "Notification_Postgres c = Database_Postgres (nc_Database c)"

definition Scanner_Postgres :: "scanner_config \<Rightarrow> postgres_config" where
  "Scanner_Postgres c = Database_Postgres (sc_Database c)"

definition Subscription_Postgres :: "subscription_config \<Rightarrow> postgres_config" where
  "Subscription_Postgres c = Database_Postgres (ac_Database c)"

end
