(* ===== verification/Migrations.thy ===== *)
theory Migrations
  imports Strconv Tx_Logic
begin

text \<open>
  The migration runner: \<open>pkg/migrations/migrations.go\<close>, and the \<open>Run\<close> functions of
  \<open>pkg/outbox/migrations\<close> and of the three services' \<open>internal/dbmigrations\<close>.  The embedded
  file system is a list of directory entries, which \<open>fs.ReadDir\<close> returns sorted by name; what the SQL
  of a migration does to the service's schema is the parameter \<open>exec_sql\<close>, which works on
  everything but the table of applied migrations.
\<close>

record migration =
  m_Version :: int
  m_Name :: string
  m_Path :: string
  m_SQL :: string
  m_Checksum :: string

record dir_entry =
  de_Name :: string
  de_IsDir :: bool
  de_File :: "string + string"

type_synonym embed_fs = "string \<Rightarrow> string + dir_entry list"

section \<open>Loading the files\<close>

definition file_submatch :: "string \<Rightarrow> (string \<times> string) option" where
  "file_submatch s =
     (if matches fileNamePattern s
      then (let rest = tl (dropWhile decimal s) in Some (takeWhile decimal s, take (length rest - 4) rest))
      else None)"

definition checksum :: "string \<Rightarrow> string" where
  "checksum raw = hex_digest raw"

fun load_entries :: "string \<Rightarrow> (int \<Rightarrow> string option) \<Rightarrow> dir_entry list \<Rightarrow> goerr + migration list" where
  "load_entries dir seen [] = Inr []"
| "load_entries dir seen (f # fs) =
     (if de_IsDir f then load_entries dir seen fs
      else (case file_submatch (de_Name f) of
          None \<Rightarrow> load_entries dir seen fs
        | Some (digits, label) \<Rightarrow>
            (case ParseInt digits of
               Inl e \<Rightarrow> Inl (errorf (''parse migration version '' @ go_quote (de_Name f) @ '': '') e)
             | Inr version \<Rightarrow>
                 (case seen version of
                    Some previous \<Rightarrow> Inl (Plain (''duplicate migration version '' @ int_text version @ '' in '' @
                      previous @ '' and '' @ de_Name f))
                  | None \<Rightarrow>
                      (case de_File f of
                         Inl e \<Rightarrow> Inl (errorf (''read migration '' @ path_Join dir (de_Name f) @ '': '') (Plain e))
                       | Inr raw \<Rightarrow>
                           sum_map (\<lambda>ms. \<lparr>m_Version = version, m_Name = trim_suffix label ''.sql'',
                               m_Path = path_Join dir (de_Name f), m_SQL = raw, m_Checksum = checksum raw\<rparr> # ms)
                             (load_entries dir (seen(version \<mapsto> de_Name f)) fs))))))"

definition Load :: "embed_fs \<Rightarrow> string \<Rightarrow> goerr + migration list" where
  "Load fsys dir =
     (case fsys dir of
        Inl e \<Rightarrow> Inl (errorf ''read migrations dir: '' (Plain e))
      | Inr entries \<Rightarrow> sum_map (sort_key m_Version) (load_entries dir Map.empty entries))"

section \<open>The table of applied migrations\<close>

record applied_row =
  ar_service :: string
  ar_version :: int
  ar_name :: string
  ar_checksum :: string
  ar_applied_at :: int

record 's migr_db =
  schema_migrations :: "applied_row list option"
  schema :: 's

type_synonym 's exec_sql = "string \<Rightarrow> 's \<Rightarrow> string + 's"

definition no_relation :: goerr where
  "no_relation = Plain ''ERROR: relation \"schema_migrations\" does not exist''"

definition applied_key :: "applied_row \<Rightarrow> string \<times> int" where
  "applied_key r = (ar_service r, ar_version r)"

definition sql_create_table :: "('s migr_db, unit) sql" where
  "sql_create_table d now =
     Inr ((), (case schema_migrations d of None \<Rightarrow> d\<lparr>schema_migrations := Some []\<rparr> | Some _ \<Rightarrow> d))"

definition sql_select_checksum :: "string \<Rightarrow> int \<Rightarrow> ('s migr_db, string option) sql" where
  "sql_select_checksum service version d now =
     (case schema_migrations d of
        None \<Rightarrow> Inl no_relation
      | Some rows \<Rightarrow> Inr (map_option ar_checksum (lookup_row applied_key rows (service, version)), d))"

definition sql_exec_migration :: "'s exec_sql \<Rightarrow> string \<Rightarrow> ('s migr_db, unit) sql" where
  "sql_exec_migration exec q d now =
     (case exec q (schema d) of Inl e \<Rightarrow> Inl (Plain e) | Inr s \<Rightarrow> Inr ((), d\<lparr>schema := s\<rparr>))"

definition sql_insert_applied :: "string \<Rightarrow> migration \<Rightarrow> ('s migr_db, unit) sql" where
  "sql_insert_applied service m d now =
     (case schema_migrations d of
        None \<Rightarrow> Inl no_relation
      | Some rows \<Rightarrow>
          if lookup_row applied_key rows (service, m_Version m) \<noteq> None
          then Inl (Plain ''ERROR: duplicate key value violates unique constraint \"schema_migrations_pkey\"'')
          else Inr ((), d\<lparr>schema_migrations := Some (rows @
            [\<lparr>ar_service = service, ar_version = m_Version m, ar_name = m_Name m, ar_checksum = m_Checksum m,
              ar_applied_at = now\<rparr>])\<rparr>))"

section \<open>Running them\<close>

definition at_version :: "string \<Rightarrow> migration \<Rightarrow> string" where
  "at_version service m = service @ ''/'' @ int_text (m_Version m)"

definition mismatch :: "string \<Rightarrow> migration \<Rightarrow> goerr" where
  "mismatch service m = Plain (''migration '' @ at_version service m @ '' checksum mismatch'')"

definition apply_migration :: "'s exec_sql \<Rightarrow> string \<Rightarrow> migration \<Rightarrow> ('s migr_db, wire, unit) go" where
  "apply_migration exec service m =
     with_tx (errorf (''begin migration '' @ int_text (m_Version m) @ '': ''))
       (bnd (annot (errorf (''check migration '' @ at_version service m @ '': ''))
               (tx_stmt (sql_select_checksum service (m_Version m)))) (\<lambda>existing.
          case existing of
            Some c \<Rightarrow> if c \<noteq> m_Checksum m then raise (mismatch service m) else commit_tx
          | None \<Rightarrow>
              bnd (annot (errorf (''apply migration '' @ at_version service m @ '' '' @ m_Name m @ '': ''))
                     (tx_stmt (sql_exec_migration exec (m_SQL m)))) (\<lambda>_.
              bnd (annot (errorf (''record migration '' @ at_version service m @ '': ''))
                     (tx_stmt (sql_insert_applied service m))) (\<lambda>_.
              annot (errorf (''commit migration '' @ at_version service m @ '': '')) commit_tx))))"

definition run_migrations :: "'s exec_sql \<Rightarrow> string \<Rightarrow> migration list \<Rightarrow> ('s migr_db, wire, unit) go" where
  "run_migrations exec service ms =
     bnd (annot (errorf ''create schema_migrations table: '') (pool_stmt sql_create_table)) (\<lambda>_.
     for_each (apply_migration exec service) ms)"

definition outbox_migrations :: "'s exec_sql \<Rightarrow> embed_fs \<Rightarrow> ('s migr_db, wire, unit) go" where
  "outbox_migrations exec files =
     bnd (of_sum (Load files ''.'')) (\<lambda>ms. run_migrations exec ''outbox'' ms)"

definition service_migrations ::
    "'s exec_sql \<Rightarrow> string \<Rightarrow> embed_fs \<Rightarrow> embed_fs \<Rightarrow> ('s migr_db, wire, unit) go" where
  "service_migrations exec service files outbox_files =
     bnd (of_sum (Load files ''.'')) (\<lambda>ms.
     bnd (run_migrations exec service ms) (\<lambda>_. outbox_migrations exec outbox_files))"

definition scanner_migrations :: "'s exec_sql \<Rightarrow> embed_fs \<Rightarrow> embed_fs \<Rightarrow> ('s migr_db, wire, unit) go" where
  "scanner_migrations exec = service_migrations exec ''scanner-service''"

definition notification_migrations :: "'s exec_sql \<Rightarrow> embed_fs \<Rightarrow> embed_fs \<Rightarrow> ('s migr_db, wire, unit) go" where
  "notification_migrations exec = service_migrations exec ''notification-service''"

definition subscription_migrations :: "'s exec_sql \<Rightarrow> embed_fs \<Rightarrow> embed_fs \<Rightarrow> ('s migr_db, wire, unit) go" where
  "subscription_migrations exec = service_migrations exec ''subscription-api''"

section \<open>What loading returns\<close>

lemma file_name_split:
  "matches fileNamePattern s = (\<exists>v n. s = v @ ''_'' @ n @ ''.sql'' \<and> v \<noteq> [] \<and> n \<noteq> [] \<and> list_all decimal v \<and> list_all name_char n)"
  unfolding fileNamePattern_def matches_many matches_lit by (auto simp: matches.simps(1))

lemma underscore_no_digit: "\<not> decimal CHR ''_''"
  by (simp add: decimal_def between_def)

lemma file_submatch_iff:
  "(file_submatch s = Some (v, n)) =
     (s = v @ ''_'' @ n @ ''.sql'' \<and> v \<noteq> [] \<and> n \<noteq> [] \<and> list_all decimal v \<and> list_all name_char n)"
proof -
  have parts: "takeWhile decimal (v @ CHR ''_'' # r) = v" "dropWhile decimal (v @ CHR ''_'' # r) = CHR ''_'' # r"
    if "list_all decimal v" for v r
    using that underscore_no_digit by (induction v) auto
  show ?thesis
  proof
    assume "file_submatch s = Some (v, n)"
    then show "s = v @ ''_'' @ n @ ''.sql'' \<and> v \<noteq> [] \<and> n \<noteq> [] \<and> list_all decimal v \<and> list_all name_char n"
      unfolding file_submatch_def Let_def by (auto simp: parts file_name_split split: if_splits)
  next
    assume s: "s = v @ ''_'' @ n @ ''.sql'' \<and> v \<noteq> [] \<and> n \<noteq> [] \<and> list_all decimal v \<and> list_all name_char n"
    then have "matches fileNamePattern s" unfolding file_name_split by blast
    with s show "file_submatch s = Some (v, n)" by (simp add: file_submatch_def parts)
  qed
qed

lemma name_char_plain: "list_all name_char n \<Longrightarrow> trim_suffix n ''.sql'' = n"
  by (rule trim_suffix_absent[of "CHR ''.''"]) (auto simp: list_all_iff class_defs)

lemma sum_map_Inr_iff: "(sum_map g r = Inr y) = (\<exists>x. r = Inr x \<and> y = g x)"
  by (cases r) (auto simp: sum_map_def)

text \<open>A file is a migration when its name matches the pattern; \<open>loads dir f m\<close>: it is the migration \<open>m\<close>.\<close>

definition migration_file :: "dir_entry \<Rightarrow> bool" where
  "migration_file f = (\<not> de_IsDir f \<and> matches fileNamePattern (de_Name f))"

definition loads :: "string \<Rightarrow> dir_entry \<Rightarrow> migration \<Rightarrow> bool" where
  "loads dir f m = (\<exists>digits. de_Name f = digits @ ''_'' @ m_Name m @ ''.sql'' \<and> list_all decimal digits \<and>
     m_Name m \<noteq> [] \<and> list_all name_char (m_Name m) \<and> ParseInt digits = Inr (m_Version m) \<and> de_File f = Inr (m_SQL m) \<and>
     m_Path m = path_Join dir (de_Name f) \<and> m_Checksum m = hex_digest (m_SQL m))"

lemma migration_file_submatch:
  "\<not> de_IsDir f \<Longrightarrow> migration_file f = (file_submatch (de_Name f) \<noteq> None)"
  by (auto simp: migration_file_def file_submatch_def)

lemma loads_submatch:
  assumes "file_submatch (de_Name f) = Some (digits, label)"
  shows "loads dir f m =
    (\<exists>v raw. ParseInt digits = Inr v \<and> de_File f = Inr raw \<and>
       m = \<lparr>m_Version = v, m_Name = trim_suffix label ''.sql'', m_Path = path_Join dir (de_Name f), m_SQL = raw,
            m_Checksum = checksum raw\<rparr>)"
proof -
  have name: "de_Name f = digits @ ''_'' @ label @ ''.sql''" "digits \<noteq> []" "list_all decimal digits"
    "list_all name_char label" "label \<noteq> []"
    using assms unfolding file_submatch_iff by auto
  have "d = digits \<and> n = label"
    if "de_Name f = d @ ''_'' @ n @ ''.sql''" "list_all decimal d" "list_all name_char n" "n \<noteq> []" "ParseInt d = Inr v" for d n v
  proof -
    have "d \<noteq> []" using that(5) by (auto simp: ParseInt_def parse_int64_def)
    with that \<open>d \<noteq> []\<close> have "file_submatch (de_Name f) = Some (d, n)" unfolding file_submatch_iff by blast
    with assms show ?thesis by simp
  qed
  then have char: "loads dir f m = (ParseInt digits = Inr (m_Version m) \<and> de_File f = Inr (m_SQL m) \<and> m_Name m = label \<and>
      m_Path m = path_Join dir (de_Name f) \<and> m_Checksum m = hex_digest (m_SQL m))"
    unfolding loads_def using name by metis
  show ?thesis
    unfolding char by (cases m) (auto simp: checksum_def name_char_plain[OF name(4)])
qed

lemma load_entries_iff:
  "(load_entries dir seen fs = Inr ms) =
     (list_all2 (loads dir) (filter migration_file fs) ms \<and> distinct (map m_Version ms) \<and>
      (\<forall>m \<in> set ms. seen (m_Version m) = None))"
proof (induction fs arbitrary: seen ms)
  case (Cons f fs)
  show ?case
  proof (cases "de_IsDir f \<or> file_submatch (de_Name f) = None")
    case True
    then have "\<not> migration_file f" "load_entries dir seen (f # fs) = load_entries dir seen fs"
      by (auto simp: migration_file_def file_submatch_def split: if_splits)
    then show ?thesis using Cons.IH by simp
  next
    case False
    then obtain digits label where m: "file_submatch (de_Name f) = Some (digits, label)" by auto
    have f: "migration_file f" "\<not> de_IsDir f" using False by (auto simp: migration_file_submatch)
    have upd: "((seen(v \<mapsto> label)) x = None) = (x \<noteq> v \<and> seen x = None)" for v x label by simp
    have "(load_entries dir seen (f # fs) = Inr ms) =
        (\<exists>m ms'. ms = m # ms' \<and> loads dir f m \<and> seen (m_Version m) = None \<and>
           load_entries dir (seen(m_Version m \<mapsto> de_Name f)) fs = Inr ms')"
      unfolding loads_submatch[OF m]
      by (cases "ParseInt digits"; cases "de_File f"; cases "seen (projr (ParseInt digits))")
        (use f(2) m in \<open>auto simp: sum_map_Inr_iff\<close>)
    also have "\<dots> = (\<exists>m ms'. ms = m # ms' \<and> loads dir f m \<and> seen (m_Version m) = None \<and>
           list_all2 (loads dir) (filter migration_file fs) ms' \<and> distinct (map m_Version ms') \<and>
           (\<forall>x \<in> set ms'. m_Version x \<noteq> m_Version m \<and> seen (m_Version x) = None))"
      unfolding Cons.IH upd ..
    also have "\<dots> = (list_all2 (loads dir) (filter migration_file (f # fs)) ms \<and> distinct (map m_Version ms) \<and>
      (\<forall>m \<in> set ms. seen (m_Version m) = None))"
    proof (cases ms)
      case (Cons m0 ms0)
      show ?thesis
        unfolding Cons by (simp add: f(1) image_iff ball_conj_distrib del: fun_upd_apply) (metis (no_types))
    qed (simp add: f(1))
    finally show ?thesis .
  qed
qed auto

text \<open>
  Loading returns the migration files of the directory, each with the version its name starts with,
  its text and the SHA-256 of it, in strictly increasing order of their versions; it succeeds whenever every version is a 64-bit integer,
  every file can be read and no two files have the same version.
\<close>

theorem load_in_version_order:
  "(Load fsys dir = Inr ms) =
     (\<exists>entries loaded. fsys dir = Inr entries \<and> list_all2 (loads dir) (filter migration_file entries) loaded \<and>
        mset ms = mset loaded \<and> sorted_wrt (<) (map m_Version ms))"
proof
  assume "Load fsys dir = Inr ms"
  then obtain entries loaded where e: "fsys dir = Inr entries" "load_entries dir Map.empty entries = Inr loaded"
      "ms = sort_key m_Version loaded"
    by (auto simp: Load_def sum_map_Inr_iff split: sum.splits)
  then have "list_all2 (loads dir) (filter migration_file entries) loaded" "distinct (map m_Version loaded)"
    by (simp_all add: load_entries_iff)
  moreover have "sorted_wrt (<) (map m_Version ms)"
    using calculation(2) by (simp add: e(3) strict_sorted_iff distinct_map)
  ultimately show "\<exists>entries loaded. fsys dir = Inr entries \<and>
      list_all2 (loads dir) (filter migration_file entries) loaded \<and> mset ms = mset loaded \<and> sorted_wrt (<) (map m_Version ms)"
    using e by auto
next
  assume "\<exists>entries loaded. fsys dir = Inr entries \<and> list_all2 (loads dir) (filter migration_file entries) loaded \<and>
      mset ms = mset loaded \<and> sorted_wrt (<) (map m_Version ms)"
  then obtain entries loaded where e: "fsys dir = Inr entries"
      "list_all2 (loads dir) (filter migration_file entries) loaded" "mset ms = mset loaded" "sorted_wrt (<) (map m_Version ms)"
    by blast
  have "distinct (map m_Version ms)" using e(4) by (simp add: strict_sorted_iff)
  moreover have "mset (map m_Version ms) = mset (map m_Version loaded)" by (simp add: e(3))
  ultimately have dist: "distinct (map m_Version loaded)" by (metis mset_eq_imp_distinct_iff)
  have "sort_key m_Version loaded = ms"
  proof (rule sort_key_inj_key_eq)
    show "mset loaded = mset ms" by (rule e(3)[symmetric])
    show "inj_on m_Version (set loaded)" using dist by (simp add: distinct_map)
    show "sorted (map m_Version ms)" using e(4) by (simp add: strict_sorted_iff)
  qed
  then show "Load fsys dir = Inr ms"
    unfolding Load_def e(1) sum.case sum_map_Inr_iff load_entries_iff using e(2) dist by (intro exI[of _ loaded]) simp
qed

section \<open>The specification of a run\<close>

text \<open>
  A run is specified on the history of a database: the migrations recorded in the table, without the
  times, and the schema.  A migration that the history has is skipped, one that it has with another
  checksum is refused, any other one is executed and recorded.
\<close>

type_synonym 's history = "((string \<times> int) \<times> string \<times> string) list \<times> 's"

fun migrate :: "'s exec_sql \<Rightarrow> (string \<times> migration) list \<Rightarrow> 's history \<Rightarrow> 's history option" where
  "migrate exec [] h = Some h"
| "migrate exec ((service, m) # jobs) (recorded, s) =
     (case map_of recorded (service, m_Version m) of
        Some (_, c) \<Rightarrow> if c = m_Checksum m then migrate exec jobs (recorded, s) else None
      | None \<Rightarrow>
          (case exec (m_SQL m) s of
             Inl _ \<Rightarrow> None
           | Inr s' \<Rightarrow>
               migrate exec jobs (recorded @ [((service, m_Version m), m_Name m, m_Checksum m)], s')))"

definition recorded_rows :: "applied_row list \<Rightarrow> ((string \<times> int) \<times> string \<times> string) list" where
  "recorded_rows = map (\<lambda>r. (applied_key r, ar_name r, ar_checksum r))"

definition history :: "'s migr_db \<Rightarrow> 's history" where
  "history d = (recorded_rows (case schema_migrations d of None \<Rightarrow> [] | Some rows \<Rightarrow> rows), schema d)"

lemma map_of_recorded:
  "map_of (recorded_rows rows) k = map_option (\<lambda>r. (ar_name r, ar_checksum r)) (lookup_row applied_key rows k)"
  by (induction rows) (auto simp: recorded_rows_def lookup_row_def)

lemma recorded_rows_append [simp]:
  "recorded_rows (rows @ [r]) = recorded_rows rows @ [(applied_key r, ar_name r, ar_checksum r)]"
  by (simp add: recorded_rows_def)

lemma migrate_append:
  "migrate exec (xs @ ys) h = (case migrate exec xs h of None \<Rightarrow> None | Some h' \<Rightarrow> migrate exec ys h')"
  by (induction exec xs h rule: migrate.induct) (auto split: option.splits sum.splits)

lemma history_create: "sql_create_table d now = Inr (u, d') \<Longrightarrow> history d' = history d \<and> schema_migrations d' \<noteq> None"
  by (auto simp: sql_create_table_def history_def split: option.splits)

section \<open>A run follows the specification\<close>

lemma apply_migration_atomic:
  "tx_wp (apply_migration exec service m)
     (\<lambda>_ d _. migrate exec [(service, m)] (history (w_db w)) = Some (history d)) w w"
  unfolding apply_migration_def
proof (rule tx_wp_with_tx, rule tx_wp_annot_bnd, erule tx_wp_stmt)
  fix w1 existing d' w2
  let ?P = "\<lambda>_ d (_ :: nat). migrate exec [(service, m)] (history (w_db w)) = Some (history d)"
  assume sel: "sql_select_checksum service (m_Version m) (w_db w) (w_pg_now w) = Inr (existing, d')" and w2: "staged w d' (w_uuids w) w2"
  obtain rows where rows: "schema_migrations (w_db w) = Some rows" "d' = w_db w"
      "existing = map_option ar_checksum (lookup_row applied_key rows (service, m_Version m))"
    using sel by (auto simp: sql_select_checksum_def split: option.splits)
  show "tx_wp (case existing of
            Some c \<Rightarrow> if c \<noteq> m_Checksum m then raise (mismatch service m) else commit_tx
          | None \<Rightarrow>
              bnd (annot (errorf (''apply migration '' @ at_version service m @ '' '' @ m_Name m @ '': ''))
                     (tx_stmt (sql_exec_migration exec (m_SQL m)))) (\<lambda>_.
              bnd (annot (errorf (''record migration '' @ at_version service m @ '': ''))
                     (tx_stmt (sql_insert_applied service m))) (\<lambda>_.
              annot (errorf (''commit migration '' @ at_version service m @ '': '')) commit_tx))) ?P w w2"
  proof (cases "lookup_row applied_key rows (service, m_Version m)")
    case (Some r)
    then show ?thesis
      using w2 rows by (auto intro!: tx_wp_raise[OF w2] tx_wp_commit[OF w2] simp: history_def map_of_recorded)
  next
    case None
    have new: "existing = None" using rows None by simp
    show ?thesis
      unfolding new option.case
    proof (rule tx_wp_annot_bnd, rule tx_wp_stmt[OF w2], rule tx_wp_annot_bnd, erule tx_wp_stmt)
      fix u1 d1 w3 u2 d2 w4
      assume "sql_exec_migration exec (m_SQL m) d' (w_pg_now w) = Inr (u1, d1)"
        and "sql_insert_applied service m d1 (w_pg_now w) = Inr (u2, d2)" and w4: "staged w d2 (w_uuids w) w4"
      then have "?P () d2 0"
        using rows None
        by (auto simp: sql_exec_migration_def sql_insert_applied_def history_def map_of_recorded applied_key_def
            split: sum.splits if_splits)
      then show "tx_wp (annot (errorf (''commit migration '' @ at_version service m @ '': '')) commit_tx) ?P w w4"
        unfolding tx_wp_annot by (intro tx_wp_commit[OF w4])
    qed
  qed
qed

abbreviation jobs_of :: "string \<Rightarrow> migration list \<Rightarrow> (string \<times> migration) list" where
  "jobs_of service ms \<equiv> map (Pair service) ms"

text \<open>\<open>reached exec jobs w w'\<close>: the database of \<open>w'\<close> is that of \<open>w\<close> after the first few jobs.\<close>

definition reached :: "'s exec_sql \<Rightarrow> (string \<times> migration) list \<Rightarrow> 's history \<Rightarrow> 's history \<Rightarrow> bool" where
  "reached exec jobs h h' = (\<exists>n \<le> length jobs. migrate exec (take n jobs) h = Some h')"

lemma reached_start: "reached exec jobs h h"
  by (auto simp: reached_def intro: exI[of _ 0])

lemma reached_appendI: "migrate exec xs h = Some h1 \<Longrightarrow> reached exec ys h1 h' \<Longrightarrow> reached exec (xs @ ys) h h'"
  unfolding reached_def by (elim exE conjE) (rule_tac x = "length xs + n" in exI, simp add: migrate_append)

lemma reached_extend: "reached exec xs h h' \<Longrightarrow> reached exec (xs @ ys) h h'"
  unfolding reached_def by (elim exE conjE) (rule_tac x = n in exI, simp)

lemma run_migrations_follows:
  fixes w :: "('s migr_db, wire) world"
  shows "wp (run_migrations exec service ms)
     (\<lambda>_ w'. migrate exec (jobs_of service ms) (history (w_db w)) = Some (history (w_db w')))
     (\<lambda>_ w'. reached exec (jobs_of service ms) (history (w_db w)) (history (w_db w'))) w"
proof -
  let ?h = "history (w_db w)"
  let ?R = "\<lambda>_ w'. reached exec (jobs_of service ms) ?h (history (w_db w'))"
  let ?I = "\<lambda>xs w1. \<exists>pre. ms = pre @ xs \<and> migrate exec (jobs_of service pre) ?h = Some (history (w_db w1))"
  have step: "wp (apply_migration exec service m) (\<lambda>_. ?I xs) ?R w1" if prem: "?I (m # xs) w1" for m xs and w1 :: "('s migr_db, wire) world"
  proof -
    obtain pre where pre: "ms = pre @ m # xs" "migrate exec (jobs_of service pre) ?h = Some (history (w_db w1))"
      using prem by blast
    then have split: "jobs_of service ms = jobs_of service pre @ jobs_of service (m # xs)" by simp
    show ?thesis
    proof (rule tx_wp_wp[OF apply_migration_atomic])
      fix a and w2 :: "('s migr_db, wire) world"
      assume "migrate exec [(service, m)] (history (w_db w1)) = Some (history (w_db w2))"
      then show "?I xs w2" using pre by (intro exI[of _ "pre @ [m]"]) (simp add: migrate_append)
    next
      fix e and w2 :: "('s migr_db, wire) world"
      assume "w_db w2 = w_db w1 \<or> (\<exists>a :: unit. migrate exec [(service, m)] (history (w_db w1)) = Some (history (w_db w2)))"
      then have "reached exec ([(service, m)] @ jobs_of service xs) (history (w_db w1)) (history (w_db w2))"
        using reached_start reached_appendI by fastforce
      then show "?R e w2" unfolding split using pre(2) by (intro reached_appendI) simp_all
    qed
  qed
  have loop: "wp (for_each (apply_migration exec service) ms)
      (\<lambda>_ w'. migrate exec (jobs_of service ms) ?h = Some (history (w_db w'))) ?R w1"
    if "history (w_db w1) = ?h" for w1 :: "('s migr_db, wire) world"
    by (rule wp_for_each[where I = ?I, OF _ step]) (use that in auto)
  show ?thesis
    using loop reached_start[of exec "jobs_of service ms" ?h]
    by (auto simp: run_migrations_def wp_bnd wp_annot wp_pool_stmt split: call_outcome.splits sum.splits dest!: history_create)
qed

abbreviation start_jobs :: "string \<Rightarrow> migration list \<Rightarrow> migration list \<Rightarrow> (string \<times> migration) list" where
  "start_jobs service ms oms \<equiv> jobs_of service ms @ jobs_of ''outbox'' oms"

lemma service_migrations_follow:
  fixes w :: "('s migr_db, wire) world"
  assumes "Load files ''.'' = Inr ms" and "Load outbox_files ''.'' = Inr oms"
  shows "wp (service_migrations exec service files outbox_files)
     (\<lambda>_ w'. migrate exec (start_jobs service ms oms) (history (w_db w)) = Some (history (w_db w')))
     (\<lambda>_ w'. reached exec (start_jobs service ms oms) (history (w_db w)) (history (w_db w'))) w"
  unfolding service_migrations_def outbox_migrations_def assms wp_bnd wp_of_sum sum.case
proof (rule wp_mono[OF run_migrations_follows])
  fix w1 :: "('s migr_db, wire) world"
  assume first: "migrate exec (jobs_of service ms) (history (w_db w)) = Some (history (w_db w1))"
  show "wp (run_migrations exec ''outbox'' oms)
      (\<lambda>_ w'. migrate exec (start_jobs service ms oms) (history (w_db w)) = Some (history (w_db w')))
      (\<lambda>_ w'. reached exec (start_jobs service ms oms) (history (w_db w)) (history (w_db w'))) w1"
    by (rule wp_mono[OF run_migrations_follows]) (use first in \<open>simp_all add: migrate_append reached_appendI\<close>)
qed (rule reached_extend)

section \<open>Starting again\<close>

definition has_job :: "'s history \<Rightarrow> string \<times> migration \<Rightarrow> bool" where
  "has_job h j = (\<exists>label. map_of (fst h) (fst j, m_Version (snd j)) = Some (label, m_Checksum (snd j)))"

lemma migrate_keeps: "migrate exec jobs h = Some h' \<Longrightarrow> map_of (fst h) k = Some v \<Longrightarrow> map_of (fst h') k = Some v"
  by (induction exec jobs h rule: migrate.induct) (auto split: option.splits sum.splits if_splits)

lemma migrate_has: "migrate exec jobs h = Some h' \<Longrightarrow> j \<in> set jobs \<Longrightarrow> has_job h' j"
proof (induction exec jobs h rule: migrate.induct)
  case (2 exec service m jobs recorded s)
  show ?case
  proof (cases "j = (service, m)")
    case True
    show ?thesis
    proof (cases "map_of recorded (service, m_Version m)")
      case None
      then obtain s' where "migrate exec jobs (recorded @ [((service, m_Version m), m_Name m, m_Checksum m)], s') = Some h'"
        using "2.prems"(1) by (auto split: sum.splits)
      from migrate_keeps[OF this, of "(service, m_Version m)"] show ?thesis
        using True None by (simp add: has_job_def map_add_def)
    next
      case (Some v)
      then have "snd v = m_Checksum m" "migrate exec jobs (recorded, s) = Some h'"
        using "2.prems"(1) by (auto split: prod.splits if_splits)
      with Some True migrate_keeps[OF this(2), of "(service, m_Version m)"] show ?thesis
        by (cases v) (simp add: has_job_def)
    qed
  next
    case False
    then show ?thesis using 2 by (auto split: option.splits sum.splits if_splits)
  qed
qed simp

lemma migrate_skips: "\<forall>j \<in> set jobs. has_job h j \<Longrightarrow> migrate exec jobs h = Some h"
  by (induction exec jobs h rule: migrate.induct) (auto simp: has_job_def)

lemma migrate_again: "migrate exec jobs h = Some h' \<Longrightarrow> migrate exec jobs h' = Some h'"
  by (rule migrate_skips) (blast intro: migrate_has)

lemma reached_resume:
  assumes "reached exec jobs h h'"
  shows "migrate exec jobs h' = migrate exec jobs h" and "reached exec jobs h' h'' \<Longrightarrow> reached exec jobs h h''"
proof -
  obtain n where n: "n \<le> length jobs" "migrate exec (take n jobs) h = Some h'"
    using assms by (auto simp: reached_def)
  note same = migrate_again[OF n(2)]
  have full: "migrate exec (take n jobs @ ys) h' = migrate exec (take n jobs @ ys) h" for ys
    by (simp only: migrate_append n(2) same)
  from full[of "drop n jobs"] show "migrate exec jobs h' = migrate exec jobs h" by simp
  assume "reached exec jobs h' h''"
  then obtain k where k: "k \<le> length jobs" "migrate exec (take k jobs) h' = Some h''"
    by (auto simp: reached_def)
  show "reached exec jobs h h''"
  proof (cases "k \<le> n")
    case True
    then have "set (take k jobs) \<subseteq> set (take n jobs)" by (simp add: set_take_subset_set_take)
    then have "migrate exec (take k jobs) h' = Some h'"
      using migrate_has[OF n(2)] by (intro migrate_skips) blast
    with k assms show ?thesis by simp
  next
    case False
    then have "take k jobs = take n jobs @ take (k - n) (drop n jobs)"
      by (metis le_add_diff_inverse nat_le_linear take_add)
    with full k show ?thesis by (auto simp: reached_def)
  qed
qed

text \<open>
  \<open>restarts run d d'\<close>: a service whose database was in state \<open>d\<close> was started some number of times, each
  start with its own failures (a process that is killed leaves the database as one whose calls
  fail from then on), and left it in state \<open>d'\<close>.
\<close>

inductive restarts :: "('db, 'v, unit) go \<Rightarrow> 'db \<Rightarrow> 'db \<Rightarrow> bool" for run where
  restarts_refl: "restarts run d d"
| restarts_step: "restarts run d (w_db w) \<Longrightarrow> run w = (r, w') \<Longrightarrow> restarts run d (w_db w')"

lemma restarts_reached:
  assumes "restarts (service_migrations exec service files outbox_files) d d'"
    and "Load files ''.'' = Inr ms" and "Load outbox_files ''.'' = Inr oms"
  shows "reached exec (start_jobs service ms oms) (history d) (history d')"
  using assms(1)
proof induction
  case (restarts_step d w r w')
  let ?jobs = "start_jobs service ms oms"
  have "reached exec ?jobs (history (w_db w)) (history (w_db w'))"
    using wp_run[OF restarts_step(2) service_migrations_follow[OF assms(2,3)]]
    by (cases r) (auto simp: reached_def intro: exI[of _ "length ?jobs"])
  with restarts_step.IH show ?case by (rule reached_resume(2))
qed (rule reached_start)

section \<open>What a start guarantees\<close>

text \<open>
  C38. However often a service is restarted and whatever fails in between, the first start that
  returns without an error leaves the database in the state that executing every
  unrecorded migration once, in order, the service's before those of the outbox, makes of the initial one; and
  a further start would change nothing.
\<close>

theorem migrations_run_once:
  assumes "Load files ''.'' = Inr ms" and "Load outbox_files ''.'' = Inr oms"
    and "restarts (service_migrations exec service files outbox_files) d (w_db w)"
    and "service_migrations exec service files outbox_files w = (Inr (), w')"
  shows "migrate exec (start_jobs service ms oms) (history d) = Some (history (w_db w')) \<and>
    migrate exec (start_jobs service ms oms) (history (w_db w')) = Some (history (w_db w'))"
proof -
  have "migrate exec (start_jobs service ms oms) (history (w_db w)) = Some (history (w_db w'))"
    using wp_okD[OF assms(4) service_migrations_follow[OF assms(1,2)]] .
  then show ?thesis
    using reached_resume(1)[OF restarts_reached[OF assms(3,1,2)]] migrate_again by metis
qed

lemma edited_stops:
  assumes "map_of (fst h) (service, m_Version m) = Some (label, c)" and "c \<noteq> m_Checksum m"
  shows "migrate exec (xs @ (service, m) # ys) h = None"
proof (cases "migrate exec xs h")
  case (Some h1)
  then have "map_of (fst h1) (service, m_Version m) = Some (label, c)" by (rule migrate_keeps[OF _ assms(1)])
  then show ?thesis using Some assms(2) by (cases h1) (simp add: migrate_append)
qed (simp add: migrate_append)

text \<open>
  A migration whose file was edited after it was applied stops the start with an error, and
  nothing from it on is executed.
\<close>

theorem edited_migration_refused:
  assumes "Load files ''.'' = Inr ms" and "Load outbox_files ''.'' = Inr oms"
    and "start_jobs service ms oms = before @ (owner, m) # after"
    and "map_of (fst (history (w_db w))) (owner, m_Version m) = Some (label, c)" and "c \<noteq> m_Checksum m"
    and "service_migrations exec service files outbox_files w = (r, w')"
  shows "(\<exists>e. r = Inl e) \<and> reached exec before (history (w_db w)) (history (w_db w'))"
proof -
  let ?h = "history (w_db w)" and ?h' = "history (w_db w')"
  have none: "migrate exec (before @ (owner, m) # ys) ?h = None" for ys by (rule edited_stops[OF assms(4,5)])
  have r: "case r of Inl e \<Rightarrow> reached exec (start_jobs service ms oms) ?h ?h'
      | Inr a \<Rightarrow> migrate exec (start_jobs service ms oms) ?h = Some ?h'"
    using wp_run[OF assms(6) service_migrations_follow[OF assms(1,2)]] .
  then obtain e where e: "r = Inl e" "reached exec (before @ (owner, m) # after) ?h ?h'"
    using none unfolding assms(3) by (auto split: sum.splits)
  then obtain n where n: "migrate exec (take n (before @ (owner, m) # after)) ?h = Some ?h'"
    unfolding reached_def by blast
  have "n \<le> length before"
  proof (rule ccontr)
    assume "\<not> n \<le> length before"
    then obtain k where "n = length before + Suc k" by (metis add_Suc_right less_imp_Suc_add not_le)
    with n none show False by simp
  qed
  with n e(1) show ?thesis by (auto simp: reached_def)
qed

lemma apply_migration_succeeds:
  fixes w :: "('s migr_db, wire) world"
  assumes "w_script w = []" and "schema_migrations (w_db w) \<noteq> None"
    and "migrate exec [(service, m)] (history (w_db w)) = Some h"
  shows "wp (apply_migration exec service m)
    (\<lambda>_ w'. w_script w' = [] \<and> schema_migrations (w_db w') \<noteq> None \<and> history (w_db w') = h) (\<lambda>_ _. False) w"
  using assms
  by (auto simp: apply_migration_def wp_simps sql_select_checksum_def sql_exec_migration_def sql_insert_applied_def history_def
      map_of_recorded applied_key_def split: option.splits sum.splits if_splits)

lemma run_migrations_succeeds:
  fixes w :: "('s migr_db, wire) world"
  assumes "w_script w = []" and "migrate exec (jobs_of service ms) (history (w_db w)) = Some h"
  shows "wp (run_migrations exec service ms)
    (\<lambda>_ w'. w_script w' = [] \<and> history (w_db w') = h) (\<lambda>_ _. False) w"
proof -
  let ?I = "\<lambda>xs w1. w_script w1 = [] \<and> schema_migrations (w_db w1) \<noteq> None \<and>
      migrate exec (jobs_of service xs) (history (w_db w1)) = Some h"
  have step: "wp (apply_migration exec service m) (\<lambda>_. ?I xs) (\<lambda>_ _. False) w1" if prem: "?I (m # xs) w1"
    for m xs and w1 :: "('s migr_db, wire) world"
  proof -
    obtain h1 where h1: "migrate exec [(service, m)] (history (w_db w1)) = Some h1" "migrate exec (jobs_of service xs) h1 = Some h"
      using prem migrate_append[of exec "[(service, m)]" "jobs_of service xs"] by (auto split: option.splits)
    show ?thesis by (rule wp_mono[OF apply_migration_succeeds[OF _ _ h1(1)]]) (use prem h1(2) in auto)
  qed
  have "wp (for_each (apply_migration exec service) ms) (\<lambda>_ w'. w_script w' = [] \<and> history (w_db w') = h) (\<lambda>_ _. False) w1"
    if "?I ms w1" for w1 :: "('s migr_db, wire) world"
    by (rule wp_for_each[where I = ?I, OF that step]) auto
  then show ?thesis
    using assms by (auto simp: run_migrations_def wp_bnd wp_annot wp_pool_stmt split: sum.splits dest!: history_create)
      (simp add: sql_create_table_def)
qed

lemma service_migrations_succeed:
  fixes w :: "('s migr_db, wire) world"
  assumes "Load files ''.'' = Inr ms" and "Load outbox_files ''.'' = Inr oms" and "w_script w = []"
    and "migrate exec (start_jobs service ms oms) (history (w_db w)) = Some h"
  shows "\<exists>w'. service_migrations exec service files outbox_files w = (Inr (), w') \<and> history (w_db w') = h"
proof -
  obtain h1 where h1: "migrate exec (jobs_of service ms) (history (w_db w)) = Some h1"
      "migrate exec (jobs_of ''outbox'' oms) h1 = Some h"
    using assms(4) by (auto simp: migrate_append split: option.splits)
  have "wp (service_migrations exec service files outbox_files) (\<lambda>_ w'. history (w_db w') = h) (\<lambda>_ _. False) w"
    unfolding service_migrations_def outbox_migrations_def assms wp_bnd wp_of_sum sum.case
    by (rule wp_mono[OF run_migrations_succeeds[OF assms(3) h1(1)]])
      (use h1(2) in \<open>auto intro: wp_mono[OF run_migrations_succeeds]\<close>)
  from wp_returns[OF this] show ?thesis by auto
qed

text \<open>
  When nothing fails, a start returns without an error exactly when no migration was edited and
  none fails to execute, and leaves the specified history.
\<close>

theorem migrations_complete:
  assumes "Load files ''.'' = Inr ms" and "Load outbox_files ''.'' = Inr oms" and "w_script w = []"
  shows "(\<exists>w'. service_migrations exec service files outbox_files w = (Inr (), w') \<and> history (w_db w') = h) =
    (migrate exec (start_jobs service ms oms) (history (w_db w)) = Some h)"
  using wp_okD[OF _ service_migrations_follow[OF assms(1,2)]] service_migrations_succeed[OF assms] by blast

section \<open>A concrete start\<close>

definition demo_files :: "string \<Rightarrow> embed_fs" where
  "demo_files text1 dir = Inr [\<lparr>de_Name = ''01_a.sql'', de_IsDir = False, de_File = Inr text1\<rparr>,
     \<lparr>de_Name = ''embed.go'', de_IsDir = False, de_File = Inr ''package x''\<rparr>]"

definition demo_migration :: "string \<Rightarrow> migration" where
  "demo_migration text1 = \<lparr>m_Version = 1, m_Name = ''a'', m_Path = ''01_a.sql'', m_SQL = text1, m_Checksum = hex_digest text1\<rparr>"

definition demo_exec :: "string list exec_sql" where
  "demo_exec q s = Inr (s @ [q])"

lemma demo_load: "Load (demo_files q) ''.'' = Inr [demo_migration q]"
proof -
  have "file_submatch ''01_a.sql'' = Some (''01'', ''a'')" by (simp add: file_submatch_iff class_defs)
  moreover have "\<not> matches fileNamePattern ''embed.go''"
    by (auto simp: file_name_split decimal_def between_def append_eq_Cons_conv Cons_eq_append_conv)
  then have "file_submatch ''embed.go'' = None" by (simp add: file_submatch_def)
  moreover have "ParseInt ''01'' = Inr 1"
    by (simp add: ParseInt_def parse_int64_def digit_value_def decimal_def between_def)
  moreover have "path_Join ''.'' ''01_a.sql'' = ''01_a.sql''"
    by (simp add: path_Join_def path_Clean_def clean_step_def Let_def)
  moreover have "trim_suffix ''a'' ''.sql'' = ''a''" by (simp add: trim_suffix_def)
  ultimately show ?thesis by (simp add: Load_def demo_files_def demo_migration_def checksum_def)
qed

definition empty_db :: "string list migr_db" where
  "empty_db = \<lparr>schema_migrations = None, schema = []\<rparr>"

abbreviation demo_start :: "(string list migr_db, wire, unit) go" where
  "demo_start \<equiv> scanner_migrations demo_exec (demo_files ''create'') (demo_files ''outbox'')"

lemma demo_jobs:
  "migrate demo_exec (start_jobs ''scanner-service'' [demo_migration ''create''] [demo_migration ''outbox'']) (history empty_db) =
     Some ([((''scanner-service'', 1), ''a'', hex_digest ''create''), ((''outbox'', 1), ''a'', hex_digest ''outbox'')],
       [''create'', ''outbox''])"
  by (simp add: demo_migration_def demo_exec_def history_def empty_db_def recorded_rows_def)

theorem migrations_run_once_witness:
  "\<exists>r w0 w'. demo_start ((calm_world empty_db 3)\<lparr>w_script := [Succeed, Succeed, Fail ''timeout'']\<rparr>) = (r, w0) \<and>
     demo_start (calm_world (w_db w0) 7) = (Inr (), w') \<and>
     migrate demo_exec (start_jobs ''scanner-service'' [demo_migration ''create''] [demo_migration ''outbox''])
       (history empty_db) = Some (history (w_db w'))"
proof -
  let ?w = "(calm_world empty_db 3)\<lparr>w_script := [Succeed, Succeed, Fail ''timeout'']\<rparr> :: (string list migr_db, wire) world"
  note loads = demo_load[of "''create''"] demo_load[of "''outbox''"]
  obtain r w0 where first: "demo_start ?w = (r, w0)" by (cases "demo_start ?w")
  have once: "restarts demo_start empty_db (w_db w0)"
    by (rule restarts_step[where w = ?w and r = r]) (use first restarts_refl[of demo_start empty_db] in simp_all)
  let ?c = "calm_world (w_db w0) 7 :: (string list migr_db, wire) world"
  have "\<exists>w'. demo_start ?c = (Inr (), w')"
    using service_migrations_succeed[OF loads, of ?c] demo_jobs
      reached_resume(1)[OF restarts_reached[OF once[unfolded scanner_migrations_def] loads]]
    by (fastforce simp: scanner_migrations_def calm_world_def)
  then obtain w' where second: "demo_start ?c = (Inr (), w')" by blast
  show ?thesis
    using first second migrations_run_once[OF loads, of demo_exec "''scanner-service''" empty_db ?c w'] once
    by (auto simp: scanner_migrations_def calm_world_def)
qed

theorem edited_migration_refused_witness:
  "\<exists>e w'. demo_start (calm_world (empty_db\<lparr>schema_migrations := Some [\<lparr>ar_service = ''scanner-service'', ar_version = 1,
     ar_name = ''a'', ar_checksum = ''0'', ar_applied_at = 1\<rparr>]\<rparr>) 3) = (Inl e, w') \<and> schema (w_db w') = []"
proof -
  let ?w = "calm_world (empty_db\<lparr>schema_migrations := Some [\<lparr>ar_service = ''scanner-service'', ar_version = 1,
     ar_name = ''a'', ar_checksum = ''0'', ar_applied_at = 1\<rparr>]\<rparr>) 3 :: (string list migr_db, wire) world"
  obtain r w' where run: "demo_start ?w = (r, w')" by (cases "demo_start ?w")
  have "''0'' \<noteq> hex_digest ''create''"
  proof
    assume "''0'' = hex_digest ''create''"
    then have "length (hex_digest ''create'') = 1" by (metis One_nat_def length_Cons list.size(3))
    then show False by (simp add: length_hex_digest)
  qed
  then have "(\<exists>e. r = Inl e) \<and> reached demo_exec [] (history (w_db ?w)) (history (w_db w'))"
    using run edited_migration_refused[OF demo_load demo_load, of "''scanner-service''" "''create''" "''outbox''" "[]"
        "''scanner-service''" "demo_migration ''create''" "jobs_of ''outbox'' [demo_migration ''outbox'']" ?w "''a''" "''0''" demo_exec r w']
    by (simp add: scanner_migrations_def calm_world_def history_def recorded_rows_def applied_key_def demo_migration_def)
  then show ?thesis using run by (auto simp: reached_def history_def calm_world_def empty_db_def)
qed

theorem migrations_complete_witness:
  "\<exists>w'. demo_start (calm_world empty_db 3) = (Inr (), w') \<and> schema (w_db w') = [''create'', ''outbox'']"
proof -
  have "w_script (calm_world empty_db 3 :: (string list migr_db, wire) world) = []" by (simp add: calm_world_def)
  from migrations_complete[OF demo_load demo_load this, of demo_exec "''scanner-service''" "''create''" "''outbox''"] demo_jobs
  show ?thesis by (fastforce simp: scanner_migrations_def calm_world_def history_def)
qed

end
