(* ===== verification/Log_Hook.thy ===== *)
theory Log_Hook
  imports Release_Provider "HOL-Library.Sublist"
begin

text \<open>
  The log forwarding of \<open>pkg/logger/setup.go\<close>: \<open>Configure\<close>, and the hook that hands log entries to
  a goroutine over a bounded channel.  The goroutines that log or close the hook and the one that
  publishes run concurrently: each step of the relation is one action on the read-write lock, the
  channel or the network between which another goroutine may run.  A send on a closed
  channel and closing it twice are steps into a panic.
\<close>

section \<open>Configuring the logger\<close>

definition defaultVectorBufferSize :: nat where
  "defaultVectorBufferSize = 1000"

datatype cleanup_action = Close_Hook int | Close_File string

record 'lv log_setup =
  ls_level :: 'lv
  ls_file :: "string option"
  ls_hook :: "(string \<times> nat) option"
  ls_cleanup :: "cleanup_action list"

text \<open>
  The parser of levels is that of logrus.  The result has the level, the file that is written beside the standard
  output, the address and the buffer size of the hook, and what the returned function does.
\<close>

definition Configure ::
    "(string \<Rightarrow> string + 'lv) \<Rightarrow> (string \<Rightarrow> string option) \<Rightarrow> string \<Rightarrow> bool \<Rightarrow> string \<Rightarrow> string list \<Rightarrow> goerr + 'lv log_setup" where
  "Configure parse_level open_fails level vectorEnabled vectorURL logFiles =
     (case parse_level level of
        Inl e \<Rightarrow> Inl (errorf (''invalid log level '' @ go_quote level @ '': '') (Plain e))
      | Inr parsed \<Rightarrow>
          (let file = (case logFiles of [] \<Rightarrow> None | f # _ \<Rightarrow> if f = '''' then None else Some f);
               closing = (case file of None \<Rightarrow> [] | Some f \<Rightarrow> [Close_File f])
           in case Option.bind file open_fails of
                Some e \<Rightarrow> Inl (errorf ''open log file: '' (Plain e))
              | None \<Rightarrow>
                  if \<not> vectorEnabled then Inr \<lparr>ls_level = parsed, ls_file = file, ls_hook = None, ls_cleanup = closing\<rparr>
                  else Inr \<lparr>ls_level = parsed, ls_file = file,
                    ls_hook = Some (if vectorURL = '''' then ''http://vector:8686'' else vectorURL, defaultVectorBufferSize),
                    ls_cleanup = Close_Hook (5 * second_ns) # closing\<rparr>))"

section \<open>The state of a hook\<close>

datatype post_outcome = Build_Failed string | Do_Failed string | Answered int

definition publish_error :: "post_outcome \<Rightarrow> goerr option" where
  "publish_error res =
     (case res of
        Build_Failed e \<Rightarrow> Some (Plain e)
      | Do_Failed e \<Rightarrow> Some (Plain e)
      | Answered code \<Rightarrow> if 400 \<le> code then Some (Plain (''publish returned status '' @ int_text code)) else None)"

text \<open>
  Where a goroutine is in \<open>Fire\<close> or \<open>CloseWithContext\<close>; \<open>Out r\<close> is outside of both, after a call that
  returned \<open>r\<close>.  \<open>Unlock_Close\<close> carries whether this call has closed the channel.
\<close>

datatype 'b app_pc =
    Out "goerr option"
  | Post_Fatal 'b
  | RLock_Fire 'b
  | Check_Fire 'b
  | Send_Fire 'b
  | RUnlock_Fire
  | Lock_Close
  | Await_Readers
  | Check_Close
  | Chan_Close
  | Unlock_Close bool
  | Wait_Close

datatype 'b loop_pc = Receive | Ctx_RLock 'b | Ctx_RUnlock 'b | Sending 'b | Posting 'b | Exited

text \<open>
  The lock is Go's \<open>sync.RWMutex\<close>, which prefers writers.  \<open>h_readers\<close> are the goroutines that hold it for
  reading, \<open>None\<close> being the publishing one; \<open>h_writer\<close> is the goroutine whose call of \<open>Lock\<close> is pending or
  has returned: from the moment it is pending no other goroutine gets the lock, and it returns when the
  readers are gone.
  \<open>h_accepted\<close>, \<open>h_attempted\<close> and \<open>h_posted\<close> record the entries that the channel took, that were tried to
  publish, and that the other side answered without an error.
\<close>

record ('t, 'b) hook =
  h_capacity :: nat
  h_entries :: "'b list"
  h_entries_closed :: bool
  h_closed :: bool
  h_cancelled :: bool
  h_readers :: "'t option set"
  h_writer :: "'t option"
  h_pc :: "'t \<Rightarrow> 'b app_pc"
  h_loop :: "'b loop_pc"
  h_accepted :: "'b list"
  h_attempted :: "'b list"
  h_posted :: "'b list"
  h_panicked :: bool

definition newVectorHook :: "nat \<Rightarrow> ('t, 'b) hook" where
  "newVectorHook bufferSize = \<lparr>h_capacity = bufferSize, h_entries = [], h_entries_closed = False, h_closed = False,
     h_cancelled = False, h_readers = {}, h_writer = None, h_pc = (\<lambda>_. Out None), h_loop = Receive,
     h_accepted = [], h_attempted = [], h_posted = [], h_panicked = False\<rparr>"

definition goto :: "('t, 'b) hook \<Rightarrow> 't \<Rightarrow> 'b app_pc \<Rightarrow> ('t, 'b) hook" where
  "goto s t p = s\<lparr>h_pc := (h_pc s)(t := p)\<rparr>"

section \<open>Steps\<close>

inductive fire_step :: "'t \<Rightarrow> ('t, 'b) hook \<Rightarrow> ('t, 'b) hook \<Rightarrow> bool" for t where
  fire_bytes_error: "h_pc s t = Out r \<Longrightarrow> fire_step t s (goto s t (Out (Some e)))"
| fire_fatal: "h_pc s t = Out r \<Longrightarrow> fire_step t s (goto s t (Post_Fatal b))"
| fire_fatal_published: "h_pc s t = Post_Fatal b \<Longrightarrow> fire_step t s (goto s t (Out (publish_error res)))"
| fire_start: "h_pc s t = Out r \<Longrightarrow> fire_step t s (goto s t (RLock_Fire b))"
| fire_rlock: "h_pc s t = RLock_Fire b \<Longrightarrow> h_writer s = None \<Longrightarrow>
    fire_step t s (goto (s\<lparr>h_readers := insert (Some t) (h_readers s)\<rparr>) t (Check_Fire b))"
| fire_closed: "h_pc s t = Check_Fire b \<Longrightarrow> h_closed s \<Longrightarrow> fire_step t s (goto s t RUnlock_Fire)"
| fire_open: "h_pc s t = Check_Fire b \<Longrightarrow> \<not> h_closed s \<Longrightarrow> fire_step t s (goto s t (Send_Fire b))"
| send_on_closed: "h_pc s t = Send_Fire b \<Longrightarrow> h_entries_closed s \<Longrightarrow> fire_step t s (s\<lparr>h_panicked := True\<rparr>)"
| send_accepted: "h_pc s t = Send_Fire b \<Longrightarrow> \<not> h_entries_closed s \<Longrightarrow> length (h_entries s) < h_capacity s \<Longrightarrow>
    fire_step t s (goto (s\<lparr>h_entries := h_entries s @ [b], h_accepted := h_accepted s @ [b]\<rparr>) t RUnlock_Fire)"
| send_dropped: "h_pc s t = Send_Fire b \<Longrightarrow> \<not> h_entries_closed s \<Longrightarrow> h_capacity s \<le> length (h_entries s) \<Longrightarrow>
    fire_step t s (goto s t RUnlock_Fire)"
| fire_runlock: "h_pc s t = RUnlock_Fire \<Longrightarrow>
    fire_step t s (goto (s\<lparr>h_readers := h_readers s - {Some t}\<rparr>) t (Out None))"

inductive close_step :: "'t \<Rightarrow> ('t, 'b) hook \<Rightarrow> ('t, 'b) hook \<Rightarrow> bool" for t where
  close_start: "h_pc s t = Out r \<Longrightarrow> close_step t s (goto s t Lock_Close)"
| close_lock: "h_pc s t = Lock_Close \<Longrightarrow> h_writer s = None \<Longrightarrow>
    close_step t s (goto (s\<lparr>h_writer := Some t\<rparr>) t Await_Readers)"
| close_locked: "h_pc s t = Await_Readers \<Longrightarrow> h_readers s = {} \<Longrightarrow> close_step t s (goto s t Check_Close)"
| close_again: "h_pc s t = Check_Close \<Longrightarrow> h_closed s \<Longrightarrow> close_step t s (goto s t (Unlock_Close False))"
| close_first: "h_pc s t = Check_Close \<Longrightarrow> \<not> h_closed s \<Longrightarrow> close_step t s (goto (s\<lparr>h_closed := True\<rparr>) t Chan_Close)"
| close_of_closed: "h_pc s t = Chan_Close \<Longrightarrow> h_entries_closed s \<Longrightarrow> close_step t s (s\<lparr>h_panicked := True\<rparr>)"
| close_entries: "h_pc s t = Chan_Close \<Longrightarrow> \<not> h_entries_closed s \<Longrightarrow>
    close_step t s (goto (s\<lparr>h_entries_closed := True\<rparr>) t (Unlock_Close True))"
| close_unlock: "h_pc s t = Unlock_Close first \<Longrightarrow>
    close_step t s (goto (s\<lparr>h_writer := None\<rparr>) t (if first then Wait_Close else Out None))"
| close_done: "h_pc s t = Wait_Close \<Longrightarrow> h_loop s = Exited \<Longrightarrow> close_step t s (goto s t (Out None))"
| close_timeout: "h_pc s t = Wait_Close \<Longrightarrow> close_step t s (goto (s\<lparr>h_cancelled := True\<rparr>) t (Out (Some e)))"

text \<open>The publishing goroutine; with a cancelled context a request fails before it is sent, and one
  that is under way may end in any way.\<close>

inductive loop_step :: "('t, 'b) hook \<Rightarrow> ('t, 'b) hook \<Rightarrow> bool" where
  loop_receive: "h_loop s = Receive \<Longrightarrow> h_entries s = b # bs \<Longrightarrow> loop_step s (s\<lparr>h_entries := bs, h_loop := Ctx_RLock b\<rparr>)"
| loop_exit: "h_loop s = Receive \<Longrightarrow> h_entries s = [] \<Longrightarrow> h_entries_closed s \<Longrightarrow> loop_step s (s\<lparr>h_loop := Exited\<rparr>)"
| loop_rlock: "h_loop s = Ctx_RLock b \<Longrightarrow> h_writer s = None \<Longrightarrow>
    loop_step s (s\<lparr>h_readers := insert None (h_readers s), h_loop := Ctx_RUnlock b\<rparr>)"
| loop_runlock: "h_loop s = Ctx_RUnlock b \<Longrightarrow>
    loop_step s (s\<lparr>h_readers := h_readers s - {None}, h_loop := Sending b\<rparr>)"
| loop_send: "h_loop s = Sending b \<Longrightarrow> \<not> h_cancelled s \<Longrightarrow> loop_step s (s\<lparr>h_loop := Posting b\<rparr>)"
| loop_send_cancelled: "h_loop s = Sending b \<Longrightarrow> h_cancelled s \<Longrightarrow>
    loop_step s (s\<lparr>h_loop := Receive, h_attempted := h_attempted s @ [b]\<rparr>)"
| loop_publish: "h_loop s = Posting b \<Longrightarrow>
    loop_step s (s\<lparr>h_loop := Receive, h_attempted := h_attempted s @ [b],
      h_posted := h_posted s @ (if publish_error res = None then [b] else [])\<rparr>)"

definition hook_step :: "('t, 'b) hook \<Rightarrow> ('t, 'b) hook \<Rightarrow> bool" where
  "hook_step s s' = (loop_step s s' \<or> (\<exists>t. fire_step t s s' \<or> close_step t s s'))"

inductive hook_steps :: "('t, 'b) hook \<Rightarrow> ('t, 'b) hook \<Rightarrow> bool" for s where
  hook_steps_refl: "hook_steps s s"
| hook_steps_step: "hook_steps s s1 \<Longrightarrow> hook_step s1 s2 \<Longrightarrow> hook_steps s s2"

inductive_cases fire_stepE: "fire_step t s s'"
inductive_cases close_stepE: "close_step t s s'"
inductive_cases loop_stepE: "loop_step s s'"

lemma goto_sel [simp]:
  "h_capacity (goto s t p) = h_capacity s" "h_entries (goto s t p) = h_entries s"
  "h_entries_closed (goto s t p) = h_entries_closed s" "h_closed (goto s t p) = h_closed s"
  "h_cancelled (goto s t p) = h_cancelled s" "h_readers (goto s t p) = h_readers s" "h_writer (goto s t p) = h_writer s"
  "h_pc (goto s t p) = (h_pc s)(t := p)" "h_loop (goto s t p) = h_loop s" "h_accepted (goto s t p) = h_accepted s"
  "h_attempted (goto s t p) = h_attempted s" "h_posted (goto s t p) = h_posted s" "h_panicked (goto s t p) = h_panicked s"
  by (simp_all add: goto_def)

section \<open>The lock\<close>

fun reading :: "'b app_pc \<Rightarrow> bool" where
  "reading (Check_Fire b) = True" | "reading (Send_Fire b) = True" | "reading RUnlock_Fire = True"
| "reading _ = False"

fun writing :: "'b app_pc \<Rightarrow> bool" where
  "writing Check_Close = True" | "writing Chan_Close = True" | "writing (Unlock_Close first) = True"
| "writing _ = False"

definition claiming :: "'b app_pc \<Rightarrow> bool" where
  "claiming p = (p = Await_Readers \<or> writing p)"

definition lock_inv :: "('t, 'b) hook \<Rightarrow> bool" where
  "lock_inv s = ((\<forall>t. (Some t \<in> h_readers s) = reading (h_pc s t)) \<and>
     (None \<in> h_readers s) = (\<exists>b. h_loop s = Ctx_RUnlock b) \<and>
     (\<forall>t. (h_writer s = Some t) = claiming (h_pc s t)) \<and> (\<forall>t. writing (h_pc s t) \<longrightarrow> h_readers s = {}))"

lemma claiming_simps [simp]:
  "claiming Await_Readers" "writing p \<Longrightarrow> claiming p" "reading p \<Longrightarrow> \<not> claiming p"
  "\<not> claiming (Out r)" "\<not> claiming (Post_Fatal b)" "\<not> claiming (RLock_Fire b)" "\<not> claiming Lock_Close" "\<not> claiming Wait_Close"
  by (cases p; simp add: claiming_def)+

lemma writing_claims: "writing p \<Longrightarrow> claiming p"
  by simp

lemma one_writer: "lock_inv s \<Longrightarrow> claiming (h_pc s t) \<Longrightarrow> claiming (h_pc s t') \<Longrightarrow> t' = t"
  unfolding lock_inv_def by (metis option.inject)

lemma no_reader: "lock_inv s \<Longrightarrow> writing (h_pc s t) \<Longrightarrow> \<not> reading (h_pc s t') \<and> (\<forall>b. h_loop s \<noteq> Ctx_RUnlock b)"
  unfolding lock_inv_def by (metis empty_iff)

lemma lock_inv_fire: "fire_step t s s' \<Longrightarrow> lock_inv s \<Longrightarrow> lock_inv s'"
  by (cases rule: fire_stepE, assumption) (auto simp: lock_inv_def dest: writing_claims)

lemma lock_inv_goto:
  assumes "lock_inv s" and "h_readers s1 = h_readers s" "h_writer s1 = h_writer s" "h_pc s1 = h_pc s" "h_loop s1 = h_loop s"
    and "claiming p = claiming (h_pc s t)" "reading p = reading (h_pc s t)" "writing p \<longrightarrow> writing (h_pc s t) \<or> h_readers s = {}"
  shows "lock_inv (goto s1 t p)"
  using assms by (auto simp: lock_inv_def)

lemma lock_inv_close:
  assumes "close_step t s s'" and "lock_inv s"
  shows "lock_inv s'"
  using assms(1)
proof (cases rule: close_step.cases)
  case (close_unlock first)
  have "\<not> claiming (h_pc s t')" if "t' \<noteq> t" for t'
    using one_writer[OF assms(2), of t t'] that close_unlock by auto
  moreover have "h_readers s = {}" using assms(2) close_unlock(2) unfolding lock_inv_def by (metis writing.simps(3))
  ultimately show ?thesis using assms(2) close_unlock by (auto simp: lock_inv_def dest: writing_claims)
next
  case close_lock
  then show ?thesis using assms(2) by (auto simp: lock_inv_def dest: writing_claims)
next
  case close_of_closed
  then show ?thesis using assms(2) by (simp add: lock_inv_def)
qed (auto intro!: lock_inv_goto[OF assms(2)])

lemma lock_inv_loop: "loop_step s s' \<Longrightarrow> lock_inv s \<Longrightarrow> lock_inv s'"
  by (cases rule: loop_stepE, assumption) (auto simp: lock_inv_def dest: writing_claims)

section \<open>Closing\<close>

fun pc_ok :: "bool \<Rightarrow> bool \<Rightarrow> 'b app_pc \<Rightarrow> bool" where
  "pc_ok closed entries_closed (Send_Fire b) = (\<not> closed)"
| "pc_ok closed entries_closed Chan_Close = (closed \<and> \<not> entries_closed)"
| "pc_ok closed entries_closed (Unlock_Close first) = (first \<longrightarrow> entries_closed)"
| "pc_ok closed entries_closed Wait_Close = entries_closed"
| "pc_ok closed entries_closed _ = True"

definition close_inv :: "('t, 'b) hook \<Rightarrow> bool" where
  "close_inv s = (\<not> h_panicked s \<and> (h_entries_closed s \<longrightarrow> h_closed s) \<and>
     (\<forall>t. pc_ok (h_closed s) (h_entries_closed s) (h_pc s t)) \<and>
     (h_loop s = Exited \<longrightarrow> h_entries_closed s \<and> h_entries s = []))"

lemma close_inv_pc: "close_inv s \<Longrightarrow> pc_ok (h_closed s) (h_entries_closed s) (h_pc s t)"
  by (simp add: close_inv_def)

lemma pc_ok_mono:
  "pc_ok False e p \<Longrightarrow> \<not> reading p \<Longrightarrow> pc_ok True e p"
  "pc_ok c False p \<Longrightarrow> p \<noteq> Chan_Close \<Longrightarrow> pc_ok c True p"
  by (cases p; simp)+

lemma close_inv_fire:
  assumes "fire_step t s s'" and "close_inv s"
  shows "close_inv s'"
  using assms(1)
  by (cases rule: fire_step.cases) (use assms(2) close_inv_pc[OF assms(2), of t] in \<open>auto simp: close_inv_def\<close>)

lemma close_inv_close:
  assumes "close_step t s s'" and "lock_inv s" and "close_inv s"
  shows "close_inv s'"
  using assms(1)
proof (cases rule: close_step.cases)
  case close_first
  have "pc_ok True (h_entries_closed s) (h_pc s t')" for t'
    using close_inv_pc[OF assms(3), of t'] no_reader[OF assms(2), of t t'] close_first pc_ok_mono(1) by auto
  then show ?thesis using assms(3) close_first by (auto simp: close_inv_def)
next
  case close_entries
  have "pc_ok (h_closed s) True (h_pc s t')" if "t' \<noteq> t" for t'
  proof (rule pc_ok_mono(2))
    show "pc_ok (h_closed s) False (h_pc s t')" using close_inv_pc[OF assms(3), of t'] close_entries by simp
    show "h_pc s t' \<noteq> Chan_Close" using one_writer[OF assms(2), of t t'] that close_entries by auto
  qed
  then show ?thesis using assms(3) close_inv_pc[OF assms(3), of t] close_entries by (auto simp: close_inv_def)
qed (use assms(3) close_inv_pc[OF assms(3), of t] in \<open>auto simp: close_inv_def\<close>)

lemma close_inv_loop: "loop_step s s' \<Longrightarrow> close_inv s \<Longrightarrow> close_inv s'"
  by (cases rule: loop_stepE, assumption) (auto simp: close_inv_def)

section \<open>The queue\<close>

fun in_flight :: "'b loop_pc \<Rightarrow> 'b list" where
  "in_flight (Ctx_RLock b) = [b]" | "in_flight (Ctx_RUnlock b) = [b]" | "in_flight (Sending b) = [b]" | "in_flight (Posting b) = [b]"
| "in_flight _ = []"

definition queue_inv :: "nat \<Rightarrow> ('t, 'b) hook \<Rightarrow> bool" where
  "queue_inv n s = (h_capacity s = n \<and> length (h_entries s) \<le> n \<and> subseq (h_posted s) (h_attempted s) \<and>
     h_accepted s = h_attempted s @ in_flight (h_loop s) @ h_entries s)"

lemma queue_inv_fire: "fire_step t s s' \<Longrightarrow> queue_inv n s \<Longrightarrow> queue_inv n s'"
  by (cases rule: fire_stepE, assumption) (auto simp: queue_inv_def)

lemma queue_inv_close: "close_step t s s' \<Longrightarrow> queue_inv n s \<Longrightarrow> queue_inv n s'"
  by (cases rule: close_stepE, assumption) (auto simp: queue_inv_def)

lemma queue_inv_loop: "loop_step s s' \<Longrightarrow> queue_inv n s \<Longrightarrow> queue_inv n s'"
  by (cases rule: loop_stepE, assumption) (auto simp: queue_inv_def intro: list_emb_append_mono)

section \<open>Reachable states\<close>

definition hook_inv :: "nat \<Rightarrow> ('t, 'b) hook \<Rightarrow> bool" where
  "hook_inv n s = (lock_inv s \<and> close_inv s \<and> queue_inv n s)"

lemma hook_inv_start: "hook_inv n (newVectorHook n)"
  by (auto simp: hook_inv_def newVectorHook_def lock_inv_def close_inv_def queue_inv_def)

lemma hook_inv_step: "hook_step s s' \<Longrightarrow> hook_inv n s \<Longrightarrow> hook_inv n s'"
  unfolding hook_step_def hook_inv_def
  by (elim disjE exE conjE; intro conjI)
    (auto intro: lock_inv_fire lock_inv_close lock_inv_loop close_inv_fire close_inv_close close_inv_loop
      queue_inv_fire queue_inv_close queue_inv_loop)

lemma hook_inv_steps: "hook_steps s s' \<Longrightarrow> hook_inv n s \<Longrightarrow> hook_inv n s'"
  by (induction rule: hook_steps.induct) (auto intro: hook_inv_step)

lemma hook_reachable: "hook_steps (newVectorHook n) s \<Longrightarrow> hook_inv n s"
  by (rule hook_inv_steps[OF _ hook_inv_start])

text \<open>
  C39. Whatever the goroutines that log, that close the hook and that publish do, and in whatever order they run, the
  hook never sends on a closed channel nor closes it twice; the entries the channel took are
  published in that order, none twice and none skipped, and at most as many wait as the buffer has
  room for.
\<close>

theorem log_entries_in_order:
  assumes "hook_steps (newVectorHook n) s"
  shows "\<not> h_panicked s \<and> h_accepted s = h_attempted s @ in_flight (h_loop s) @ h_entries s \<and>
    subseq (h_posted s) (h_attempted s) \<and> length (h_entries s) \<le> n"
  using hook_reachable[OF assms] by (simp add: hook_inv_def close_inv_def queue_inv_def)

section \<open>Draining\<close>

fun stages_left :: "'b loop_pc \<Rightarrow> nat" where
  "stages_left Exited = 0" | "stages_left Receive = 1" | "stages_left (Posting b) = 2"
| "stages_left (Sending b) = 3" | "stages_left (Ctx_RUnlock b) = 4" | "stages_left (Ctx_RLock b) = 5"

definition steps_left :: "('t, 'b) hook \<Rightarrow> nat" where
  "steps_left s = 5 * length (h_entries s) + stages_left (h_loop s)"

text \<open>\<open>hook_run k s s'\<close>: a run from \<open>s\<close> to \<open>s'\<close> in which the publishing goroutine took \<open>k\<close> steps.\<close>

inductive hook_run :: "nat \<Rightarrow> ('t, 'b) hook \<Rightarrow> ('t, 'b) hook \<Rightarrow> bool" where
  run_nothing: "hook_run 0 s s"
| run_loop: "hook_run k s s1 \<Longrightarrow> loop_step s1 s2 \<Longrightarrow> hook_run (Suc k) s s2"
| run_fire: "hook_run k s s1 \<Longrightarrow> fire_step t s1 s2 \<Longrightarrow> hook_run k s s2"
| run_close: "hook_run k s s1 \<Longrightarrow> close_step t s1 s2 \<Longrightarrow> hook_run k s s2"

lemma loop_progress: "loop_step s s' \<Longrightarrow> steps_left s' < steps_left s \<and> h_entries_closed s' = h_entries_closed s \<and> h_accepted s' = h_accepted s"
  by (cases rule: loop_stepE, assumption) (auto simp: steps_left_def)

lemma fire_closed_channel:
  assumes "fire_step t s s'" and "close_inv s" and "h_entries_closed s"
  shows "steps_left s' = steps_left s \<and> h_entries_closed s' \<and> h_accepted s' = h_accepted s"
  using assms(1) by (cases rule: fire_step.cases) (use assms(2,3) in \<open>auto simp: steps_left_def close_inv_def\<close>)

lemma close_closed_channel:
  "close_step t s s' \<Longrightarrow> h_entries_closed s \<Longrightarrow> steps_left s' = steps_left s \<and> h_entries_closed s' \<and> h_accepted s' = h_accepted s"
  by (cases rule: close_stepE, assumption) (auto simp: steps_left_def)

lemma closed_run:
  assumes "hook_run k s s'" and "hook_inv n s" and "h_entries_closed s"
  shows "hook_inv n s' \<and> h_entries_closed s' \<and> h_accepted s' = h_accepted s \<and> k + steps_left s' \<le> steps_left s"
  using assms
proof induction
  case (run_loop k s s1 s2)
  then have s1: "hook_inv n s1" "h_entries_closed s1" "h_accepted s1 = h_accepted s" "k + steps_left s1 \<le> steps_left s"
    by simp_all
  moreover have "hook_inv n s2"
    by (rule hook_inv_step[OF _ s1(1)]) (use run_loop(2) in \<open>auto simp: hook_step_def\<close>)
  ultimately show ?case using loop_progress[OF run_loop(2)] by auto
next
  case (run_fire k s s1 t s2)
  then have s1: "hook_inv n s1" "h_entries_closed s1" "h_accepted s1 = h_accepted s" "k + steps_left s1 \<le> steps_left s"
    by simp_all
  moreover have "hook_inv n s2"
    by (rule hook_inv_step[OF _ s1(1)]) (use run_fire(2) in \<open>auto simp: hook_step_def\<close>)
  ultimately show ?case using fire_closed_channel[OF run_fire(2) _ s1(2)] s1(1)[unfolded hook_inv_def] by auto
next
  case (run_close k s s1 t s2)
  then have s1: "hook_inv n s1" "h_entries_closed s1" "h_accepted s1 = h_accepted s" "k + steps_left s1 \<le> steps_left s"
    by simp_all
  moreover have "hook_inv n s2"
    by (rule hook_inv_step[OF _ s1(1)]) (use run_close(2) in \<open>auto simp: hook_step_def\<close>)
  ultimately show ?case using close_closed_channel[OF run_close(2) s1(2)] by auto
qed simp

text \<open>A call that has the lock can move; one that waits for it waits for readers, which can move.\<close>

lemma writer_moves:
  assumes "lock_inv s" and "writing (h_pc s t)"
  shows "\<exists>s'. close_step t s s'"
  using assms(2)
  by (cases "h_pc s t"; cases "h_closed s"; cases "h_entries_closed s")
    (simp_all, (blast intro: close_again close_first close_of_closed close_entries close_unlock)+)

lemma reader_moves:
  assumes "lock_inv s" and "Some t \<in> h_readers s"
  shows "\<exists>s'. fire_step t s s'"
proof -
  have "reading (h_pc s t)" using assms unfolding lock_inv_def by blast
  then show ?thesis
    by (cases "h_pc s t"; cases "h_closed s"; cases "h_entries_closed s"; cases "length (h_entries s) < h_capacity s")
      (simp_all, (blast intro: fire_closed fire_open fire_runlock send_on_closed send_accepted send_dropped leI)+)
qed

lemma claimant_moves:
  assumes "lock_inv s" and "h_writer s = Some t" and "\<forall>b. h_loop s \<noteq> Ctx_RUnlock b"
  shows "(\<exists>s'. close_step t s s') \<or> (\<exists>t' s'. Some t' \<in> h_readers s \<and> fire_step t' s s')"
proof (cases "writing (h_pc s t)")
  case True
  then show ?thesis using writer_moves[OF assms(1)] by blast
next
  case False
  then have wait: "h_pc s t = Await_Readers" using assms(1,2) unfolding lock_inv_def claiming_def by blast
  show ?thesis
  proof (cases "h_readers s = {}")
    case True
    then show ?thesis using close_locked[OF wait] by blast
  next
    case False
    have "None \<notin> h_readers s" using assms(1,3) by (simp add: lock_inv_def)
    with False obtain t' where "Some t' \<in> h_readers s" by (metis ex_in_conv option.exhaust)
    then show ?thesis using reader_moves[OF assms(1)] by blast
  qed
qed

lemma loop_moves:
  assumes "h_loop s \<noteq> Exited" and "h_writer s = None" and "h_entries_closed s"
  shows "\<exists>s'. loop_step s s'"
  using assms by (cases "h_loop s"; cases "h_entries s"; cases "h_cancelled s") (auto intro: loop_step.intros)

text \<open>
  C40. Once the channel is closed it takes no entry any more, and the publishing goroutine takes at
  most five steps for each entry the buffer has room for and five more, however the other
  goroutines run in between; when it has ended, every entry the hook took has been tried to
  publish.  Until then nothing is stuck: it can move itself, or it waits for a call of
  \<open>CloseWithContext\<close> that has the lock or waits for it, and that call can move, or else one of the
  calls of \<open>Fire\<close> for whose read locks it waits.
\<close>

theorem closed_hook_drains:
  assumes "hook_steps (newVectorHook n) s" and "h_entries_closed s" and "hook_run k s s'"
  shows "k \<le> 5 * n + 5 \<and> h_accepted s' = h_accepted s \<and>
    (h_loop s' = Exited \<and> h_attempted s' = h_accepted s \<or> (\<exists>s2. loop_step s' s2) \<or>
     (\<exists>t. h_writer s' = Some t \<and>
        ((\<exists>s2. close_step t s' s2) \<or> (\<exists>t' s2. Some t' \<in> h_readers s' \<and> fire_step t' s' s2))))"
proof -
  note inv = hook_reachable[OF assms(1)]
  have run: "hook_inv n s'" "h_entries_closed s'" "h_accepted s' = h_accepted s" "k + steps_left s' \<le> steps_left s"
    using closed_run[OF assms(3) inv assms(2)] by simp_all
  have "stages_left (h_loop s) \<le> 5" by (cases "h_loop s") simp_all
  moreover have "length (h_entries s) \<le> n" using inv by (simp add: hook_inv_def queue_inv_def)
  ultimately have "k \<le> 5 * n + 5" using run(4) by (simp add: steps_left_def)
  moreover have "h_attempted s' = h_accepted s" if "h_loop s' = Exited"
    using run(1,3) that by (simp add: hook_inv_def close_inv_def queue_inv_def)
  moreover have "(\<exists>s2. loop_step s' s2) \<or> (\<exists>t. h_writer s' = Some t \<and>
      ((\<exists>s2. close_step t s' s2) \<or> (\<exists>t' s2. Some t' \<in> h_readers s' \<and> fire_step t' s' s2)))" if "h_loop s' \<noteq> Exited"
  proof (cases "h_writer s'")
    case None
    then show ?thesis using loop_moves[OF that _ run(2)] by blast
  next
    case (Some t)
    have "\<exists>s2. loop_step s' s2" if "h_loop s' = Ctx_RUnlock b" for b using loop_runlock[OF that] by blast
    then show ?thesis using claimant_moves[OF _ Some] run(1) Some by (auto simp: hook_inv_def)
  qed
  ultimately show ?thesis using run(3) by blast
qed

section \<open>A concrete run\<close>

text \<open>A hook with room for one entry takes one and is closed while the entry waits.\<close>

definition demo_hook :: "nat \<Rightarrow> (nat, string) hook" where
  "demo_hook n = (newVectorHook 1)\<lparr>h_entries := [''x''], h_accepted := [''x''], h_closed := True, h_entries_closed := True,
     h_writer := (if n = 0 then Some 0 else None),
     h_pc := (\<lambda>_. Out None)(0 := if n = 0 then Unlock_Close True else Wait_Close)\<rparr>"

lemma hook_steps_fire: "hook_steps s s1 \<Longrightarrow> fire_step t s1 s2 \<Longrightarrow> hook_steps s s2"
  by (rule hook_steps_step) (auto simp: hook_step_def)

lemma hook_steps_close: "hook_steps s s1 \<Longrightarrow> close_step t s1 s2 \<Longrightarrow> hook_steps s s2"
  by (rule hook_steps_step) (auto simp: hook_step_def)

lemma demo_hook_reached: "hook_steps (newVectorHook 1) (demo_hook 0)"
proof -
  let ?s0 = "newVectorHook 1 :: (nat, string) hook"
  note defs = newVectorHook_def goto_def
  have "hook_steps ?s0 (goto ?s0 0 (RLock_Fire ''x''))"
    by (rule hook_steps_fire[OF hook_steps_refl fire_start]) (simp add: defs)
  from hook_steps_fire[OF this fire_rlock[where b = "''x''" and t = 0]]
  have "hook_steps ?s0 (?s0\<lparr>h_readers := {Some 0}, h_pc := (\<lambda>_. Out None)(0 := Check_Fire ''x'')\<rparr>)"
    by (simp add: defs)
  from hook_steps_fire[OF this fire_open[where b = "''x''" and t = 0]]
  have "hook_steps ?s0 (?s0\<lparr>h_readers := {Some 0}, h_pc := (\<lambda>_. Out None)(0 := Send_Fire ''x'')\<rparr>)"
    by (simp add: defs)
  from hook_steps_fire[OF this send_accepted[where b = "''x''" and t = 0]]
  have "hook_steps ?s0 (?s0\<lparr>h_readers := {Some 0}, h_pc := (\<lambda>_. Out None)(0 := RUnlock_Fire), h_entries := [''x''], h_accepted := [''x'']\<rparr>)"
    by (simp add: defs)
  from hook_steps_fire[OF this fire_runlock[where t = 0]]
  have "hook_steps ?s0 (?s0\<lparr>h_pc := (\<lambda>_. Out None)(0 := Out None), h_entries := [''x''], h_accepted := [''x'']\<rparr>)"
    by (simp add: defs)
  from hook_steps_close[OF this close_start[where t = 0]]
  have "hook_steps ?s0 (?s0\<lparr>h_pc := (\<lambda>_. Out None)(0 := Lock_Close), h_entries := [''x''], h_accepted := [''x'']\<rparr>)"
    by (simp add: defs)
  from hook_steps_close[OF this close_lock[where t = 0]]
  have "hook_steps ?s0 (?s0\<lparr>h_pc := (\<lambda>_. Out None)(0 := Await_Readers), h_entries := [''x''], h_accepted := [''x''], h_writer := Some 0\<rparr>)"
    by (simp add: defs)
  from hook_steps_close[OF this close_locked[where t = 0]]
  have "hook_steps ?s0 (?s0\<lparr>h_pc := (\<lambda>_. Out None)(0 := Check_Close), h_entries := [''x''], h_accepted := [''x''], h_writer := Some 0\<rparr>)"
    by (simp add: defs)
  from hook_steps_close[OF this close_first[where t = 0]]
  have "hook_steps ?s0 (?s0\<lparr>h_pc := (\<lambda>_. Out None)(0 := Chan_Close), h_entries := [''x''], h_accepted := [''x''], h_writer := Some 0,
      h_closed := True\<rparr>)" by (simp add: defs)
  from hook_steps_close[OF this close_entries[where t = 0]]
  show ?thesis by (simp add: defs demo_hook_def)
qed

theorem log_entries_in_order_witness: "h_accepted (demo_hook 0) = [''x''] \<and> \<not> h_panicked (demo_hook 0)"
  using log_entries_in_order[OF demo_hook_reached] by (simp add: demo_hook_def)

theorem closed_hook_drains_witness:
  "\<exists>s'. hook_run 1 (demo_hook 0) s' \<and> h_accepted s' = [''x''] \<and> h_writer s' = None \<and> (\<exists>s2. loop_step s' s2)"
proof -
  have "hook_run 0 (demo_hook 0) (goto ((demo_hook 0)\<lparr>h_writer := None\<rparr>) 0 (if True then Wait_Close else Out None))"
    by (rule run_close[OF run_nothing close_unlock]) (simp add: demo_hook_def)
  then have "hook_run 0 (demo_hook 0) (demo_hook 1)"
    by (simp add: demo_hook_def goto_def cong: if_cong)
  moreover have "loop_step (demo_hook 1) ((demo_hook 1)\<lparr>h_entries := [], h_loop := Ctx_RLock ''x''\<rparr>)"
    by (rule loop_receive) (simp_all add: demo_hook_def newVectorHook_def)
  ultimately have run: "hook_run 1 (demo_hook 0) ((demo_hook 1)\<lparr>h_entries := [], h_loop := Ctx_RLock ''x''\<rparr>)"
    using run_loop by (metis One_nat_def)
  have "h_entries_closed (demo_hook 0)" by (simp add: demo_hook_def)
  note drains = closed_hook_drains[OF demo_hook_reached this run]
  show ?thesis
  proof (rule exI, intro conjI)
    show "hook_run 1 (demo_hook 0) ((demo_hook 1)\<lparr>h_entries := [], h_loop := Ctx_RLock ''x''\<rparr>)" by (rule run)
    show "\<exists>s2. loop_step ((demo_hook 1)\<lparr>h_entries := [], h_loop := Ctx_RLock ''x''\<rparr>) s2"
      using drains by (simp add: demo_hook_def newVectorHook_def)
  qed (simp_all add: demo_hook_def newVectorHook_def)
qed

end
