(* ===== verification/Processes.thy ===== *)
theory Processes
  imports System Configuration Migrations Log_Hook
begin

text \<open>
  The processes: the \<open>run\<close> functions of the \<open>main.go\<close> files of the three services, of the saga
  orchestrator, of the outbox relays and of the migration commands, up to the point where they wait
  for the goroutines they have started.  A start ends with an error or with these goroutines; each
  carries the component it runs, which the other theories are about.  What the operating system,
  the drivers and logrus answer is the record \<open>system_calls\<close>.
\<close>

record 'lv system_calls =
  sy_ParseLevel :: "string \<Rightarrow> string + 'lv"
  sy_OpenFile :: "string \<Rightarrow> string option"
  sy_NewPool :: "string \<Rightarrow> string option"
  sy_Listen :: "string \<Rightarrow> string option"
  sy_NewClient :: "string \<Rightarrow> string option"

text \<open>
  What an error group runs: a server at an address with its handler, a loop over the ticks of a
  ticker, or a consumer with its handler.
\<close>

datatype ('db, 'srv) task =
    Metrics_Server string
  | Server string 'srv
  | Ticker int "(int \<times> int) list \<Rightarrow> ('db, wire, unit) go"
  | Consuming "'db consumer" "'db handler"

section \<open>What every process does first\<close>

definition Connect :: "'lv system_calls \<Rightarrow> postgres_config \<Rightarrow> ('db, wire, unit) go" where
  "Connect S cfg =
     (case sy_NewPool S (DSN cfg) of
        Some e \<Rightarrow> raise (Plain e)
      | None \<Rightarrow> read_in (Inr ()))"

definition configure_logger :: "'lv system_calls \<Rightarrow> logging_config \<Rightarrow> ('db, wire, unit) go" where
  "configure_logger S c =
     annot (errorf ''configure logger: '')
       (bnd (of_sum (Configure (sy_ParseLevel S) (sy_OpenFile S) (LogLevel c) (LogSidecarEnabled c) (LogSidecarURL c) [LogFile c]))
          (\<lambda>_. ret ()))"

definition with_database ::
    "'lv system_calls \<Rightarrow> logging_config \<Rightarrow> string \<Rightarrow> postgres_config \<Rightarrow> ('db, wire, 'a) go \<Rightarrow> ('db, wire, 'a) go" where
  "with_database S logging label pc body =
     bnd (configure_logger S logging) (\<lambda>_.
     bnd (annot (errorf (''connect '' @ label @ '' database: '')) (Connect S pc)) (\<lambda>_. body))"

section \<open>cmd/migrate\<close>

definition scanner_migrate_run ::
    "'lv system_calls \<Rightarrow> env \<Rightarrow> frac \<Rightarrow> environ \<Rightarrow> 's exec_sql \<Rightarrow> embed_fs \<Rightarrow> embed_fs \<Rightarrow> ('s migr_db, wire, unit) go" where
  "scanner_migrate_run S E frac V exec files outbox_files =
     (let cfg = Scanner_Load E frac V in
      with_database S (sc_Logging cfg) ''scanner'' (Scanner_Postgres cfg) (scanner_migrations exec files outbox_files))"

definition notification_migrate_run ::
    "'lv system_calls \<Rightarrow> env \<Rightarrow> frac \<Rightarrow> environ \<Rightarrow> 's exec_sql \<Rightarrow> embed_fs \<Rightarrow> embed_fs \<Rightarrow> ('s migr_db, wire, unit) go" where
  "notification_migrate_run S E frac V exec files outbox_files =
     (let cfg = Notification_Load E frac V in
      with_database S (nc_Logging cfg) ''notification'' (Notification_Postgres cfg)
        (notification_migrations exec files outbox_files))"

definition subscription_migrate_run ::
    "'lv system_calls \<Rightarrow> env \<Rightarrow> environ \<Rightarrow> 's exec_sql \<Rightarrow> embed_fs \<Rightarrow> embed_fs \<Rightarrow> ('s migr_db, wire, unit) go" where
  "subscription_migrate_run S E V exec files outbox_files =
     (let cfg = Subscription_Load E V in
      with_database S (ac_Logging cfg) ''subscription'' (Subscription_Postgres cfg)
        (subscription_migrations exec files outbox_files))"

section \<open>cmd/outbox-relay\<close>

definition outbox_relay_of :: "env \<Rightarrow> ('d outbox_db_scheme) relay" where
  "outbox_relay_of E = NewRelay (repository_store E) Publish 100 second_ns"

definition scanner_relay_run ::
    "'lv system_calls \<Rightarrow> env \<Rightarrow> frac \<Rightarrow> environ \<Rightarrow> (int \<times> int) list \<Rightarrow> ('d outbox_db_scheme, wire, unit) go" where
  "scanner_relay_run S E frac V ticks =
     (let cfg = Scanner_Load E frac V in
      with_database S (sc_Logging cfg) ''scanner'' (Scanner_Postgres cfg) (Start (outbox_relay_of E) ticks))"

definition notification_relay_run ::
    "'lv system_calls \<Rightarrow> env \<Rightarrow> frac \<Rightarrow> environ \<Rightarrow> (int \<times> int) list \<Rightarrow> ('d outbox_db_scheme, wire, unit) go" where
  "notification_relay_run S E frac V ticks =
     (let cfg = Notification_Load E frac V in
      with_database S (nc_Logging cfg) ''notification'' (Notification_Postgres cfg) (Start (outbox_relay_of E) ticks))"

definition subscription_relay_run ::
    "'lv system_calls \<Rightarrow> env \<Rightarrow> environ \<Rightarrow> (int \<times> int) list \<Rightarrow> ('d outbox_db_scheme, wire, unit) go" where
  "subscription_relay_run S E V ticks =
     (let cfg = Subscription_Load E V in
      with_database S (ac_Logging cfg) ''subscription'' (Subscription_Postgres cfg) (Start (outbox_relay_of E) ticks))"

section \<open>cmd/saga-orchestrator\<close>

definition retrySweepInterval :: int where
  "retrySweepInterval = 10 * second_ns"

text \<open>A failed sweep is logged and the ticker goes on.\<close>

definition saga_sweeps :: "env \<Rightarrow> (int \<times> int) list \<Rightarrow> ('d saga_db_scheme, wire, unit) go" where
  "saga_sweeps E ticks =
     for_each (\<lambda>t. bnd (at_clocks t) (\<lambda>_. bnd (attempt (RetryDue E New (int DefaultRetryLimit))) (\<lambda>_. ret ()))) ticks"

definition saga_run ::
    "'lv system_calls \<Rightarrow> env \<Rightarrow> environ \<Rightarrow> ('db, wire, ('d saga_db_scheme, unit) task list) go" where
  "saga_run S E V =
     (let cfg = Subscription_Load E V in
      with_database S (ac_Logging cfg) ''subscription'' (Subscription_Postgres cfg)
        (ret [Consuming requestConsumer (request_handler E New), Consuming ackConsumer (ack_handler E New),
              Ticker retrySweepInterval (saga_sweeps E)]))"

section \<open>scanner-service\<close>

definition scanner_service_run ::
    "'lv system_calls \<Rightarrow> env \<Rightarrow> frac \<Rightarrow> environ \<Rightarrow> redis \<Rightarrow> http_server \<Rightarrow>
     ('db, wire, ('d scanner_db_scheme, unit) task list) go" where
  "scanner_service_run S E frac V entries github =
     (let cfg = Scanner_Load E frac V in
      with_database S (sc_Logging cfg) ''scanner'' (Scanner_Postgres cfg)
        (let service = scanner_process E entries github (GitHubBaseURL (sc_GitHub cfg)) (sc_BatchSize cfg) (sc_Interval cfg)
         in ret [Metrics_Server ('':'' @ sc_MetricsPort cfg), Ticker second_ns (Scanner_Start E service),
                 Consuming watchlistConsumer (command_handler E service)]))"

section \<open>notification-service\<close>

datatype 'db notification_server =
    HTTP_Handler "string \<Rightarrow> string \<Rightarrow> wire \<Rightarrow> ('db, wire, int) go"
  | GRPC_Handler "send_request \<Rightarrow> ('db, wire, (grpc_code \<times> string) option) go"

definition smtp_of :: "notification_config \<Rightarrow> smtp_config" where
  "smtp_of cfg = \<lparr>SMTPHost = nc_SMTPHost cfg, SMTPPort = nc_SMTPPort cfg, SMTPEmail = nc_SMTPEmail cfg,
     SMTPPassword = nc_SMTPPassword cfg\<rparr>"

definition registerHTTPServer :: "string \<Rightarrow> 'db delivery_service \<Rightarrow> ('db, 'db notification_server) task list" where
  "registerHTTPServer port service =
     (if port = '''' then [] else [Server ('':'' @ port) (HTTP_Handler (NewHTTPHandler service))])"

definition registerGRPCServer ::
    "'lv system_calls \<Rightarrow> validator \<Rightarrow> string \<Rightarrow> 'db delivery_service \<Rightarrow> goerr + ('db, 'db notification_server) task list" where
  "registerGRPCServer S validate port service =
     (case sy_Listen S ('':'' @ port) of
        Some e \<Rightarrow> Inl (errorf ''listen grpc: '' (Plain e))
      | None \<Rightarrow> Inr [Server ('':'' @ port) (GRPC_Handler (SendNotification validate (Process service)))])"

definition registerNotificationCommandConsumers ::
    "env \<Rightarrow> 'db delivery_service \<Rightarrow> ('db, 'db notification_server) task list" where
  "registerNotificationCommandConsumers E service = [Consuming notificationConsumer (notification_handler E service)]"

definition notification_run ::
    "'lv system_calls \<Rightarrow> env \<Rightarrow> frac \<Rightarrow> environ \<Rightarrow> validator \<Rightarrow>
     ('db, wire, ('d delivery_db_scheme, ('d delivery_db_scheme) notification_server) task list) go" where
  "notification_run S E frac V validate =
     (let cfg = Notification_Load E frac V in
      with_database S (nc_Logging cfg) ''notification'' (Notification_Postgres cfg)
        (let service = notification_process E (smtp_of cfg) (nc_RetryAttempts cfg) (nc_RetryDelays cfg);
             retries = NewRetryScheduler (EnqueueDueRetries E) 100 second_ns
         in bnd (of_sum (notificationTransport E (nc_Transport cfg))) (\<lambda>transport.
            bnd (if transport = ''grpc'' then of_sum (registerGRPCServer S validate (nc_GRPCPort cfg) service) else ret []) (\<lambda>grpc.
            ret ([Metrics_Server ('':'' @ nc_MetricsPort cfg)] @ registerHTTPServer (nc_ServerPort cfg) service @ grpc @
              [Ticker (rs_interval retries) (Scheduler_Start retries)] @
              (if transport = ''kafka'' then registerNotificationCommandConsumers E service else []))))))"

section \<open>subscription-api\<close>

definition subscription_run ::
    "'lv system_calls \<Rightarrow> env \<Rightarrow> environ \<Rightarrow> 's exec_sql \<Rightarrow> embed_fs \<Rightarrow> embed_fs \<Rightarrow> http_server \<Rightarrow> http_server \<Rightarrow>
     http_server \<Rightarrow> grpc_server \<Rightarrow> (request \<Rightarrow> response) \<Rightarrow>
     ('s migr_db, wire, ('d api_db_scheme, request \<Rightarrow> ('d api_db_scheme, wire, string \<times> response) go) task list) go" where
  "subscription_run S E V exec files outbox_files gets heads notifications grpc other =
     (let cfg = Subscription_Load E V in
      with_database S (ac_Logging cfg) ''subscription'' (Subscription_Postgres cfg)
        (bnd (annot (errorf ''migrate subscription database: '') (subscription_migrations exec files outbox_files)) (\<lambda>_.
         let github = NewHTTPGitHubClient gets heads (GitHubBaseURL (ac_GitHub cfg)) in
         bnd (case (ToLower E (ac_Transport cfg) = ''grpc'', sy_NewClient S (ac_GRPCAddress cfg)) of
                (True, Some e) \<Rightarrow> raise (errorf ''create notification grpc client: '' (Plain e))
              | _ \<Rightarrow> of_sum (choose_notifier E (ac_Transport cfg) notifications grpc (ac_BaseURL cfg) (ac_NotificationServiceURL cfg)))
           (\<lambda>n. ret [Server ('':'' @ ac_ServerPort cfg) (serve E (api_deps E (ac_APIKey cfg) n github) other),
                     Consuming releaseConsumer (release_handler E (release_process E n))]))))"

end
