(* ===== verification/Deployment.thy ===== *)
theory Deployment
  imports Processes Delivery_Witnesses
begin

text \<open>
  What a start leads to: what each process runs after it, and how the processes of one deployment
  fit together under the same notification transport.
\<close>

section \<open>Starts that succeed\<close>

lemma bnd_okD: "bnd m f w = (Inr b, w') \<Longrightarrow> \<exists>a w1. m w = (Inr a, w1) \<and> f a w1 = (Inr b, w')"
  by (auto simp: bnd_def split: prod.splits sum.splits)

lemma annot_okD: "annot g m w = (Inr b, w') \<Longrightarrow> m w = (Inr b, w')"
  by (auto simp: annot_def split: prod.splits sum.splits)

lemma ret_okD: "ret a w = (Inr b, w') \<Longrightarrow> b = a \<and> w' = w"
  by (simp add: ret_def)

lemma of_sum_okD: "of_sum r w = (Inr b, w') \<Longrightarrow> r = Inr b \<and> w' = w"
  by (simp add: of_sum_def)

lemma with_database_okD:
  assumes "with_database S l label pc body w = (Inr a, w')"
  shows "body (next_w w) = (Inr a, w')"
proof -
  obtain w1 where w1: "configure_logger S l w = (Inr (), w1)"
      "bnd (annot (errorf (''connect '' @ label @ '' database: '')) (Connect S pc)) (\<lambda>_. body) w1 = (Inr a, w')"
    using bnd_okD[OF assms[unfolded with_database_def]] by auto
  have "w1 = w" using w1(1) unfolding configure_logger_def by (auto dest!: annot_okD bnd_okD ret_okD of_sum_okD)
  moreover obtain w2 where w2: "Connect S pc w1 = (Inr (), w2)" "body w2 = (Inr a, w')"
    using bnd_okD[OF w1(2)] by (auto dest!: annot_okD)
  moreover have "w2 = next_w w1"
    using w2(1) by (auto simp: Connect_def raise_def read_in_def split: option.splits call_outcome.splits)
  ultimately show ?thesis by simp
qed

lemma sweeps_interval: "rs_interval (NewRetryScheduler f 100 second_ns) = second_ns"
  by (simp add: NewRetryScheduler_def second_ns_def)

lemma notification_runD:
  assumes "notification_run S E frac V validate w = (Inr ts, w')"
  defines "cfg \<equiv> Notification_Load E frac V"
  defines "service \<equiv> notification_process E (smtp_of cfg) (nc_RetryAttempts cfg) (nc_RetryDelays cfg)"
  shows "\<exists>transport grpc. notificationTransport E (nc_Transport cfg) = Inr transport \<and>
    (if transport = ''grpc'' then registerGRPCServer S validate (nc_GRPCPort cfg) service = Inr grpc else grpc = []) \<and>
    ts = [Metrics_Server ('':'' @ nc_MetricsPort cfg)] @ registerHTTPServer (nc_ServerPort cfg) service @ grpc @
      [Ticker second_ns (Scheduler_Start (NewRetryScheduler (EnqueueDueRetries E) 100 second_ns))] @
      (if transport = ''kafka'' then registerNotificationCommandConsumers E service else [])"
proof -
  note body = with_database_okD[OF assms(1)[unfolded notification_run_def Let_def sweeps_interval], folded cfg_def, folded service_def]
  obtain transport w1 where transport: "of_sum (notificationTransport E (nc_Transport cfg)) (next_w w) = (Inr transport, w1)"
      and rest: "bnd (if transport = ''grpc'' then of_sum (registerGRPCServer S validate (nc_GRPCPort cfg) service) else ret [])
        (\<lambda>grpc. ret ([Metrics_Server ('':'' @ nc_MetricsPort cfg)] @ registerHTTPServer (nc_ServerPort cfg) service @ grpc @
          [Ticker second_ns (Scheduler_Start (NewRetryScheduler (EnqueueDueRetries E) 100 second_ns))] @
          (if transport = ''kafka'' then registerNotificationCommandConsumers E service else []))) w1 = (Inr ts, w')"
    using bnd_okD[OF body] by blast
  obtain grpc w2 where grpc: "(if transport = ''grpc'' then of_sum (registerGRPCServer S validate (nc_GRPCPort cfg) service) else ret []) w1 = (Inr grpc, w2)"
      and ts: "ret ([Metrics_Server ('':'' @ nc_MetricsPort cfg)] @ registerHTTPServer (nc_ServerPort cfg) service @ grpc @
          [Ticker second_ns (Scheduler_Start (NewRetryScheduler (EnqueueDueRetries E) 100 second_ns))] @
          (if transport = ''kafka'' then registerNotificationCommandConsumers E service else [])) w2 = (Inr ts, w')"
    using bnd_okD[OF rest] by blast
  have "if transport = ''grpc'' then registerGRPCServer S validate (nc_GRPCPort cfg) service = Inr grpc else grpc = []"
    using grpc by (auto dest: of_sum_okD ret_okD split: if_splits)
  then show ?thesis
    using of_sum_okD[OF transport] ret_okD[OF ts] by auto
qed

lemma subscription_runD:
  assumes "subscription_run S E V exec files outbox_files gets heads notifications grpc other w = (Inr ts, w')"
  defines "cfg \<equiv> Subscription_Load E V"
  defines "github \<equiv> NewHTTPGitHubClient gets heads (GitHubBaseURL (ac_GitHub cfg))"
  shows "subscription_migrations exec files outbox_files (next_w w) = (Inr (), w') \<and>
    (\<exists>n. choose_notifier E (ac_Transport cfg) notifications grpc (ac_BaseURL cfg) (ac_NotificationServiceURL cfg) = Inr n \<and>
      ts = [Server ('':'' @ ac_ServerPort cfg) (serve E (api_deps E (ac_APIKey cfg) n github) other),
            Consuming releaseConsumer (release_handler E (release_process E n))])"
  using with_database_okD[OF assms(1)[unfolded subscription_run_def Let_def]]
  unfolding cfg_def github_def
  by (auto simp: raise_def dest!: bnd_okD annot_okD ret_okD of_sum_okD split: bool.splits option.splits)

lemma saga_runD:
  "saga_run S E V w = (Inr ts, w') \<Longrightarrow>
   ts = [Consuming requestConsumer (request_handler E New), Consuming ackConsumer (ack_handler E New),
         Ticker retrySweepInterval (saga_sweeps E)]"
  by (auto simp: saga_run_def Let_def dest!: with_database_okD ret_okD)

lemma scanner_service_runD:
  assumes "scanner_service_run S E frac V entries github w = (Inr ts, w')"
  shows "\<exists>port service. ts = [Metrics_Server port, Ticker second_ns (Scanner_Start E service),
     Consuming watchlistConsumer (command_handler E service)]"
  using assms by (auto simp: scanner_service_run_def Let_def dest!: with_database_okD ret_okD)

section \<open>One transport for both services\<close>

text \<open>
  The two services read the same variable, but each has its own code to choose by it: the API a
  switch on the publisher, the notification service a check of the name.
\<close>

lemma choices_agree:
  "choose_notifier E v hs gs base url =
     (case notificationTransport E v of
        Inl e \<Rightarrow> Inl e
      | Inr t \<Rightarrow> if t = ''kafka'' then Inr (outbox_notifier E hs base url) else Inr (grpc_notifier E gs base))"
  by (auto simp: choose_notifier_def notificationTransport_def Let_def)

lemma transports: "notificationTransport E v = Inr t \<Longrightarrow> t = ''kafka'' \<or> t = ''grpc''"
  by (auto simp: notificationTransport_def Let_def split: if_splits)

lemma shared_transport:
  "Va ''NOTIFICATION_TRANSPORT'' = Vn ''NOTIFICATION_TRANSPORT'' \<Longrightarrow>
   ac_Transport (Subscription_Load E Va) = nc_Transport (Notification_Load E frac Vn)"
  by (simp add: Subscription_Load_def Notification_Load_def env_String_def)

text \<open>
  C10. When both services start with the same value of \<open>NOTIFICATION_TRANSPORT\<close>, releases leave the API
  by the door that the notification service has opened: through the outbox, and it
  consumes the commands and serves no gRPC, or over gRPC, and it serves gRPC and consumes
  nothing; and the API serves only after every migration has been applied.
\<close>

theorem transport_doors:
  assumes "subscription_run S E Va exec files outbox_files gets heads notifications grpc other wa = (Inr tsa, wa')"
    and "notification_run S' E frac Vn validate wn = (Inr tsn, wn')"
    and "Va ''NOTIFICATION_TRANSPORT'' = Vn ''NOTIFICATION_TRANSPORT''"
    and "Load files ''.'' = Inr ms" and "Load outbox_files ''.'' = Inr oms"
  shows "migrate exec (start_jobs ''subscription-api'' ms oms) (history (w_db wa)) = Some (history (w_db wa')) \<and>
    (let a = Subscription_Load E Va; c = Notification_Load E frac Vn;
         service = notification_process E (smtp_of c) (nc_RetryAttempts c) (nc_RetryDelays c)
     in \<exists>n. Consuming releaseConsumer (release_handler E (release_process E n)) \<in> set tsa \<and>
       (n = outbox_notifier E notifications (ac_BaseURL a) (ac_NotificationServiceURL a) \<and>
          Consuming notificationConsumer (notification_handler E service) \<in> set tsn \<and>
          (\<nexists>addr f. Server addr (GRPC_Handler f) \<in> set tsn) \<or>
        n = grpc_notifier E grpc (ac_BaseURL a) \<and>
          Server ('':'' @ nc_GRPCPort c) (GRPC_Handler (SendNotification validate (Process service))) \<in> set tsn \<and>
          (\<nexists>consumer h. Consuming consumer h \<in> set tsn)))"
proof -
  let ?a = "Subscription_Load E Va" and ?c = "Notification_Load E frac Vn"
  note api = subscription_runD[OF assms(1)]
  then obtain n where n: "choose_notifier E (ac_Transport ?a) notifications grpc (ac_BaseURL ?a) (ac_NotificationServiceURL ?a) = Inr n"
      "Consuming releaseConsumer (release_handler E (release_process E n)) \<in> set tsa" by auto
  obtain transport doors where t: "notificationTransport E (nc_Transport ?c) = Inr transport"
      and doors: "if transport = ''grpc'' then registerGRPCServer S' validate (nc_GRPCPort ?c)
        (notification_process E (smtp_of ?c) (nc_RetryAttempts ?c) (nc_RetryDelays ?c)) = Inr doors else doors = []"
      and ts: "tsn = [Metrics_Server ('':'' @ nc_MetricsPort ?c)] @
        registerHTTPServer (nc_ServerPort ?c) (notification_process E (smtp_of ?c) (nc_RetryAttempts ?c) (nc_RetryDelays ?c)) @ doors @
        [Ticker second_ns (Scheduler_Start (NewRetryScheduler (EnqueueDueRetries E) 100 second_ns))] @
        (if transport = ''kafka'' then registerNotificationCommandConsumers E
          (notification_process E (smtp_of ?c) (nc_RetryAttempts ?c) (nc_RetryDelays ?c)) else [])"
    using notification_runD[OF assms(2)] by blast
  have history: "migrate exec (start_jobs ''subscription-api'' ms oms) (history (w_db wa)) = Some (history (w_db wa'))"
    using api wp_okD[OF _ service_migrations_follow[OF assms(4,5)]] by (fastforce simp: subscription_migrations_def)
  have "ac_Transport ?a = nc_Transport ?c" by (rule shared_transport) (rule assms(3))
  with n(1) t have choice: "n = (if transport = ''kafka'' then outbox_notifier E notifications (ac_BaseURL ?a) (ac_NotificationServiceURL ?a)
      else grpc_notifier E grpc (ac_BaseURL ?a))"
    by (simp add: choices_agree split: if_splits)
  from transports[OF t] consider "transport = ''kafka''" | "transport = ''grpc''" by blast
  then show ?thesis
  proof cases
    case 1
    then show ?thesis
      using history n(2) choice doors ts unfolding Let_def
      by (intro conjI exI[of _ n]) (auto simp: registerHTTPServer_def registerNotificationCommandConsumers_def)
  next
    case 2
    then show ?thesis
      using history n(2) choice doors ts unfolding Let_def
      by (intro conjI exI[of _ n]) (auto simp: registerHTTPServer_def registerGRPCServer_def split: option.splits)
  qed
qed

section \<open>Retries without a reader\<close>

definition consumed_topics :: "('db, 'srv) task list \<Rightarrow> string set" where
  "consumed_topics ts = {t. \<exists>c h. Consuming c h \<in> set ts \<and> co_topic c = t}"

lemma consumed_topics_simps [simp]:
  "consumed_topics [] = {}"
  "consumed_topics (Consuming c h # ts) = insert (co_topic c) (consumed_topics ts)"
  "consumed_topics (Metrics_Server a # ts) = consumed_topics ts"
  "consumed_topics (Server a srv # ts) = consumed_topics ts"
  "consumed_topics (Ticker i f # ts) = consumed_topics ts"
  by (auto simp: consumed_topics_def)

lemma consumer_topics:
  "co_topic (requestConsumer :: 'a consumer) = TopicWatchlistSagaRequests" "co_topic (ackConsumer :: 'a consumer) = TopicWatchlistSagaEvents"
  "co_topic (watchlistConsumer :: 'a consumer) = TopicWatchlistCommands" "co_topic (releaseConsumer :: 'a consumer) = TopicReleaseEvents"
  by (simp_all add: requestConsumer_def ackConsumer_def watchlistConsumer_def releaseConsumer_def newConsumer_def WithDeadLetter_def)

lemma commands_unread:
  "TopicNotificationCommands \<notin> {TopicWatchlistSagaRequests, TopicWatchlistSagaEvents, TopicWatchlistCommands, TopicReleaseEvents}"
  by (simp add: topic_defs)

lemma requeued_to_commands:
  assumes "map (notification_in E) es = map (\<lambda>r. Some (payload_of r)) due"
  shows "length es = length due \<and> (\<forall>e \<in> set es. ob_Topic e = TopicNotificationCommands)"
proof
  show "length es = length due" using assms by (metis length_map)
  have "Some (payload_of r) = notification_in E e \<Longrightarrow> ob_Topic e = TopicNotificationCommands" for e r
    by (auto simp: notification_in_def split: if_splits)
  moreover have "\<exists>r. Some (payload_of r) = notification_in E e" if "e \<in> set es" for e
  proof -
    have "notification_in E e \<in> set (map (\<lambda>r. Some (payload_of r)) due)"
      using that by (simp flip: assms)
    then show ?thesis by auto
  qed
  ultimately show "\<forall>e \<in> set es. ob_Topic e = TopicNotificationCommands" by blast
qed

text \<open>
  C11. Under the gRPC transport the retry scheduler still runs and puts the due deliveries back to the
  queue, as commands on the command topic; but no process of the deployment consumes that topic, so
  that nothing ever takes these retries.
\<close>

theorem grpc_retries_are_unread:
  assumes "notification_run S E frac V validate wn = (Inr tsn, wn')" and "ToLower E (nc_Transport (Notification_Load E frac V)) = ''grpc''"
    and "subscription_run Sa E Va exec files outbox_files gets heads notifications grpc other wa = (Inr tsa, wa')"
    and "saga_run Ss E Vs ws = (Inr tss, ws')" and "scanner_service_run Sc E frac Vc entries github wc = (Inr tsc, wc')"
    and "time_codec E" and "uuids_fresh E (w_uuids w) (outbox_events (w_db w))" and "EnqueueDueRetries E 100 w = (Inr k, w')"
  shows "Ticker second_ns (Scheduler_Start (NewRetryScheduler (EnqueueDueRetries E) 100 second_ns)) \<in> set tsn \<and>
    (\<exists>es. outbox_events (w_db w') = outbox_events (w_db w) @ es \<and> length es = k \<and>
       (\<forall>e \<in> set es. ob_Topic e = TopicNotificationCommands)) \<and>
    TopicNotificationCommands \<notin> consumed_topics tsn \<union> consumed_topics tsa \<union> consumed_topics tss \<union> consumed_topics tsc"
proof (intro conjI)
  have grpc: "notificationTransport E (nc_Transport (Notification_Load E frac V)) = Inr ''grpc''"
    by (simp add: notificationTransport_def Let_def assms(2))
  show "Ticker second_ns (Scheduler_Start (NewRetryScheduler (EnqueueDueRetries E) 100 second_ns)) \<in> set tsn"
    using notification_runD[OF assms(1)] by auto
  have "consumed_topics tsn = {}"
    using notification_runD[OF assms(1)] unfolding grpc
    by (auto simp: registerHTTPServer_def registerGRPCServer_def split: option.splits)
  moreover have "consumed_topics tsa = {TopicReleaseEvents}"
    using subscription_runD[OF assms(3)] by (auto simp: consumer_topics)
  moreover have "consumed_topics tss = {TopicWatchlistSagaRequests, TopicWatchlistSagaEvents}"
    using saga_runD[OF assms(4)] by (simp add: consumer_topics)
  moreover have "consumed_topics tsc = {TopicWatchlistCommands}"
    using scanner_service_runD[OF assms(5)] by (auto simp: consumer_topics)
  ultimately show "TopicNotificationCommands \<notin> consumed_topics tsn \<union> consumed_topics tsa \<union> consumed_topics tss \<union> consumed_topics tsc"
    using commands_unread by simp
  show "\<exists>es. outbox_events (w_db w') = outbox_events (w_db w) @ es \<and> length es = k \<and>
      (\<forall>e \<in> set es. ob_Topic e = TopicNotificationCommands)"
    using tx_wpD[OF assms(8) EnqueueDueRetries_tx[OF assms(6,7)]] requeued_to_commands
    unfolding requeue_done_def by metis
qed

section \<open>A concrete deployment\<close>

definition demo_calls :: "unit system_calls" where
  "demo_calls = \<lparr>sy_ParseLevel = (\<lambda>_. Inr ()), sy_OpenFile = (\<lambda>_. None), sy_NewPool = (\<lambda>_. None), sy_Listen = (\<lambda>_. None),
     sy_NewClient = (\<lambda>_. None)\<rparr>"

lemma with_demo_calls:
  assumes "w_script w = []"
  shows "with_database demo_calls l label pc body w = body w"
proof -
  have "configure_logger demo_calls l w = (Inr (), w)"
    by (simp add: configure_logger_def Configure_def demo_calls_def bnd_def annot_def of_sum_def ret_def Let_def split: option.splits)
  moreover have "annot g (Connect demo_calls pc) w = (Inr (), w)" for g
    using assms by (simp add: Connect_def demo_calls_def annot_def read_in_def)
  ultimately show ?thesis by (simp add: with_database_def bnd_def)
qed

definition demo_frac :: frac where
  "demo_frac f unit k = f * unit div 10 ^ k"

definition grpc_environ :: environ where
  "grpc_environ = [''NOTIFICATION_TRANSPORT'' \<mapsto> ''grpc'', ''PORT'' \<mapsto> ''8080'']"

lemma grpc_environ_transport:
  "nc_Transport (Notification_Load demo_env demo_frac grpc_environ) = ''grpc''" "ac_Transport (Subscription_Load demo_env grpc_environ) = ''grpc''"
  "ToLower demo_env ''grpc'' = ''grpc''"
  by (simp_all add: Notification_Load_def Subscription_Load_def env_String_def grpc_environ_def ToLower_def lower_char_def)

lemma demo_notification_starts: "\<exists>ts. notification_run demo_calls demo_env demo_frac grpc_environ (\<lambda>_. None) (calm_world d t) = (Inr ts, calm_world d t)"
  unfolding notification_run_def Let_def
  by (subst with_demo_calls)
    (simp_all add: bnd_def of_sum_def ret_def notificationTransport_def grpc_environ_transport registerGRPCServer_def demo_calls_def)

lemma demo_api_starts:
  "\<exists>ts w'. subscription_run demo_calls demo_env grpc_environ demo_exec (demo_files ''create'') (demo_files ''outbox'')
     gets heads notifications grpc other (calm_world empty_db 3) = (Inr ts, w') \<and> schema (w_db w') = [''create'', ''outbox'']"
proof -
  let ?w = "calm_world empty_db 3 :: (string list migr_db, wire) world"
  obtain w' where w': "subscription_migrations demo_exec (demo_files ''create'') (demo_files ''outbox'') ?w = (Inr (), w')"
      "history (w_db w') = ([((''subscription-api'', 1), ''a'', hex_digest ''create''), ((''outbox'', 1), ''a'', hex_digest ''outbox'')],
        [''create'', ''outbox''])"
    using service_migrations_succeed[OF demo_load demo_load, of ?w demo_exec "''subscription-api''" "''create''" "''outbox''"]
    by (auto simp: subscription_migrations_def demo_migration_def demo_exec_def history_def empty_db_def recorded_rows_def)
  then show ?thesis
    unfolding subscription_run_def Let_def
    by (subst with_demo_calls)
      (auto simp: bnd_def annot_def of_sum_def ret_def choose_notifier_def grpc_environ_transport demo_calls_def history_def)
qed

lemma demo_saga_starts: "\<exists>ts. saga_run demo_calls demo_env V (calm_world d t) = (Inr ts, calm_world d t)"
  unfolding saga_run_def Let_def by (subst with_demo_calls) (simp_all add: ret_def)

lemma demo_scanner_starts: "\<exists>ts. scanner_service_run demo_calls demo_env demo_frac V entries github (calm_world d t) = (Inr ts, calm_world d t)"
  unfolding scanner_service_run_def Let_def by (subst with_demo_calls) (simp_all add: ret_def)

theorem transport_doors_witness:
  "\<exists>(tsa :: (api_db, request \<Rightarrow> (api_db, wire, string \<times> response) go) task list) wa'
      (tsn :: (delivery_db, delivery_db notification_server) task list) wn'. subscription_run demo_calls demo_env grpc_environ demo_exec (demo_files ''create'') (demo_files ''outbox'')
       (\<lambda>_ _. undefined) (\<lambda>_ _. undefined) (\<lambda>_ _. undefined) (\<lambda>_ _. None) (\<lambda>_. undefined) (calm_world empty_db 3) = (Inr tsa, wa') \<and>
     notification_run demo_calls demo_env demo_frac grpc_environ (\<lambda>_. None) (calm_world () 3) = (Inr tsn, wn' :: (unit, wire) world) \<and>
     fst (history (w_db wa')) \<noteq> [] \<and> (\<exists>n. Consuming releaseConsumer (release_handler demo_env (release_process demo_env n)) \<in> set tsa)"
proof -
  obtain tsa :: "(api_db, request \<Rightarrow> (api_db, wire, string \<times> response) go) task list" and wa' where a: "subscription_run demo_calls demo_env grpc_environ demo_exec (demo_files ''create'') (demo_files ''outbox'')
       (\<lambda>_ _. undefined) (\<lambda>_ _. undefined) (\<lambda>_ _. undefined) (\<lambda>_ _. None) (\<lambda>_. undefined) (calm_world empty_db 3) = (Inr tsa, wa')"
    using exE[OF demo_api_starts] by metis
  obtain tsn :: "(delivery_db, delivery_db notification_server) task list" where n: "notification_run demo_calls demo_env demo_frac grpc_environ (\<lambda>_. None) (calm_world () 3) = (Inr tsn, calm_world () 3 :: (unit, wire) world)"
    using exE[OF demo_notification_starts] by metis
  note doors = transport_doors[OF a n refl demo_load demo_load]
  then have "Some (history (w_db wa')) = Some ([((''subscription-api'', 1), ''a'', hex_digest ''create''), ((''outbox'', 1), ''a'', hex_digest ''outbox'')],
        [''create'', ''outbox''])"
    by (simp add: demo_migration_def demo_exec_def history_def empty_db_def recorded_rows_def)
  then have "fst (history (w_db wa')) \<noteq> []" by simp
  moreover have "\<exists>n. Consuming releaseConsumer (release_handler demo_env (release_process demo_env n)) \<in> set tsa"
    using doors unfolding Let_def by blast
  ultimately show ?thesis
    by (rule_tac x = tsa in exI, rule_tac x = wa' in exI, rule_tac x = tsn in exI, rule_tac x = "calm_world () 3" in exI)
      (intro conjI a n)
qed

lemma demo_requeue: "\<exists>k w'. EnqueueDueRetries demo_env 100 (calm_world (delivery_tables [failed_delivery]) 10) = (Inr k, w')"
proof -
  let ?w = "calm_world (delivery_tables [failed_delivery]) 10 :: (delivery_db, wire) world"
  have due: "due_retries demo_env 100 10 [failed_delivery] = [failed_delivery]"
    by (simp add: due_retries_def select_where_def retry_due_def failed_delivery_def retry_row_def)
  have "\<exists>v. marshalRetryEvent demo_env (payload_of failed_delivery) 10 i = Inr v" for i
    by (simp add: marshalRetryEvent_def encode_envelope_def notification_event_def encode_not_before_def)
  then obtain v where v: "\<And>i. marshalRetryEvent demo_env (payload_of failed_delivery) 10 i = Inr (v i)" by metis
  have "wp (EnqueueDueRetries demo_env 100) (\<lambda>_ _. True) (\<lambda>_ _. False) ?w"
    by (simp add: EnqueueDueRetries_def wp_simps sql_due_retries_def due requeue_def v wp_InsertTx sql_insert_outbox_def sql_update_delivery_def
        delivery_tables_def zero_time_def)
  from wp_returns[OF this] show ?thesis by auto
qed

theorem grpc_retries_are_unread_witness:
  "\<exists>tsn k w'. notification_run demo_calls demo_env demo_frac grpc_environ (\<lambda>_. None) (calm_world () 3 :: (unit, wire) world)
       = (Inr tsn, calm_world () 3) \<and>
     EnqueueDueRetries demo_env 100 (calm_world (delivery_tables [failed_delivery]) 10) = (Inr k, w') \<and>
     length (outbox_events (w_db w')) = k \<and> TopicNotificationCommands \<notin> consumed_topics
       (tsn :: (delivery_db, delivery_db notification_server) task list)"
proof -
  let ?w = "calm_world (delivery_tables [failed_delivery]) 10 :: (delivery_db, wire) world"
  let ?u = "calm_world () 3 :: (unit, wire) world"
  obtain tsn :: "(delivery_db, delivery_db notification_server) task list" where n: "notification_run demo_calls demo_env demo_frac
      grpc_environ (\<lambda>_. None) ?u = (Inr tsn, ?u)" using exE[OF demo_notification_starts] by metis
  obtain tsa :: "(api_db, request \<Rightarrow> (api_db, wire, string \<times> response) go) task list" and wa'
    where a: "subscription_run demo_calls demo_env grpc_environ demo_exec (demo_files ''create'') (demo_files ''outbox'')
       (\<lambda>_ _. undefined) (\<lambda>_ _. undefined) (\<lambda>_ _. undefined) (\<lambda>_ _. None) (\<lambda>_. undefined) (calm_world empty_db 3) = (Inr tsa, wa')"
    using exE[OF demo_api_starts] by metis
  obtain tss :: "(saga_db, unit) task list" where s: "saga_run demo_calls demo_env grpc_environ ?u = (Inr tss, ?u)"
    using exE[OF demo_saga_starts] by metis
  obtain tsc :: "(scanner_db, unit) task list" where c: "scanner_service_run demo_calls demo_env demo_frac grpc_environ (\<lambda>_ _. None) (\<lambda>_ _. undefined) ?u
      = (Inr tsc, ?u)" using exE[OF demo_scanner_starts] by metis
  obtain k w' where r: "EnqueueDueRetries demo_env 100 ?w = (Inr k, w')" using demo_requeue by blast
  have fresh: "uuids_fresh demo_env (w_uuids ?w) (outbox_events (w_db ?w))"
    using inj_dec_text by (auto simp: uuids_fresh_def inj_def delivery_tables_def)
  have grpc: "ToLower demo_env (nc_Transport (Notification_Load demo_env demo_frac grpc_environ)) = ''grpc''"
    by (simp add: grpc_environ_transport)
  note unread = grpc_retries_are_unread[OF n grpc a s c demo_time_codec fresh r]
  have "outbox_events (w_db ?w) = []" by (simp add: delivery_tables_def)
  then have "length (outbox_events (w_db w')) = k" "TopicNotificationCommands \<notin> consumed_topics tsn"
    using unread by auto
  with n r show ?thesis by blast
qed

section \<open>Bounds of the configuration\<close>

lemma duration_terms_bounds: "duration_terms frac d s = Some v \<Longrightarrow> 0 \<le> d \<Longrightarrow> d \<le> 2 ^ 63 \<Longrightarrow> 0 \<le> v \<and> v \<le> 2 ^ 63"
proof (induction frac d s rule: duration_terms.induct)
  case (1 frac d s)
  show ?case
  proof (cases "s = []")
    case True
    then show ?thesis using 1 by (simp add: duration_terms.simps)
  next
    case False
    then obtain t rest where t: "duration_term frac s = Some (t, rest)" "\<not> 2 ^ 63 < (d + t) mod 2 ^ 64"
        "duration_terms frac ((d + t) mod 2 ^ 64) rest = Some v"
      using "1.prems"(1) by (subst (asm) duration_terms.simps) (auto split: option.splits if_splits)
    show ?thesis using "1.IH"[OF False t(1) refl t(2,3)] t(2) by simp
  qed
qed

lemma ParseDuration_bounds:
  assumes "ParseDuration frac s = Some v"
  shows "- (2 ^ 63) \<le> v \<and> v < 2 ^ 63"
proof -
  let ?s = "if s \<noteq> [] \<and> List.hd s \<in> {CHR ''-'', CHR ''+''} then tl s else s"
  from assms consider "v = 0" | d where "duration_terms frac 0 ?s = Some d" "v = - d \<or> v = d \<and> d \<le> 2 ^ 63 - 1"
    unfolding ParseDuration_def Let_def by (auto split: if_splits option.splits)
  then show ?thesis
  proof cases
    case 2
    then show ?thesis using duration_terms_bounds[OF 2(1)] by auto
  qed simp
qed

lemma env_Int_bounds: "- (2 ^ 63) \<le> env_Int V key 0 \<and> env_Int V key 0 < 2 ^ 63"
  using parsed_int64 by (auto simp: env_Int_def Atoi_def split: option.splits sum.splits)

lemma env_Duration_bounds: "- (2 ^ 63) \<le> env_Duration frac V key 0 \<and> env_Duration frac V key 0 < 2 ^ 63"
  using ParseDuration_bounds by (auto simp: env_Duration_def split: option.splits)

lemma env_DurationList_bounds:
  "v \<in> set (env_DurationList E frac V key []) \<Longrightarrow> - (2 ^ 63) \<le> v \<and> v < 2 ^ 63"
  using ParseDuration_bounds by (auto simp: env_DurationList_def Let_def List.map_filter_def split: option.splits if_splits)

text \<open>
  Whatever text the environment holds, a process that starts works with sane numbers that fit
  64 bits: at least one delivery attempt, a positive batch size and a positive scan interval.
\<close>

theorem configured_bounds:
  "(let c = Notification_Load E frac V; s = notification_process E (smtp_of c) (nc_RetryAttempts c) (nc_RetryDelays c)
    in 1 \<le> dv_maxAttempts s \<and> dv_maxAttempts s < 2 ^ 63) \<and>
   (let c = Scanner_Load E frac V; s = scanner_process E entries github url (sc_BatchSize c) (sc_Interval c)
    in 0 < sc_batchSize s \<and> int (sc_batchSize s) < 2 ^ 63 \<and> 0 < sc_scanBackoff s \<and> sc_scanBackoff s < 2 ^ 63)"
proof -
  note ints = env_Int_bounds[of V] and durations = env_Duration_bounds[of frac V]
  show ?thesis
    using ints[of "''NOTIFICATION_RETRY_ATTEMPTS''"] ints[of "''SCANNER_BATCH_SIZE''"] durations[of "''SCANNER_INTERVAL''"]
    by (simp add: Let_def Notification_Load_def Scanner_Load_def notification_process_def NewDeliveryService_def scanner_process_def
        NewService_def second_ns_def nat_less_iff)
qed

end
