(* ===== verification/Lifecycle.thy ===== *)
theory Lifecycle
  imports Deployment
begin

text \<open>
  How a process ends.  The tasks of a started process are goroutines of one error group; a signal, or the
  first goroutine that fails, cancels their context, and \<open>run\<close> returns what \<open>group.Wait\<close> does.  The
  error group (\<open>golang.org/x/sync\<close>) is an argument, of which the code relies on what its documentation says.
  Connections that \<open>run\<close> closes when it returns, and the registration of metrics, are left out.
\<close>

record 'g errgroup =
  eg_new :: 'g
  eg_returned :: "goerr option \<Rightarrow> 'g \<Rightarrow> 'g"
  eg_cancelled :: "'g \<Rightarrow> bool"
  eg_Wait :: "'g \<Rightarrow> goerr option"

text \<open>
  The derived context is cancelled the first time a function passed to \<open>Go\<close> returns an error; \<open>Wait\<close>
  returns the first of these errors.
\<close>

definition errgroup_documented :: "'g errgroup \<Rightarrow> bool" where
  "errgroup_documented G =
     (\<not> eg_cancelled G (eg_new G) \<and> eg_Wait G (eg_new G) = None \<and>
      (\<forall>r g. eg_cancelled G (eg_returned G r g) = (eg_cancelled G g \<or> r \<noteq> None)) \<and>
      (\<forall>r g. eg_Wait G (eg_returned G r g) = (case eg_Wait G g of None \<Rightarrow> r | Some e \<Rightarrow> Some e)))"

section \<open>The goroutines of a task\<close>

text \<open>
  A server takes two goroutines: one in \<open>ListenAndServe\<close> (or \<open>grpcServer.Serve\<close>), one that waits for the
  context and shuts the server down.  \<open>Shutdown\<close> gives up after five seconds with an error,
  \<open>GracefulStop\<close> never does.  \<open>metrics.Serve\<close> is one goroutine with a server of its own.
\<close>

record server_code =
  sv_ErrorPrefix :: string
  sv_ShutdownFails :: bool

datatype 'db goroutine =
    Serve_Metrics nat
  | Listen_And_Serve nat string
  | Stop_Server nat bool
  | Loop "(int \<times> int) list \<Rightarrow> ('db, wire, unit) go"
  | Consume "'db consumer" "'db handler"

fun goroutines_of :: "('srv \<Rightarrow> server_code) \<Rightarrow> nat \<times> ('db, 'srv) task \<Rightarrow> 'db goroutine list" where
  "goroutines_of code (n, Metrics_Server addr) = [Serve_Metrics n]"
| "goroutines_of code (n, Server addr srv) =
     [Listen_And_Serve n (sv_ErrorPrefix (code srv)), Stop_Server n (sv_ShutdownFails (code srv))]"
| "goroutines_of code (n, Ticker interval f) = [Loop f]"
| "goroutines_of code (n, Consuming c h) = [Consume c h]"

definition goroutines :: "('srv \<Rightarrow> server_code) \<Rightarrow> ('db, 'srv) task list \<Rightarrow> 'db goroutine list" where
  "goroutines code ts = concat (map (goroutines_of code) (enumerate 0 ts))"

fun notification_server_code :: "'db notification_server \<Rightarrow> server_code" where
  "notification_server_code (HTTP_Handler h) = \<lparr>sv_ErrorPrefix = ''notification http server: '', sv_ShutdownFails = True\<rparr>"
| "notification_server_code (GRPC_Handler h) = \<lparr>sv_ErrorPrefix = ''serve grpc: '', sv_ShutdownFails = False\<rparr>"

definition api_server_code :: "'srv \<Rightarrow> server_code" where
  "api_server_code srv = \<lparr>sv_ErrorPrefix = ''server error: '', sv_ShutdownFails = True\<rparr>"

section \<open>A process as a step relation\<close>

text \<open>
  \<open>pr_shut\<close> are the servers told to shut down, \<open>pr_errCh\<close> what the server inside \<open>metrics.Serve\<close> has put
  into its channel, \<open>pr_returned\<close> what each goroutine has returned.
\<close>

record 'g process =
  pr_signalled :: bool
  pr_group :: 'g
  pr_shut :: "nat \<Rightarrow> bool"
  pr_errCh :: "nat \<Rightarrow> goerr option option"
  pr_returned :: "nat \<Rightarrow> goerr option option"

definition start_process :: "'g errgroup \<Rightarrow> 'g process" where
  "start_process G = \<lparr>pr_signalled = False, pr_group = eg_new G, pr_shut = (\<lambda>n. False), pr_errCh = (\<lambda>n. None),
     pr_returned = (\<lambda>i. None)\<rparr>"

definition ctx_done :: "'g errgroup \<Rightarrow> 'g process \<Rightarrow> bool" where
  "ctx_done G s = (pr_signalled s \<or> eg_cancelled G (pr_group s))"

definition returns :: "'g errgroup \<Rightarrow> nat \<Rightarrow> goerr option \<Rightarrow> 'g process \<Rightarrow> 'g process" where
  "returns G i r s = s\<lparr>pr_group := eg_returned G r (pr_group s), pr_returned := (pr_returned s)(i := Some r)\<rparr>"

definition shut :: "nat \<Rightarrow> 'g process \<Rightarrow> 'g process" where
  "shut n s = s\<lparr>pr_shut := (pr_shut s)(n := True)\<rparr>"

definition running :: "'db goroutine list \<Rightarrow> nat \<Rightarrow> 'db goroutine \<Rightarrow> 'g process \<Rightarrow> bool" where
  "running gs i g s = (i < length gs \<and> gs ! i = g \<and> pr_returned s i = None)"

text \<open>
  A loop ends with an error when the component it runs does, on some ticks and whatever fails; it ends without one
  when it finds the context done.  The turns of a consumer are as in \<open>Consumer\<close>: its flags are set only
  when the context is done.
\<close>

inductive process_step :: "'g errgroup \<Rightarrow> env \<Rightarrow> 'db goroutine list \<Rightarrow> 'g process \<Rightarrow> 'g process \<Rightarrow> bool"
    for G E gs where
  signal: "process_step G E gs s (s\<lparr>pr_signalled := True\<rparr>)"
| metrics_fails: "running gs i (Serve_Metrics n) s \<Longrightarrow> pr_errCh s n = None \<Longrightarrow> \<not> pr_shut s n \<Longrightarrow>
    process_step G E gs s (s\<lparr>pr_errCh := (pr_errCh s)(n := Some (Some e))\<rparr>)"
| metrics_closed: "i < length gs \<Longrightarrow> gs ! i = Serve_Metrics n \<Longrightarrow> pr_errCh s n = None \<Longrightarrow> pr_shut s n \<Longrightarrow>
    process_step G E gs s (s\<lparr>pr_errCh := (pr_errCh s)(n := Some None)\<rparr>)"
| metrics_reports: "running gs i (Serve_Metrics n) s \<Longrightarrow> \<not> pr_shut s n \<Longrightarrow> pr_errCh s n = Some r \<Longrightarrow>
    process_step G E gs s (returns G i (map_option (errorf ''metrics server: '') r) s)"
| metrics_told: "running gs i (Serve_Metrics n) s \<Longrightarrow> \<not> pr_shut s n \<Longrightarrow> ctx_done G s \<Longrightarrow>
    process_step G E gs s (shut n s)"
| metrics_stopped: "running gs i (Serve_Metrics n) s \<Longrightarrow> pr_shut s n \<Longrightarrow>
    process_step G E gs s (returns G i (map_option (errorf ''shutdown metrics server: '') r) s)"
| server_fails: "running gs i (Listen_And_Serve n p) s \<Longrightarrow> \<not> pr_shut s n \<Longrightarrow>
    process_step G E gs s (returns G i (Some (errorf p e)) s)"
| server_closed: "running gs i (Listen_And_Serve n p) s \<Longrightarrow> pr_shut s n \<Longrightarrow>
    process_step G E gs s (returns G i None s)"
| server_told: "running gs i (Stop_Server n fails) s \<Longrightarrow> ctx_done G s \<Longrightarrow> process_step G E gs s (shut n s)"
| server_stopped: "running gs i (Stop_Server n fails) s \<Longrightarrow> pr_shut s n \<Longrightarrow> (fails \<or> r = None) \<Longrightarrow>
    process_step G E gs s (returns G i r s)"
| loop_fails: "running gs i (Loop f) s \<Longrightarrow> f ticks w = (Inl e, w') \<Longrightarrow>
    process_step G E gs s (returns G i (Some e) s)"
| loop_told: "running gs i (Loop f) s \<Longrightarrow> ctx_done G s \<Longrightarrow> process_step G E gs s (returns G i None s)"
| consumer_fails: "running gs i (Consume c h) s \<Longrightarrow> consume E c h arr w = (Inl e, w') \<Longrightarrow>
    process_step G E gs s (returns G i (Some e) s)"
| consumer_told: "running gs i (Consume c h) s \<Longrightarrow> ctx_done G s \<Longrightarrow> consume E c h arr w = (Inr Cancelled, w') \<Longrightarrow>
    process_step G E gs s (returns G i None s)"

text \<open>\<open>group.Wait\<close> returns when every goroutine has.\<close>

definition all_returned :: "'db goroutine list \<Rightarrow> 'g process \<Rightarrow> bool" where
  "all_returned gs s = (\<forall>i < length gs. pr_returned s i \<noteq> None)"

definition exit_error :: "'g errgroup \<Rightarrow> 'g process \<Rightarrow> goerr option" where
  "exit_error G s = eg_Wait G (pr_group s)"

section \<open>No goroutine stops unnoticed\<close>

definition lifecycle_inv :: "'g errgroup \<Rightarrow> 'db goroutine list \<Rightarrow> 'g process \<Rightarrow> bool" where
  "lifecycle_inv G gs s =
     ((\<forall>i r. pr_returned s i = Some r \<longrightarrow> i < length gs \<and> ctx_done G s) \<and>
      (\<forall>n. pr_shut s n \<longrightarrow> ctx_done G s) \<and>
      (\<forall>n. pr_errCh s n = Some None \<longrightarrow> pr_shut s n) \<and>
      (\<forall>i n fails r. i < length gs \<longrightarrow> gs ! i = Stop_Server n fails \<longrightarrow> pr_returned s i = Some r \<longrightarrow> pr_shut s n) \<and>
      eg_cancelled G (pr_group s) = (exit_error G s \<noteq> None) \<and>
      (case exit_error G s of
         None \<Rightarrow> (\<forall>i r. pr_returned s i = Some r \<longrightarrow> r = None)
       | Some e \<Rightarrow> (\<exists>i. pr_returned s i = Some (Some e))))"

lemma lifecycle_start: "errgroup_documented G \<Longrightarrow> lifecycle_inv G gs (start_process G)"
  by (simp add: lifecycle_inv_def start_process_def errgroup_documented_def exit_error_def)

lemma lifecycle_shut:
  "lifecycle_inv G gs s \<Longrightarrow> ctx_done G s \<Longrightarrow> lifecycle_inv G gs (shut n s)"
  by (auto simp: lifecycle_inv_def shut_def ctx_done_def exit_error_def split: option.splits)

lemma returns_simps:
  "pr_returned (returns G i r s) = (pr_returned s)(i := Some r)" "pr_shut (returns G i r s) = pr_shut s"
  "pr_errCh (returns G i r s) = pr_errCh s"
  by (simp_all add: returns_def)

lemma group_returns:
  assumes "errgroup_documented G"
  shows "exit_error G (returns G i r s) = (case exit_error G s of None \<Rightarrow> r | Some e \<Rightarrow> Some e)"
    and "eg_cancelled G (pr_group (returns G i r s)) = (eg_cancelled G (pr_group s) \<or> r \<noteq> None)"
    and "ctx_done G (returns G i r s) = (ctx_done G s \<or> r \<noteq> None)"
  using assms by (auto simp: errgroup_documented_def exit_error_def returns_def ctx_done_def)

lemma lifecycle_returns:
  assumes "errgroup_documented G" "lifecycle_inv G gs s" "running gs i g s"
    and "r = None \<Longrightarrow> ctx_done G s" and "\<And>n fails. g = Stop_Server n fails \<Longrightarrow> pr_shut s n"
  shows "lifecycle_inv G gs (returns G i r s)"
proof -
  have ran: "i < length gs" "gs ! i = g" "pr_returned s i = None" using assms(3) by (simp_all add: running_def)
  have told: "ctx_done G s \<or> r \<noteq> None" using assms(4) by auto
  have "case exit_error G (returns G i r s) of
      None \<Rightarrow> (\<forall>j r'. pr_returned (returns G i r s) j = Some r' \<longrightarrow> r' = None)
    | Some e \<Rightarrow> (\<exists>j. pr_returned (returns G i r s) j = Some (Some e))"
  proof (cases "exit_error G s")
    case None
    then show ?thesis using assms(2)
      by (cases r) (auto simp: group_returns[OF assms(1)] returns_simps lifecycle_inv_def)
  next
    case (Some e)
    then obtain j where "pr_returned s j = Some (Some e)" using assms(2) by (auto simp: lifecycle_inv_def)
    then have "pr_returned (returns G i r s) j = Some (Some e)" using ran(3) by (auto simp: returns_simps)
    then show ?thesis using Some by (auto simp: group_returns[OF assms(1)])
  qed
  moreover have "eg_cancelled G (pr_group (returns G i r s)) = (exit_error G (returns G i r s) \<noteq> None)"
    using assms(2) by (auto simp: group_returns[OF assms(1)] lifecycle_inv_def split: option.splits)
  moreover have "pr_returned (returns G i r s) j = Some r' \<Longrightarrow> j < length gs \<and> ctx_done G (returns G i r s)" for j r'
    using assms(2) ran(1) told by (auto simp: group_returns[OF assms(1)] returns_simps lifecycle_inv_def split: if_splits)
  moreover have "gs ! j = Stop_Server n b \<Longrightarrow> j < length gs \<Longrightarrow> pr_returned (returns G i r s) j = Some r' \<Longrightarrow> pr_shut s n" for j n b r'
    using assms(2,5) ran(2) by (auto simp: returns_simps lifecycle_inv_def split: if_splits)
  ultimately show ?thesis
    using assms(2) by (auto simp: lifecycle_inv_def returns_simps group_returns(3)[OF assms(1)])
qed

lemma lifecycle_keeps:
  assumes "lifecycle_inv G gs s" "pr_group s' = pr_group s" "pr_returned s' = pr_returned s" "pr_shut s' = pr_shut s"
    and "pr_signalled s \<longrightarrow> pr_signalled s'" "\<And>n. pr_errCh s' n = Some None \<Longrightarrow> pr_shut s n"
  shows "lifecycle_inv G gs s'"
  using assms by (auto simp: lifecycle_inv_def ctx_done_def exit_error_def)

lemma lifecycle_facts:
  assumes "lifecycle_inv G gs s"
  shows "pr_shut s n \<Longrightarrow> ctx_done G s" "pr_errCh s n = Some None \<Longrightarrow> pr_shut s n"
  using assms unfolding lifecycle_inv_def by blast+

lemma lifecycle_step:
  assumes "process_step G E gs s s'" "errgroup_documented G" "lifecycle_inv G gs s"
  shows "lifecycle_inv G gs s'"
  using assms(1)
proof cases
  case (metrics_reports i n r)
  have "map_option (errorf ''metrics server: '') r \<noteq> None"
    using metrics_reports lifecycle_facts(2)[OF assms(3)] by (cases r) auto
  then show ?thesis using metrics_reports by (auto intro: lifecycle_returns[OF assms(2,3)])
next
  case signal
  then show ?thesis by (intro lifecycle_keeps[OF assms(3)]) (auto dest: lifecycle_facts[OF assms(3)])
next
  case (metrics_fails i n e)
  then show ?thesis
    by (intro lifecycle_keeps[OF assms(3)]) (auto dest: lifecycle_facts[OF assms(3)] split: if_splits)
next
  case (metrics_closed i n)
  then show ?thesis
    by (intro lifecycle_keeps[OF assms(3)]) (auto dest: lifecycle_facts[OF assms(3)] split: if_splits)
qed (auto intro: lifecycle_returns[OF assms(2,3)] lifecycle_shut[OF assms(3)] dest: lifecycle_facts[OF assms(3)])

lemma lifecycle_run:
  assumes "(process_step G E gs)\<^sup>*\<^sup>* (start_process G) s" "errgroup_documented G"
  shows "lifecycle_inv G gs s"
  using assms(1) by (induction) (auto intro: lifecycle_start[OF assms(2)] lifecycle_step[OF _ assms(2)])

text \<open>Where the error of a goroutine comes from.\<close>

fun can_fail :: "env \<Rightarrow> 'db goroutine \<Rightarrow> goerr \<Rightarrow> bool" where
  "can_fail E (Serve_Metrics n) e = (\<exists>e'. e = errorf ''metrics server: '' e' \<or> e = errorf ''shutdown metrics server: '' e')"
| "can_fail E (Listen_And_Serve n p) e = (\<exists>e'. e = errorf p e')"
| "can_fail E (Stop_Server n fails) e = fails"
| "can_fail E (Loop f) e = (\<exists>ticks w w'. f ticks w = (Inl e, w'))"
| "can_fail E (Consume c h) e = (\<exists>arr w w'. consume E c h arr w = (Inl e, w'))"

lemma error_origin:
  assumes "(process_step G E gs)\<^sup>*\<^sup>* (start_process G) s"
  shows "pr_returned s i = Some (Some e) \<Longrightarrow> i < length gs \<and> can_fail E (gs ! i) e"
  using assms
proof (induction arbitrary: i e)
  case base
  then show ?case by (simp add: start_process_def)
next
  case (step s s')
  from step.hyps(2) step.prems show ?case
    by cases (auto simp: returns_def running_def shut_def dest: step.IH split: if_splits)
qed

section \<open>A process that is told to stop can stop\<close>

definition servers_paired :: "'db goroutine list \<Rightarrow> bool" where
  "servers_paired gs = (\<forall>n p. Listen_And_Serve n p \<in> set gs \<longrightarrow> (\<exists>b. Stop_Server n b \<in> set gs))"

lemma goroutines_paired: "servers_paired (goroutines code ts)"
proof -
  have "\<exists>b. Stop_Server n b \<in> set (goroutines_of code t)"
    if "Listen_And_Serve n p \<in> set (goroutines_of code t)" for n p t
    using that by (cases "(code, t)" rule: goroutines_of.cases) auto
  then show ?thesis unfolding servers_paired_def goroutines_def by fastforce
qed

lemma shut_simps:
  "pr_returned (shut n s) = pr_returned s" "exit_error G (shut n s) = exit_error G s"
  "ctx_done G (shut n s) = ctx_done G s" "pr_shut (shut n s) m = (m = n \<or> pr_shut s m)"
  by (auto simp: shut_def exit_error_def ctx_done_def)

lemma server_can_stop:
  assumes "lifecycle_inv G gs s" "servers_paired gs" "ctx_done G s" "running gs i (Listen_And_Serve n p) s"
  shows "\<exists>s1. (process_step G E gs)\<^sup>*\<^sup>* s s1 \<and> pr_shut s1 n \<and> pr_returned s1 = pr_returned s \<and>
    exit_error G s1 = exit_error G s \<and> ctx_done G s1"
proof (cases "pr_shut s n")
  case True
  then show ?thesis using assms(3) by blast
next
  case False
  have "Listen_And_Serve n p \<in> set gs" using assms(4) by (metis running_def nth_mem)
  then obtain b where "Stop_Server n b \<in> set gs" using assms(2) by (auto simp: servers_paired_def)
  then obtain j where j: "j < length gs" "gs ! j = Stop_Server n b" by (auto simp: in_set_conv_nth)
  moreover have "pr_returned s j = None"
    using assms(1) j False by (cases "pr_returned s j") (auto simp: lifecycle_inv_def)
  ultimately have "process_step G E gs s (shut n s)"
    using assms(3) by (intro server_told[of _ j n b]) (auto simp: running_def)
  then show ?thesis using assms(3) by (intro exI[of _ "shut n s"]) (auto simp: shut_simps)
qed

lemma goroutine_can_stop:
  assumes doc: "errgroup_documented G" and inv: "lifecycle_inv G gs s" "servers_paired gs" "ctx_done G s"
    and i: "i < length gs" "pr_returned s i = None"
  shows "\<exists>s'. (process_step G E gs)\<^sup>*\<^sup>* s s' \<and> pr_returned s' = (pr_returned s)(i := Some None) \<and>
    exit_error G s' = exit_error G s \<and> ctx_done G s'"
proof -
  have last: ?thesis if "(process_step G E gs)\<^sup>*\<^sup>* s s1" "process_step G E gs s1 (returns G i None s1)"
    "pr_returned s1 = pr_returned s" "exit_error G s1 = exit_error G s" "ctx_done G s1" for s1
    using that by (intro exI[of _ "returns G i None s1"])
      (auto simp: returns_simps group_returns[OF doc] split: option.splits)
  have run: "running gs i (gs ! i) s" using i by (simp add: running_def)
  show ?thesis
  proof (cases "gs ! i")
    case (Serve_Metrics n)
    have run': "running gs i (Serve_Metrics n) (if pr_shut s n then s else shut n s)"
      using run Serve_Metrics by (auto simp: running_def shut_simps)
    show ?thesis
      using run inv(3) run' metrics_stopped[OF run', where r = None] metrics_told[of gs i n s G E] Serve_Metrics
      by (intro last[of "if pr_shut s n then s else shut n s"]) (auto simp: shut_simps)
  next
    case (Listen_And_Serve n p)
    then obtain s1 where "(process_step G E gs)\<^sup>*\<^sup>* s s1" "pr_shut s1 n" "pr_returned s1 = pr_returned s"
        "exit_error G s1 = exit_error G s" "ctx_done G s1"
      using server_can_stop[OF inv] run by metis
    then show ?thesis
      using i Listen_And_Serve by (intro last[of s1]) (auto intro!: server_closed simp: running_def)
  next
    case (Stop_Server n b)
    then have "process_step G E gs (shut n s) (returns G i None (shut n s))"
      using run by (intro server_stopped[of _ _ n b]) (auto simp: running_def shut_simps)
    then show ?thesis
      using run inv(3) Stop_Server server_told[of gs i n b s G E] by (intro last[of "shut n s"]) (auto simp: shut_simps)
  next
    case (Loop f)
    then show ?thesis using run inv(3) by (intro last[of s]) (auto intro: loop_told)
  next
    case (Consume c h)
    have told: "consume E c h [FetchFailed (Plain []) True] w = (Inr Cancelled, w)" for w
      by (simp add: ret_def)
    show ?thesis using run inv(3) Consume by (intro last[of s]) (auto intro: consumer_told[OF _ _ told])
  qed
qed

lemma process_can_stop:
  assumes doc: "errgroup_documented G" and "lifecycle_inv G gs s" "servers_paired gs" "ctx_done G s"
  shows "\<exists>s'. (process_step G E gs)\<^sup>*\<^sup>* s s' \<and> all_returned gs s' \<and> exit_error G s' = exit_error G s"
  using assms(2-)
proof (induction "card {i. i < length gs \<and> pr_returned s i = None}" arbitrary: s rule: less_induct)
  case less
  show ?case
  proof (cases "all_returned gs s")
    case True
    then show ?thesis by blast
  next
    case False
    then obtain i where i: "i < length gs" "pr_returned s i = None" by (auto simp: all_returned_def)
    then obtain s1 where s1: "(process_step G E gs)\<^sup>*\<^sup>* s s1" "pr_returned s1 = (pr_returned s)(i := Some None)"
        "exit_error G s1 = exit_error G s" "ctx_done G s1"
      using goroutine_can_stop[OF doc less.prems] by metis
    have "lifecycle_inv G gs s1"
      using s1(1) less.prems(1) by induction (auto intro: lifecycle_step[OF _ doc])
    moreover have "card {j. j < length gs \<and> pr_returned s1 j = None} < card {j. j < length gs \<and> pr_returned s j = None}"
      using i s1(2) by (intro psubset_card_mono) auto
    ultimately show ?thesis using less.hyps[of s1] less.prems(2) s1 by (metis rtranclp_trans)
  qed
qed

lemma process_end:
  assumes "errgroup_documented G" "gs \<noteq> []" "servers_paired gs" and run: "(process_step G E gs)\<^sup>*\<^sup>* (start_process G) s"
  shows "pr_returned s i = Some r \<Longrightarrow> ctx_done G s"
    and "exit_error G s = Some e \<Longrightarrow> \<exists>i < length gs. pr_returned s i = Some (Some e) \<and> can_fail E (gs ! i) e"
    and "exit_error G s = None \<Longrightarrow> pr_returned s i = Some r \<Longrightarrow> r = None"
    and "exit_error G s = None \<Longrightarrow> all_returned gs s \<Longrightarrow> pr_signalled s"
    and "ctx_done G s \<Longrightarrow> \<exists>s'. (process_step G E gs)\<^sup>*\<^sup>* s s' \<and> all_returned gs s' \<and> exit_error G s' = exit_error G s"
proof -
  note inv = lifecycle_run[OF run assms(1)]
  show told: "ctx_done G s" if "pr_returned s i = Some r" for i r using inv that by (auto simp: lifecycle_inv_def)
  show "\<exists>i < length gs. pr_returned s i = Some (Some e) \<and> can_fail E (gs ! i) e" if err: "exit_error G s = Some e"
  proof -
    obtain i where "pr_returned s i = Some (Some e)" using inv err by (auto simp: lifecycle_inv_def)
    then show ?thesis using error_origin[OF run] by blast
  qed
  show "r = None" if "exit_error G s = None" "pr_returned s i = Some r"
    using inv that by (auto simp: lifecycle_inv_def)
  show "pr_signalled s" if "exit_error G s = None" "all_returned gs s"
  proof -
    have "pr_returned s 0 \<noteq> None" using that(2) assms(2) by (auto simp: all_returned_def)
    then have "ctx_done G s" using told by blast
    then show ?thesis using inv that(1) by (auto simp: ctx_done_def lifecycle_inv_def)
  qed
  show "\<exists>s'. (process_step G E gs)\<^sup>*\<^sup>* s s' \<and> all_returned gs s' \<and> exit_error G s' = exit_error G s" if "ctx_done G s"
    by (rule process_can_stop[OF assms(1) inv assms(3) that])
qed

lemma goroutines_some: "ts \<noteq> [] \<Longrightarrow> goroutines code ts \<noteq> []"
proof (cases ts)
  case (Cons t us)
  have "goroutines_of code (n, t) \<noteq> []" for n by (cases t) auto
  then show ?thesis by (auto simp: goroutines_def Cons)
qed simp

text \<open>
  C12. The goroutines of the notification service end together: none of them returns before a signal has
  arrived or one has failed, \<open>run\<close> returns the error of a goroutine if one failed and otherwise returns
  without an error only after a signal, and from the moment the context is done every goroutine
  can still be brought to its end, whatever state the others are in.
\<close>

theorem notification_service_ends_as_one:
  assumes "errgroup_documented G" and "notification_run S E frac V validate w = (Inr ts, w')"
  defines "gs \<equiv> goroutines notification_server_code ts"
  assumes run: "(process_step G E gs)\<^sup>*\<^sup>* (start_process G) s"
  shows "(\<forall>i r. pr_returned s i = Some r \<longrightarrow> ctx_done G s) \<and>
    (case exit_error G s of
       Some e \<Rightarrow> \<exists>i < length gs. pr_returned s i = Some (Some e) \<and> can_fail E (gs ! i) e
     | None \<Rightarrow> (\<forall>i r. pr_returned s i = Some r \<longrightarrow> r = None) \<and> (all_returned gs s \<longrightarrow> pr_signalled s)) \<and>
    (ctx_done G s \<longrightarrow> (\<exists>s'. (process_step G E gs)\<^sup>*\<^sup>* s s' \<and> all_returned gs s' \<and> exit_error G s' = exit_error G s))"
proof -
  have "gs \<noteq> []" using notification_runD[OF assms(2)] unfolding gs_def by (auto intro!: goroutines_some)
  note ends = process_end[OF assms(1) this goroutines_paired[of notification_server_code ts, folded gs_def] run]
  show ?thesis using ends by (cases "exit_error G s") auto
qed

section \<open>Which failures end which process\<close>

lemma for_each_never_fails:
  assumes "\<And>x w. \<exists>w'. f x w = (Inr (), w')"
  shows "for_each f xs w \<noteq> (Inl e, w')"
proof -
  have "\<exists>w'. for_each f xs w = (Inr (), w')" for w
    by (induction xs arbitrary: w) (use assms in \<open>auto simp: ret_def bnd_def split: prod.splits sum.splits\<close>, metis assms prod.inject sum.simps(4))
  then show ?thesis by (metis Pair_inject sum.simps(4))
qed

lemma logged_tick: "\<exists>w'. bnd (at_clocks t) (\<lambda>_. bnd (attempt m) (\<lambda>_. ret ())) w = (Inr (), w')"
  by (auto simp: bnd_def at_clocks_def attempt_def ret_def split: prod.splits)

lemma scans_never_fail: "Scanner_Start E s ticks w \<noteq> (Inl e, w')"
  unfolding Scanner_Start_def by (rule for_each_never_fails) (rule logged_tick)

lemma sweeps_never_fail: "saga_sweeps E ticks w \<noteq> (Inl e, w')"
  unfolding saga_sweeps_def by (rule for_each_never_fails) (rule logged_tick)

text \<open>
  A scan or a sweep that fails is logged and never ends its process: an error of the scanner comes from its metrics
  server or its consumer, an error of the saga orchestrator from one of its consumers.
\<close>

theorem failing_ticks_are_survived:
  fixes ts :: "('d scanner_db_scheme, unit) task list" and ts' :: "('b saga_db_scheme, unit) task list"
  assumes "errgroup_documented G"
    and "scanner_service_run S E frac V entries github w = (Inr ts, w')"
    and "(process_step G E (goroutines code ts))\<^sup>*\<^sup>* (start_process G) s" and "exit_error G s = Some e"
    and "saga_run S' E V' v = (Inr ts', v')"
    and "(process_step G E (goroutines code' ts'))\<^sup>*\<^sup>* (start_process G) s'" and "exit_error G s' = Some e'"
  shows "((\<exists>x. e = errorf ''metrics server: '' x \<or> e = errorf ''shutdown metrics server: '' x) \<or>
      (\<exists>(service :: 'd scanner_db_scheme scanner_service) arr w1 w2. consume E watchlistConsumer (command_handler E service) arr w1 = (Inl e, w2))) \<and>
    (\<exists>arr (w1 :: ('b saga_db_scheme, wire) world) w2. consume E requestConsumer (request_handler E New) arr w1 = (Inl e', w2) \<or>
      consume E ackConsumer (ack_handler E New) arr w1 = (Inl e', w2))"
proof
  obtain port service where ts: "ts = [Metrics_Server port, Ticker second_ns (Scanner_Start E service),
      Consuming watchlistConsumer (command_handler E service)]"
    using scanner_service_runD[OF assms(2)] by blast
  have gs: "goroutines code ts = [Serve_Metrics 0, Loop (Scanner_Start E service), Consume watchlistConsumer (command_handler E service)]"
    by (simp add: goroutines_def ts)
  obtain i where "i < 3" "can_fail E (goroutines code ts ! i) e"
    using process_end(2)[OF assms(1) _ goroutines_paired assms(3,4)] unfolding gs by (auto simp: numeral_3_eq_3)
  then show "(\<exists>x. e = errorf ''metrics server: '' x \<or> e = errorf ''shutdown metrics server: '' x) \<or>
      (\<exists>(service :: 'd scanner_db_scheme scanner_service) arr w1 w2. consume E watchlistConsumer (command_handler E service) arr w1 = (Inl e, w2))"
    unfolding gs by (auto simp: less_Suc_eq numeral_3_eq_3 scans_never_fail)
next
  have gs: "goroutines code' ts' = [Consume requestConsumer (request_handler E New), Consume ackConsumer (ack_handler E New),
      Loop (saga_sweeps E)]"
    by (simp add: goroutines_def saga_runD[OF assms(5)])
  obtain i where "i < 3" "can_fail E (goroutines code' ts' ! i) e'"
    using process_end(2)[OF assms(1) _ goroutines_paired assms(6,7)] unfolding gs by (auto simp: numeral_3_eq_3)
  then show "\<exists>arr (w1 :: ('b saga_db_scheme, wire) world) w2. consume E requestConsumer (request_handler E New) arr w1 = (Inl e', w2) \<or>
      consume E ackConsumer (ack_handler E New) arr w1 = (Inl e', w2)"
    unfolding gs by (auto simp: less_Suc_eq numeral_3_eq_3 sweeps_never_fail) blast+
qed

section \<open>A retry that fails\<close>

definition demo_group :: "(goerr option) errgroup" where
  "demo_group = \<lparr>eg_new = None, eg_returned = (\<lambda>r g. case g of None \<Rightarrow> r | Some e \<Rightarrow> Some e), eg_cancelled = (\<lambda>g. g \<noteq> None),
     eg_Wait = (\<lambda>g. g)\<rparr>"

lemma demo_group_documented: "errgroup_documented demo_group"
  by (auto simp: errgroup_documented_def demo_group_def split: option.splits)

lemma ticker_goroutine: "Ticker d f \<in> set ts \<Longrightarrow> Loop f \<in> set (goroutines code ts)"
  by (force simp: goroutines_def in_set_conv_nth set_zip enumerate_eq_zip)

text \<open>A retry tick that meets a lost database ends the notification service with the error of that tick.\<close>

theorem notification_service_ends_as_one_witness:
  "\<exists>(ts :: (delivery_db, delivery_db notification_server) task list) s' e.
     notification_run demo_calls demo_env demo_frac grpc_environ (\<lambda>_. None) (calm_world () 3) = (Inr ts, calm_world () 3 :: (unit, wire) world) \<and>
     (process_step demo_group demo_env (goroutines notification_server_code ts))\<^sup>*\<^sup>* (start_process demo_group) s' \<and>
     all_returned (goroutines notification_server_code ts) s' \<and> exit_error demo_group s' = Some e"
proof -
  let ?f = "Scheduler_Start (NewRetryScheduler (EnqueueDueRetries demo_env) 100 second_ns) :: (int \<times> int) list \<Rightarrow> (delivery_db, wire, unit) go"
  obtain ts :: "(delivery_db, delivery_db notification_server) task list" where
      n: "notification_run demo_calls demo_env demo_frac grpc_environ (\<lambda>_. None) (calm_world () 3) = (Inr ts, calm_world () 3 :: (unit, wire) world)"
    using exE[OF demo_notification_starts] by metis
  have "Ticker second_ns ?f \<in> set ts" using notification_runD[OF n] by auto
  from ticker_goroutine[OF this] obtain i where i: "i < length (goroutines notification_server_code ts)" "goroutines notification_server_code ts ! i = Loop ?f"
    by (metis in_set_conv_nth)
  define w :: "(delivery_db, wire) world" where "w = (calm_world (delivery_tables []) 3)\<lparr>w_script := [Fail ''connection refused'']\<rparr>"
  obtain e w' where e: "?f [(3, 3)] w = (Inl e, w')"
    by (auto simp: w_def Scheduler_Start_def NewRetryScheduler_def EnqueueDueRetries_def bnd_def at_clocks_def with_tx_def annot_def
        begin_tx_def next_o_def split: prod.splits)
  let ?s = "returns demo_group i (Some e) (start_process demo_group)"
  have step: "(process_step demo_group demo_env (goroutines notification_server_code ts))\<^sup>*\<^sup>* (start_process demo_group) ?s"
    using i e by (intro r_into_rtranclp loop_fails[of _ i ?f]) (auto simp: running_def start_process_def)
  have err: "exit_error demo_group ?s = Some e" "ctx_done demo_group ?s"
    by (simp_all add: exit_error_def ctx_done_def returns_def start_process_def demo_group_def)
  obtain s' where "(process_step demo_group demo_env (goroutines notification_server_code ts))\<^sup>*\<^sup>* ?s s'"
      "all_returned (goroutines notification_server_code ts) s'" "exit_error demo_group s' = Some e"
    using notification_service_ends_as_one[OF demo_group_documented n step] err by auto
  then show ?thesis using n rtranclp_trans[OF step] by blast
qed

end
