(* ===== verification/Subscription_Races.thy ===== *)
theory Subscription_Races
  imports Subscription_Watch
begin

text \<open>
  Confirming and unsubscribing when several sessions run at once.  The two operations of
  \<open>subscription/repository.go\<close> are given statement by statement; the sessions interleave between
  statements as PostgreSQL's default isolation level, read committed, allows: a statement sees what has
  been committed when it starts and the writes of its own transaction, a row that a
  transaction has locked or written cannot be locked or written by another until it ends, and
  committing applies the writes.  The state is the view of the API's database: its
  subscriptions and its saga requests.
\<close>

section \<open>Programs of transactions\<close>

text \<open>
  \<open>Run l f\<close> executes a statement: it locks the row of the token \<open>l\<close>, if any, and what it reads decides what
  it writes and what comes next.  \<open>Commit p\<close> ends the transaction and goes on with \<open>p\<close> in a new one.
\<close>

datatype 'v prog = Done | Rollback | Commit "'v prog" | Run "string option" "'v \<Rightarrow> ('v \<Rightarrow> 'v) \<times> 'v prog"

definition request_stmt :: "string \<Rightarrow> string \<Rightarrow> sub_view prog" where
  "request_stmt action repo = Run None (\<lambda>_. (apsnd (\<lambda>rq. rq @ [(action, repo)]), Commit Done))"

definition Unsubscribe_prog :: "string \<Rightarrow> sub_view prog" where
  "Unsubscribe_prog token =
     Run (Some token) (\<lambda>x.
       case find_token token (fst x) of
         None \<Rightarrow> (id, Rollback)
       | Some r \<Rightarrow> (id,
           Run (Some token) (\<lambda>_. (apfst (leave_rows token),
             if su_Confirmed r
             then Run None (\<lambda>x. (id,
               if affected (confirmed_of (su_Repo r)) (fst x) = 0 then request_stmt RepoWatchActionStop (su_Repo r)
               else Commit Done))
             else Commit Done))))"

definition Confirm_prog :: "string \<Rightarrow> sub_view prog" where
  "Confirm_prog token =
     Run (Some token) (\<lambda>x.
       case find_token token (fst x) of
         None \<Rightarrow> (id, Rollback)
       | Some r \<Rightarrow> (id,
           Run None (\<lambda>x. let confirmedBefore = affected (confirmed_of (su_Repo r)) (fst x) in (id,
             Run (Some token) (\<lambda>_. (apfst (confirm_rows token),
               Commit (if \<not> su_Confirmed r \<and> confirmedBefore = 0
                 then request_stmt RepoWatchActionStart (su_Repo r) else Done)))))))"

section \<open>A program alone\<close>

primrec alone :: "'v prog \<Rightarrow> ('v \<Rightarrow> 'v) \<Rightarrow> 'v \<Rightarrow> 'v" where
  "alone Done = (\<lambda>g c. c)"
| "alone Rollback = (\<lambda>g c. c)"
| "alone (Commit p) = (\<lambda>g c. alone p id (g c))"
| "alone (Run l f) = (\<lambda>g c. case (map_prod (\<lambda>h. h) alone \<circ> f) (g c) of (h, k) \<Rightarrow> k (h \<circ> g) c)"

lemma alone_request: "alone (request_stmt action repo) g c = apsnd (\<lambda>rq. rq @ [(action, repo)]) (g c)"
  by (simp add: request_stmt_def)

lemma alone_Unsubscribe:
  "alone (Unsubscribe_prog token) id (rows, rq) =
     (case find_token token rows of
        None \<Rightarrow> (rows, rq)
      | Some r \<Rightarrow> (leave_rows token rows, rq @ stop_requests r (leave_rows token rows)))"
  by (auto simp: Unsubscribe_prog_def alone_request stop_requests_def split: option.splits)

lemma alone_Confirm:
  "alone (Confirm_prog token) id (rows, rq) =
     (case find_token token rows of
        None \<Rightarrow> (rows, rq)
      | Some r \<Rightarrow> (confirm_rows token rows, rq @ start_requests r rows))"
  by (auto simp: Confirm_prog_def alone_request start_requests_def Let_def split: option.splits)

text \<open>Run alone, the programs do what the operations of the model do when they return without an error.\<close>

lemma Unsubscribe_is_prog:
  fixes w :: "('d api_db_scheme, wire) world"
  assumes "api_ok E w" and "Unsubscribe E rid token w = (Inr (), w')"
  shows "books E (w_db w') = alone (Unsubscribe_prog token) id (books E (w_db w))"
  using tx_wpD[OF assms(2) Unsubscribe_tx[OF assms(1)]]
  by (auto simp: leaves_def books_def alone_Unsubscribe find_token_def)

lemma Confirm_is_prog:
  fixes w :: "('d api_db_scheme, wire) world"
  assumes "api_ok E w" and "Service_ConfirmSubscriptionByToken (subscription_process E n g) rid token w = (Inr (), w')"
  shows "books E (w_db w') = alone (Confirm_prog token) id (books E (w_db w))"
  using wp_okD[OF assms(2) api_store.Confirm_wp[OF assms(1), of "subscription_process E n g", OF service_sel(1)]]
  by (auto simp: books_def alone_Confirm)

section \<open>Sessions\<close>

text \<open>
  A session has the rest of its program, the writes of its open transaction and the tokens whose rows
  it has locked; a turn is one statement or the end of a transaction, and none when the session
  is done or waits for a lock.
\<close>

record 'v session =
  se_prog :: "'v prog"
  se_writes :: "'v \<Rightarrow> 'v"
  se_locks :: "string list"

definition session :: "'v prog \<Rightarrow> 'v session" where
  "session p = \<lparr>se_prog = p, se_writes = id, se_locks = []\<rparr>"

type_synonym 'v race = "'v \<times> 'v session list"

definition waits :: "string option \<Rightarrow> nat \<Rightarrow> 'v session list \<Rightarrow> bool" where
  "waits l i ss = (case l of None \<Rightarrow> False | Some t \<Rightarrow> list_ex (\<lambda>j. j \<noteq> i \<and> t \<in> set (se_locks (ss ! j))) [0..<length ss])"

definition turn :: "nat \<Rightarrow> 'v race \<Rightarrow> 'v race option" where
  "turn i x = (case x of (c, ss) \<Rightarrow>
     if length ss \<le> i then None
     else (case se_prog (ss ! i) of
         Done \<Rightarrow> None
       | Rollback \<Rightarrow> Some (c, ss[i := session Done])
       | Commit p \<Rightarrow> Some (se_writes (ss ! i) c, ss[i := session p])
       | Run l f \<Rightarrow>
           if waits l i ss then None
           else (case f (se_writes (ss ! i) c) of (h, p) \<Rightarrow>
             Some (c, ss[i := \<lparr>se_prog = p, se_writes = h \<circ> se_writes (ss ! i),
               se_locks = (case l of None \<Rightarrow> [] | Some t \<Rightarrow> [t]) @ se_locks (ss ! i)\<rparr>]))))"

fun turns_of :: "nat list \<Rightarrow> 'v race \<Rightarrow> 'v race option" where
  "turns_of [] x = Some x"
| "turns_of (i # is) x = Option.bind (turn i x) (turns_of is)"

definition finished :: "'v session list \<Rightarrow> bool" where
  "finished ss = list_all (\<lambda>s. case se_prog s of Done \<Rightarrow> True | _ \<Rightarrow> False) ss"

section \<open>Two races\<close>

text \<open>
  The last two confirmed subscribers of a repository leave at the same time: each deletes its row, and
  each still counts the other's.
\<close>

lemma two_leave:
  assumes "find_token t1 rows = Some r1" and "find_token t2 rows = Some r2" and "t1 \<noteq> t2"
    and "su_Confirmed r1" and "su_Confirmed r2"
    and "affected (confirmed_of (su_Repo r1)) (leave_rows t1 rows) \<noteq> 0"
    and "affected (confirmed_of (su_Repo r2)) (leave_rows t2 rows) \<noteq> 0"
  shows "\<exists>ss. turns_of [0, 0, 1, 1, 0, 1, 0, 1] ((rows, rq), [session (Unsubscribe_prog t1), session (Unsubscribe_prog t2)])
     = Some ((leave_rows t2 (leave_rows t1 rows), rq), ss) \<and> finished ss"
  using assms by (simp add: turn_def waits_def session_def Unsubscribe_prog_def finished_def)

text \<open>
  The only confirmed subscriber leaves while another one confirms: the one that confirms has counted the
  other, the one that leaves counts nobody.
\<close>

lemma leave_and_confirm:
  assumes "find_token t1 rows = Some r1" and "find_token t2 rows = Some r2" and "t1 \<noteq> t2"
    and "su_Confirmed r1" and "\<not> su_Confirmed r2" and "su_Repo r2 = su_Repo r1"
    and "affected (confirmed_of (su_Repo r1)) (leave_rows t1 rows) = 0" and "affected (confirmed_of (su_Repo r1)) rows \<noteq> 0"
  shows "\<exists>ss. turns_of [1, 1, 0, 0, 0, 0, 0, 1, 1] ((rows, rq), [session (Unsubscribe_prog t1), session (Confirm_prog t2)])
     = Some ((confirm_rows t2 (leave_rows t1 rows), rq @ [(RepoWatchActionStop, su_Repo r1)]), ss) \<and> finished ss"
  using assms by (simp add: turn_def waits_def session_def Unsubscribe_prog_def Confirm_prog_def request_stmt_def finished_def Let_def)

section \<open>What the races do to the watching\<close>

lemma alone_keeps:
  assumes "keyed su_Token (fst x)" and "exact x" and "p = Unsubscribe_prog t \<or> p = Confirm_prog t"
  shows "keyed su_Token (fst (alone p id x)) \<and> exact (alone p id x)"
proof (cases "find_token t (fst x)")
  case None
  then show ?thesis using assms by (cases x) (auto simp: alone_Unsubscribe alone_Confirm)
next
  case (Some r)
  obtain rows rq where x: "x = (rows, rq)" by (cases x)
  have keys: "keyed su_Token (leave_rows t rows)" "keyed su_Token (confirm_rows t rows)"
    using assms(1) by (auto simp: x leave_rows_def keyed_delete_where confirm_rows_def intro!: keyed_update_where)
  have tok: "keyed su_Token rows" "find_token t rows = Some r" "exact (rows, rq)" using assms(1,2) Some by (simp_all add: x)
  show ?thesis
    using assms(3) tok(2) keys
      watch_moves_exact[OF confirm_moves[OF tok(1,2), of "start_requests r rows" True] tok(3)]
      watch_moves_exact[OF leave_moves[OF tok(1,2), of _ True rq] tok(3)]
    by (auto simp: x alone_Unsubscribe alone_Confirm)
qed

lemma find_tokenD: "find_token t rows = Some r \<Longrightarrow> r \<in> set rows \<and> su_Token r = t"
  using find_row_SomeD by (fastforce simp: find_token_def)

lemma serial_keeps_exact:
  assumes "exact (rows, rq)" "keyed su_Token rows"
    and "p1 = Unsubscribe_prog t1 \<or> p1 = Confirm_prog t1" "p2 = Unsubscribe_prog t2 \<or> p2 = Confirm_prog t2"
  shows "exact (alone p2 id (alone p1 id (rows, rq))) \<and> exact (alone p1 id (alone p2 id (rows, rq)))"
proof -
  have start: "keyed su_Token (fst (rows, rq))" "exact (rows, rq)" using assms(1,2) by simp_all
  show ?thesis
    using alone_keeps[OF _ _ assms(4)] alone_keeps[OF _ _ assms(3)] alone_keeps[OF start assms(3)] alone_keeps[OF start assms(4)]
    by blast
qed

lemma both_leave_unwatched:
  assumes tokens: "find_token t1 rows = Some r1" "find_token t2 rows = Some r2" "t1 \<noteq> t2" "su_Repo r2 = su_Repo r1"
    and confirmed: "su_Confirmed r1" "su_Confirmed r2"
    and only: "\<forall>r \<in> set rows. confirmed_of (su_Repo r1) r \<longrightarrow> r = r1 \<or> r = r2"
  shows "\<exists>ss. turns_of [0, 0, 1, 1, 0, 1, 0, 1] ((rows, rq), [session (Unsubscribe_prog t1), session (Unsubscribe_prog t2)]) =
      Some ((leave_rows t2 (leave_rows t1 rows), rq), ss) \<and> finished ss"
    and "affected (confirmed_of (su_Repo r1)) (leave_rows t2 (leave_rows t1 rows)) = 0"
proof -
  have r1: "r1 \<in> set rows" "su_Token r1 = t1" and r2: "r2 \<in> set rows" "su_Token r2 = t2"
    using find_tokenD tokens(1,2) by blast+
  have "affected (confirmed_of (su_Repo r1)) (leave_rows t1 rows) \<noteq> 0" "affected (confirmed_of (su_Repo r2)) (leave_rows t2 rows) \<noteq> 0"
    using r1 r2 confirmed tokens(3,4) by (auto simp: affected_zero leave_rows_def set_delete_where confirmed_of_def)
  from two_leave[OF tokens(1-3) confirmed this]
  show "\<exists>ss. turns_of [0, 0, 1, 1, 0, 1, 0, 1] ((rows, rq), [session (Unsubscribe_prog t1), session (Unsubscribe_prog t2)]) =
      Some ((leave_rows t2 (leave_rows t1 rows), rq), ss) \<and> finished ss" by blast
  show "affected (confirmed_of (su_Repo r1)) (leave_rows t2 (leave_rows t1 rows)) = 0"
    using only r1(2) r2(2) by (auto simp: affected_zero leave_rows_def set_delete_where)
qed

lemma confirmed_while_leaving:
  assumes tokens: "find_token t1 rows = Some r1" "find_token t2 rows = Some r2" "t1 \<noteq> t2" "su_Repo r2 = su_Repo r1"
    and confirmed: "su_Confirmed r1" "\<not> su_Confirmed r2"
    and only: "\<forall>r \<in> set rows. confirmed_of (su_Repo r1) r \<longrightarrow> r = r1 \<or> r = r2"
  shows "\<exists>ss. turns_of [1, 1, 0, 0, 0, 0, 0, 1, 1] ((rows, rq), [session (Unsubscribe_prog t1), session (Confirm_prog t2)]) =
      Some ((confirm_rows t2 (leave_rows t1 rows), rq @ [(RepoWatchActionStop, su_Repo r1)]), ss) \<and> finished ss"
    and "0 < affected (confirmed_of (su_Repo r1)) (confirm_rows t2 (leave_rows t1 rows))"
proof -
  have r1: "r1 \<in> set rows" "su_Token r1 = t1" and r2: "r2 \<in> set rows" "su_Token r2 = t2"
    using find_tokenD tokens(1,2) by blast+
  have "affected (confirmed_of (su_Repo r1)) (leave_rows t1 rows) = 0" "affected (confirmed_of (su_Repo r1)) rows \<noteq> 0"
    using only r1 r2 confirmed by (auto simp: affected_zero leave_rows_def set_delete_where confirmed_of_def)
  from leave_and_confirm[OF tokens(1-3) confirmed tokens(4) this]
  show "\<exists>ss. turns_of [1, 1, 0, 0, 0, 0, 0, 1, 1] ((rows, rq), [session (Unsubscribe_prog t1), session (Confirm_prog t2)]) =
      Some ((confirm_rows t2 (leave_rows t1 rows), rq @ [(RepoWatchActionStop, su_Repo r1)]), ss) \<and> finished ss" by blast
  have "r2\<lparr>su_Confirmed := True\<rparr> \<in> set (confirm_rows t2 (leave_rows t1 rows))"
    using r2 tokens(3) by (auto simp: confirm_rows_def leave_rows_def set_update_where set_delete_where image_iff intro!: bexI[of _ r2])
  then show "0 < affected (confirmed_of (su_Repo r1)) (confirm_rows t2 (leave_rows t1 rows))"
    using tokens(4) by (auto simp: affected_pos confirmed_of_def intro!: bexI[of _ "r2\<lparr>su_Confirmed := True\<rparr>"])
qed

text \<open>
  C35. Two requests for different rows of one repository can both succeed and leave its watching wrong,
  although either order of running them one after the other keeps it right.  When the last two confirmed
  subscribers leave at once no stop is asked for, and the repository stays watched for nobody;
  when the only one leaves while another confirms, the stop is asked for and no start, and the new
  subscriber is confirmed to a repository that is not watched.
\<close>

theorem races_break_watching:
  assumes "exact (rows, rq)" and "keyed su_Token rows"
    and "find_token t1 rows = Some r1" and "find_token t2 rows = Some r2" and "t1 \<noteq> t2"
    and "su_Repo r2 = su_Repo r1" and "su_Confirmed r1"
    and "\<forall>r \<in> set rows. confirmed_of (su_Repo r1) r \<longrightarrow> r = r1 \<or> r = r2"
  defines "p1 \<equiv> Unsubscribe_prog t1" and "p2 \<equiv> (if su_Confirmed r2 then Unsubscribe_prog t2 else Confirm_prog t2)"
  shows "exact (alone p2 id (alone p1 id (rows, rq))) \<and> exact (alone p1 id (alone p2 id (rows, rq))) \<and>
    (\<exists>order rows' rq' ss. turns_of order ((rows, rq), [session p1, session p2]) = Some ((rows', rq'), ss) \<and> finished ss \<and>
      (if su_Confirmed r2
       then affected (confirmed_of (su_Repo r1)) rows' = 0 \<and> last_request (su_Repo r1) rq' = Some RepoWatchActionStart
       else 0 < affected (confirmed_of (su_Repo r1)) rows' \<and> last_request (su_Repo r1) rq' = Some RepoWatchActionStop))"
proof -
  let ?repo = "su_Repo r1"
  have "r1 \<in> set rows" using find_tokenD assms(3) by blast
  then have asked: "last_request ?repo rq = Some RepoWatchActionStart"
    using assms(1,7) by (auto simp: exact_def affected_pos confirmed_of_def)
  have serial: "exact (alone p2 id (alone p1 id (rows, rq))) \<and> exact (alone p1 id (alone p2 id (rows, rq)))"
    by (rule serial_keeps_exact[OF assms(1,2), where ?t1.0 = t1 and ?t2.0 = t2]) (simp_all add: p1_def p2_def)
  have race: "\<exists>order rows' rq' ss. turns_of order ((rows, rq), [session p1, session p2]) = Some ((rows', rq'), ss) \<and> finished ss \<and>
      (if su_Confirmed r2
       then affected (confirmed_of ?repo) rows' = 0 \<and> last_request ?repo rq' = Some RepoWatchActionStart
       else 0 < affected (confirmed_of ?repo) rows' \<and> last_request ?repo rq' = Some RepoWatchActionStop)"
  proof (cases "su_Confirmed r2")
    case True
    note gone = both_leave_unwatched[OF assms(3-7) True assms(8)]
    from gone(1)[of rq] show ?thesis
      using gone(2) asked True unfolding p1_def p2_def by (auto simp only: if_True)
  next
    case False
    note joined = confirmed_while_leaving[OF assms(3-7) False assms(8)]
    have "last_request ?repo (rq @ [(RepoWatchActionStop, ?repo)]) = Some RepoWatchActionStop"
      by (simp add: last_request_append)
    with joined(1)[of rq] show ?thesis
      using joined(2) False unfolding p1_def p2_def by (auto simp only: if_False)
  qed
  from serial race show ?thesis by blast
qed

definition race_rows :: "subscription_row list" where
  "race_rows = [\<lparr>su_Email = ''a@b.co'', su_Repo = ''golang/go'', su_Confirmed = True, su_LastSeenTag = '''', su_Token = ''t1''\<rparr>,
     \<lparr>su_Email = ''b@b.co'', su_Repo = ''golang/go'', su_Confirmed = False, su_LastSeenTag = '''', su_Token = ''t2''\<rparr>]"

theorem races_break_watching_witness:
  "\<exists>order rows' rq' ss. turns_of order ((race_rows, [(RepoWatchActionStart, ''golang/go'')]),
       [session (Unsubscribe_prog ''t1''), session (Confirm_prog ''t2'')]) = Some ((rows', rq'), ss) \<and> finished ss \<and>
     0 < affected (confirmed_of ''golang/go'') rows' \<and> last_request ''golang/go'' rq' = Some RepoWatchActionStop"
proof -
  let ?rq = "[(RepoWatchActionStart, ''golang/go'')]"
  let ?r1 = "race_rows ! 0" and ?r2 = "race_rows ! 1"
  have "exact (race_rows, ?rq)"
    by (auto simp: exact_def race_rows_def affected_def confirmed_of_def last_request_def)
  moreover have "keyed su_Token race_rows" "find_token ''t1'' race_rows = Some ?r1" "find_token ''t2'' race_rows = Some ?r2"
    by (simp_all add: race_rows_def keyed_def find_token_def find_row_def)
  moreover have "su_Repo ?r2 = su_Repo ?r1" "su_Confirmed ?r1" "\<not> su_Confirmed ?r2" "su_Repo ?r1 = ''golang/go''"
    "\<forall>r \<in> set race_rows. confirmed_of (su_Repo ?r1) r \<longrightarrow> r = ?r1 \<or> r = ?r2"
    by (simp_all add: race_rows_def)
  ultimately show ?thesis
    using races_break_watching[of race_rows ?rq "''t1''" ?r1 "''t2''" ?r2] by (simp del: turns_of.simps)
qed

end
