(* ===== verification/Subscription_Serial.thy ===== *)
theory Subscription_Serial
  imports Subscription_Races
begin

text \<open>
  What the interleavings of \<open>Subscription_Races\<close> cannot break: however the sessions of any number of
  links interleave, the table of subscriptions ends as after any serial order of them.  Only the
  requests for watching depend on the order.
\<close>

datatype link = Leaving string | Confirming string

fun link_prog :: "link \<Rightarrow> sub_view prog" where
  "link_prog (Leaving token) = Unsubscribe_prog token"
| "link_prog (Confirming token) = Confirm_prog token"

fun link_rows :: "link \<Rightarrow> subscription_row list \<Rightarrow> subscription_row list" where
  "link_rows (Leaving token) = leave_rows token"
| "link_rows (Confirming token) = confirm_rows token"

fun link_token :: "link \<Rightarrow> string" where
  "link_token (Leaving token) = token"
| "link_token (Confirming token) = token"

section \<open>Effects on the table commute\<close>

definition touched :: "string set \<Rightarrow> string set \<Rightarrow> subscription_row list \<Rightarrow> subscription_row list" where
  "touched L C rows =
     filter (\<lambda>r. su_Token r \<notin> L) (map (\<lambda>r. if su_Token r \<in> C then r\<lparr>su_Confirmed := True\<rparr> else r) rows)"

lemma touched_empty [simp]: "touched {} {} rows = rows"
  by (simp add: touched_def)

lemma touch_again:
  "leave_rows t (touched L C rows) = touched (insert t L) C rows"
  "confirm_rows t (touched L C rows) = touched L (insert t C) rows"
  by (induction rows) (auto simp: touched_def leave_rows_def delete_where_def confirm_rows_def)

lemma touched_tokens: "su_Token ` set (touched L C rows) = su_Token ` set rows - L"
  by (induction rows) (auto simp: touched_def)

lemma touched_cong:
  assumes "\<And>t. t \<in> su_Token ` set rows \<Longrightarrow> (t \<in> L) = (t \<in> L') \<and> (t \<notin> L \<longrightarrow> (t \<in> C) = (t \<in> C'))"
  shows "touched L C rows = touched L' C' rows"
  using assms by (induction rows) (auto simp: touched_def)

lemma find_token_None: "(find_token t rows = None) = (t \<notin> su_Token ` set rows)"
  by (induction rows) (auto simp: find_token_def find_row_def split: if_splits)

lemma rows_without_token:
  "t \<notin> su_Token ` set rows \<Longrightarrow> leave_rows t rows = rows"
  "t \<notin> su_Token ` set rows \<Longrightarrow> confirm_rows t rows = rows"
  by (induction rows) (auto simp: leave_rows_def delete_where_def confirm_rows_def)

lemma alone_link: "fst (alone (link_prog l) id v) = link_rows l (fst v)"
proof (cases v)
  case (Pair rows rq)
  then show ?thesis
    by (cases l) (auto simp: alone_Unsubscribe alone_Confirm find_token_None rows_without_token split: option.splits)
qed

lemma serial_links:
  "fst (fold (\<lambda>l. alone (link_prog l) id) ls v) = fold link_rows ls (fst v)"
  by (induction ls arbitrary: v) (simp_all add: alone_link)

lemma fold_links:
  "fold link_rows ls (touched L C rows) =
     touched (L \<union> {t. Leaving t \<in> set ls}) (C \<union> {t. Confirming t \<in> set ls}) rows"
proof (induction ls arbitrary: L C)
  case (Cons l ls)
  show ?case by (cases l) (auto simp: touch_again Cons.IH intro: arg_cong2[where f = "\<lambda>L C. touched L C rows"])
qed simp

section \<open>The phases of a session\<close>

definition leaving_prog :: "string \<Rightarrow> subscription_row \<Rightarrow> sub_view prog" where
  "leaving_prog token r = Run (Some token) (\<lambda>_. (apfst (leave_rows token),
     if su_Confirmed r
     then Run None (\<lambda>x. (id,
       if affected (confirmed_of (su_Repo r)) (fst x) = 0 then request_stmt RepoWatchActionStop (su_Repo r)
       else Commit Done))
     else Commit Done))"

definition confirming_prog :: "string \<Rightarrow> subscription_row \<Rightarrow> sub_view prog" where
  "confirming_prog token r = Run None (\<lambda>x. let confirmedBefore = affected (confirmed_of (su_Repo r)) (fst x) in (id,
     Run (Some token) (\<lambda>_. (apfst (confirm_rows token),
       Commit (if \<not> su_Confirmed r \<and> confirmedBefore = 0
         then request_stmt RepoWatchActionStart (su_Repo r) else Done)))))"

lemma progs_unfold:
  "Unsubscribe_prog token = Run (Some token) (\<lambda>x. case find_token token (fst x) of
     None \<Rightarrow> (id, Rollback) | Some r \<Rightarrow> (id, leaving_prog token r))"
  "Confirm_prog token = Run (Some token) (\<lambda>x. case find_token token (fst x) of
     None \<Rightarrow> (id, Rollback) | Some r \<Rightarrow> (id, confirming_prog token r))"
  by (simp_all add: Unsubscribe_prog_def Confirm_prog_def leaving_prog_def confirming_prog_def cong: option.case_cong)

definition last_part :: "sub_view prog \<Rightarrow> bool" where
  "last_part p = (p = Done \<or> p = Commit Done \<or> (\<exists>action repo. p = request_stmt action repo))"

lemma last_part_simps [simp]: "last_part Done" "last_part (Commit Done)" "last_part (request_stmt action repo)"
  by (auto simp: last_part_def)

fun settled_link :: "subscription_row list \<Rightarrow> string set \<Rightarrow> string set \<Rightarrow> link \<Rightarrow> bool" where
  "settled_link rows L C (Leaving t) = (t \<in> L \<or> t \<notin> su_Token ` set rows)"
| "settled_link rows L C (Confirming t) = (t \<in> C \<or> t \<in> L \<or> t \<notin> su_Token ` set rows)"

inductive phase :: "subscription_row list \<Rightarrow> string set \<Rightarrow> string set \<Rightarrow> link \<Rightarrow> sub_view session \<Rightarrow> bool" for rows L C where
  begins: "se_prog s = link_prog l \<Longrightarrow> se_writes s = id \<Longrightarrow> phase rows L C l s"
| missing: "se_prog s = Rollback \<Longrightarrow> link_token l \<in> L \<or> link_token l \<notin> su_Token ` set rows \<Longrightarrow> phase rows L C l s"
| found_leaving: "se_prog s = leaving_prog t r \<Longrightarrow> se_writes s = id \<Longrightarrow> phase rows L C (Leaving t) s"
| left_counting: "fst \<circ> se_writes s = leave_rows t \<circ> fst \<Longrightarrow>
    se_prog s = Run None (\<lambda>x. (id, if q x then p else Commit Done)) \<Longrightarrow> last_part p \<Longrightarrow> p \<noteq> Done \<Longrightarrow> phase rows L C (Leaving t) s"
| left: "fst \<circ> se_writes s = leave_rows t \<circ> fst \<Longrightarrow> last_part (se_prog s) \<Longrightarrow> se_prog s \<noteq> Done \<Longrightarrow>
    phase rows L C (Leaving t) s"
| found_confirming: "se_prog s = confirming_prog t r \<Longrightarrow> se_writes s = id \<Longrightarrow> phase rows L C (Confirming t) s"
| counted: "se_prog s = Run (Some t) (\<lambda>_. (apfst (confirm_rows t), Commit p)) \<Longrightarrow> last_part p \<Longrightarrow> se_writes s = id \<Longrightarrow>
    phase rows L C (Confirming t) s"
| marked: "fst \<circ> se_writes s = confirm_rows t \<circ> fst \<Longrightarrow> se_prog s = Commit p \<Longrightarrow> last_part p \<Longrightarrow>
    phase rows L C (Confirming t) s"
| over: "last_part (se_prog s) \<Longrightarrow> fst \<circ> se_writes s = fst \<Longrightarrow> settled_link rows L C l \<Longrightarrow> phase rows L C l s"

lemma phase_mono:
  "phase rows L C l s \<Longrightarrow> L \<subseteq> L' \<Longrightarrow> C \<subseteq> C' \<Longrightarrow> phase rows L' C' l s"
proof (induction rule: phase.induct)
  case (over s l)
  then show ?case by (intro phase.over) (cases l; auto)+
qed (auto intro: phase.intros)

text \<open>The turn of one session, without the others.\<close>

inductive moves :: "'v \<Rightarrow> 'v session \<Rightarrow> 'v \<Rightarrow> 'v session \<Rightarrow> bool" where
  "se_prog s = Rollback \<Longrightarrow> moves c s c (session Done)"
| "se_prog s = Commit p \<Longrightarrow> moves c s (se_writes s c) (session p)"
| "se_prog s = Run l f \<Longrightarrow> f (se_writes s c) = (h, p) \<Longrightarrow>
    moves c s c \<lparr>se_prog = p, se_writes = h \<circ> se_writes s, se_locks = ls\<rparr>"

lemma turn_moves:
  assumes "turn i (c, ss) = Some (c', ss')"
  shows "i < length ss \<and> (\<exists>s'. ss' = ss[i := s'] \<and> moves c (ss ! i) c' s')"
  using assms
  by (cases "se_prog (ss ! i)") (auto simp: turn_def intro: moves.intros split: if_splits prod.splits)

lemma over_moves:
  assumes "moves c s c' s'" and "last_part (se_prog s)" "fst \<circ> se_writes s = fst" "settled_link rows L C l"
  shows "fst c' = fst c \<and> phase rows L C l s'"
proof -
  have same: "fst (se_writes s c) = fst c" using assms(3) by (metis comp_apply)
  from assms(2) consider "se_prog s = Done" | "se_prog s = Commit Done" | action repo where "se_prog s = request_stmt action repo"
    by (auto simp: last_part_def)
  then show ?thesis
  proof cases
    case 1
    with assms(1) show ?thesis by cases auto
  next
    case 2
    with assms(1) show ?thesis using same assms(4) by cases (auto simp: session_def intro!: phase.over)
  next
    case 3
    with assms(1) show ?thesis using assms(3,4) by cases (auto simp: request_stmt_def o_assoc intro!: phase.over)
  qed
qed

lemma left_moves:
  assumes "moves c s c' s'" and "fst \<circ> se_writes s = leave_rows t \<circ> fst" "last_part (se_prog s)" "se_prog s \<noteq> Done"
    and "fst c = touched L C rows"
  shows "fst c' = fst c \<and> phase rows L C (Leaving t) s' \<or>
    fst c' = touched (insert t L) C rows \<and> phase rows (insert t L) C (Leaving t) s'"
proof -
  from assms(3,4) consider "se_prog s = Commit Done" | action repo where "se_prog s = request_stmt action repo"
    by (auto simp: last_part_def)
  then show ?thesis
  proof cases
    case 1
    have "c' = se_writes s c" "s' = session Done" using assms(1) 1 by (cases; simp)+
    moreover have "fst (se_writes s c) = touched (insert t L) C rows"
      using assms(2) by (simp add: fun_eq_iff assms(5) touch_again del: split_paired_All)
    ultimately show ?thesis by (auto simp: session_def intro!: phase.over)
  next
    case 2
    with assms(1) have "fst c' = fst c \<and> phase rows L C (Leaving t) s'"
      using assms(2) by cases (auto simp: request_stmt_def o_assoc last_part_def intro!: phase.left)
    then show ?thesis by (rule disjI1)
  qed
qed

text \<open>What one turn does to the table is what its link does, once.\<close>

lemma moves_phase:
  assumes "moves c s c' s'" and "phase rows L C l s" and "fst c = touched L C rows"
  shows "\<exists>L' C'. L \<subseteq> L' \<and> L' \<subseteq> L \<union> {t. l = Leaving t} \<and> C \<subseteq> C' \<and> C' \<subseteq> C \<union> {t. l = Confirming t} \<and>
    fst c' = touched L' C' rows \<and> phase rows L' C' l s'"
proof -
  have stay: ?thesis if "fst c' = fst c \<and> phase rows L C l s'"
    using that assms(3) by (intro exI[of _ L] exI[of _ C]) auto
  have gone: "phase rows L C m s''" if "find_token (link_token m) (fst c) = None" "se_prog s'' = Rollback" for m s''
    using that by (intro phase.missing) (auto simp: find_token_None assms(3) touched_tokens)
  show ?thesis
    using assms(2)
  proof cases
    case begins
    have "fst c' = fst c \<and> phase rows L C l s'"
      using assms(1) begins
      by (cases l; cases) (auto simp: progs_unfold split: option.splits intro: phase.intros gone)
    then show ?thesis by (rule stay)
  next
    case missing
    have "settled_link rows L C l" using missing(2) by (cases l) auto
    with assms(1) missing have "fst c' = fst c \<and> phase rows L C l s'"
      by cases (auto simp: session_def last_part_def intro!: phase.over)
    then show ?thesis by (rule stay)
  next
    case (found_leaving t r)
    have "fst c' = fst c" "se_writes s' = apfst (leave_rows t)" "se_prog s' = (if su_Confirmed r
        then Run None (\<lambda>x. (id, if affected (confirmed_of (su_Repo r)) (fst x) = 0
          then request_stmt RepoWatchActionStop (su_Repo r) else Commit Done))
        else Commit Done)"
      using assms(1) found_leaving(2,3) by (cases; simp add: leaving_prog_def)+
    moreover have "last_part (request_stmt action repo)" "request_stmt action repo \<noteq> Done" for action repo
      by (auto simp: last_part_def request_stmt_def)
    ultimately have "fst c' = fst c \<and> phase rows L C (Leaving t) s'"
      by (cases "su_Confirmed r") (auto intro: phase.left phase.left_counting simp: last_part_def)
    then show ?thesis unfolding found_leaving(1)[symmetric] by (rule stay)
  next
    case (left t)
    show ?thesis
      using left_moves[OF assms(1) left(2-4) assms(3)]
    proof
      assume "fst c' = fst c \<and> phase rows L C (Leaving t) s'"
      then show ?thesis unfolding left(1)[symmetric] by (rule stay)
    next
      assume "fst c' = touched (insert t L) C rows \<and> phase rows (insert t L) C (Leaving t) s'"
      then show ?thesis unfolding left(1) by (intro exI[of _ "insert t L"] exI[of _ C]) auto
    qed
  next
    case (left_counting t q p)
    have "fst c' = fst c \<and> phase rows L C l s'"
      using assms(1) left_counting by cases (auto split: if_splits intro!: phase.left)
    then show ?thesis by (rule stay)
  next
    case (found_confirming t r)
    have "fst c' = fst c \<and> phase rows L C l s'"
      using assms(1) found_confirming
      by cases (auto simp: confirming_prog_def Let_def intro!: phase.counted)
    then show ?thesis by (rule stay)
  next
    case (counted t p)
    have "fst c' = fst c \<and> phase rows L C l s'"
      using assms(1) counted by cases (auto intro!: phase.marked)
    then show ?thesis by (rule stay)
  next
    case (marked t p)
    have "c' = se_writes s c" "s' = session p" using assms(1) marked(3) by (cases; simp)+
    moreover have "fst (se_writes s c) = touched L (insert t C) rows"
      using marked(2) by (simp add: fun_eq_iff assms(3) touch_again del: split_paired_All)
    ultimately show ?thesis
      using marked(1,4) by (intro exI[of _ L] exI[of _ "insert t C"]) (auto simp: session_def intro!: phase.over)
  next
    case over
    show ?thesis by (rule stay) (rule over_moves[OF assms(1) over])
  qed
qed

section \<open>Every interleaving\<close>

definition race_inv :: "subscription_row list \<Rightarrow> link list \<Rightarrow> sub_view race \<Rightarrow> bool" where
  "race_inv rows links x = (case x of (c, ss) \<Rightarrow> length ss = length links \<and>
     (\<exists>L C. fst c = touched L C rows \<and> L \<subseteq> {t. Leaving t \<in> set links} \<and> C \<subseteq> {t. Confirming t \<in> set links} \<and>
        (\<forall>i < length links. phase rows L C (links ! i) (ss ! i))))"

lemma race_starts: "race_inv rows links ((rows, rq), map (session \<circ> link_prog) links)"
  by (auto simp: race_inv_def session_def intro!: exI[of _ "{}"] phase.begins)

lemma race_turn:
  assumes "race_inv rows links (c, ss)" and "turn i (c, ss) = Some (c', ss')"
  shows "race_inv rows links (c', ss')"
proof -
  from turn_moves[OF assms(2)] obtain s' where i: "i < length ss" and s': "ss' = ss[i := s']" "moves c (ss ! i) c' s'" by blast
  from assms(1) obtain L C where inv: "length ss = length links" "fst c = touched L C rows" "L \<subseteq> {t. Leaving t \<in> set links}"
      "C \<subseteq> {t. Confirming t \<in> set links}" "\<forall>i < length links. phase rows L C (links ! i) (ss ! i)"
    by (auto simp: race_inv_def)
  with i have "phase rows L C (links ! i) (ss ! i)" by simp
  from moves_phase[OF s'(2) this inv(2)] obtain L' C' where mv: "L \<subseteq> L'" "L' \<subseteq> L \<union> {t. links ! i = Leaving t}" "C \<subseteq> C'"
      "C' \<subseteq> C \<union> {t. links ! i = Confirming t}" "fst c' = touched L' C' rows" "phase rows L' C' (links ! i) s'"
    by blast
  have "links ! i \<in> set links" using i inv(1) by simp
  then have "L' \<subseteq> {t. Leaving t \<in> set links}" "C' \<subseteq> {t. Confirming t \<in> set links}"
    using mv(2,4) inv(3,4) by fastforce+
  moreover have "phase rows L' C' (links ! j) (ss' ! j)" if "j < length links" for j
    using that mv(6) phase_mono[OF inv(5)[rule_format, OF that] mv(1,3)] inv(1) by (cases "j = i") (auto simp: s'(1))
  ultimately show ?thesis
    using mv(5) inv(1) by (auto simp: race_inv_def s'(1))
qed

lemma race_turns:
  "race_inv rows links x \<Longrightarrow> turns_of order x = Some x' \<Longrightarrow> race_inv rows links x'"
proof (induction order arbitrary: x)
  case (Cons i order)
  then obtain y where "turn i x = Some y" "turns_of order y = Some x'" by (auto simp: bind_eq_Some_conv)
  with Cons show ?case by (cases x; cases y) (auto dest: race_turn)
qed simp

lemma link_prog_runs: "link_prog l \<noteq> Done"
  by (cases l) (simp_all add: progs_unfold)

lemma done_settled:
  assumes "phase rows L C l s" and "se_prog s = Done"
  shows "settled_link rows L C l"
  using assms(1)
  by cases (use assms(2) link_prog_runs[of l] in \<open>auto simp: leaving_prog_def confirming_prog_def\<close>)

text \<open>
  C36. Sessions that confirm and leave by any number of links, several for the same row
  included, interleave statement by statement; once all are done the table of subscriptions is the one
  that every serial order of the same operations leaves.
\<close>

theorem races_keep_the_table:
  assumes "turns_of order ((rows, rq), map (session \<circ> link_prog) links) = Some ((rows', rq'), ss)" and "finished ss"
    and "set serial = set links"
  shows "rows' = fst (fold (\<lambda>l. alone (link_prog l) id) serial (rows, rq))"
proof -
  from race_turns[OF race_starts assms(1)] obtain L C where
    inv: "length ss = length links" "rows' = touched L C rows" "L \<subseteq> {t. Leaving t \<in> set links}"
      "C \<subseteq> {t. Confirming t \<in> set links}" "\<forall>i < length links. phase rows L C (links ! i) (ss ! i)"
    by (auto simp: race_inv_def)
  have settled: "settled_link rows L C l" if l: "l \<in> set links" for l
  proof -
    from l obtain i where i: "i < length links" "links ! i = l" by (auto simp: in_set_conv_nth)
    then have "ss ! i \<in> set ss" using inv(1) by simp
    then have "se_prog (ss ! i) = Done"
      using assms(2) by (cases "se_prog (ss ! i)") (auto simp: finished_def list_all_iff)
    with i inv(5) show ?thesis by (auto intro: done_settled)
  qed
  have "rows' = touched {t. Leaving t \<in> set links} {t. Confirming t \<in> set links} rows"
    unfolding inv(2)
  proof (rule touched_cong)
    fix t assume "t \<in> su_Token ` set rows"
    then show "(t \<in> L) = (t \<in> {t. Leaving t \<in> set links}) \<and> (t \<notin> L \<longrightarrow> (t \<in> C) = (t \<in> {t. Confirming t \<in> set links}))"
      using inv(3,4) settled[of "Leaving t"] settled[of "Confirming t"] by auto
  qed
  also have "\<dots> = fold link_rows serial rows"
    using fold_links[of serial "{}" "{}" rows] by (simp add: assms(3))
  finally show ?thesis by (simp add: serial_links)
qed

theorem races_keep_the_table_witness:
  "\<exists>rq' ss. turns_of [1, 1, 0, 0, 0, 0, 0, 1, 1] ((race_rows, [(RepoWatchActionStart, ''golang/go'')]),
       map (session \<circ> link_prog) [Leaving ''t1'', Confirming ''t2'']) =
     Some ((fst (fold (\<lambda>l. alone (link_prog l) id) [Confirming ''t2'', Leaving ''t1'']
       (race_rows, [(RepoWatchActionStart, ''golang/go'')])), rq'), ss) \<and> finished ss"
proof -
  let ?rq = "[(RepoWatchActionStart, ''golang/go'')]"
  let ?r1 = "race_rows ! 0" and ?r2 = "race_rows ! 1"
  have r: "find_token ''t1'' race_rows = Some ?r1" "find_token ''t2'' race_rows = Some ?r2" "su_Confirmed ?r1" "\<not> su_Confirmed ?r2"
    "su_Repo ?r2 = su_Repo ?r1" "\<forall>r \<in> set race_rows. confirmed_of (su_Repo ?r1) r \<longrightarrow> r = ?r1 \<or> r = ?r2"
    by (simp_all add: race_rows_def find_token_def find_row_def)
  obtain rows' rq' ss where run: "turns_of [1, 1, 0, 0, 0, 0, 0, 1, 1] ((race_rows, ?rq),
      map (session \<circ> link_prog) [Leaving ''t1'', Confirming ''t2'']) = Some ((rows', rq'), ss)" "finished ss"
    using confirmed_while_leaving(1)[OF r(1,2) _ r(5,3,4,6), of ?rq] by (auto simp del: turns_of.simps)
  from races_keep_the_table[OF run, of "[Confirming ''t2'', Leaving ''t1'']"] run show ?thesis
    by (auto simp del: turns_of.simps)
qed

end
