(* ===== verification/Observed.thy ===== *)
theory Observed
  imports Go_Logic
begin

text \<open>
  What operators see of a program: the counters of \<open>metrics.go\<close> and the log lines of
  \<open>pkg/logger/logger.go\<close>.  An observed program is a program of the execution layer that also
  returns what it has counted and logged, in order; \<open>erase\<close> forgets it.  The equations of
  \<open>erase_simps\<close> push \<open>erase\<close> through a program, so that an observed function can be shown to be
  the function it observes; \<open>owp\<close> is \<open>wp\<close> with the observations.

  The Prometheus client and logrus are third-party: a counter is its name with the values of its
  labels, and an entry of logrus is a value of its own type with the two functions that the code
  calls to build one.
\<close>

section \<open>Counters\<close>

text \<open>
  The three counters of the Kafka consumers with the values of their labels, the four of the
  notification service, the one of the scanner, which no code increments, and the one that
  \<open>subscription-api/main.go\<close> makes for the router.
\<close>

datatype counter =
    ConsumerProcessed string string
  | ConsumerFailed string string string
  | ConsumerSkipped string string
  | NotificationsSent
  | NotificationsFailed
  | NotificationsDead
  | NotificationsRetried
  | ReleaseDetectedTotal
  | SubscribeRequests string

fun counter_name :: "counter \<Rightarrow> string" where
  "counter_name (ConsumerProcessed grp topic) = ''subber_kafka_consumer_processed_total''"
| "counter_name (ConsumerFailed grp topic stage) = ''subber_kafka_consumer_failed_total''"
| "counter_name (ConsumerSkipped grp topic) = ''subber_kafka_consumer_skipped_total''"
| "counter_name NotificationsSent = ''subber_notifications_sent_total''"
| "counter_name NotificationsFailed = ''subber_notifications_failed_total''"
| "counter_name NotificationsDead = ''subber_notifications_dead_total''"
| "counter_name NotificationsRetried = ''subber_notifications_retried_total''"
| "counter_name ReleaseDetectedTotal = ''subber_release_detected_total''"
| "counter_name (SubscribeRequests result) = ''subber_subscription_requests_total''"

section \<open>Loggers\<close>

text \<open>Nothing calls \<open>Fatal\<close>.\<close>

datatype level = Info | Warn | Error

datatype field = Text string | Number int | Cause goerr

record 'e logrus =
  lr_WithField :: "'e \<Rightarrow> string \<Rightarrow> field \<Rightarrow> 'e"
  lr_WithError :: "'e \<Rightarrow> goerr \<Rightarrow> 'e"

datatype 'e logger = LogrusLogger "'e logrus" 'e | NoopLogger

fun WithField :: "'e logger \<Rightarrow> string \<Rightarrow> field \<Rightarrow> 'e logger" where
  "WithField (LogrusLogger lr entry) key v = LogrusLogger lr (lr_WithField lr entry key v)"
| "WithField NoopLogger key v = NoopLogger"

fun WithError :: "'e logger \<Rightarrow> goerr \<Rightarrow> 'e logger" where
  "WithError (LogrusLogger lr entry) err = LogrusLogger lr (lr_WithError lr entry err)"
| "WithError NoopLogger err = NoopLogger"

datatype 'e observation = Inc counter | Line level 'e string

fun log_lines :: "level \<Rightarrow> 'e logger \<Rightarrow> string \<Rightarrow> 'e observation list" where
  "log_lines lvl (LogrusLogger lr entry) msg = [Line lvl entry msg]"
| "log_lines lvl NoopLogger msg = []"

section \<open>Observed programs\<close>

type_synonym ('e, 'db, 'v, 'a) observed =
  "('db, 'v) world \<Rightarrow> ((goerr + 'a) \<times> ('db, 'v) world) \<times> 'e observation list"

definition erase :: "('e, 'db, 'v, 'a) observed \<Rightarrow> ('db, 'v, 'a) go" where
  "erase m = (\<lambda>w. fst (m w))"

definition plain :: "('db, 'v, 'a) go \<Rightarrow> ('e, 'db, 'v, 'a) observed" where
  "plain m = (\<lambda>w. (m w, []))"

definition observe :: "'e observation list \<Rightarrow> ('e, 'db, 'v, unit) observed" where
  "observe os = (\<lambda>w. ((Inr (), w), os))"

definition obnd ::
    "('e, 'db, 'v, 'a) observed \<Rightarrow> ('a \<Rightarrow> ('e, 'db, 'v, 'b) observed) \<Rightarrow> ('e, 'db, 'v, 'b) observed" where
  "obnd m f = (\<lambda>w. case m w of
     ((Inl e, w'), os) \<Rightarrow> ((Inl e, w'), os)
   | ((Inr a, w'), os) \<Rightarrow> apsnd ((@) os) (f a w'))"

definition oattempt :: "('e, 'db, 'v, 'a) observed \<Rightarrow> ('e, 'db, 'v, goerr + 'a) observed" where
  "oattempt m = (\<lambda>w. case m w of ((r, w'), os) \<Rightarrow> ((Inr r, w'), os))"

fun ofor_each :: "('x \<Rightarrow> ('e, 'db, 'v, unit) observed) \<Rightarrow> 'x list \<Rightarrow> ('e, 'db, 'v, unit) observed" where
  "ofor_each f [] = plain (ret ())"
| "ofor_each f (x # xs) = obnd (f x) (\<lambda>_. ofor_each f xs)"

definition inc :: "counter \<Rightarrow> ('e, 'db, 'v, unit) observed" where
  "inc c = observe [Inc c]"

definition log_at :: "level \<Rightarrow> 'e logger \<Rightarrow> string \<Rightarrow> ('e, 'db, 'v, unit) observed" where
  "log_at lvl log msg = observe (log_lines lvl log msg)"

text \<open>\<open>if err != nil { observe(...); return err }\<close>\<close>

definition on_error :: "'e observation list \<Rightarrow> ('db, 'v, 'a) go \<Rightarrow> ('e, 'db, 'v, 'a) observed" where
  "on_error os m = obnd (plain (attempt m)) (\<lambda>r.
     case r of Inl e \<Rightarrow> obnd (observe os) (\<lambda>_. plain (raise e)) | Inr a \<Rightarrow> plain (ret a))"

lemma apsnd_Nil [simp]: "apsnd ((@) []) x = x"
  by (cases x) simp

text \<open>Running an observed program.\<close>

lemma run_plain [exec_simps]:
  "obnd (plain m) f w = (case m w of (Inl e, w') \<Rightarrow> ((Inl e, w'), []) | (Inr a, w') \<Rightarrow> f a w')"
  "plain m w = (m w, [])"
  by (auto simp: obnd_def plain_def split: sum.split prod.split)

lemma run_observe [exec_simps]:
  "obnd (observe os) f w = apsnd ((@) os) (f () w)" "observe os w = ((Inr (), w), os)"
  by (simp_all add: obnd_def observe_def)

subsection \<open>Erasure\<close>

named_theorems erase_simps \<open>erase pushed through an observed program\<close>

lemma erase_plain [erase_simps]: "erase (plain m) = m"
  by (simp add: erase_def plain_def)

lemma erase_observe [erase_simps]: "erase (observe os) = ret ()"
  by (simp add: erase_def observe_def ret_def)

lemma erase_obnd [erase_simps]: "erase (obnd m f) = bnd (erase m) (\<lambda>a. erase (f a))"
proof (rule ext)
  fix w show "erase (obnd m f) w = bnd (erase m) (\<lambda>a. erase (f a)) w"
    by (cases "m w"; cases "fst (fst (m w))") (auto simp: erase_def obnd_def bnd_def)
qed

lemma erase_oattempt [erase_simps]: "erase (oattempt m) = attempt (erase m)"
  by (rule ext) (simp add: erase_def oattempt_def attempt_def split: prod.split)

lemma erase_inc [erase_simps]: "erase (inc c) = ret ()"
  by (simp add: inc_def erase_simps)

lemma erase_log_at [erase_simps]: "erase (log_at lvl log msg) = ret ()"
  by (simp add: log_at_def erase_simps)

lemma bnd_ret [erase_simps]: "bnd (ret a) f = f a"
  by (rule ext) (simp add: bnd_def ret_def)

lemma bnd_to_ret [erase_simps]: "bnd m ret = m"
proof (rule ext)
  fix w show "bnd m ret w = m w"
    by (cases "m w"; cases "fst (m w)") (auto simp: bnd_def ret_def)
qed

lemma bnd_ret_unit [erase_simps]: "bnd m (\<lambda>_. ret ()) = m"
  using bnd_to_ret[of m] by simp

lemma bnd_assoc: "bnd (bnd m f) g = bnd m (\<lambda>a. bnd (f a) g)"
proof (rule ext)
  fix w show "bnd (bnd m f) g w = bnd m (\<lambda>a. bnd (f a) g) w"
    by (cases "m w"; cases "fst (m w)") (auto simp: bnd_def)
qed

lemma erase_ofor_each [erase_simps]: "erase (ofor_each f xs) = for_each (\<lambda>x. erase (f x)) xs"
  by (induction xs) (simp_all add: erase_simps)

lemma erase_if [erase_simps]: "erase (if b then m else n) = (if b then erase m else erase n)"
  by simp

lemma erase_case_sum [erase_simps]:
  "erase (case r of Inl e \<Rightarrow> f e | Inr a \<Rightarrow> g a) = (case r of Inl e \<Rightarrow> erase (f e) | Inr a \<Rightarrow> erase (g a))"
  by (simp split: sum.split)

lemma erase_on_error [erase_simps]: "erase (on_error os m) = m"
proof (rule ext)
  fix w show "erase (on_error os m) w = m w"
    by (cases "m w"; cases "fst (m w)")
      (auto simp: on_error_def erase_simps bnd_def attempt_def raise_def ret_def)
qed

subsection \<open>Weakest preconditions\<close>

definition owp :: "('e, 'db, 'v, 'a) observed \<Rightarrow> ('a \<Rightarrow> ('db, 'v) world \<Rightarrow> 'e observation list \<Rightarrow> bool) \<Rightarrow>
    (goerr \<Rightarrow> ('db, 'v) world \<Rightarrow> 'e observation list \<Rightarrow> bool) \<Rightarrow> ('db, 'v) world \<Rightarrow> bool" where
  "owp m Q R w = (case m w of ((Inl e, w'), os) \<Rightarrow> R e w' os | ((Inr a, w'), os) \<Rightarrow> Q a w' os)"

named_theorems owp_simps \<open>weakest preconditions of observed programs\<close>

lemma owp_plain [owp_simps]: "owp (plain m) Q R = wp m (\<lambda>a w'. Q a w' []) (\<lambda>e w'. R e w' [])"
  by (rule ext) (auto simp: owp_def wp_def plain_def split: sum.splits prod.splits)

lemma owp_observe [owp_simps]: "owp (observe os) Q R = (\<lambda>w. Q () w os)"
  by (rule ext) (simp add: owp_def observe_def)

lemma owp_inc [owp_simps]: "owp (inc c) Q R = (\<lambda>w. Q () w [Inc c])"
  by (simp add: inc_def owp_simps)

lemma owp_log_at [owp_simps]: "owp (log_at lvl log msg) Q R = (\<lambda>w. Q () w (log_lines lvl log msg))"
  by (simp add: log_at_def owp_simps)

lemma owp_obnd [owp_simps]:
  "owp (obnd m f) Q R =
     owp m (\<lambda>a w' os. owp (f a) (\<lambda>b w'' os'. Q b w'' (os @ os')) (\<lambda>e w'' os'. R e w'' (os @ os')) w') R"
  by (rule ext) (auto simp: owp_def obnd_def split: sum.splits prod.splits)

lemma owp_oattempt [owp_simps]: "owp (oattempt m) Q R = owp m (\<lambda>a. Q (Inr a)) (\<lambda>e. Q (Inl e))"
proof (rule ext)
  fix w show "owp (oattempt m) Q R w = owp m (\<lambda>a. Q (Inr a)) (\<lambda>e. Q (Inl e)) w"
    by (cases "m w"; cases "fst (fst (m w))") (auto simp: owp_def oattempt_def)
qed

lemma owp_on_error [owp_simps]:
  "owp (on_error os m) Q R = wp m (\<lambda>a w'. Q a w' []) (\<lambda>e w'. R e w' os)"
  by (simp add: on_error_def owp_simps wp_simps)

lemma owp_mono:
  "owp m Q R w \<Longrightarrow> (\<And>a w' os. Q a w' os \<Longrightarrow> Q' a w' os) \<Longrightarrow> (\<And>e w' os. R e w' os \<Longrightarrow> R' e w' os)
   \<Longrightarrow> owp m Q' R' w"
  by (auto simp: owp_def split: sum.splits prod.splits)

lemma owp_conj:
  "owp m (\<lambda>a w' os. Q a w' os \<and> Q' a w' os) (\<lambda>e w' os. R e w' os \<and> R' e w' os) w = (owp m Q R w \<and> owp m Q' R' w)"
  by (auto simp: owp_def split: sum.splits prod.splits)

lemma owp_erase: "wp (erase m) Q R w = owp m (\<lambda>a w' os. Q a w') (\<lambda>e w' os. R e w') w"
  by (auto simp: owp_def wp_def erase_def split: sum.splits prod.splits)

lemma owp_okD: "m w = ((Inr a, w'), os) \<Longrightarrow> owp m Q R w \<Longrightarrow> Q a w' os"
  by (simp add: owp_def)

lemma owp_errD: "m w = ((Inl e, w'), os) \<Longrightarrow> owp m Q R w \<Longrightarrow> R e w' os"
  by (simp add: owp_def)

lemma owp_bothD: "m w = ((r, w'), os) \<Longrightarrow> owp m (\<lambda>_. Q) (\<lambda>_. Q) w \<Longrightarrow> Q w' os"
  by (auto simp: owp_def split: sum.splits)

text \<open>The counters among the observations.\<close>

fun counted :: "'e observation list \<Rightarrow> counter list" where
  "counted [] = []"
| "counted (Inc c # os) = c # counted os"
| "counted (Line lvl entry msg # os) = counted os"

lemma counted_append [simp]: "counted (os @ os') = counted os @ counted os'"
  by (induction os rule: counted.induct) auto

lemma counted_log_lines [simp]: "counted (log_lines lvl log msg) = []"
  by (cases log) auto

end
