(* ===== verification/Consumer_Counters.thy ===== *)
theory Consumer_Counters
  imports Observed Consumer
begin

text \<open>
  The counters and the log line of the consumer loop (\<open>pkg/kafka/metrics.go\<close> and the calls in
  \<open>consumer.go\<close>).  The observed loop takes an observed handler, since handlers count and log
  too; it erases to the loop of \<open>Consumer\<close>.  The locale \<open>observed_loop\<close> extends the contract of
  the loop by what an observed handler promises, and proves that the counters are an exact account
  of the offsets the loop commits.
\<close>

type_synonym ('e, 'db) observed_handler = "string \<Rightarrow> wire \<Rightarrow> ('e, 'db, wire, unit) observed"

definition observeProcessed :: "string \<Rightarrow> string \<Rightarrow> 'e observation list" where
  "observeProcessed groupID topic = [Inc (ConsumerProcessed groupID topic)]"

definition observeFailed :: "string \<Rightarrow> string \<Rightarrow> string \<Rightarrow> 'e observation list" where
  "observeFailed groupID topic stage = [Inc (ConsumerFailed groupID topic stage)]"

definition observeSkipped :: "string \<Rightarrow> string \<Rightarrow> 'e observation list" where
  "observeSkipped groupID topic = [Inc (ConsumerSkipped groupID topic)]"

definition skip_line :: "'e logger \<Rightarrow> string \<Rightarrow> kafka_message \<Rightarrow> goerr \<Rightarrow> 'e observation list" where
  "skip_line log topic m err =
     log_lines Warn
       (WithError (WithField (WithField (WithField log ''topic'' (Text topic)) ''partition'' (Number (km_Partition m)))
          ''offset'' (Number (km_Offset m))) err)
       ''skipping non-retryable kafka message''"

fun consume_observed ::
    "env \<Rightarrow> 'e logger \<Rightarrow> 'db consumer \<Rightarrow> ('e, 'db) observed_handler \<Rightarrow> arrival list \<Rightarrow>
     ('e, 'db, wire, loop_end) observed" where
  "consume_observed E log c handler [] = plain (ret Waiting)"
| "consume_observed E log c handler (FetchFailed err ctx_done # arr) =
     (if ctx_done then plain (ret Cancelled)
      else obnd (observe (observeFailed (co_groupID c) (co_topic c) ''fetch'')) (\<lambda>_.
        plain (raise (errorf ''fetch kafka message: '' err))))"
| "consume_observed E log c handler (Arrived t m ctx_done # arr) =
     (let topic = messageTopic c m in
      obnd (plain (at_clocks t)) (\<lambda>_.
      obnd (oattempt (handler (km_Key m) (km_Value m))) (\<lambda>r.
        case r of
          Inl handlerErr \<Rightarrow>
            (if ctx_done then plain (ret Cancelled)
             else if errors_is handlerErr ErrNonRetryable then
               obnd (observe (skip_line log topic m handlerErr)) (\<lambda>_.
               obnd (on_error (observeFailed (co_groupID c) topic ''dlq'')
                 (annot (errorf ''publish kafka dead letter: '') (publishDeadLetter E c m handlerErr))) (\<lambda>_.
               obnd (on_error (observeFailed (co_groupID c) topic ''commit'')
                 (annot (errorf ''commit skipped kafka message: '') (CommitMessages m))) (\<lambda>_.
               obnd (observe (observeSkipped (co_groupID c) topic)) (\<lambda>_.
                 consume_observed E log c handler arr))))
             else obnd (observe (observeFailed (co_groupID c) topic ''handler'')) (\<lambda>_. plain (raise handlerErr)))
        | Inr _ \<Rightarrow>
            obnd (on_error (observeFailed (co_groupID c) topic ''commit'')
              (annot (errorf ''commit kafka message: '') (CommitMessages m))) (\<lambda>_.
            obnd (observe (observeProcessed (co_groupID c) topic)) (\<lambda>_.
              consume_observed E log c handler arr)))))"

lemma erase_consume_observed [erase_simps]:
  "erase (consume_observed E log c handler arr) = consume E c (\<lambda>k v. erase (handler k v)) arr"
  by (induction E c "\<lambda>k v. erase (handler k v)" arr rule: consume.induct)
    (simp_all add: erase_simps Let_def cong: if_cong sum.case_cong)

section \<open>The account\<close>

fun consumer_counter :: "counter \<Rightarrow> bool" where
  "consumer_counter (ConsumerProcessed grp topic) = True"
| "consumer_counter (ConsumerFailed grp topic stage) = True"
| "consumer_counter (ConsumerSkipped grp topic) = True"
| "consumer_counter _ = False"

definition consumer_counts :: "'e observation list \<Rightarrow> counter list" where
  "consumer_counts os = filter consumer_counter (counted os)"

lemma consumer_counts_simps [simp]:
  "consumer_counts [] = []" "consumer_counts (os @ os') = consumer_counts os @ consumer_counts os'"
  "consumer_counts (observeProcessed grp topic) = [ConsumerProcessed grp topic]"
  "consumer_counts (observeFailed grp topic stage) = [ConsumerFailed grp topic stage]"
  "consumer_counts (observeSkipped grp topic) = [ConsumerSkipped grp topic]"
  "consumer_counts (skip_line log topic m e) = []"
  by (simp_all add: consumer_counts_def observeProcessed_def observeFailed_def observeSkipped_def skip_line_def)

text \<open>A program that touches none of the consumer's counters.\<close>

definition quiet :: "('e, 'db, 'v, 'a) observed \<Rightarrow> bool" where
  "quiet m = (\<forall>w. consumer_counts (snd (m w)) = [])"

lemma quiet_observe: "consumer_counts os = [] \<Longrightarrow> quiet (observe os)"
  by (simp add: quiet_def observe_def)

lemma quiet_basic: "quiet (plain m)" "quiet (log_at lvl log msg)" "\<not> consumer_counter k \<Longrightarrow> quiet (inc k)"
  by (auto simp: quiet_def plain_def log_at_def inc_def observe_def consumer_counts_def)

lemma quiet_obnd:
  assumes "quiet m" and "\<And>a. quiet (f a)"
  shows "quiet (obnd m f)"
  unfolding quiet_def
proof
  fix w
  have "consumer_counts (snd (f a w')) = []" for a w' using assms(2)[of a] by (simp add: quiet_def)
  then show "consumer_counts (snd (obnd m f w)) = []"
    using assms(1)[unfolded quiet_def, rule_format, of w] by (auto simp: obnd_def split: sum.split prod.split)
qed

lemma quiet_on_error: "consumer_counts os = [] \<Longrightarrow> quiet (on_error os m)"
  unfolding on_error_def by (intro quiet_obnd quiet_basic) (auto intro: quiet_obnd quiet_basic quiet_observe split: sum.split)

lemmas quiet_rules = quiet_observe quiet_basic quiet_obnd quiet_on_error

text \<open>What a handler can do between two commits: nothing is taken back.\<close>

definition advance ::
    "(('db, wire) world \<Rightarrow> bool) \<Rightarrow> (wire \<Rightarrow> 'db \<Rightarrow> bool) \<Rightarrow> ('db, wire) world \<Rightarrow> ('db, wire) world \<Rightarrow> bool" where
  "advance ok handled w w' =
     (ok w' \<and> set (w_trace w) \<subseteq> set (w_trace w') \<and> (\<forall>v. handled v (w_db w) \<longrightarrow> handled v (w_db w')))"

lemma advance_trans: "advance ok handled w w1 \<Longrightarrow> advance ok handled w1 w2 \<Longrightarrow> advance ok handled w w2"
  unfolding advance_def by blast

lemma advance_step: "handler_step ok handled w w' \<Longrightarrow> advance ok handled w w'"
  unfolding advance_def handler_step_def by blast

locale observed_loop = consumer_loop E c handler handled rejects ok
  for E :: env and c :: "'db consumer" and handler :: "'db handler"
    and handled :: "wire \<Rightarrow> 'db \<Rightarrow> bool" and rejects :: "wire \<Rightarrow> bool" and ok :: "('db, wire) world \<Rightarrow> bool" +
  fixes observed_handler :: "('e, 'db) observed_handler"
  assumes erase_law: "erase (observed_handler k v) = handler k v"
    and own_counters_law: "consumer_counts (snd (observed_handler k v w)) = []"
begin

text \<open>
  A counter that clears a message: the message is handled, or rejected and, where the consumer
  has a dead-letter topic, published there.
\<close>

definition cleared :: "('db, wire) world \<Rightarrow> kafka_message \<Rightarrow> counter \<Rightarrow> bool" where
  "cleared w m k =
     (k = ConsumerProcessed (co_groupID c) (messageTopic c m) \<and> handled (km_Value m) (w_db w) \<or>
      k = ConsumerSkipped (co_groupID c) (messageTopic c m) \<and> rejects (km_Value m) \<and>
        (has_dead_letter c \<longrightarrow> dead_lettered E c m (w_trace w)))"

text \<open>
  The account of a run over the messages \<open>ms\<close>: the counters clear a prefix of them one by one
  and its offsets are committed; a run that fails has one failure counter more, and only when that is
  one of a commit, the offset of the next message may be committed too.
\<close>

definition account ::
    "kafka_message list \<Rightarrow> bool \<Rightarrow> ('db, wire) world \<Rightarrow> ('db, wire) world \<Rightarrow> counter list \<Rightarrow> bool" where
  "account ms failed w w' ks =
     (advance ok handled w w' \<and>
      (\<exists>n oks fails. n \<le> length ms \<and> ks = oks @ fails \<and> list_all2 (cleared w') (take n ms) oks \<and>
         (if failed then \<exists>topic stage. fails = [ConsumerFailed (co_groupID c) topic stage] \<and>
            (commits (w_trace w') = commits (w_trace w) @ map commit_of (take n ms) \<or>
             stage = ''commit'' \<and> commits (w_trace w') = commits (w_trace w) @ map commit_of (take (Suc n) ms))
          else fails = [] \<and> commits (w_trace w') = commits (w_trace w) @ map commit_of (take n ms))))"

lemma cleared_advance: "cleared w m k \<Longrightarrow> advance ok handled w w' \<Longrightarrow> cleared w' m k"
  unfolding cleared_def advance_def dead_lettered_def by blast

lemma account_none:
  assumes "advance ok handled w w'" and "commits (w_trace w') = commits (w_trace w)"
  shows "account ms False w w' []"
  unfolding account_def by (rule conjI, rule assms, rule exI[of _ 0], rule exI[of _ "[]"]) (use assms in simp)

lemma account_fail:
  assumes "advance ok handled w w'" and "commits (w_trace w') = commits (w_trace w) \<or>
    stage = ''commit'' \<and> ms \<noteq> [] \<and> commits (w_trace w') = commits (w_trace w) @ [commit_of (hd ms)]"
  shows "account ms True w w' [ConsumerFailed (co_groupID c) topic stage]"
  unfolding account_def
  by (rule conjI, rule assms, rule exI[of _ 0], rule exI[of _ "[]"]) (use assms in \<open>cases ms; auto\<close>)

lemma account_next:
  assumes "advance ok handled w w1" and "cleared w1 m k"
    and "commits (w_trace w1) = commits (w_trace w) @ [commit_of m]" and "account ms failed w1 w' ks"
  shows "account (m # ms) failed w w' (k # ks)"
proof -
  from assms(4) obtain n oks fails where n: "n \<le> length ms" "ks = oks @ fails"
      "list_all2 (cleared w') (take n ms) oks" "advance ok handled w1 w'"
    and rest: "if failed then \<exists>topic stage. fails = [ConsumerFailed (co_groupID c) topic stage] \<and>
          (commits (w_trace w') = commits (w_trace w1) @ map commit_of (take n ms) \<or>
           stage = ''commit'' \<and> commits (w_trace w') = commits (w_trace w1) @ map commit_of (take (Suc n) ms))
        else fails = [] \<and> commits (w_trace w') = commits (w_trace w1) @ map commit_of (take n ms)"
    unfolding account_def by blast
  have "list_all2 (cleared w') (take (Suc n) (m # ms)) (k # oks)"
    using n(3) cleared_advance[OF assms(2) n(4)] by simp
  with n rest assms(3) show ?thesis
    unfolding account_def
    by (intro conjI advance_trans[OF assms(1)] exI[of _ "Suc n"] exI[of _ "k # oks"] exI[of _ fails])
      (auto split: if_splits)
qed

lemma observed_handler_wp:
  assumes "ok w"
  shows "owp (observed_handler k v)
    (\<lambda>_ w' os. (handled v (w_db w') \<and> handler_step ok handled w w') \<and> consumer_counts os = [])
    (\<lambda>e w' os. ((errors_is e ErrNonRetryable \<longrightarrow> rejects v) \<and> handler_step ok handled w w') \<and> consumer_counts os = []) w"
proof -
  have "owp (observed_handler k v) (\<lambda>_ w' _. handled v (w_db w') \<and> handler_step ok handled w w')
    (\<lambda>e w' _. (errors_is e ErrNonRetryable \<longrightarrow> rejects v) \<and> handler_step ok handled w w') w"
    unfolding owp_erase[symmetric] erase_law by (rule handler_wp[OF assms])
  moreover have "owp (observed_handler k v) (\<lambda>_ _ os. consumer_counts os = []) (\<lambda>_ _ os. consumer_counts os = []) w"
    using own_counters_law[of k v w] by (auto simp: owp_def split: sum.splits prod.splits)
  ultimately show ?thesis by (simp only: owp_conj)
qed

lemma advance_outside:
  assumes "advance ok handled w w1" and "w_db w2 = w_db w1" and "w_uuids w1 \<le> w_uuids w2"
    and "w_trace w2 = w_trace w1 @ tr"
  shows "advance ok handled w w2"
  using assms ok_frame[of w1 w2] unfolding advance_def by auto

lemma commit_account:
  assumes "advance ok handled w w1" and "commits (w_trace w1) = commits (w_trace w)" and "cleared w1 m k"
    and "consumer_counts tick = [k]"
    and "\<And>w2. ok w2 \<Longrightarrow> owp rest (\<lambda>_ w' os. account ms False w2 w' (consumer_counts os))
      (\<lambda>_ w' os. account ms True w2 w' (consumer_counts os)) w2"
  shows "owp (obnd (on_error (observeFailed (co_groupID c) topic ''commit'') (annot g (CommitMessages m)))
      (\<lambda>_. obnd (observe tick) (\<lambda>_. rest)))
    (\<lambda>_ w' os. account (m # ms) False w w' (consumer_counts os))
    (\<lambda>_ w' os. account (m # ms) True w w' (consumer_counts os)) w1"
proof -
  have ok1: "ok w1" using assms(1) by (simp add: advance_def)
  have after: "advance ok handled w w2" "advance ok handled w1 w2"
    if "w_db w2 = w_db w1" "w_uuids w2 = w_uuids w1" "w_trace w2 = w_trace w1 @ tr" for w2 tr
    using that ok1 advance_outside[OF assms(1), of w2 tr] advance_outside[of w1 w1 w2 tr]
    by (auto simp: advance_def)
  have go_on: "owp rest (\<lambda>_ w' os. account (m # ms) False w w' (k # consumer_counts os))
      (\<lambda>_ w' os. account (m # ms) True w w' (k # consumer_counts os)) w2"
    if w2: "w_db w2 = w_db w1" "w_uuids w2 = w_uuids w1" "w_trace w2 = w_trace w1 @ [commit_of m]" for w2
  proof -
    note step = account_next[OF after(1)[OF w2] cleared_advance[OF assms(3) after(2)[OF w2]]]
    have "ok w2" using after(1)[OF w2] by (simp add: advance_def)
    moreover have "commits (w_trace w2) = commits (w_trace w) @ [commit_of m]" using w2(3) assms(2) by simp
    ultimately show ?thesis
      by (intro owp_mono[OF assms(5)]) (simp_all add: step)
  qed
  have lost: "account (m # ms) True w w2 [ConsumerFailed (co_groupID c) topic ''commit'']"
    if w2: "w_db w2 = w_db w1" "w_uuids w2 = w_uuids w1" "w_trace w2 = w_trace w1 \<or> w_trace w2 = w_trace w1 @ [commit_of m]" for w2
    using w2 after[OF w2(1,2), of "[]"] after[OF w2(1,2), of "[commit_of m]"] assms(2)
    by (auto intro!: account_fail)
  show ?thesis
    by (simp add: owp_simps wp_simps CommitMessages_def assms(4) go_on lost split: call_outcome.splits)
qed

lemma skip_account:
  assumes "advance ok handled w w1" and "commits (w_trace w1) = commits (w_trace w)" and "rejects (km_Value m)"
    and "\<And>w2. ok w2 \<Longrightarrow> owp rest (\<lambda>_ w' os. account ms False w2 w' (consumer_counts os))
      (\<lambda>_ w' os. account ms True w2 w' (consumer_counts os)) w2"
  shows "owp (obnd (on_error (observeFailed (co_groupID c) topic ''dlq'') (annot f (publishDeadLetter E c m e)))
      (\<lambda>_. obnd (on_error (observeFailed (co_groupID c) topic ''commit'') (annot g (CommitMessages m)))
      (\<lambda>_. obnd (observe (observeSkipped (co_groupID c) (messageTopic c m))) (\<lambda>_. rest))))
    (\<lambda>_ w' os. account (m # ms) False w w' (consumer_counts os))
    (\<lambda>_ w' os. account (m # ms) True w w' (consumer_counts os)) w1"
  unfolding owp_obnd[of "on_error _ (annot f _)"] owp_on_error[of _ "annot f _"] wp_annot
proof (rule wp_mono[OF dead_letter_wp])
  fix a and w2 :: "('db, wire) world"
  assume w2: "w_db w2 = w_db w1 \<and> w_uuids w1 \<le> w_uuids w2 \<and> (\<exists>tr. w_trace w2 = w_trace w1 @ tr \<and> commits tr = []) \<and>
      (has_dead_letter c \<longrightarrow> dead_lettered E c m (w_trace w2))"
  then obtain tr where tr: "w_trace w2 = w_trace w1 @ tr" "commits tr = []" by blast
  have "advance ok handled w w2" using w2 tr by (intro advance_outside[OF assms(1)]) auto
  moreover have "cleared w2 m (ConsumerSkipped (co_groupID c) (messageTopic c m))"
    using w2 assms(3) by (simp add: cleared_def)
  ultimately show "owp (obnd (on_error (observeFailed (co_groupID c) topic ''commit'') (annot g (CommitMessages m)))
      (\<lambda>_. obnd (observe (observeSkipped (co_groupID c) (messageTopic c m))) (\<lambda>_. rest)))
    (\<lambda>_ w' os. account (m # ms) False w w' (consumer_counts ([] @ os)))
    (\<lambda>_ w' os. account (m # ms) True w w' (consumer_counts ([] @ os))) w2"
    unfolding append_Nil by - (rule commit_account[OF _ _ _ _ assms(4)], simp_all add: tr assms(2))
next
  fix e and w2 :: "('db, wire) world"
  assume w2: "w_db w2 = w_db w1 \<and> w_uuids w1 \<le> w_uuids w2 \<and> (\<exists>tr. w_trace w2 = w_trace w1 @ tr \<and> commits tr = [])"
  then obtain tr where tr: "w_trace w2 = w_trace w1 @ tr" "commits tr = []" by blast
  have "advance ok handled w w2" using w2 tr by (intro advance_outside[OF assms(1)]) auto
  then show "account (m # ms) True w w2 (consumer_counts (observeFailed (co_groupID c) topic ''dlq''))"
    using tr assms(2) by (simp add: account_fail)
qed

lemma observed_account:
  "ok w \<Longrightarrow> owp (consume_observed E log c observed_handler arr)
     (\<lambda>_ w' os. account (messages arr) False w w' (consumer_counts os))
     (\<lambda>_ w' os. account (messages arr) True w w' (consumer_counts os)) w"
proof (induction arr arbitrary: w)
  case Nil
  then show ?case by (auto simp: owp_simps wp_simps advance_def intro: account_none)
next
  case (Cons a arr)
  show ?case
  proof (cases a)
    case (FetchFailed e b)
    with Cons.prems show ?thesis
      by (auto simp: owp_simps wp_simps advance_def intro!: account_none account_fail)
  next
    case (Arrived t m b)
    let ?w = "w\<lparr>w_app_now := fst t, w_pg_now := snd t\<rparr>" and ?topic = "messageTopic c m"
    let ?run = "consume_observed E log c observed_handler arr"
    let ?Q = "\<lambda>failed (w' :: ('db, wire) world) os. account (m # messages arr) failed w w' (consumer_counts os)"
    have ok: "ok ?w" using ok_frame[OF Cons.prems] by simp
    have to1: "advance ok handled w w1" "commits (w_trace w1) = commits (w_trace w)"
      if "handler_step ok handled ?w w1" for w1
      using that by (auto simp: advance_def handler_step_def)
    have accepted: "owp (obnd (on_error (observeFailed (co_groupID c) ?topic ''commit'')
          (annot (errorf ''commit kafka message: '') (CommitMessages m)))
          (\<lambda>_. obnd (observe (observeProcessed (co_groupID c) ?topic)) (\<lambda>_. ?run))) (\<lambda>_. ?Q False) (\<lambda>_. ?Q True) w1"
      if "handled (km_Value m) (w_db w1)" "handler_step ok handled ?w w1" for w1
      by (rule commit_account[OF to1[OF that(2)] _ _ Cons.IH]) (use that in \<open>auto simp: cleared_def\<close>)
    have rejected: "owp (obnd (observe (skip_line log ?topic m e)) (\<lambda>_.
          obnd (on_error (observeFailed (co_groupID c) ?topic ''dlq'')
            (annot (errorf ''publish kafka dead letter: '') (publishDeadLetter E c m e)))
          (\<lambda>_. obnd (on_error (observeFailed (co_groupID c) ?topic ''commit'')
            (annot (errorf ''commit skipped kafka message: '') (CommitMessages m)))
          (\<lambda>_. obnd (observe (observeSkipped (co_groupID c) ?topic)) (\<lambda>_. ?run))))) (\<lambda>_. ?Q False) (\<lambda>_. ?Q True) w1"
      if "rejects (km_Value m)" "handler_step ok handled ?w w1" for w1 e
      unfolding owp_obnd[of "observe (skip_line _ _ _ _)"] owp_observe consumer_counts_simps append_Nil
      by (rule skip_account[OF to1[OF that(2)] that(1) Cons.IH])
    have stopped: "owp (plain (ret Cancelled)) (\<lambda>_. ?Q False) (\<lambda>_. ?Q True) w1"
      "owp (obnd (observe (observeFailed (co_groupID c) ?topic ''handler'')) (\<lambda>_. plain (raise e))) (\<lambda>_. ?Q False) (\<lambda>_. ?Q True) w1"
      if "handler_step ok handled ?w w1" for w1 e
      using to1[OF that] by (simp_all add: owp_simps wp_simps account_none account_fail)
    show ?thesis
      unfolding Arrived consume_observed.simps messages.simps Let_def owp_obnd[of "plain (at_clocks _)"] owp_plain
        wp_at_clocks owp_obnd[of "oattempt _"] owp_oattempt
      by (rule owp_mono[OF observed_handler_wp[OF ok]])
        (simp_all add: accepted rejected stopped)
  qed
qed

end

end
