(* ===== verification/Delivery_Counters.thy ===== *)
theory Delivery_Counters
  imports Consumer_Counters Delivery_Mail
begin

text \<open>
  The counters and log lines of the notification service (\<open>delivery/metrics.go\<close> and the calls in
  \<open>service.go\<close>).  The observed functions erase to those of \<open>Delivery\<close>; their counters are compared
  with the table of deliveries, and those of the consumer with the offsets it commits.
\<close>

definition SendConfirmation_observed ::
    "'e logger \<Rightarrow> 'db delivery_service \<Rightarrow> string \<Rightarrow> string \<Rightarrow> string \<Rightarrow> ('e, 'db, wire, unit) observed" where
  "SendConfirmation_observed log s email repo confirmURL =
     obnd (on_error [Inc NotificationsFailed]
       (annot (errorf ''send confirmation email: '') (dv_sender s email (confirmation_text confirmURL)))) (\<lambda>_.
     obnd (inc NotificationsSent) (\<lambda>_.
       log_at Info (WithField log ''repo'' (Text repo)) ''confirmation notification sent''))"

definition handleFailure_observed ::
    "'db delivery_service \<Rightarrow> notification_payload \<Rightarrow> int \<Rightarrow> goerr \<Rightarrow> ('e, 'db, wire, unit) observed" where
  "handleFailure_observed s p currentAttempts cause =
     (let nextAttempt = currentAttempts + 1 in
      if nextAttempt \<ge> dv_maxAttempts s
      then obnd (plain (ds_MarkDead (dv_repo s) (np_IdempotencyKey p) (Some cause))) (\<lambda>_.
           obnd (plain (case dv_retries s of
               None \<Rightarrow> ret ()
             | Some dead_letter \<Rightarrow> annot (errorf ''publish notification dlq: '') (dead_letter p cause))) (\<lambda>_.
             inc NotificationsDead))
      else obnd (plain app_clock) (\<lambda>now.
           obnd (plain (ds_MarkFailed (dv_repo s) (np_IdempotencyKey p) (Some cause)
             (now + delivery_retryDelay (dv_retryDelays s) nextAttempt))) (\<lambda>_.
             inc NotificationsRetried)))"

definition Process_observed ::
    "'e logger \<Rightarrow> 'db delivery_service \<Rightarrow> notification_payload \<Rightarrow> ('e, 'db, wire, unit) observed" where
  "Process_observed log s p =
     obnd (plain (ds_UpsertPending (dv_repo s) p)) (\<lambda>row.
     if dr_Status row = StatusSent
     then log_at Info (WithField log ''notification_id'' (Text (dr_NotificationID row))) ''duplicate notification already sent''
     else if dr_Status row = StatusDead
     then log_at Info (WithField log ''notification_id'' (Text (dr_NotificationID row)))
            ''duplicate notification already dead-lettered''
     else obnd (plain (attempt (dv_sender s (np_RecipientEmail p) (np_Message p)))) (\<lambda>r.
       case r of
         Inl err \<Rightarrow> obnd (inc NotificationsFailed) (\<lambda>_. handleFailure_observed s p (dr_AttemptCount row) err)
       | Inr _ \<Rightarrow>
           obnd (plain (ds_MarkSent (dv_repo s) (np_IdempotencyKey p))) (\<lambda>_.
           obnd (inc NotificationsSent) (\<lambda>_.
             log_at Info (WithField (WithField log ''notification_id'' (Text (np_NotificationID p)))
               ''repo'' (Text (np_Repo p))) ''notification sent''))))"

definition notification_handler_observed ::
    "env \<Rightarrow> 'e logger \<Rightarrow> 'db delivery_service \<Rightarrow> ('e, 'db) observed_handler" where
  "notification_handler_observed E log s key v =
     (case decode_envelope E decode_notification v of
        Inl e \<Rightarrow> plain (raise (non_retryable (errorf ''decode notification command: '' e)))
      | Inr event \<Rightarrow>
          if EventType event \<noteq> EventNotificationRequested
          then plain (raise (non_retryable (Plain (''unsupported notification event type '' @ go_quote (EventType event)))))
          else Process_observed log s (Payload event))"

lemma erase_SendConfirmation [erase_simps]:
  "erase (SendConfirmation_observed log s email repo url) = Delivery_SendConfirmation s email repo url"
  by (simp add: SendConfirmation_observed_def Delivery_SendConfirmation_def erase_simps)

lemma erase_handleFailure [erase_simps]: "erase (handleFailure_observed s p a cause) = handleFailure s p a cause"
  by (simp add: handleFailure_observed_def handleFailure_def erase_simps Let_def cong: if_cong)

lemma erase_Process [erase_simps]: "erase (Process_observed log s p) = Process s p"
  by (simp add: Process_observed_def Process_def erase_simps cong: if_cong sum.case_cong)

lemma erase_notification_handler [erase_simps]:
  "erase (notification_handler_observed E log s key v) = notification_handler E s key v"
  by (simp add: notification_handler_observed_def notification_handler_def erase_simps split: sum.split)

section \<open>One command\<close>

text \<open>What the counters tell of a command that moves its delivery from \<open>x\<close> to \<open>y\<close> and succeeds.\<close>

definition told :: "delivery_abs \<Rightarrow> delivery_abs \<Rightarrow> counter list \<Rightarrow> bool" where
  "told x y cs =
     (if finished x then y = x \<and> cs = []
      else case y of
          Delivered a \<Rightarrow> cs = [NotificationsSent]
        | Scheduled a t \<Rightarrow> cs = [NotificationsFailed, NotificationsRetried]
        | GivenUp a \<Rightarrow> cs = [NotificationsFailed, NotificationsDead]
        | _ \<Rightarrow> False)"

lemma live_unfinished: "live x = Some a \<Longrightarrow> \<not> finished x"
  by (cases x) auto

context delivery_worker
begin

definition starting :: "notification_payload \<Rightarrow> ('db, wire) world \<Rightarrow> delivery_row \<Rightarrow> ('db, wire) world \<Rightarrow> bool" where
  "starting p w row w1 = (ok (w_db w1) \<and> abs_delivery row = abs (w_db w1) (np_IdempotencyKey p) \<and>
     (finished (abs (w_db w) (np_IdempotencyKey p)) \<longrightarrow> finished (abs_delivery row)) \<and>
     (finished (abs_delivery row) \<longrightarrow> abs_delivery row = abs (w_db w) (np_IdempotencyKey p)))"

lemma handleFailure_counts:
  assumes "ok (w_db w)" and "live (abs (w_db w) (np_IdempotencyKey p)) = Some a" and "\<not> finished x"
  shows "owp (handleFailure_observed s p a cause)
    (\<lambda>_ w' os. told x (abs (w_db w') (np_IdempotencyKey p)) (NotificationsFailed # counted os))
    (\<lambda>_ _ os. counted os = []) w"
proof (cases "dv_maxAttempts s \<le> a + 1")
  case True
  have letters: "wp (letter p cause) (\<lambda>_ w'. told x (abs (w_db w') (np_IdempotencyKey p)) [NotificationsFailed, NotificationsDead])
      (\<lambda>_ _. True) w1" if "abs (w_db w1) (np_IdempotencyKey p) = GivenUp (a + 1)" for w1
    by (rule wp_mono[OF letter_law]) (use that assms(3) in \<open>auto simp: told_def\<close>)
  show ?thesis
    using True unfolding handleFailure_observed_def Let_def letter_some
    by (simp add: owp_simps wp_simps)
      (rule wp_mono[OF dead_law[OF assms(1,2) True]]; use letters in simp)
next
  case False
  then have more: "a + 1 < dv_maxAttempts s" by simp
  show ?thesis
    using False unfolding handleFailure_observed_def Let_def
    by (simp add: owp_simps wp_simps)
      (rule wp_mono[OF failed_law[OF assms(1,2) more]]; use assms(3) in \<open>simp add: told_def\<close>)
qed

lemma Process_counts:
  assumes "ok (w_db w)"
  shows "owp (Process_observed log s p)
    (\<lambda>_ w' os. told (abs (w_db w) (np_IdempotencyKey p)) (abs (w_db w') (np_IdempotencyKey p)) (counted os))
    (\<lambda>_ _ os. counted os \<in> {[], [NotificationsFailed]} \<and> (finished (abs (w_db w) (np_IdempotencyKey p)) \<longrightarrow> counted os = [])) w"
proof -
  let ?k = "np_IdempotencyKey p" and ?x = "abs (w_db w) (np_IdempotencyKey p)"
  let ?Q = "\<lambda>w' os. told ?x (abs (w_db w') ?k) (counted os)" and
    ?R = "\<lambda>os. counted os \<in> {[], [NotificationsFailed]} \<and> (finished ?x \<longrightarrow> counted os = [])"
  have upsert: "wp (ds_UpsertPending (dv_repo s) p) (starting p w) (\<lambda>_ _. True) w"
    by (rule wp_mono[OF upsert_law[OF assms]]) (auto simp: starting_def)
  have settled: "?Q w1 (log_lines Info l msg)"
    if "starting p w row w1" "dr_Status row = StatusSent \<or> dr_Status row = StatusDead" for row w1 l msg
    using that abs_delivery_status[of row] by (auto simp: starting_def told_def)
  have run: "owp (obnd (plain (attempt (dv_sender s (np_RecipientEmail p) (np_Message p)))) (\<lambda>r.
       case r of
         Inl err \<Rightarrow> obnd (inc NotificationsFailed) (\<lambda>_. handleFailure_observed s p (dr_AttemptCount row) err)
       | Inr _ \<Rightarrow> obnd (plain (ds_MarkSent (dv_repo s) ?k)) (\<lambda>_. obnd (inc NotificationsSent) (\<lambda>_. log_at Info l msg))))
      (\<lambda>_. ?Q) (\<lambda>_ _. ?R) w1"
    if w1: "starting p w row w1" "dr_Status row \<noteq> StatusSent" "dr_Status row \<noteq> StatusDead" for row w1 l msg
  proof -
    have live: "live (abs (w_db w1) ?k) = Some (dr_AttemptCount row)" and x: "\<not> finished ?x" and ok: "ok (w_db w1)"
      using w1 abs_delivery_status(3)[OF w1(2,3)] live_unfinished[of "abs_delivery row"] by (auto simp: starting_def)
    have refused: "owp (handleFailure_observed s p (dr_AttemptCount row) err)
        (\<lambda>_ w' os. ?Q w' (Inc NotificationsFailed # os)) (\<lambda>_ _ os. ?R (Inc NotificationsFailed # os)) w2"
      if "w_db w2 = w_db w1" for w2 err
      by (rule owp_mono[OF handleFailure_counts[OF _ _ x]]) (use that live ok x in auto)
    have accepted: "wp (ds_MarkSent (dv_repo s) ?k) (\<lambda>_ w'. told ?x (abs (w_db w') ?k) [NotificationsSent]) (\<lambda>_ _. True) w2"
      if "w_db w2 = w_db w1" for w2
      by (rule wp_mono[OF sent_law[of w2 ?k "dr_AttemptCount row"]]) (use that live ok x in \<open>auto simp: told_def\<close>)
    show ?thesis
      by (simp add: owp_simps wp_simps) (rule wp_mono[OF sender_law]; use refused accepted in \<open>auto\<close>)
  qed
  show ?thesis
    unfolding Process_observed_def owp_obnd[of "plain (ds_UpsertPending _ _)"] owp_plain
    by (rule wp_mono[OF upsert]) (use settled run in \<open>auto simp: owp_log_at\<close>)
qed

end

section \<open>The consumer of the commands\<close>

lemma quiet_handler: "quiet (notification_handler_observed E log s k v)"
  unfolding notification_handler_observed_def Process_observed_def handleFailure_observed_def Let_def
  by (auto intro!: quiet_rules split: sum.split)

interpretation notification_counters: observed_loop E "notificationConsumer :: 'd delivery_db_scheme consumer"
  "notification_handler E (notification_process E cfg n ds)" "notification_handled E" "notification_rejects E"
  "\<lambda>w. notifying (attempts_bound n) evs (w_db w)" "notification_handler_observed E log (notification_process E cfg n ds)"
  for E cfg n ds evs log
  by unfold_locales (simp_all add: erase_notification_handler quiet_handler[unfolded quiet_def])

text \<open>
  C28. The counters of the consumer are an exact account of it.  Over one run of the notification
  consumer, with any failures, they clear a prefix of the messages one by one: a message is
  counted processed, under its topic, when its delivery is settled, and skipped when it was
  rejected and stands in the dead-letter topic; exactly the offsets of that prefix are committed.
  A run that returns an error has one failure counter more, which is its last one, a run that
  does not has none; only after a failed commit can one offset more be committed than is counted.
\<close>

theorem consumer_counters_account:
  fixes w w' :: "('d delivery_db_scheme, wire) world" and log :: "'e logger" and c :: "'d delivery_db_scheme consumer"
  assumes "c = notificationConsumer" and "delivery_ok E (attempts_bound n) w"
    and "consume_observed E log c (notification_handler_observed E log (notification_process E cfg n ds)) arr w
      = ((r, w'), os)"
  shows "\<exists>k oks fails. k \<le> length (messages arr) \<and> consumer_counts os = oks @ fails \<and>
    list_all2 (\<lambda>m x.
        x = ConsumerProcessed ''notification-service'' (messageTopic c m) \<and> notification_handled E (km_Value m) (w_db w') \<or>
        x = ConsumerSkipped ''notification-service'' (messageTopic c m) \<and> notification_rejects E (km_Value m) \<and>
          dead_lettered E c m (w_trace w'))
      (take k (messages arr)) oks \<and>
    (case r of
       Inr _ \<Rightarrow> fails = [] \<and> commits (w_trace w') = commits (w_trace w) @ map commit_of (take k (messages arr))
     | Inl _ \<Rightarrow> \<exists>topic stage. fails = [ConsumerFailed ''notification-service'' topic stage] \<and>
         (commits (w_trace w') = commits (w_trace w) @ map commit_of (take k (messages arr)) \<or>
          stage = ''commit'' \<and> commits (w_trace w') = commits (w_trace w) @ map commit_of (take (Suc k) (messages arr))))"
proof -
  let ?evs = "outbox_events (w_db w)"
  have group: "has_dead_letter c" "co_groupID c = ''notification-service''"
    by (simp_all add: assms(1) has_dead_letter_def notificationConsumer_def WithDeadLetter_def newConsumer_def topic_defs)
  let ?account = "notification_counters.account E n ?evs (messages arr)"
  have "owp (consume_observed E log c (notification_handler_observed E log (notification_process E cfg n ds)) arr)
      (\<lambda>_ w' os. ?account False w w' (consumer_counts os)) (\<lambda>_ w' os. ?account True w w' (consumer_counts os)) w"
    unfolding assms(1) by (rule notification_counters.observed_account[OF delivery_ok_notifying[OF assms(2)]])
  then have "?account (\<exists>e. r = Inl e) w w' (consumer_counts os)"
    using assms(3) by (auto simp: owp_def split: sum.splits)
  then show ?thesis
    unfolding notification_counters.account_def notification_counters.cleared_def
    unfolding assms(1)[symmetric] using group by (cases r) auto
qed

section \<open>Histories\<close>

definition delivery_exec_observed :: "env \<Rightarrow> 'e logger \<Rightarrow> ('d delivery_db_scheme) delivery_service \<Rightarrow> delivery_op \<Rightarrow>
    ('e, 'd delivery_db_scheme, wire, unit) observed" where
  "delivery_exec_observed E log s dop =
     (case dop of
        OpNotify v \<Rightarrow> notification_handler_observed E log s '''' v
      | OpRequeue n \<Rightarrow> plain (bnd (EnqueueDueRetries E n) (\<lambda>_. ret ())))"

text \<open>The history of \<open>Delivery_Results\<close>, observed and with the result of each operation.\<close>

fun observed_history :: "env \<Rightarrow> 'e logger \<Rightarrow> ('d delivery_db_scheme) delivery_service \<Rightarrow>
    ((int \<times> int) \<times> delivery_op) list \<Rightarrow> ('e, 'd delivery_db_scheme, wire, (goerr + unit) list) observed" where
  "observed_history E log s [] = plain (ret [])"
| "observed_history E log s ((t, dop) # ops) =
     obnd (plain (at_clocks t)) (\<lambda>_.
     obnd (oattempt (delivery_exec_observed E log s dop)) (\<lambda>r.
     obnd (observed_history E log s ops) (\<lambda>rs. plain (ret (r # rs)))))"

lemma erase_delivery_exec [erase_simps]: "erase (delivery_exec_observed E log s dop) = delivery_exec E s dop"
  by (cases dop) (simp_all add: delivery_exec_observed_def delivery_exec_def erase_simps)

lemma erase_history: "bnd (erase (observed_history E log s ops)) (\<lambda>_. ret ()) = delivery_history E s ops"
  by (induction ops rule: observed_history.induct)
    (simp_all add: delivery_history_def erase_simps bnd_assoc)

definition sent_deliveries :: "'d delivery_db_scheme \<Rightarrow> nat" where
  "sent_deliveries d = card {k. \<exists>a. abs_table d k = Delivered a}"

definition dead_deliveries :: "'d delivery_db_scheme \<Rightarrow> nat" where
  "dead_deliveries d = card {k. \<exists>a. abs_table d k = GivenUp a}"

text \<open>The counters against the table: never more than it shows, and exact when nothing failed.\<close>

definition tally :: "bool \<Rightarrow> 'd delivery_db_scheme \<Rightarrow> 'd delivery_db_scheme \<Rightarrow> counter list \<Rightarrow> bool" where
  "tally exact d d' cs =
     (sent_deliveries d + count_list cs NotificationsSent \<le> sent_deliveries d' \<and>
      dead_deliveries d + count_list cs NotificationsDead \<le> dead_deliveries d' \<and>
      count_list cs NotificationsRetried + count_list cs NotificationsDead \<le> count_list cs NotificationsFailed \<and>
      (exact \<longrightarrow> sent_deliveries d + count_list cs NotificationsSent = sent_deliveries d' \<and>
         dead_deliveries d + count_list cs NotificationsDead = dead_deliveries d' \<and>
         count_list cs NotificationsRetried + count_list cs NotificationsDead = count_list cs NotificationsFailed))"

lemma tally_refl: "tally exact d d []"
  by (simp add: tally_def)

lemma tally_append: "tally b d d1 cs \<Longrightarrow> tally b' d1 d2 cs' \<Longrightarrow> tally (b \<and> b') d d2 (cs @ cs')"
  by (auto simp: tally_def)

lemma tally_exact: "tally True d d' cs \<Longrightarrow> tally b d d' cs"
  by (simp add: tally_def)

lemma finite_keys: "\<not> P Unseen \<Longrightarrow> finite {k. P (abs_table d k)}"
  by (rule finite_subset[of _ "dr_IdempotencyKey ` set (deliveries d)"])
    (auto simp: abs_table_def split: option.splits dest!: delivery_of_SomeD)

lemma card_keys:
  assumes "abs_table d' = (abs_table d)(k := y)" and "finished (abs_table d k) \<longrightarrow> y = abs_table d k"
    and P: "\<And>x. P x \<Longrightarrow> finished x"
  shows "card {k. P (abs_table d' k)} = card {k. P (abs_table d k)} + (if \<not> finished (abs_table d k) \<and> P y then 1 else 0)"
proof (cases "\<not> finished (abs_table d k) \<and> P y")
  case True
  then have "{k. P (abs_table d' k)} = insert k {k. P (abs_table d k)}" "k \<notin> {k. P (abs_table d k)}"
    using assms(1) P by auto
  moreover have "finite {k. P (abs_table d k)}" using P[of Unseen] by (intro finite_keys) auto
  ultimately show ?thesis using True by simp
next
  case False
  then have "P (abs_table d' j) = P (abs_table d j)" for j
    using assms by (cases "j = k") auto
  then show ?thesis using False by simp
qed

lemma tally_told:
  assumes "abs_table d' = (abs_table d)(k := y)" and "finished (abs_table d k) \<longrightarrow> y = abs_table d k"
  shows "told (abs_table d k) y cs \<Longrightarrow> tally True d d' cs"
    and "cs \<in> {[], [NotificationsFailed]} \<Longrightarrow> tally False d d' cs"
proof -
  have keys: "sent_deliveries d' = sent_deliveries d + (if \<not> finished (abs_table d k) \<and> (\<exists>a. y = Delivered a) then 1 else 0)"
    "dead_deliveries d' = dead_deliveries d + (if \<not> finished (abs_table d k) \<and> (\<exists>a. y = GivenUp a) then 1 else 0)"
    unfolding sent_deliveries_def dead_deliveries_def by (rule card_keys[OF assms]; auto)+
  show "tally True d d' cs" if "told (abs_table d k) y cs"
    using that keys by (cases y) (auto simp: told_def tally_def split: if_splits)
  show "tally False d d' cs" if "cs \<in> {[], [NotificationsFailed]}"
    using that keys by (auto simp: tally_def)
qed

lemma Process_tally:
  assumes "delivery_ok E (attempts_bound n) w"
  shows "owp (Process_observed log (notification_process E cfg n ds) p)
    (\<lambda>_ w' os. delivery_ok E (attempts_bound n) w' \<and> tally True (w_db w) (w_db w') (counted os))
    (\<lambda>_ w' os. delivery_ok E (attempts_bound n) w' \<and> tally False (w_db w) (w_db w') (counted os)) w"
proof -
  let ?s = "notification_process E cfg n ds" and ?k = "np_IdempotencyKey p" and ?evs = "outbox_events (w_db w)"
  let ?m = "attempts_bound n"
  note ok = delivery_ok_notifying[OF assms]
  have moved: "abs_table (w_db w') = (abs_table (w_db w))(?k := abs_table (w_db w') ?k)"
    "finished (abs_table (w_db w) ?k) \<longrightarrow> abs_table (w_db w') ?k = abs_table (w_db w) ?k"
    if "mailer.processed E cfg n ds ?evs p w w'" for w'
    using that finished_stays unfolding mailer.processed_def Let_def by blast+
  have "owp (Process_observed log ?s p) (\<lambda>_ w' _. mailer.processed E cfg n ds ?evs p w w')
      (\<lambda>_ w' _. mailer.processed E cfg n ds ?evs p w w') w"
    unfolding owp_erase[symmetric] erase_Process
    by (rule wp_mono[OF mailer.Process_processed[OF ok]]) (auto simp: mailer.delivered_def Let_def)
  moreover have "owp (Process_observed log ?s p) (\<lambda>_ w' _. delivery_ok E ?m w') (\<lambda>_ w' _. delivery_ok E ?m w') w"
    unfolding owp_erase[symmetric] erase_Process by (rule wp_mono[OF Process_path[OF assms]]) auto
  moreover have "owp (Process_observed log ?s p)
      (\<lambda>_ w' os. told (abs_table (w_db w) ?k) (abs_table (w_db w') ?k) (counted os))
      (\<lambda>_ _ os. counted os \<in> {[], [NotificationsFailed]} \<and> (finished (abs_table (w_db w) ?k) \<longrightarrow> counted os = [])) w"
    by (rule mailer.Process_counts[OF ok])
  ultimately have "owp (Process_observed log ?s p)
      (\<lambda>_ w' os. mailer.processed E cfg n ds ?evs p w w' \<and> delivery_ok E ?m w' \<and>
         told (abs_table (w_db w) ?k) (abs_table (w_db w') ?k) (counted os))
      (\<lambda>_ w' os. mailer.processed E cfg n ds ?evs p w w' \<and> delivery_ok E ?m w' \<and>
         (counted os \<in> {[], [NotificationsFailed]} \<and> (finished (abs_table (w_db w) ?k) \<longrightarrow> counted os = []))) w"
    by (simp only: owp_conj)
  then show ?thesis
    by (rule owp_mono) (use tally_told[OF moved] in blast)+
qed

lemma Enqueue_tally:
  assumes "delivery_ok E m w"
  shows "wp (EnqueueDueRetries E k) (\<lambda>_ w'. delivery_ok E m w' \<and> tally True (w_db w) (w_db w') [])
    (\<lambda>_ w'. delivery_ok E m w' \<and> tally True (w_db w) (w_db w') []) w"
proof -
  have tc: "time_codec E" "uuids_fresh E (w_uuids w) (outbox_events (w_db w))" "deliveries_ok m (w_db w)"
    using assms by (simp_all add: delivery_ok_def)
  let ?due = "due_retries E (if k \<le> 0 then 100 else nat k) (w_pg_now w) (deliveries (w_db w))"
  have same: "tally True (w_db w) (w_db w') []" if "requeue_done E w ?due (w_db w') (w_uuids w')" for w'
  proof -
    have rows: "deliveries (w_db w') = requeued_rows ?due (w_pg_now w) (deliveries (w_db w))"
      using that by (simp add: requeue_done_def)
    have "(abs_table (w_db w') j = x) = (abs_table (w_db w) j = x)" if "finished x" for j x
    proof (cases "delivery_of (w_db w) j")
      case None
      then show ?thesis using delivery_of_requeued[OF rows, of j] by (simp add: abs_table_def)
    next
      case (Some r)
      then have r: "r \<in> set (deliveries (w_db w))" "dr_IdempotencyKey r = j" using delivery_of_SomeD by auto
      have "j \<in> dr_IdempotencyKey ` set ?due \<Longrightarrow> \<exists>t. abs_delivery r = Scheduled (dr_AttemptCount r) t"
        using requeued_is_scheduled[OF tc(3) refl r(1)] r(2) by blast
      then show ?thesis
        using delivery_of_requeued[OF rows, of j] Some that
        by (cases "j \<in> dr_IdempotencyKey ` set ?due") (auto simp: abs_table_def abs_rows)
    qed
    then show ?thesis by (simp add: tally_def sent_deliveries_def dead_deliveries_def)
  qed
  have "wp (EnqueueDueRetries E k) (\<lambda>_ w'. tally True (w_db w) (w_db w') []) (\<lambda>_ w'. tally True (w_db w) (w_db w') []) w"
    by (rule tx_wp_wp[OF EnqueueDueRetries_tx[OF tc(1,2), of k]]) (use same in \<open>auto simp: tally_refl\<close>)
  moreover have "wp (EnqueueDueRetries E k) (\<lambda>_. delivery_ok E m) (\<lambda>_. delivery_ok E m) w"
    by (rule wp_mono[OF Enqueue_path[OF assms]]) auto
  ultimately show ?thesis by (simp add: wp_conj)
qed

lemma exec_tally:
  assumes "delivery_ok E (attempts_bound n) w"
  shows "owp (delivery_exec_observed E log (notification_process E cfg n ds) dop)
    (\<lambda>_ w' os. delivery_ok E (attempts_bound n) w' \<and> tally True (w_db w) (w_db w') (counted os))
    (\<lambda>_ w' os. delivery_ok E (attempts_bound n) w' \<and> tally False (w_db w) (w_db w') (counted os)) w"
proof (cases dop)
  case (OpNotify v)
  then show ?thesis
    using Process_tally[OF assms, of log cfg ds] assms
    by (auto simp: delivery_exec_observed_def notification_handler_observed_def owp_simps wp_simps tally_refl split: sum.split)
next
  case (OpRequeue k)
  then show ?thesis
    by (simp add: delivery_exec_observed_def owp_simps wp_simps)
      (rule wp_mono[OF Enqueue_tally[OF assms]]; auto intro: tally_exact)
qed

lemma history_tally:
  "delivery_ok E (attempts_bound n) w \<Longrightarrow>
   owp (observed_history E log (notification_process E cfg n ds) ops)
     (\<lambda>rs w' os. tally (\<forall>r \<in> set rs. r = Inr ()) (w_db w) (w_db w') (counted os)) (\<lambda>_ _ _. False) w"
proof (induction ops arbitrary: w)
  case Nil
  then show ?case by (simp add: owp_simps wp_simps tally_refl)
next
  case (Cons x ops)
  obtain t dop where x: "x = (t, dop)" by (cases x)
  let ?w = "w\<lparr>w_app_now := fst t, w_pg_now := snd t\<rparr>" and ?s = "notification_process E cfg n ds"
  have ok: "delivery_ok E (attempts_bound n) ?w" using Cons.prems by (simp add: delivery_ok_def)
  have rest: "owp (observed_history E log ?s ops)
      (\<lambda>rs w' os'. tally (b \<and> (\<forall>r \<in> set rs. r = Inr ())) (w_db w) (w_db w') (counted os @ counted os')) (\<lambda>_ _ _. False) w1"
    if "delivery_ok E (attempts_bound n) w1" "tally b (w_db w) (w_db w1) (counted os)" for w1 b os
    by (rule owp_mono[OF Cons.IH[OF that(1)]]) (use tally_append[OF that(2)] in auto)
  show ?case
    unfolding x observed_history.simps
    by (simp add: owp_simps wp_simps)
      (rule owp_mono[OF exec_tally[OF ok]]; use rest[of _ True] rest[of _ False] in auto)
qed

text \<open>
  C31. The counters of the deliveries against their table: over any history of commands and retry batches,
  with any failures, no more deliveries are counted sent, or dead, than have become so in the table,
  and every failure counted retried or dead is also counted failed; when every operation of the
  history succeeds, the three agree exactly.
\<close>

theorem delivery_counters_tally:
  assumes "delivery_ok E (attempts_bound n) w"
    and "observed_history E log (notification_process E cfg n ds) ops w = ((r, w'), os)"
  shows "\<exists>rs. r = Inr rs \<and> (let count = count_list (counted os) in
    sent_deliveries (w_db w) + count NotificationsSent \<le> sent_deliveries (w_db w') \<and>
    dead_deliveries (w_db w) + count NotificationsDead \<le> dead_deliveries (w_db w') \<and>
    count NotificationsRetried + count NotificationsDead \<le> count NotificationsFailed \<and>
    (set rs \<subseteq> {Inr ()} \<longrightarrow>
       sent_deliveries (w_db w) + count NotificationsSent = sent_deliveries (w_db w') \<and>
       dead_deliveries (w_db w) + count NotificationsDead = dead_deliveries (w_db w') \<and>
       count NotificationsRetried + count NotificationsDead = count NotificationsFailed))"
proof (cases r)
  case (Inl e)
  then show ?thesis using owp_errD[OF _ history_tally[OF assms(1), of log cfg ds ops]] assms(2) by blast
next
  case (Inr rs)
  then have "tally (\<forall>r \<in> set rs. r = Inr ()) (w_db w) (w_db w') (counted os)"
    using owp_okD[OF _ history_tally[OF assms(1), of log cfg ds ops]] assms(2) by blast
  then show ?thesis using Inr unfolding tally_def Let_def by blast
qed

text \<open>
  A delivery whose dead letter was lost is not counted dead either: when a command gives its
  delivery up and still fails, neither that run nor the next one of the same command counts it.
\<close>

theorem lost_dead_letter_uncounted:
  assumes "delivery_ok E (attempts_bound n) w"
    and "Process_observed log (notification_process E cfg n ds) p w = ((Inl e, w1), os1)"
    and "abs_table (w_db w1) (np_IdempotencyKey p) = GivenUp a"
    and "Process_observed log (notification_process E cfg n ds) p w1 = ((r, w2), os2)"
  shows "NotificationsDead \<notin> set (counted (os1 @ os2))"
proof -
  note counts = mailer.Process_counts[OF delivery_ok_notifying]
  from owp_errD[OF assms(2) counts[OF assms(1)]] have "counted os1 \<in> {[], [NotificationsFailed]}" by blast
  moreover from owp_errD[OF assms(2) Process_tally[OF assms(1)]] have "delivery_ok E (attempts_bound n) w1" by blast
  then have "owp (Process_observed log (notification_process E cfg n ds) p) (\<lambda>_ _ os. counted os = []) (\<lambda>_ _ os. counted os = []) w1"
    by (rule owp_mono[OF counts]) (use assms(3) in \<open>auto simp: told_def\<close>)
  from owp_bothD[OF assms(4) this] have "counted os2 = []" .
  ultimately show ?thesis by auto
qed

end
