(* ===== verification/Observability.thy ===== *)
theory Observability
  imports Http_Api Relay
begin

text \<open>
  What operators see: the gauges of \<open>pkg/outbox/metrics.go\<close> and the access log of
  \<open>httpapi/access.go\<close>.  Prometheus and logrus are third-party; a metric is the value handed to the
  first and a log entry the fields handed to the second.
\<close>

section \<open>The gauges of the outbox\<close>

record outbox_gauges =
  og_pending :: nat
  og_failed :: nat
  og_attempts :: int

definition is_pending :: "outbox_event \<Rightarrow> bool" where
  "is_pending e = (ob_PublishedAt e = None)"

definition sql_outbox_gauges :: "('d outbox_db_scheme, outbox_gauges) sql" where
  "sql_outbox_gauges d now =
     Inr (\<lparr>og_pending = affected is_pending (outbox_events d),
           og_failed = affected (\<lambda>e. is_pending e \<and> ob_LastError e \<noteq> None) (outbox_events d),
           og_attempts = sum_list (map ob_PublishAttempts (filter is_pending (outbox_events d)))\<rparr>, d)"

datatype metric = Gauge string int string | Invalid_Metric string goerr

definition Collect :: "string \<Rightarrow> ('d outbox_db_scheme, wire, metric list) go" where
  "Collect service =
     bnd (attempt (pool_stmt sql_outbox_gauges)) (\<lambda>r.
       case r of
         Inl err \<Rightarrow> ret [Invalid_Metric ''subber_outbox_pending'' err]
       | Inr g \<Rightarrow> ret [Gauge ''subber_outbox_pending'' (int (og_pending g)) service,
           Gauge ''subber_outbox_failed'' (int (og_failed g)) service,
           Gauge ''subber_outbox_publish_attempts'' (og_attempts g) service])"

text \<open>
  Collecting changes nothing, and what it reports is right: the events not yet published, of which
  those with an error are a part, and none exactly when the relay has nothing left to send.
\<close>

theorem gauges_are_exact:
  fixes w :: "('d outbox_db_scheme, wire) world"
  shows "\<exists>ms w'. Collect service w = (Inr ms, w') \<and> w_db w' = w_db w \<and> w_trace w' = w_trace w \<and>
    ((\<exists>e. ms = [Invalid_Metric ''subber_outbox_pending'' e]) \<or>
     (\<exists>pending failed attempts. ms = [Gauge ''subber_outbox_pending'' (int pending) service,
         Gauge ''subber_outbox_failed'' (int failed) service, Gauge ''subber_outbox_publish_attempts'' attempts service] \<and>
       failed \<le> pending \<and> pending \<le> length (outbox_events (w_db w)) \<and>
       (pending = 0) = (\<forall>core \<in> set (db_cores (w_db w)). snd (snd core))))"
proof -
  let ?rows = "outbox_events (w_db w)"
  have "affected (\<lambda>e. is_pending e \<and> ob_LastError e \<noteq> None) rows \<le> affected is_pending rows" for rows
    by (induction rows) (auto simp: affected_def)
  moreover have "affected is_pending ?rows \<le> length ?rows" by (simp add: affected_def)
  moreover have "(affected is_pending ?rows = 0) = (\<forall>core \<in> set (db_cores (w_db w)). snd (snd core))"
    by (auto simp: affected_zero is_pending_def db_cores_def core_def)
  ultimately have "wp (Collect service) (\<lambda>ms w'. w_db w' = w_db w \<and> w_trace w' = w_trace w \<and>
    ((\<exists>e. ms = [Invalid_Metric ''subber_outbox_pending'' e]) \<or>
     (\<exists>pending failed attempts. ms = [Gauge ''subber_outbox_pending'' (int pending) service,
         Gauge ''subber_outbox_failed'' (int failed) service, Gauge ''subber_outbox_publish_attempts'' attempts service] \<and>
       failed \<le> pending \<and> pending \<le> length ?rows \<and>
       (pending = 0) = (\<forall>core \<in> set (db_cores (w_db w)). snd (snd core))))) (\<lambda>_ _. False) w"
    by (auto simp: Collect_def wp_simps sql_outbox_gauges_def split: call_outcome.splits)
  from wp_returns[OF this] show ?thesis by blast
qed

section \<open>The access log\<close>

record access_entry =
  ae_Method :: string
  ae_Route :: string
  ae_Status :: int
  ae_Duration :: int
  ae_RequestID :: "string option"

text \<open>
  The middleware around a handler; \<open>path\<close> is the path of the URL.  The entry has the labels of the
  counter and of the histogram too.
\<close>

definition accessMiddleware ::
    "(request \<Rightarrow> string) \<Rightarrow> 'db api_handler \<Rightarrow> string option \<Rightarrow> request \<Rightarrow> ('db, wire, response \<times> access_entry option) go" where
  "accessMiddleware path next_h rid rq =
     (if path rq \<noteq> ''/api'' \<and> take 5 (path rq) \<noteq> ''/api/''
      then bnd (next_h rid rq) (\<lambda>rp. ret (rp, None))
      else bnd app_clock (\<lambda>started.
           bnd (next_h rid rq) (\<lambda>rp.
           bnd app_clock (\<lambda>now.
             let route = (if rq_FullPath rq = '''' then ''unmatched'' else rq_FullPath rq)
             in ret (rp, Some \<lparr>ae_Method = rq_Method rq, ae_Route = route, ae_Status = ht_Status rp, ae_Duration = now - started,
                  ae_RequestID = rid\<rparr>)))))"

text \<open>
  The access log is transparent: the answer and every effect are those of the handler, and a request below
  the path of the API is logged once, with the status it was answered with and the identifier
  it carries.
\<close>

theorem access_log_is_transparent:
  "(case accessMiddleware path h rid rq w of (r, w') \<Rightarrow> (case r of Inl e \<Rightarrow> Inl e | Inr (rp, entry) \<Rightarrow> Inr rp, w')) = h rid rq w \<and>
   (case accessMiddleware path h rid rq w of
      (Inl e, w') \<Rightarrow> True
    | (Inr (rp, None), w') \<Rightarrow> path rq \<noteq> ''/api'' \<and> take 5 (path rq) \<noteq> ''/api/''
    | (Inr (rp, Some entry), w') \<Rightarrow> (path rq = ''/api'' \<or> take 5 (path rq) = ''/api/'') \<and>
        ae_Status entry = ht_Status rp \<and> ae_RequestID entry = rid)"
  by (cases "h rid rq w"; cases "fst (h rid rq w)")
    (auto simp: accessMiddleware_def bnd_def ret_def app_clock_def Let_def)

end
