(* ===== verification/Metrics.thy ===== *)
theory Metrics
  imports Delivery_Counters Http_Api Observability
begin

text \<open>
  The rest of what Prometheus sees: the counter of the subscribe requests (\<open>observeSubscribe\<close> in
  \<open>httpapi/router.go\<close>), the gauge of a consumer's lag, and the names of all metrics, compared with
  those that the alerts of \<open>deployments/docker/prometheus/alerts.yml\<close> ask for.
\<close>

section \<open>Subscribe requests\<close>

text \<open>\<open>counting\<close> says whether the handler was given a counter.\<close>

definition observeSubscribe :: "bool \<Rightarrow> string \<Rightarrow> 'e observation list" where
  "observeSubscribe counting result = (if counting then [Inc (SubscribeRequests result)] else [])"

definition observed_problem ::
    "bool \<Rightarrow> string \<Rightarrow> 'e observation list \<Rightarrow> int \<Rightarrow> string \<Rightarrow> ('e, 'db, wire, response) observed" where
  "observed_problem counting result os status text =
     obnd (observe (observeSubscribe counting result @ os)) (\<lambda>_. plain (problem status text))"

definition handle_subscribe_observed ::
    "'e logger \<Rightarrow> bool \<Rightarrow> 'db router_deps \<Rightarrow> string option \<Rightarrow> request \<Rightarrow> ('e, 'db, wire, response) observed" where
  "handle_subscribe_observed log counting h rid rq =
     (case bind_subscription (rq_Body rq) of
        Inl _ \<Rightarrow> observed_problem counting ''invalid_json'' [] 400 ''Invalid JSON''
      | Inr input \<Rightarrow>
          if \<not> matches emailPattern (su_Email input)
          then observed_problem counting ''invalid_email'' [] 400 ''Invalid email''
          else if \<not> matches repoPattern (su_Repo input)
          then observed_problem counting ''invalid_repo'' [] 400 ''Invalid repository format''
          else obnd (plain (attempt (rd_Subscribe h rid (su_Email input) (su_Repo input)))) (\<lambda>r.
            case r of
              Inr _ \<Rightarrow> obnd (observe (observeSubscribe counting ''success'')) (\<lambda>_.
                plain (respond 200 (JObj [(''success'', JStr ''Subscription successful. Confirmation email sent.'')])))
            | Inl err \<Rightarrow>
                if errors_is err ErrAlreadySubscribed
                then observed_problem counting ''already_subscribed'' [] 409 ''Email already subscribed to this repository''
                else if errors_is err ErrRepoNotFound
                then observed_problem counting ''repo_not_found'' [] 404 ''Repository not found on GitHub''
                else if errors_is err ErrGitHubRateLimit
                then observed_problem counting ''github_rate_limit'' [] 429 ''GitHub API rate limit exceeded. Try again later.''
                else if errors_is err ErrGitHubUnavailable
                then observed_problem counting ''github_unavailable'' [] 502 ''External API error''
                else if errors_is err ErrConfirmationUnavailable
                then observed_problem counting ''confirmation_unavailable'' [] 503
                  ''Service temporarily unavailable. Try again later.''
                else observed_problem counting ''error''
                  (log_lines Error (WithError (WithField log ''repo'' (Text (su_Repo input))) err) ''subscribe failed'')
                  500 ''Internal server error''))"

lemma erase_observed_problem [erase_simps]: "erase (observed_problem counting result os status text) = problem status text"
  by (simp add: observed_problem_def erase_simps)

lemma erase_handle_subscribe [erase_simps]:
  "erase (handle_subscribe_observed log counting h rid rq) = handle_subscribe h rid rq"
  by (simp add: handle_subscribe_observed_def handle_subscribe_def subscribe_problem_def erase_simps
      if_distrib[of "case_prod problem"] cong: if_cong sum.case_cong)

text \<open>The status that the router answers with the result it counts.\<close>

definition result_status :: "string \<Rightarrow> int option" where
  "result_status = map_of
     [(''invalid_json'', 400), (''invalid_email'', 400), (''invalid_repo'', 400), (''success'', 200),
      (''already_subscribed'', 409), (''repo_not_found'', 404), (''github_rate_limit'', 429),
      (''github_unavailable'', 502), (''confirmation_unavailable'', 503), (''error'', 500)]"

lemma owp_observed_problem [owp_simps]:
  "owp (observed_problem counting result os status text) Q R w =
     Q \<lparr>ht_Status = status, ht_JSON = JObj [(''error'', JStr text)]\<rparr> w (observeSubscribe counting result @ os)"
  by (simp add: observed_problem_def problem_def respond_def owp_simps wp_simps)

text \<open>
  Every subscribe request is answered and counted exactly once, and the result it is counted
  under determines the status of the answer; only an internal error is logged.
\<close>

theorem subscribe_requests_counted:
  assumes "handle_subscribe_observed log True h rid rq w = ((r, w'), os)"
  shows "\<exists>rp result. r = Inr rp \<and> counted os = [SubscribeRequests result] \<and>
    result_status result = Some (ht_Status rp) \<and> (ht_Status rp \<noteq> 500 \<longrightarrow> length os = 1)"
proof -
  have told: "result_status ''invalid_json'' = Some 400" "result_status ''invalid_email'' = Some 400"
    "result_status ''invalid_repo'' = Some 400" "result_status ''success'' = Some 200"
    "result_status ''already_subscribed'' = Some 409" "result_status ''repo_not_found'' = Some 404"
    "result_status ''github_rate_limit'' = Some 429" "result_status ''github_unavailable'' = Some 502"
    "result_status ''confirmation_unavailable'' = Some 503" "result_status ''error'' = Some 500"
    by (simp_all add: result_status_def)
  have any: "wp m (\<lambda>_ _. True) (\<lambda>_ _. True) w" for m :: "('a, wire, unit) go" and w
    by (simp add: wp_def split: sum.splits prod.splits)
  have "owp (handle_subscribe_observed log True h rid rq)
      (\<lambda>rp _ os. \<exists>result. counted os = [SubscribeRequests result] \<and> result_status result = Some (ht_Status rp) \<and>
         (ht_Status rp \<noteq> 500 \<longrightarrow> length os = 1)) (\<lambda>_ _ _. False) w"
    by (auto simp: handle_subscribe_observed_def owp_simps wp_simps respond_def observeSubscribe_def told
        intro!: wp_mono[OF any] split: sum.split)
  then show ?thesis using assms by (auto simp: owp_def split: sum.splits)
qed

section \<open>The lag of a consumer\<close>

text \<open>
  The reader is nil, or has statistics or has none; the receiver of \<open>Lag\<close> may be nil too.
\<close>

datatype reader = NilReader | PlainReader | StatsReader int

definition Lag :: "reader option \<Rightarrow> int" where
  "Lag c =
     (case c of
        None \<Rightarrow> 0
      | Some reader \<Rightarrow> (case reader of NilReader \<Rightarrow> 0 | PlainReader \<Rightarrow> 0 | StatsReader lag \<Rightarrow> lag))"

text \<open>A gauge as it is shown: its name, its labels and its value.\<close>

definition NewConsumerLagGauge :: "string \<Rightarrow> string \<Rightarrow> reader option \<Rightarrow> string \<times> (string \<times> string) list \<times> int" where
  "NewConsumerLagGauge service topic c =
     (''subber_kafka_consumer_lag'', [(''service'', service), (''topic'', topic)], Lag c)"

section \<open>Names\<close>

text \<open>
  Two alerts ask for a metric that nothing exports: no counter has the name that the alert on dead
  deliveries asks for, and no metric of the outbox the one that the alert on its backlog asks for.
\<close>

theorem alerts_without_metric:
  "counter_name c \<noteq> ''subber_notification_dead_total''"
  "Collect service w = (Inr ms, w') \<Longrightarrow> Gauge ''subber_outbox_backlog'' v l \<notin> set ms"
proof -
  show "counter_name c \<noteq> ''subber_notification_dead_total''" by (cases c) simp_all
  have "wp (Collect service) (\<lambda>ms _. Gauge ''subber_outbox_backlog'' v l \<notin> set ms) (\<lambda>_ _. True) w"
    by (auto simp: Collect_def wp_simps split: call_outcome.splits sum.splits)
  then show "Collect service w = (Inr ms, w') \<Longrightarrow> Gauge ''subber_outbox_backlog'' v l \<notin> set ms"
    using wp_okD by fastforce
qed

end
