(* ===== verification/Counters_Witnesses.thy ===== *)
theory Counters_Witnesses
  imports Metrics Delivery_Witnesses
begin

text \<open>Concrete runs of the observed notification service, at which the hypotheses of its properties hold.\<close>

text \<open>One command on an empty table, with nothing failing: it is sent and counted sent.\<close>

lemma demo_Process_observed:
  "Process_observed (NoopLogger :: unit logger) demo_mailer demo_payload (calm_world (delivery_tables []) 5) =
     ((Inr (), (calm_world (delivery_tables [sent_row 5 (pending_row demo_payload 5)]) 5)
        \<lparr>w_trace := [mail_of demo_smtp ''a@b.co'' ''New release'']\<rparr>), [Inc NotificationsSent])"
proof -
  have "one_line (senderAddress demo_smtp)" "one_line ''a@b.co''"
    by (simp_all add: one_line_def senderAddress_def demo_smtp_def)
  then show ?thesis
    unfolding Process_observed_def process_sel repository_sel
    by (simp add: inc_def log_at_def UpsertPending_def MarkSent_def
        exec_simps sql_upsert_pending_def sql_update_delivery_def SMTP_Send_def SendMail_def
        delivery_tables_def pending_row_def demo_payload_def mail_of_def)
qed

abbreviation demo_observed :: "(unit, delivery_db) observed_handler" where
  "demo_observed \<equiv> notification_handler_observed demo_env NoopLogger demo_mailer"

lemma demo_handler_observed:
  "demo_observed k demo_value (calm_world (delivery_tables []) 5) =
     ((Inr (), (calm_world (delivery_tables [sent_row 5 (pending_row demo_payload 5)]) 5)
        \<lparr>w_trace := [mail_of demo_smtp ''a@b.co'' ''New release'']\<rparr>), [Inc NotificationsSent])"
  by (simp add: notification_handler_observed_def decode_demo_value demo_Process_observed)

lemma demo_clocks: "(calm_world d 5)\<lparr>w_app_now := 5, w_pg_now := 5\<rparr> = calm_world d 5"
  by (simp add: calm_world_def)

lemma demo_empty_ok: "delivery_ok demo_env (attempts_bound 3) (calm_world (delivery_tables []) 5)"
  by (rule demo_tables_ok) simp_all

theorem delivery_counters_tally_witness:
  "let run = observed_history demo_env (NoopLogger :: unit logger) demo_mailer [((5, 5), OpNotify demo_value)]
       (calm_world (delivery_tables []) 5)
   in counted (snd run) = [NotificationsSent] \<and>
      sent_deliveries (w_db (snd (fst run))) = sent_deliveries (delivery_tables []) + 1"
proof -
  let ?w = "calm_world (delivery_tables []) 5 :: (delivery_db, wire) world"
  let ?run = "observed_history demo_env (NoopLogger :: unit logger) demo_mailer [((5, 5), OpNotify demo_value)] ?w"
  have run: "fst (fst ?run) = Inr [Inr ()]" "counted (snd ?run) = [NotificationsSent]"
    by (simp_all add: exec_simps at_clocks_def demo_clocks obnd_def oattempt_def delivery_exec_observed_def demo_handler_observed)
  obtain r w' os where "?run = ((r, w'), os)" by (metis surj_pair)
  with delivery_counters_tally[OF demo_empty_ok this] run show ?thesis by (auto simp: Let_def)
qed

theorem consumer_counters_account_witness:
  "let run = consume_observed demo_env NoopLogger notificationConsumer demo_observed (turns [((5, 5), False)] demo_notifications)
       (calm_world (delivery_tables []) 5)
   in consumer_counts (snd run) = [ConsumerProcessed ''notification-service'' TopicNotificationCommands] \<and>
      notification_handled demo_env demo_value (w_db (snd (fst run))) \<and>
      commits (w_trace (snd (fst run))) = map commit_of demo_notifications"
proof -
  let ?w = "calm_world (delivery_tables []) 5 :: (delivery_db, wire) world"
  let ?arr = "turns [((5, 5), False)] demo_notifications" and ?c = "notificationConsumer :: delivery_db consumer"
  let ?run = "consume_observed demo_env NoopLogger ?c demo_observed ?arr ?w"
  obtain m where m: "demo_notifications = [m]" "km_Value m = demo_value" "messageTopic ?c m = TopicNotificationCommands"
    by (simp add: demo_notifications_def messageTopic_def topic_defs)
  have arr: "?arr = [Arrived (5, 5) m False]" and group: "co_groupID ?c = ''notification-service''"
    by (simp_all add: turns_def m notificationConsumer_def WithDeadLetter_def newConsumer_def)
  have run: "fst (fst ?run) = Inr Waiting"
    "consumer_counts (snd ?run) = [ConsumerProcessed ''notification-service'' TopicNotificationCommands]"
    unfolding arr
    by (simp_all add: exec_simps at_clocks_def demo_clocks obnd_def oattempt_def on_error_def demo_handler_observed
        CommitMessages_def m group Let_def observeProcessed_def consumer_counts_def)
  obtain r w' os where res: "?run = ((r, w'), os)" by (metis surj_pair)
  have "r = Inr Waiting" "consumer_counts os = [ConsumerProcessed ''notification-service'' TopicNotificationCommands]"
    using run unfolding res by simp_all
  with consumer_counters_account[OF refl demo_empty_ok res] obtain k where k: "k \<le> 1"
    "list_all2 (\<lambda>m x. x = ConsumerProcessed ''notification-service'' (messageTopic ?c m) \<and>
        notification_handled demo_env (km_Value m) (w_db w') \<or>
        x = ConsumerSkipped ''notification-service'' (messageTopic ?c m) \<and> notification_rejects demo_env (km_Value m) \<and>
          dead_lettered demo_env ?c m (w_trace w')) (take k [m]) [ConsumerProcessed ''notification-service'' TopicNotificationCommands]"
    "commits (w_trace w') = map commit_of (take k [m])"
    by (auto simp: arr)
  then have "k = 1" by (cases k) auto
  then show ?thesis
    using k run unfolding Let_def res by (simp add: m)
qed

end
