(* ===== verification/Spec2Isabelle.thy ===== *)
theory Spec2Isabelle
  imports Relay System_Witnesses Lifecycle Subscription_Serial Counters_Witnesses
begin

text \<open>
  A model of the GitHub release notification system of this repository: users subscribe by e-mail to
  the releases of a GitHub repository, confirm by a link, and get a mail for every new release.

  The parts and how they interact.  The subscription API (\<open>services/subscription-api\<close>) keeps the table
  of subscriptions.  A first confirmation and a last unsubscription put a request into its outbox;
  the saga orchestrator (\<open>cmd/saga-orchestrator\<close>) makes a saga of it and sends a watchlist command, again and
  again until it is acknowledged or its deadline passes; the scanner (\<open>services/scanner-service\<close>) applies
  the command to its watchlist and acknowledges it.  The scanner asks GitHub, through a Redis cache, for the
  latest release of each watched repository that is due and puts one event per new tag into its outbox; the API
  expands the event into one notification per confirmed subscriber; the notification service
  (\<open>services/notification-service\<close>) sends the mails, with retries and dead letters.  Every service writes
  its messages into the table \<open>outbox_events\<close> in the transaction of the change they belong to; a relay
  (\<open>cmd/outbox-relay\<close>) publishes them to Kafka.

  The layers of the model.
  \<^item> \<open>Prelude\<close>: tables as lists of rows with keyed updates, the order of an SQL query, lemmas on lists.
  \<^item> \<open>Go_Error\<close>, \<open>Go_World\<close>: error values with \<open>errors.Is\<close> and \<open>errors.As\<close>, and the execution layer: a Go function
    that performs calls is a function of a \<open>world\<close> (the database, the open transaction, the outcomes of the
    calls to come, the clocks of the program and of the database, the supply of UUIDs, the trace of effects) that
    returns an error or a value, and the next world.
  \<^item> \<open>Go_Logic\<close>, \<open>Tx_Logic\<close>: weakest preconditions for such functions, and for bodies of transactions
    (\<open>tx_wp\<close>, \<open>in_tx\<close>); the collection \<open>wp_simps\<close> and the rules of these theories carry the proofs above them.
  \<^item> \<open>Contracts\<close>, \<open>Codec\<close> (\<open>pkg/contracts/events.go\<close>): the messages and their JSON form; \<open>Strconv\<close>, \<open>Patterns\<close>,
    \<open>Hashing\<close>: the functions of Go's standard library, the regular expressions and SHA-256 (on 32-bit words) as far
    as the program uses them, with \<open>internal/hash\<close>.

  The components.
  \<^item> \<open>Outbox\<close>, \<open>Relay\<close> (\<open>pkg/outbox\<close>, \<open>pkg/kafka/producer.go\<close>), \<open>Consumer\<close> (\<open>pkg/kafka/consumer.go\<close>, \<open>errors.go\<close>), and
    \<open>Observability\<close> (the gauges of the outbox, the access log of the API).
  \<^item> \<open>Observed\<close> (\<open>pkg/logger/logger.go\<close> and the counters), \<open>Consumer_Counters\<close> (\<open>pkg/kafka/metrics.go\<close>),
    \<open>Delivery_Counters\<close> (\<open>delivery/metrics.go\<close>), \<open>Metrics\<close>, \<open>Counters_Witnesses\<close>: the consumer loop, the delivery
    service and the subscribe handler once more, with what they count and log; \<open>erase\<close> takes them back to
    the functions above, so that nothing the other theories prove depends on counters or logs.
  \<^item> \<open>Watch_Saga\<close> (\<open>internal/watchsaga\<close>), with \<open>Saga_Properties\<close>, \<open>Saga_Consumers\<close>, \<open>Saga_Witnesses\<close>.
  \<^item> \<open>Release_Provider\<close>, \<open>Scanner\<close> (\<open>scanner-service/internal\<close>), with \<open>Scanner_Properties\<close>, \<open>Scanner_Results\<close>,
    \<open>Scanner_Consumer\<close>, \<open>Scanner_Scan\<close>, \<open>Scanner_Witnesses\<close>.
  \<^item> \<open>Delivery\<close>, \<open>Delivery_Api\<close> (\<open>notification-service/internal\<close>), with \<open>Delivery_Worker\<close>, \<open>Delivery_Properties\<close>,
    \<open>Delivery_Retries\<close>, \<open>Delivery_Results\<close>, \<open>Delivery_Guarantees\<close>, \<open>Delivery_Mail\<close>, \<open>Delivery_Witnesses\<close>.
  \<^item> \<open>Subscription\<close>, \<open>Notifications\<close> (\<open>subscription-api/internal/subscription\<close>), with \<open>Subscription_Store\<close>,
    \<open>Subscriber_Store\<close>, \<open>Subscription_Properties\<close>, \<open>Release_Expansion\<close>, \<open>Subscription_Watch\<close>, \<open>Subscription_Results\<close>,
    \<open>Release_Results\<close>, \<open>Subscription_Races\<close>, \<open>Subscription_Serial\<close>, \<open>Subscription_Witnesses\<close>.
  \<^item> \<open>Http_Api\<close>, \<open>Http_Results\<close> (\<open>subscription-api/internal/httpapi\<close>, \<open>pkg/requestid\<close>).
  \<^item> \<open>Migrations\<close> (\<open>pkg/migrations\<close> and the \<open>dbmigrations\<close> packages), \<open>Configuration\<close> (\<open>pkg/env\<close>, \<open>pkg/config\<close>,
    \<open>internal/config\<close>, \<open>pkg/postgres\<close>), \<open>Log_Hook\<close> (\<open>pkg/logger/setup.go\<close>), \<open>Processes\<close> (the \<open>main.go\<close> files: how
    a process starts) and \<open>Lifecycle\<close> (how it ends, with \<open>pkg/metrics\<close>).
  \<^item> \<open>Delivery_Doors\<close>, \<open>System\<close>, \<open>System_Witnesses\<close>, \<open>Deployment\<close>: the services together.

  Names.  A function, a type or a column keeps the name it has in the source; the fields of a record have
  a prefix of their own, a clash is resolved by a suffix, and \<open>sql_*\<close> is the effect of one SQL statement on the
  tables, an update together with the number of rows it reports.

  What the groups of lemmas show.
  \<^item> Refinement: whatever fails, the operations of the saga, of a delivery and of a subscription move their rows
    along the abstract machines \<open>saga_step\<close>, \<open>delivery_step\<close> and \<open>watch_step\<close>, at most one step each of the
    saga and of the watching of one repository for each operation, and keep the tables well-formed
    (\<open>orchestrator_refines_saga\<close>, \<open>delivery_refines_machine\<close>, \<open>subscriptions_refine_watch\<close>); restarted
    migrations leave what one undisturbed run leaves (\<open>migrations_run_once\<close>).
  \<^item> No message is lost between two services: \<open>relay_loses_nothing\<close> and, for each consumer, \<open>committed_*\<close>: over any
    sessions with failures and restarts the committed part of the log has had its effect.  Relays share an outbox
    through the leases of their fetches (\<open>fetch_leases_are_exclusive\<close>), and a tick without failures drains it
    (\<open>relay_batch_delivers\<close>).
  \<^item> Chains: \<open>watch_saga_closes\<close>, \<open>release_reaches_mailboxes\<close>, \<open>confirmation_is_mailed\<close>, \<open>transports_agree\<close>,
    \<open>transport_doors\<close>.
  \<^item> Counting and bounds: \<open>one_command_per_attempt\<close>, \<open>releases_announced_once\<close>, \<open>saga_attempts_bounded\<close>,
    \<open>delivery_attempts_bounded\<close>, \<open>release_notifies_each_once\<close>; \<open>consumer_counters_account\<close> and
    \<open>delivery_counters_tally\<close> compare the counters with the offsets and the table.
  \<^item> Concurrency: \<open>log_entries_in_order\<close> and \<open>closed_hook_drains\<close> for the goroutines of the log hook,
    \<open>notification_service_ends_as_one\<close> for those of a process; for the sessions of the API,
    \<open>races_keep_the_table\<close> and, of the requests, \<open>races_break_watching\<close>.
  \<^item> Weaknesses: \<open>dead_letter_can_be_lost\<close>, \<open>confirmed_without_watch\<close>, \<open>racing_subscriber_gets_dead_link\<close>,
    \<open>races_break_watching\<close>, \<open>grpc_retries_are_unread\<close>, \<open>lost_dead_letter_uncounted\<close>,
    \<open>alerts_without_metric\<close>.

  The locales state what a component relies on, and are interpreted on the models of the providers:
  \<open>message_publisher\<close> and \<open>outbox_relay\<close> (the interfaces \<open>Publisher\<close> and \<open>Store\<close> of the relay), \<open>consumer_loop\<close> (a handler
  and the effect that its success guarantees, for all five consumers), \<open>observed_loop\<close>, which extends it (what the handler
  counts), \<open>release_log\<close> (the repository and the
  providers of the scanner), \<open>delivery_worker\<close> (the store, the mail sender and the dead-letter publisher of the delivery
  service), \<open>subscriber_store\<close> and \<open>subscription_desk\<close> (the repository, the notifier and GitHub for the
  subscription service) and \<open>release_announcer\<close> (the store and the publisher of the release expander; both publishers
  are interpretations).

  Conventions and bounds.
  \<^item> A call has one of three outcomes: it succeeds, it fails without effect, or its effect happens and the reply
    is lost.  A theorem over all worlds covers every pattern of them.  The column type UUID refuses other texts with an
    error of the call.  A crash between two operations is a new session on the same database; a failed
    commit covers a crash within one.
  \<^item> The transactions of a service run one after the other, but for \<open>Subscription_Races\<close> and \<open>Subscription_Serial\<close>, where the
    sessions interleave between statements at the isolation level read committed.  The rows that another session holds
    under \<open>SKIP LOCKED\<close> are an argument of the model.
  \<^item> Instants and durations are integers in nanoseconds, in the tables too, where PostgreSQL keeps microseconds; a
    UUID is the text in which it is written, so texts for one UUID in another form are other texts.  The clocks move arbitrarily between operations.  Strings are
    lists of bytes in UTF-8.  Go's \<open>int\<close> is an integer without a bound: the counters it holds here are
    attempts, batch sizes and statuses, which stay below the bounds that are proved.
  \<^item> A saga is retried every minute for a day, which is the bound of 1440 attempts.  The lock of the log hook prefers a waiting
    writer to new readers, as Go's does.  A log hook whose channel is
    closed ends after at most \<open>5 * n + 5\<close> steps of its publisher for a buffer of \<open>n\<close> entries.  A consumer runs over the finite list
    of what its reader delivers in a session, a ticker over the list of its ticks; both are arbitrary.
  \<^item> The relay publishes the payload as it stands; what the consumer decodes is the encoded value (\<open>envelope_round_trip\<close>).

  Not modelled.  The log lines of the other components, which only report; the registration of the counters and
  gauges; the generated gRPC stubs (\<open>pkg/gen\<close>); the closing of connections when a process has ended.
  PostgreSQL, Redis, Kafka, the error group, GitHub, gin, logrus, the mail server, the request validator and the rounding of
  fractions in durations are arguments or outcomes of calls, with what the code relies on as hypotheses.
\<close>

end
